(* ===== verification/Prelude.thy ===== *)
theory Prelude
  imports Main "HOL-Library.Word" "HOL-Library.List_Lexorder"
begin

text \<open>
  Shared vocabulary of the development.  It holds the machine integers of the Rust sources, the
  \<open>Result\<close> type and the \<open>?\<close> operator, panics as values, the checked operations of \<open>u64\<close>, the
  textual form of unsigned integers (\<open>to_string\<close>, \<open>parse\<close>), and the lemmas about them that the
  component theories use through the collections \<open>result_simps\<close>, \<open>word_facts\<close> and \<open>text_simps\<close>.
\<close>

section \<open>Machine integers and byte strings\<close>

type_synonym u8 = "8 word"
type_synonym u16 = "16 word"
type_synonym u32 = "32 word"
type_synonym u64 = "64 word"
type_synonym u128 = "128 word"

text \<open>
  \<open>i64\<close> is the same 64-bit word read in two's complement: comparisons of Rust's \<open>i64\<close> are the
  signed comparisons \<open>\<le>s\<close> and \<open><s\<close>, and addition wraps as it does in a release build.
\<close>

type_synonym i64 = "64 word"
type_synonym bytes = "8 word list"

text \<open>\<open>[u8; 32]\<close>, \<open>[u8; 33]\<close> and \<open>[u8; 64]\<close> are byte lists; the lengths are hypotheses where they matter.\<close>

type_synonym H256 = bytes
type_synonym H264 = bytes
type_synonym H512 = bytes

named_theorems result_simps "elimination of the question-mark operator and of expect"
named_theorems word_facts "readings of checked word arithmetic as natural numbers"
named_theorems text_simps "decimal text of unsigned integers"

section \<open>Results, early returns and panics\<close>

abbreviation Ok :: "'a \<Rightarrow> 'e + 'a" where "Ok \<equiv> Inr"
abbreviation Err :: "'e \<Rightarrow> 'e + 'a" where "Err \<equiv> Inl"

text \<open>The operator \<open>?\<close>: an error leaves the function, a value is passed on.\<close>

fun try_bind :: "'e + 'a \<Rightarrow> ('a \<Rightarrow> 'e + 'b) \<Rightarrow> 'e + 'b" where
  "try_bind (Inl e) f = Inl e"
| "try_bind (Inr x) f = f x"

text \<open>\<open>Result::map_err\<close>, \<open>Option::ok_or\<close>, \<open>Result::is_ok\<close>.\<close>

fun map_err :: "('e \<Rightarrow> 'f) \<Rightarrow> 'e + 'a \<Rightarrow> 'f + 'a" where
  "map_err g (Inl e) = Inl (g e)"
| "map_err g (Inr x) = Inr x"

fun ok_or :: "'e \<Rightarrow> 'a option \<Rightarrow> 'e + 'a" where
  "ok_or e None = Inl e"
| "ok_or e (Some x) = Inr x"

fun is_ok :: "'e + 'a \<Rightarrow> bool" where
  "is_ok (Inl e) = False"
| "is_ok (Inr x) = True"

text \<open>\<open>iter().map(f).collect::<Result<Vec<_>>>()\<close>: the first error stops the iteration.\<close>

fun collect_result :: "('a \<Rightarrow> 'e + 'b) \<Rightarrow> 'a list \<Rightarrow> 'e + 'b list" where
  "collect_result f [] = Inr []"
| "collect_result f (x # xs) =
     try_bind (f x) (\<lambda>y. try_bind (collect_result f xs) (\<lambda>ys. Inr (y # ys)))"

text \<open>
  A panic (a failed \<open>expect\<close>, \<open>unwrap\<close> or an explicit \<open>panic!\<close>) is a value too; it carries the
  message of the \<open>expect\<close>.
\<close>

datatype panic = Panic string

fun expect :: "string \<Rightarrow> 'e + 'a \<Rightarrow> panic + 'a" where
  "expect msg (Inl e) = Inl (Panic msg)"
| "expect msg (Inr x) = Inr x"

fun expect_some :: "string \<Rightarrow> 'a option \<Rightarrow> panic + 'a" where
  "expect_some msg None = Inl (Panic msg)"
| "expect_some msg (Some x) = Inr x"

lemma try_bind_Ok_iff [result_simps]:
  "try_bind r f = Inr y \<longleftrightarrow> (\<exists>x. r = Inr x \<and> f x = Inr y)"
  by (cases r) auto

lemma try_bind_Err_iff [result_simps]:
  "try_bind r f = Inl e \<longleftrightarrow> r = Inl e \<or> (\<exists>x. r = Inr x \<and> f x = Inl e)"
  by (cases r) auto

lemma try_bind_cong [fundef_cong]:
  "r = r' \<Longrightarrow> (\<And>x. r' = Inr x \<Longrightarrow> f x = g x) \<Longrightarrow> try_bind r f = try_bind r' g"
  by (cases r') auto

lemma try_bind_assoc: "try_bind (try_bind r f) g = try_bind r (\<lambda>x. try_bind (f x) g)"
  by (cases r) auto

lemma expect_Ok_iff [result_simps]: "expect msg r = Inr x \<longleftrightarrow> r = Inr x"
  by (cases r) auto

lemma expect_some_Ok_iff [result_simps]: "expect_some msg r = Inr x \<longleftrightarrow> r = Some x"
  by (cases r) auto

lemma expect_Err_iff [result_simps]: "expect msg r = Inl p \<longleftrightarrow> (\<exists>e. r = Inl e) \<and> p = Panic msg"
  by (cases r) auto

lemma expect_some_Err_iff [result_simps]: "expect_some msg r = Inl p \<longleftrightarrow> r = None \<and> p = Panic msg"
  by (cases r) auto

text \<open>
  A function that may both panic and return an error gives \<open>panic + ('e + 'a)\<close>; \<open>exec_bind\<close> sequences
  such functions, and \<open>lift_panic\<close> embeds a call that can only panic.
\<close>

type_synonym ('e, 'a) exec = "panic + ('e + 'a)"

fun exec_bind :: "('e, 'a) exec \<Rightarrow> ('a \<Rightarrow> ('e, 'b) exec) \<Rightarrow> ('e, 'b) exec" where
  "exec_bind (Inl p) f = Inl p"
| "exec_bind (Inr (Inl e)) f = Inr (Inl e)"
| "exec_bind (Inr (Inr x)) f = f x"

definition lift_panic :: "panic + 'a \<Rightarrow> ('e, 'a) exec" where
  "lift_panic r = try_bind r (\<lambda>x. Inr (Inr x))"

lemma lift_panic_simps [simp]: "lift_panic (Inl p) = Inl p" "lift_panic (Inr x) = Inr (Inr x)"
  by (simp_all add: lift_panic_def)

lemma lift_panic_iff [result_simps]:
  "lift_panic r = Inr (Inr x) \<longleftrightarrow> r = Inr x" "lift_panic r = Inl p \<longleftrightarrow> r = Inl p"
  "lift_panic r \<noteq> Inr (Inl e)"
  by (cases r; simp)+

lemma exec_bind_Ok_iff [result_simps]:
  "exec_bind r f = Inr (Inr y) \<longleftrightarrow> (\<exists>x. r = Inr (Inr x) \<and> f x = Inr (Inr y))"
  by (cases "(r, f)" rule: exec_bind.cases) auto

lemma exec_bind_Err_iff [result_simps]:
  "exec_bind r f = Inr (Inl e) \<longleftrightarrow> r = Inr (Inl e) \<or> (\<exists>x. r = Inr (Inr x) \<and> f x = Inr (Inl e))"
  by (cases "(r, f)" rule: exec_bind.cases) auto

lemma exec_bind_Panic_iff [result_simps]:
  "exec_bind r f = Inl p \<longleftrightarrow> r = Inl p \<or> (\<exists>x. r = Inr (Inr x) \<and> f x = Inl p)"
  by (cases "(r, f)" rule: exec_bind.cases) auto

lemma exec_bind_cong [fundef_cong]:
  "r = r' \<Longrightarrow> (\<And>x. r' = Inr (Inr x) \<Longrightarrow> f x = g x) \<Longrightarrow> exec_bind r f = exec_bind r' g"
  by (cases "(r', g)" rule: exec_bind.cases) auto

lemma map_err_Ok_iff [result_simps]: "map_err g r = Inr x \<longleftrightarrow> r = Inr x"
  by (cases r) auto

lemma map_err_Err_iff [result_simps]: "map_err g r = Inl e \<longleftrightarrow> (\<exists>d. r = Inl d \<and> e = g d)"
  by (cases r) auto

lemma ok_or_Ok_iff [result_simps]: "ok_or e r = Inr x \<longleftrightarrow> r = Some x"
  by (cases r) auto

lemma ok_or_Err_iff [result_simps]: "ok_or e r = Inl d \<longleftrightarrow> r = None \<and> d = e"
  by (cases r) auto

lemma is_ok_iff: "is_ok r \<longleftrightarrow> (\<exists>x. r = Inr x)"
  by (cases r) auto

lemma collect_result_Ok_iff:
  "collect_result f xs = Inr ys \<longleftrightarrow> list_all2 (\<lambda>x y. f x = Inr y) xs ys"
  by (induction xs arbitrary: ys) (auto simp: result_simps list_all2_Cons1)

section \<open>Checked arithmetic on u64\<close>

definition checked_add_u64 :: "u64 \<Rightarrow> u64 \<Rightarrow> u64 option" where
  "checked_add_u64 a b = (if unat a + unat b < 2 ^ 64 then Some (a + b) else None)"

definition checked_sub_u64 :: "u64 \<Rightarrow> u64 \<Rightarrow> u64 option" where
  "checked_sub_u64 a b = (if b \<le> a then Some (a - b) else None)"

definition checked_mul_u64 :: "u64 \<Rightarrow> u64 \<Rightarrow> u64 option" where
  "checked_mul_u64 a b = (if unat a * unat b < 2 ^ 64 then Some (a * b) else None)"

lemma unat_bound: "unat (w :: 'w :: len word) < 2 ^ LENGTH('w)"
  by simp

lemma unat_lt_2p64 [simp]: "unat (a :: u64) < 18446744073709551616"
  using unat_bound [of a] by simp

lemma checked_add_Some_iff [word_facts]:
  "checked_add_u64 a b = Some c \<longleftrightarrow> unat c = unat a + unat b"
proof
  assume "checked_add_u64 a b = Some c"
  then show "unat c = unat a + unat b"
    by (auto simp: checked_add_u64_def unat_word_ariths split: if_splits)
next
  assume c: "unat c = unat a + unat b"
  then have lt: "unat a + unat b < 2 ^ 64"
    using unat_bound [of c] by simp
  then have "unat (a + b) = unat c"
    using c by (simp add: unat_word_ariths)
  then have "a + b = c"
    by (simp add: word_unat_eq_iff)
  with lt show "checked_add_u64 a b = Some c"
    by (simp add: checked_add_u64_def)
qed

lemma checked_add_None_iff [word_facts]:
  "checked_add_u64 a b = None \<longleftrightarrow> 2 ^ 64 \<le> unat a + unat b"
  by (simp add: checked_add_u64_def)

lemma checked_sub_Some_iff [word_facts]:
  "checked_sub_u64 a b = Some c \<longleftrightarrow> unat b \<le> unat a \<and> unat c = unat a - unat b"
proof -
  have "c = a - b \<longleftrightarrow> unat c = unat a - unat b" if "b \<le> a"
    using that by (simp add: unat_sub word_unat_eq_iff)
  then show ?thesis
    by (auto simp: checked_sub_u64_def word_le_nat_alt)
qed

lemma checked_sub_None_iff [word_facts]:
  "checked_sub_u64 a b = None \<longleftrightarrow> unat a < unat b"
  by (simp add: checked_sub_u64_def word_le_nat_alt not_le)

lemma checked_mul_Some_iff [word_facts]:
  "checked_mul_u64 a b = Some c \<longleftrightarrow> unat c = unat a * unat b"
proof
  assume "checked_mul_u64 a b = Some c"
  then show "unat c = unat a * unat b"
    by (auto simp: checked_mul_u64_def unat_word_ariths split: if_splits)
next
  assume c: "unat c = unat a * unat b"
  then have lt: "unat a * unat b < 2 ^ 64"
    using unat_bound [of c] by simp
  then have "unat (a * b) = unat c"
    using c by (simp add: unat_word_ariths)
  then have "a * b = c"
    by (simp add: word_unat_eq_iff)
  with lt show "checked_mul_u64 a b = Some c"
    by (simp add: checked_mul_u64_def)
qed

lemma unat_u8_mod [simp]: "unat (b :: u8) mod 256 = unat b"
  using unat_bound [of b] by simp

lemma sint_eqI: "sint v = sint w \<Longrightarrow> v = w"
  by (rule signed_word_eqI [where 'a = int])

lemma sint_small_u64: "unat (w :: u64) < 2 ^ 63 \<Longrightarrow> sint w = int (unat w)"
proof -
  assume "unat w < 2 ^ 63"
  then have "int (unat w) < int (2 ^ 63)" by (simp only: of_nat_less_iff)
  then have "uint w < 2 ^ 63" by simp
  moreover have "- (2 ^ 63) \<le> uint w"
    using unsigned_greater_eq [of w] by (rule order_trans [rotated]) simp
  ultimately show "sint w = int (unat w)"
    by (simp add: sint_uint signed_take_bit_int_eq_self)
qed

lemma unat_ucast_u128 [word_facts]: "unat (ucast (w :: u64) :: u128) = unat w"
proof -
  have "unat w < 2 ^ 128" by (rule less_le_trans [OF unat_bound]) simp
  then show ?thesis by (simp add: unsigned_ucast_eq take_bit_nat_eq_self)
qed

lemma unat_add_no_wrap: "unat (a :: u64) + unat b < 2 ^ 64 \<Longrightarrow> unat (a + b) = unat a + unat b"
  by (simp add: unat_word_ariths)

lemma unat_mult_no_wrap: "unat (a :: u64) * unat b < 2 ^ 64 \<Longrightarrow> unat (a * b) = unat a * unat b"
  by (simp add: unat_word_ariths)

lemma unat_mult_no_wrap_u128:
  "unat (a :: u128) * unat b < 2 ^ 128 \<Longrightarrow> unat (a * b) = unat a * unat b"
  by (simp add: unat_word_ariths)

section \<open>Decimal text\<close>

text \<open>\<open>u64::to_string\<close> on the unsigned value, most significant digit first.\<close>

definition digit_char :: "nat \<Rightarrow> char" where
  "digit_char d = char_of (48 + d)"

fun show_nat :: "nat \<Rightarrow> string" where
  "show_nat n = (if n < 10 then [digit_char n] else show_nat (n div 10) @ [digit_char (n mod 10)])"

declare show_nat.simps [simp del]

definition u64_to_string :: "u64 \<Rightarrow> string" where
  "u64_to_string v = show_nat (unat v)"

text \<open>The padding of the format \<open>{:08}\<close>: zeros on the left up to the width.\<close>

definition pad_zeros :: "nat \<Rightarrow> string \<Rightarrow> string" where
  "pad_zeros w s = replicate (w - length s) (CHR ''0'') @ s"

text \<open>
  \<open>str::parse::<u64>\<close>: an empty string or a lone sign is an error, a leading plus is skipped, every
  other character has to be a digit, and the accumulator is multiplied and added to with overflow
  checks.  The kind of the error is never inspected by the sources, so it is dropped.
\<close>

definition digit_of :: "char \<Rightarrow> u64 option" where
  "digit_of c = (let k = of_char c :: nat in if 48 \<le> k \<and> k \<le> 57 then Some (of_nat (k - 48)) else None)"

fun parse_digits :: "u64 \<Rightarrow> string \<Rightarrow> u64 option" where
  "parse_digits acc [] = Some acc"
| "parse_digits acc (c # cs) =
     (case digit_of c of None \<Rightarrow> None
      | Some d \<Rightarrow> (case checked_mul_u64 acc 10 of None \<Rightarrow> None
      | Some m \<Rightarrow> (case checked_add_u64 m d of None \<Rightarrow> None
      | Some a \<Rightarrow> parse_digits a cs)))"

text \<open>The bytes of a literal.\<close>

definition ascii :: "string \<Rightarrow> bytes" where
  "ascii s = map (\<lambda>c. of_nat (of_char c)) s"

definition parse_u64 :: "string \<Rightarrow> u64 option" where
  "parse_u64 s =
     (let ds = (case s of [] \<Rightarrow> [] | c # cs \<Rightarrow> if c = CHR ''+'' then cs else s)
      in if ds = [] then None else parse_digits 0 ds)"

lemma digit_of_digit_char [text_simps]: "d < 10 \<Longrightarrow> digit_of (digit_char d) = Some (of_nat d)"
  by (simp add: digit_of_def digit_char_def)

lemma digit_char_not_plus [text_simps]: "d < 10 \<Longrightarrow> digit_char d \<noteq> CHR ''+''"
proof
  assume "d < 10" and "digit_char d = CHR ''+''"
  then have "(of_char (char_of (48 + d)) :: nat) = of_char (CHR ''+'')"
    by (simp add: digit_char_def)
  with \<open>d < 10\<close> show False by simp
qed

lemma parse_digits_append:
  "parse_digits acc (xs @ ys) =
     (case parse_digits acc xs of None \<Rightarrow> None | Some a \<Rightarrow> parse_digits a ys)"
  by (induction acc xs rule: parse_digits.induct) (auto split: option.splits)

lemma show_nat_nonempty [text_simps]: "show_nat n \<noteq> []"
  by (subst show_nat.simps) simp

lemma hd_show_nat [text_simps]: "hd (show_nat n) \<noteq> CHR ''+''"
proof (induction n rule: show_nat.induct)
  case (1 n)
  show ?case
  proof (cases "n < 10")
    case True
    then show ?thesis by (subst show_nat.simps) (simp add: text_simps)
  next
    case False
    with 1 have "hd (show_nat (n div 10)) \<noteq> CHR ''+''" by simp
    with False show ?thesis
      by (subst show_nat.simps) (simp add: text_simps hd_append)
  qed
qed

lemma parse_digits_show_nat: "n < 2 ^ 64 \<Longrightarrow> parse_digits 0 (show_nat n) = Some (of_nat n)"
proof (induction n rule: show_nat.induct)
  case (1 n)
  show ?case
  proof (cases "n < 10")
    case True
    have "checked_mul_u64 0 10 = Some 0" "checked_add_u64 0 (of_nat n) = Some (of_nat n)"
      by (simp_all add: word_facts)
    with True show ?thesis by (subst show_nat.simps) (simp add: text_simps)
  next
    case False
    let ?q = "n div 10" and ?r = "n mod 10"
    from "1.prems" have q: "?q < 2 ^ 64" and n: "?q * 10 + ?r = n" by auto
    have uq: "unat (of_nat ?q :: u64) = ?q" and ur: "unat (of_nat ?r :: u64) = ?r"
      and un: "unat (of_nat n :: u64) = n"
      using "1.prems" by (simp_all add: unat_of_nat)
    have um: "unat (of_nat (?q * 10) :: u64) = ?q * 10"
      using "1.prems" unfolding unat_of_nat by simp
    have "parse_digits 0 (show_nat ?q) = Some (of_nat ?q)"
      using "1.IH" [OF False] q by simp
    moreover have "checked_mul_u64 (of_nat ?q) 10 = Some (of_nat (?q * 10))"
      unfolding checked_mul_Some_iff using uq um by simp
    moreover have "checked_add_u64 (of_nat (?q * 10)) (of_nat ?r) = Some (of_nat n)"
      unfolding checked_add_Some_iff using um ur un n by simp
    ultimately show ?thesis
      using False by (subst show_nat.simps) (simp add: parse_digits_append text_simps)
  qed
qed

lemma parse_u64_to_string [text_simps]: "parse_u64 (u64_to_string v) = Some v"
proof -
  obtain c cs where s: "show_nat (unat v) = c # cs" and "c \<noteq> CHR ''+''"
    using show_nat_nonempty hd_show_nat by (metis list.collapse)
  then show ?thesis
    using parse_digits_show_nat [of "unat v"] by (simp add: parse_u64_def u64_to_string_def)
qed

text \<open>\<open>str::split\<close> on a separator character: one part more than there are separators.\<close>

fun split_on :: "char \<Rightarrow> string \<Rightarrow> string list" where
  "split_on sep [] = [[]]"
| "split_on sep (c # cs) =
     (if c = sep then [] # split_on sep cs
      else (case split_on sep cs of [] \<Rightarrow> [[c]] | p # ps \<Rightarrow> (c # p) # ps))"

lemma length_split_on: "length (split_on sep s) = count_list s sep + 1"
  by (induction sep s rule: split_on.induct) (auto split: list.splits)

lemma split_on_absent: "sep \<notin> set s \<Longrightarrow> split_on sep s = [s]"
  by (induction sep s rule: split_on.induct) auto

lemma split_on_once:
  "sep \<notin> set a \<Longrightarrow> sep \<notin> set b \<Longrightarrow> split_on sep (a @ sep # b) = [a, b]"
  by (induction a) (auto simp: split_on_absent)

lemma digit_char_not_dot [text_simps]: "d < 10 \<Longrightarrow> digit_char d \<noteq> CHR ''.''"
proof
  assume "d < 10" and "digit_char d = CHR ''.''"
  then have "(of_char (char_of (48 + d)) :: nat) = of_char (CHR ''.'')"
    by (simp add: digit_char_def)
  with \<open>d < 10\<close> show False by simp
qed

lemma dot_not_in_show_nat [text_simps]: "CHR ''.'' \<notin> set (show_nat n)"
proof (induction n rule: show_nat.induct)
  case (1 n)
  then show ?case
    by (subst show_nat.simps) (auto dest: digit_char_not_dot [THEN not_sym, THEN notE, rotated])
qed

lemma dot_not_in_u64_to_string [text_simps]: "CHR ''.'' \<notin> set (u64_to_string v)"
  by (simp add: u64_to_string_def text_simps)

end
