(* ===== verification/Coin.thy ===== *)
theory Coin
  imports Prelude
begin

text \<open>
  Amounts (\<open>chain-core/src/init/coin.rs\<close>, constants of \<open>init/mod.rs\<close>) and Tendermint voting power
  (\<open>state/tendermint.rs\<close>).  A \<open>Coin\<close> wraps a \<open>u64\<close> bounded by the total supply; every operation
  either returns the exact natural-number result or an error.  The theory shows that the bound is an
  invariant of all constructors, that sums are exact or fail, that the JSON text of an amount
  parses back, and that voting power is computed without panic from every valid amount.
\<close>

section \<open>Data\<close>

definition MAX_COIN :: u64 where "MAX_COIN = 10000000000000000000"
definition MAX_COIN_DECIMALS :: u64 where "MAX_COIN_DECIMALS = 100000000"
definition MAX_COIN_UNITS :: i64 where "MAX_COIN_UNITS = 100000000000"

datatype Coin = Coin (coin_u64: u64)

datatype CoinError = OutOfBound u64 | CoinParseIntError | CoinNegative

type_synonym CoinResult = "CoinError + Coin"

text \<open>The derived \<open>Ord\<close> of the newtype compares the wrapped integers.\<close>

instantiation Coin :: linorder
begin

definition less_eq_Coin :: "Coin \<Rightarrow> Coin \<Rightarrow> bool" where
  "less_eq_Coin a b \<longleftrightarrow> coin_u64 a \<le> coin_u64 b"

definition less_Coin :: "Coin \<Rightarrow> Coin \<Rightarrow> bool" where
  "less_Coin a b \<longleftrightarrow> coin_u64 a < coin_u64 b"

instance
  by standard (auto simp: less_eq_Coin_def less_Coin_def intro: Coin.expand)

end

text \<open>The amount as a natural number, and the invariant of the type.\<close>

definition amount :: "Coin \<Rightarrow> nat" where "amount c = unat (coin_u64 c)"

definition coin_wf :: "Coin \<Rightarrow> bool" where "coin_wf c \<longleftrightarrow> coin_u64 c \<le> MAX_COIN"

abbreviation max_supply :: nat where "max_supply \<equiv> 10000000000000000000"

section \<open>Operations\<close>

definition coin_zero :: Coin where "coin_zero = Coin 0"
definition coin_unit :: Coin where "coin_unit = Coin 1"
definition coin_one :: Coin where "coin_one = Coin MAX_COIN_DECIMALS"
definition coin_max :: Coin where "coin_max = Coin MAX_COIN"

definition coin_new :: "u64 \<Rightarrow> CoinResult" where
  "coin_new v = (if v \<le> MAX_COIN then Ok (Coin v) else Err (OutOfBound v))"

definition coin_add :: "Coin \<Rightarrow> Coin \<Rightarrow> CoinResult" where
  "coin_add a b = (case checked_add_u64 (coin_u64 a) (coin_u64 b) of
     None \<Rightarrow> Err (OutOfBound 0)
   | Some v \<Rightarrow> coin_new v)"

definition coin_sub :: "Coin \<Rightarrow> Coin \<Rightarrow> CoinResult" where
  "coin_sub a b = (case checked_sub_u64 (coin_u64 a) (coin_u64 b) of
     None \<Rightarrow> Err CoinNegative
   | Some v \<Rightarrow> coin_new v)"

text \<open>The chained subtraction \<open>coin1 - coin2 - coin3\<close>: the left operand is already a result.\<close>

definition coin_result_sub :: "CoinResult \<Rightarrow> Coin \<Rightarrow> CoinResult" where
  "coin_result_sub r b = try_bind r (\<lambda>a.
     if coin_u64 a < coin_u64 b then Err CoinNegative else Ok (Coin (coin_u64 a - coin_u64 b)))"

definition coin_from_u32 :: "u32 \<Rightarrow> Coin" where
  "coin_from_u32 c = Coin (ucast c)"

definition sum_coins :: "Coin list \<Rightarrow> CoinResult" where
  "sum_coins cs = fold (\<lambda>c acc. try_bind acc (\<lambda>v. coin_add v c)) cs (coin_new 0)"

text \<open>\<open>Display\<close> prints eight decimals; \<open>FromStr\<close> and the JSON text use the integer number of base units.\<close>

definition coin_display :: "Coin \<Rightarrow> string" where
  "coin_display c = u64_to_string (coin_u64 c div MAX_COIN_DECIMALS) @ ''.'' @
     pad_zeros 8 (u64_to_string (coin_u64 c mod MAX_COIN_DECIMALS))"

definition coin_from_str :: "string \<Rightarrow> CoinResult" where
  "coin_from_str s = (case parse_u64 s of
     None \<Rightarrow> Err CoinParseIntError
   | Some v \<Rightarrow> coin_new v)"

definition coin_serialize :: "Coin \<Rightarrow> string" where
  "coin_serialize c = u64_to_string (coin_u64 c)"

definition coin_deserialize :: "string \<Rightarrow> CoinResult" where
  "coin_deserialize s = try_bind (ok_or CoinParseIntError (parse_u64 s)) coin_new"

text \<open>
  \<open>Decode for Coin\<close>: the codec of \<open>u64\<close> belongs to the SCALE library and is a parameter; the bound is
  checked on the decoded number.
\<close>

definition coin_decode :: "(bytes \<Rightarrow> string + u64 \<times> bytes) \<Rightarrow> bytes \<Rightarrow> string + Coin \<times> bytes" where
  "coin_decode u64_decode input = try_bind (u64_decode input) (\<lambda>(num, rest).
     if MAX_COIN < num then Err ''Value greater than maximum allowed''
     else Ok (Coin num, rest))"

section \<open>Voting power\<close>

definition i64_max :: i64 where "i64_max = 9223372036854775807"

definition TENDERMINT_MAX_VOTE_POWER :: i64 where
  "TENDERMINT_MAX_VOTE_POWER = i64_max div 8"

type_synonym BlockHeight = i64

datatype TendermintValidatorPubKey = Ed25519 bytes

definition to_validator_update :: "TendermintValidatorPubKey \<Rightarrow> string \<times> bytes" where
  "to_validator_update k = (case k of Ed25519 key \<Rightarrow> (''ed25519'', key))"

datatype TendermintVotePower = TendermintVotePower (vp_i64: i64)

datatype TendermintVotePowerError = VPOutOfBound i64 | VPNegative

instantiation TendermintVotePower :: linorder
begin

definition less_eq_TendermintVotePower :: "TendermintVotePower \<Rightarrow> TendermintVotePower \<Rightarrow> bool" where
  "less_eq_TendermintVotePower a b \<longleftrightarrow> sint (vp_i64 a) \<le> sint (vp_i64 b)"

definition less_TendermintVotePower :: "TendermintVotePower \<Rightarrow> TendermintVotePower \<Rightarrow> bool" where
  "less_TendermintVotePower a b \<longleftrightarrow> sint (vp_i64 a) < sint (vp_i64 b)"

instance
proof
  fix x y :: TendermintVotePower
  assume "x \<le> y" "y \<le> x"
  then have "vp_i64 x = vp_i64 y"
    by (intro sint_eqI) (simp add: less_eq_TendermintVotePower_def)
  then show "x = y" by (rule TendermintVotePower.expand)
qed (auto simp: less_eq_TendermintVotePower_def less_TendermintVotePower_def)

end

definition vote_power_new :: "i64 \<Rightarrow> TendermintVotePowerError + TendermintVotePower" where
  "vote_power_new v =
     (if v <s 0 then Err VPNegative
      else if TENDERMINT_MAX_VOTE_POWER <s v then Err (VPOutOfBound v)
      else Ok (TendermintVotePower v))"

definition vote_power_zero :: TendermintVotePower where
  "vote_power_zero = TendermintVotePower 0"

text \<open>\<open>i64::try_from(u64)\<close> fails above \<open>i64::MAX\<close>.\<close>

definition i64_try_from_u64 :: "u64 \<Rightarrow> i64 option" where
  "i64_try_from_u64 v = (if v \<le> i64_max then Some v else None)"

definition vote_power_from_coin :: "Coin \<Rightarrow> panic + TendermintVotePower" where
  "vote_power_from_coin c =
     try_bind (expect_some ''i64::MAX is larger than MAX_COIN / MAX_COIN_DECIMALS''
        (i64_try_from_u64 (coin_u64 c div MAX_COIN_DECIMALS))) (\<lambda>vote_power.
     expect ''TENDERMINT_MAX_VOTE_POWER is larger than MAX_COIN / MAX_COIN_DECIMALS''
        (vote_power_new vote_power))"

section \<open>Amounts are exact\<close>

named_theorems coin_simps "coin operations as natural-number arithmetic"

lemma coin_wf_amount [coin_simps]: "coin_wf c \<longleftrightarrow> amount c \<le> max_supply"
  by (simp add: coin_wf_def amount_def MAX_COIN_def word_le_nat_alt)

lemma amount_inject: "amount a = amount b \<longleftrightarrow> a = b"
  by (cases a; cases b) (simp add: amount_def word_unat_eq_iff)

lemma coin_le_iff [coin_simps]: "a \<le> b \<longleftrightarrow> amount a \<le> amount b"
  by (simp add: less_eq_Coin_def amount_def word_le_nat_alt)

lemma coin_less_iff [coin_simps]: "a < b \<longleftrightarrow> amount a < amount b"
  by (simp add: less_Coin_def amount_def word_less_nat_alt)

lemma amount_zero [simp]: "amount coin_zero = 0"
  by (simp add: amount_def coin_zero_def)

lemma coin_wf_zero [simp]: "coin_wf coin_zero"
  by (simp add: coin_simps)

lemma amount_0_iff: "amount c = 0 \<longleftrightarrow> c = coin_zero"
  using amount_inject [of c coin_zero] by simp

lemma amount_max [simp]: "amount coin_max = max_supply"
  by (simp add: amount_def coin_max_def MAX_COIN_def)

lemma coin_new_Ok_iff [coin_simps]:
  "coin_new v = Ok c \<longleftrightarrow> c = Coin v \<and> unat v \<le> max_supply"
  by (auto simp: coin_new_def MAX_COIN_def word_le_nat_alt)

lemma coin_add_Ok_iff [coin_simps]:
  "coin_add a b = Ok c \<longleftrightarrow> amount c = amount a + amount b \<and> amount c \<le> max_supply"
proof -
  have "coin_add a b = Ok c \<longleftrightarrow>
      (\<exists>v. checked_add_u64 (coin_u64 a) (coin_u64 b) = Some v \<and> coin_new v = Ok c)"
    by (auto simp: coin_add_def split: option.splits)
  also have "\<dots> \<longleftrightarrow> amount c = amount a + amount b \<and> amount c \<le> max_supply"
    by (cases c) (auto simp: coin_new_Ok_iff checked_add_Some_iff amount_def)
  finally show ?thesis .
qed

lemma coin_sub_Ok_iff [coin_simps]:
  "coin_sub a b = Ok c \<longleftrightarrow> amount a = amount b + amount c \<and> amount c \<le> max_supply"
proof -
  have "coin_sub a b = Ok c \<longleftrightarrow>
      (\<exists>v. checked_sub_u64 (coin_u64 a) (coin_u64 b) = Some v \<and> coin_new v = Ok c)"
    by (auto simp: coin_sub_def split: option.splits)
  also have "\<dots> \<longleftrightarrow> amount a = amount b + amount c \<and> amount c \<le> max_supply"
    by (cases c) (auto simp: coin_new_Ok_iff checked_sub_Some_iff amount_def)
  finally show ?thesis .
qed

lemma coin_of_amount: "n \<le> max_supply \<Longrightarrow> \<exists>c. amount c = n \<and> coin_wf c"
  by (rule exI [of _ "Coin (of_nat n)"]) (simp add: amount_def coin_simps unat_of_nat)

lemma coin_add_ok_ex: "amount a + amount b \<le> max_supply \<Longrightarrow> \<exists>c. coin_add a b = Ok c"
  using coin_of_amount [of "amount a + amount b"] by (auto simp: coin_add_Ok_iff)

lemma coin_sub_ok_ex: "coin_wf a \<Longrightarrow> amount b \<le> amount a \<Longrightarrow> \<exists>c. coin_sub a b = Ok c"
  using coin_of_amount [of "amount a - amount b"] by (force simp: coin_simps)

lemma coin_add_Err_iff: "(\<exists>e. coin_add a b = Err e) \<longleftrightarrow> max_supply < amount a + amount b"
proof
  assume "\<exists>e. coin_add a b = Err e"
  then show "max_supply < amount a + amount b"
    using coin_add_ok_ex [of a b] by (metis not_less sum.distinct(1))
next
  assume "max_supply < amount a + amount b"
  then show "\<exists>e. coin_add a b = Err e"
    by (cases "coin_add a b") (auto simp: coin_add_Ok_iff)
qed

lemma coin_sub_Err_iff:
  "coin_wf a \<Longrightarrow> (\<exists>e. coin_sub a b = Err e) \<longleftrightarrow> amount a < amount b"
proof
  assume "coin_wf a" "\<exists>e. coin_sub a b = Err e"
  then show "amount a < amount b"
    using coin_sub_ok_ex [of a b] by (metis not_less sum.distinct(1))
next
  assume "amount a < amount b"
  then show "\<exists>e. coin_sub a b = Err e"
    by (cases "coin_sub a b") (auto simp: coin_sub_Ok_iff)
qed

lemma coin_result_sub_Err: "coin_result_sub (Err e) b = Err e"
  by (simp add: coin_result_sub_def)

lemma coin_result_sub_Ok_iff [coin_simps]:
  "coin_result_sub (Ok a) b = Ok c \<longleftrightarrow> amount a = amount b + amount c"
proof (cases "coin_u64 a < coin_u64 b")
  case True
  then show ?thesis
    by (simp add: coin_result_sub_def amount_def word_less_nat_alt)
next
  case False
  then have le: "coin_u64 b \<le> coin_u64 a" by simp
  then have "unat (coin_u64 a - coin_u64 b) = unat (coin_u64 a) - unat (coin_u64 b)"
    by (rule unat_sub)
  with le False show ?thesis
    by (cases c) (auto simp: coin_result_sub_def amount_def word_le_nat_alt word_unat_eq_iff)
qed

lemma sum_coins_from:
  "fold (\<lambda>c acc. try_bind acc (\<lambda>v. coin_add v c)) cs (Err e) = Err e"
  by (induction cs) simp_all

lemma sum_coins_acc:
  "amount a \<le> max_supply \<Longrightarrow>
   fold (\<lambda>c acc. try_bind acc (\<lambda>v. coin_add v c)) cs (Ok a) = Ok s \<longleftrightarrow>
     amount s = amount a + sum_list (map amount cs) \<and> amount s \<le> max_supply"
proof (induction cs arbitrary: a)
  case Nil
  then show ?case using amount_inject [of a s] by auto
next
  case (Cons c cs)
  show ?case
  proof (cases "coin_add a c")
    case (Inl e)
    then have "max_supply < amount a + amount c"
      using coin_add_Err_iff by blast
    with Inl show ?thesis by (simp add: sum_coins_from)
  next
    case (Inr b)
    then have "amount b = amount a + amount c" "amount b \<le> max_supply"
      by (simp_all add: coin_add_Ok_iff)
    with Inr show ?thesis using Cons.IH [of b] by (simp add: add.assoc)
  qed
qed

lemma sum_coins_Ok_iff [coin_simps]:
  "sum_coins cs = Ok s \<longleftrightarrow> amount s = sum_list (map amount cs) \<and> amount s \<le> max_supply"
proof -
  have "coin_new 0 = Ok coin_zero"
    by (simp add: coin_new_def coin_zero_def)
  then show ?thesis
    using sum_coins_acc [of coin_zero cs s] by (simp add: sum_coins_def)
qed

lemma sum_coins_ok_ex: "sum_list (map amount cs) \<le> max_supply \<Longrightarrow> \<exists>s. sum_coins cs = Ok s"
  using coin_of_amount [of "sum_list (map amount cs)"] by (auto simp: sum_coins_Ok_iff)

lemma vote_power_val:
  assumes "coin_wf c"
  defines "v \<equiv> coin_u64 c div MAX_COIN_DECIMALS"
  shows "unat v = amount c div 100000000" "unat v \<le> 100000000000" "sint v = int (unat v)"
proof -
  show u: "unat v = amount c div 100000000"
    by (simp add: v_def amount_def MAX_COIN_DECIMALS_def unat_div_distrib)
  then show le: "unat v \<le> 100000000000"
    using assms(1) by (simp add: coin_simps)
  from le show "sint v = int (unat v)" by (intro sint_small_u64) simp
qed

lemma vote_power_from_coin_ok:
  assumes "coin_wf c"
  shows "\<exists>p. vote_power_from_coin c = Ok p \<and> sint (vp_i64 p) = int (amount c div 100000000) \<and>
    vote_power_zero \<le> p \<and> vp_i64 p \<le>s TENDERMINT_MAX_VOTE_POWER"
proof -
  let ?v = "coin_u64 c div MAX_COIN_DECIMALS"
  note v = vote_power_val [OF assms]
  have "?v \<le> i64_max"
    using v by (simp add: word_le_nat_alt i64_max_def)
  moreover have "vote_power_new ?v = Ok (TendermintVotePower ?v)"
    using v by (simp add: vote_power_new_def word_sless_alt TENDERMINT_MAX_VOTE_POWER_def i64_max_def)
  ultimately show ?thesis
    using v by (simp add: vote_power_from_coin_def i64_try_from_u64_def vote_power_zero_def
      less_eq_TendermintVotePower_def word_sle_eq TENDERMINT_MAX_VOTE_POWER_def i64_max_def)
qed

section \<open>Properties\<close>

text \<open>The invariant of a coin inside a result.\<close>

definition ok_coin_wf :: "CoinResult \<Rightarrow> bool" where
  "ok_coin_wf r = (case r of Inl e \<Rightarrow> True | Inr c \<Rightarrow> coin_wf c)"

text \<open>
  \<open>sum_coins\<close> succeeds exactly when the true sum of the amounts is within the total supply, and
  then returns that sum; otherwise it returns an error, whatever the order of the summands.
\<close>

theorem sum_coins_exact:
  "(if sum_list (map amount cs) \<le> max_supply
    then \<exists>s. sum_coins cs = Ok s \<and> amount s = sum_list (map amount cs) \<and> coin_wf s
    else \<exists>e. sum_coins cs = Err e)"
proof (cases "sum_list (map amount cs) \<le> max_supply")
  case True
  then show ?thesis
    using sum_coins_ok_ex [of cs] by (auto simp: coin_simps)
next
  case False
  then show ?thesis
    by (cases "sum_coins cs") (auto simp: sum_coins_Ok_iff)
qed

text \<open>
  C35: every way to obtain a coin (\<open>new\<close>, \<open>+\<close>, \<open>-\<close>, chained \<open>-\<close>, \<open>from(u32)\<close>, \<open>FromStr\<close>, JSON and
  SCALE decoding) yields an amount within the total supply.
\<close>

theorem coin_bound_invariant:
  "ok_coin_wf (coin_new v) \<and> ok_coin_wf (coin_add a b) \<and> ok_coin_wf (coin_sub a b) \<and>
   (ok_coin_wf r \<longrightarrow> ok_coin_wf (coin_result_sub r b)) \<and> coin_wf (coin_from_u32 n) \<and>
   ok_coin_wf (sum_coins cs) \<and> ok_coin_wf (coin_from_str s) \<and> ok_coin_wf (coin_deserialize s) \<and>
   (\<forall>c rest. coin_decode dec input = Ok (c, rest) \<longrightarrow> coin_wf c)"
proof (intro conjI allI impI)
  show "coin_wf (coin_from_u32 n)"
    using unat_bound [of n] by (simp add: coin_simps amount_def coin_from_u32_def unsigned_ucast_eq take_bit_nat_eq_self)
next
  assume "ok_coin_wf r"
  then show "ok_coin_wf (coin_result_sub r b)"
    by (cases r) (auto simp: ok_coin_wf_def coin_simps coin_result_sub_Err split: sum.splits)
next
  fix c rest
  assume "coin_decode dec input = Ok (c, rest)"
  then show "coin_wf c"
    by (auto simp: coin_decode_def result_simps coin_wf_def split: if_splits)
qed (auto simp: ok_coin_wf_def coin_simps coin_from_str_def coin_deserialize_def result_simps
      amount_def split: sum.splits option.splits)

theorem coin_bound_invariant_witness:
  "ok_coin_wf (coin_result_sub (Ok (Coin 5)) (Coin 3)) \<and>
   coin_wf (fst (projr (coin_decode (\<lambda>bs. Ok (7, bs)) [])))"
proof -
  have "ok_coin_wf (Ok (Coin 5))"
    by (simp add: ok_coin_wf_def coin_wf_def MAX_COIN_def)
  moreover have "coin_decode (\<lambda>bs. Ok (7, bs)) [] = Ok (Coin 7, [])"
    by (simp add: coin_decode_def MAX_COIN_def)
  ultimately show ?thesis
    using coin_bound_invariant [of 0 "Coin 5" "Coin 3" "Ok (Coin 5)" 0 "[]" "[]" "\<lambda>bs. Ok (7, bs)" "[]"]
    by simp
qed

text \<open>
  The JSON text of a valid amount (a decimal string of base units) is read back as the same
  amount.
\<close>

theorem coin_json_roundtrip: "coin_wf c \<Longrightarrow> coin_deserialize (coin_serialize c) = Ok c"
  by (cases c) (simp add: coin_deserialize_def coin_serialize_def text_simps coin_new_def coin_wf_def)

theorem coin_json_roundtrip_witness:
  "coin_wf coin_max \<and> coin_deserialize (coin_serialize coin_max) = Ok coin_max"
proof -
  have "coin_wf coin_max" by (simp add: coin_wf_def coin_max_def)
  then show ?thesis using coin_json_roundtrip [of coin_max] by simp
qed

text \<open>
  C36: the voting power of every valid amount is computed without panic, is the number of whole
  coins, lies within Tendermint's bound, and is monotone in the amount.
\<close>

theorem vote_power_total:
  "coin_wf c \<Longrightarrow>
   \<exists>p. vote_power_from_coin c = Ok p \<and> sint (vp_i64 p) = int (amount c div 100000000) \<and>
       vote_power_zero \<le> p \<and> vp_i64 p \<le>s TENDERMINT_MAX_VOTE_POWER \<and>
       (\<forall>d q. coin_wf d \<and> c \<le> d \<and> vote_power_from_coin d = Ok q \<longrightarrow> p \<le> q)"
  using vote_power_from_coin_ok [of c] vote_power_from_coin_ok
  by (fastforce simp: less_eq_TendermintVotePower_def coin_simps div_le_mono)

theorem vote_power_total_witness:
  "coin_wf (Coin 350000000) \<and> vote_power_from_coin (Coin 350000000) = Ok (TendermintVotePower 3)"
proof -
  have wf: "coin_wf (Coin 350000000)" by (simp add: coin_wf_def MAX_COIN_def)
  from vote_power_total [OF wf] obtain p where
    "vote_power_from_coin (Coin 350000000) = Ok p" "sint (vp_i64 p) = 3"
    by (auto simp: amount_def)
  moreover from this have "vp_i64 p = 3" by (intro sint_eqI) simp
  ultimately show ?thesis using wf by (cases p) simp
qed

end
