(* ===== verification/Fee.thy ===== *)
theory Fee
  imports Coin
begin

text \<open>
  Fee computation (\<open>chain-core/src/tx/fee/mod.rs\<close>).  \<open>Milli\<close> is a fixed-point number with three
  decimals kept in a \<open>u64\<close>; its additions and conversions wrap, as the release profile compiles them,
  and its product goes through \<open>u128\<close>.  The theory shows that the linear fee is the rounded-up
  affine formula as long as nothing wraps, that a fee policy is monotone in the size, and which
  decimal texts \<open>FromStr\<close> reads back.
\<close>

section \<open>Fixed-point numbers\<close>

datatype Milli = Milli (milli_u64: u64)

datatype MilliError = InvalidPartsLength nat | InvalidInteger

definition milli_new :: "u64 \<Rightarrow> u64 \<Rightarrow> Milli" where
  "milli_new i f = Milli (i * 1000 + f mod 1000)"

definition milli_integral :: "u64 \<Rightarrow> Milli" where
  "milli_integral i = Milli (i * 1000)"

definition to_integral :: "Milli \<Rightarrow> u64" where
  "to_integral m = (if milli_u64 m mod 1000 = 0 then milli_u64 m div 1000
     else milli_u64 m div 1000 + 1)"

definition to_integral_trunc :: "Milli \<Rightarrow> u64" where
  "to_integral_trunc m = milli_u64 m div 1000"

definition milli_add :: "Milli \<Rightarrow> Milli \<Rightarrow> Milli" where
  "milli_add a b = Milli (milli_u64 a + milli_u64 b)"

definition milli_mul :: "Milli \<Rightarrow> Milli \<Rightarrow> Milli" where
  "milli_mul a b =
     (let v = (ucast (milli_u64 a) :: u128) * ucast (milli_u64 b) in Milli (ucast (v div 1000)))"

definition milli_from_str :: "string \<Rightarrow> MilliError + Milli" where
  "milli_from_str s =
     (let parts = split_on (CHR ''.'') s; len = length parts
      in if len \<noteq> 2 then Err (InvalidPartsLength len)
         else try_bind (ok_or InvalidInteger (parse_u64 (parts ! 0))) (\<lambda>integral.
              try_bind (ok_or InvalidInteger (parse_u64 (parts ! 1))) (\<lambda>fractional.
              Ok (milli_new integral fractional))))"

section \<open>Linear fees\<close>

datatype Fee = Fee (to_coin: Coin)

record LinearFee =
  fee_constant :: Milli
  fee_coefficient :: Milli

definition linear_fee_new :: "Milli \<Rightarrow> Milli \<Rightarrow> LinearFee" where
  "linear_fee_new c k = \<lparr> fee_constant = c, fee_coefficient = k \<rparr>"

definition estimate :: "LinearFee \<Rightarrow> u64 \<Rightarrow> CoinError + Fee" where
  "estimate self sz =
     (let msz = milli_integral sz;
          fee = milli_add (fee_constant self) (milli_mul (fee_coefficient self) msz)
      in try_bind (coin_new (to_integral fee)) (\<lambda>coin. Ok (Fee coin)))"

definition calculate_fee :: "LinearFee \<Rightarrow> u64 \<Rightarrow> CoinError + Fee" where
  "calculate_fee self num_bytes = estimate self num_bytes"

text \<open>The SCALE encoding of a transaction is a parameter; only its length matters here.\<close>

definition calculate_for_txaux ::
    "('tx \<Rightarrow> bytes) \<Rightarrow> LinearFee \<Rightarrow> 'tx \<Rightarrow> CoinError + Fee" where
  "calculate_for_txaux encode self txaux = estimate self (of_nat (length (encode txaux)))"

section \<open>Arithmetic of the formula\<close>

definition milli_nat :: "Milli \<Rightarrow> nat" where "milli_nat m = unat (milli_u64 m)"

abbreviation ceil_milli :: "nat \<Rightarrow> nat" where "ceil_milli n \<equiv> (n + 999) div 1000"

lemma ceil_milli_cases: "ceil_milli n = (if n mod 1000 = 0 then n div 1000 else n div 1000 + 1)"
proof -
  let ?q = "n div 1000" and ?r = "n mod 1000"
  have "(?r + 999) div 1000 = (if ?r = 0 then 0 else 1)"
    by (auto intro: div_nat_eqI simp: less_imp_le)
  moreover have "ceil_milli n = (1000 * ?q + (?r + 999)) div 1000"
    by (simp only: mult_div_mod_eq flip: add.assoc)
  moreover have "\<dots> = ?q + (?r + 999) div 1000"
    by (rule div_mult_self4) simp
  ultimately show ?thesis by simp
qed

lemma to_integral_ceil: "unat (to_integral m) = ceil_milli (milli_nat m)"
proof -
  have "unat (milli_u64 m) div 1000 + 1 < 2 ^ 64"
    using div_le_mono [OF less_imp_le [OF unat_bound [of "milli_u64 m"]], of 1000] by simp
  then have "unat (milli_u64 m div 1000 + 1) = unat (milli_u64 m) div 1000 + 1"
    by (subst unat_add_no_wrap) (simp_all add: unat_div_distrib)
  moreover have "milli_u64 m mod 1000 = 0 \<longleftrightarrow> unat (milli_u64 m) mod 1000 = 0"
    by (simp add: word_unat_eq_iff unat_mod_distrib)
  ultimately show ?thesis
    by (simp add: to_integral_def milli_nat_def unat_div_distrib ceil_milli_cases)
qed

lemma milli_mul_integral:
  assumes "unat sz * 1000 < 2 ^ 64" "milli_nat k * unat sz < 2 ^ 64"
  shows "milli_nat (milli_mul k (milli_integral sz)) = milli_nat k * unat sz"
proof -
  have sz: "unat (sz * 1000) = unat sz * 1000"
    using assms(1) by (subst unat_mult_no_wrap) simp_all
  have p: "milli_nat k * (unat sz * 1000) < 2 ^ 128"
    using assms(2) by simp
  have "unat ((ucast (milli_u64 k) :: u128) * ucast (sz * 1000)) = milli_nat k * (unat sz * 1000)"
    using p by (subst unat_mult_no_wrap_u128) (simp_all only: unat_ucast_u128 sz milli_nat_def)
  then show ?thesis
    using assms(2) by (simp add: milli_mul_def milli_integral_def milli_nat_def Let_def unat_div_distrib
        unsigned_ucast_eq take_bit_nat_eq_self)
qed

text \<open>The sizes for which no intermediate value of \<open>estimate\<close> wraps.\<close>

definition fee_fits :: "LinearFee \<Rightarrow> u64 \<Rightarrow> bool" where
  "fee_fits p sz \<longleftrightarrow> unat sz * 1000 < 2 ^ 64 \<and>
     milli_nat (fee_constant p) + milli_nat (fee_coefficient p) * unat sz < 2 ^ 64"

lemma estimate_exact:
  assumes "fee_fits p sz"
  defines "n \<equiv> ceil_milli (milli_nat (fee_constant p) + milli_nat (fee_coefficient p) * unat sz)"
  shows "if n \<le> max_supply then \<exists>f. estimate p sz = Ok f \<and> amount (to_coin f) = n
     else \<exists>v. estimate p sz = Err (OutOfBound v)"
proof -
  let ?m = "milli_add (fee_constant p) (milli_mul (fee_coefficient p) (milli_integral sz))"
  have mul: "milli_nat (milli_mul (fee_coefficient p) (milli_integral sz)) =
      milli_nat (fee_coefficient p) * unat sz"
    using assms(1) by (intro milli_mul_integral) (auto simp: fee_fits_def)
  then have "milli_nat ?m = milli_nat (fee_constant p) + milli_nat (fee_coefficient p) * unat sz"
    using assms(1) unat_add_no_wrap [of "milli_u64 (fee_constant p)"]
    by (simp add: milli_add_def milli_nat_def fee_fits_def)
  then have "unat (to_integral ?m) = n"
    by (simp add: to_integral_ceil n_def)
  then show ?thesis
    by (auto simp: estimate_def Let_def coin_new_def MAX_COIN_def amount_def word_le_nat_alt)
qed

lemma fee_fits_mono: "fee_fits p n \<Longrightarrow> m \<le> n \<Longrightarrow> fee_fits p m"
  unfolding fee_fits_def word_le_nat_alt
  by (meson add_left_mono le_less_trans mult_le_mono1 mult_le_mono2)

section \<open>Fee policies\<close>

text \<open>
  The contract of the trait \<open>FeeAlgorithm\<close> that clients rely on: on the sizes a policy supports,
  a larger transaction never costs less.
\<close>

locale fee_algorithm =
  fixes calc :: "u64 \<Rightarrow> CoinError + Fee"
    and supports :: "u64 \<Rightarrow> bool"
  assumes supports_down: "\<lbrakk> supports n; m \<le> n \<rbrakk> \<Longrightarrow> supports m"
    and fee_mono: "\<lbrakk> supports n; m \<le> n; calc n = Ok b \<rbrakk> \<Longrightarrow>
      \<exists>a. calc m = Ok a \<and> to_coin a \<le> to_coin b"
begin

text \<open>A fee paid for an estimate covers every smaller transaction.\<close>

lemma paid_covers_smaller:
  "\<lbrakk> supports n; m \<le> n; calc n = Ok b; to_coin b \<le> paid \<rbrakk> \<Longrightarrow>
   \<exists>a. calc m = Ok a \<and> to_coin a \<le> paid"
  using fee_mono order_trans by blast

lemma fees_differ_sizes_differ:
  "\<lbrakk> supports n; supports m; calc n = Ok b; calc m = Ok a; to_coin a < to_coin b \<rbrakk> \<Longrightarrow> m < n"
  using fee_mono [of m n a] by (force simp: not_le [symmetric])

end

interpretation linear_fee: fee_algorithm "calculate_fee p" "fee_fits p" for p
proof
  show "fee_fits p m" if "fee_fits p n" "m \<le> n" for m n
    using that by (rule fee_fits_mono)
  fix m n b
  assume fits: "fee_fits p n" and le: "m \<le> n" and ok: "calculate_fee p n = Ok b"
  let ?f = "\<lambda>k. ceil_milli (milli_nat (fee_constant p) + milli_nat (fee_coefficient p) * unat k)"
  from le have "?f m \<le> ?f n"
    by (intro div_le_mono add_mono mult_le_mono) (simp_all add: word_le_nat_alt)
  moreover have "amount (to_coin b) = ?f n" "?f n \<le> max_supply"
    using estimate_exact [OF fits] ok by (auto simp: calculate_fee_def split: if_splits)
  ultimately show "\<exists>a. calculate_fee p m = Ok a \<and> to_coin a \<le> to_coin b"
    using estimate_exact [OF fee_fits_mono [OF fits le]]
    by (auto simp: calculate_fee_def coin_simps split: if_splits)
qed

section \<open>Properties\<close>

text \<open>
  C37: when no intermediate value wraps, the fee for a transaction of a given size is the constant
  plus the coefficient times the size, in thousandths, rounded up to base units; an estimate above
  the total supply is the out-of-bound error.
\<close>

theorem estimate_is_ceiling:
  "fee_fits p sz \<Longrightarrow>
   (let n = ceil_milli (milli_nat (fee_constant p) + milli_nat (fee_coefficient p) * unat sz)
    in if n \<le> max_supply then \<exists>f. estimate p sz = Ok f \<and> amount (to_coin f) = n
       else \<exists>v. estimate p sz = Err (OutOfBound v))"
  unfolding Let_def by (rule estimate_exact)

theorem estimate_is_ceiling_witness:
  "\<exists>f. estimate (linear_fee_new (Milli 1100) (Milli 1250)) 300 = Ok f \<and> amount (to_coin f) = 377"
  using estimate_is_ceiling [of "linear_fee_new (Milli 1100) (Milli 1250)" 300]
  by (simp add: fee_fits_def milli_nat_def linear_fee_new_def)

text \<open>
  A fee policy is monotone: a fee that pays for an estimated size also pays for the final
  transaction when that is not larger.
\<close>

theorem fee_covers_smaller:
  "\<lbrakk> fee_fits p n; m \<le> n; calculate_fee p n = Ok b; to_coin b \<le> paid \<rbrakk> \<Longrightarrow>
   \<exists>a. calculate_fee p m = Ok a \<and> to_coin a \<le> paid"
  by (rule linear_fee.paid_covers_smaller)

theorem fee_covers_smaller_witness:
  "\<exists>a. calculate_fee (linear_fee_new (Milli 1100) (Milli 1250)) 200 = Ok a \<and> to_coin a \<le> Coin 400"
  by (rule fee_covers_smaller [where n = 300 and b = "Fee (Coin 377)"])
    (simp_all add: fee_fits_def milli_nat_def linear_fee_new_def calculate_fee_def estimate_def
      milli_integral_def milli_mul_def milli_add_def to_integral_def coin_new_def MAX_COIN_def less_eq_Coin_def)

text \<open>
  The text \<open>i.f\<close> of two decimal numbers, with the fraction modulo one thousand, is read as
  \<open>i\<close> whole units and \<open>f\<close> thousandths; a text with no dot or more than one dot is rejected.
\<close>

theorem milli_from_str_parts:
  "milli_from_str (u64_to_string i @ ''.'' @ u64_to_string f) = Ok (Milli (i * 1000 + f mod 1000)) \<and>
   (count_list s (CHR ''.'') \<noteq> 1 \<longrightarrow>
      milli_from_str s = Err (InvalidPartsLength (count_list s (CHR ''.'') + 1)))"
  by (simp add: milli_from_str_def text_simps split_on_once milli_new_def Let_def length_split_on)

theorem milli_from_str_parts_witness:
  "milli_from_str ''12'' = Err (InvalidPartsLength 1)"
  using milli_from_str_parts [of 0 0 "''12''"] by simp

text \<open>
  The fraction is read as a number of thousandths whatever its number of digits: \<open>1.1\<close> is one unit
  and one thousandth, and of \<open>1.1234\<close> the leading digit is dropped.
\<close>

lemma milli_fraction_is_not_decimal:
  "milli_from_str ''1.1'' = Ok (Milli 1001)" "milli_from_str ''1.1234'' = Ok (Milli 1234)"
  by (simp_all add: milli_from_str_def milli_new_def parse_u64_def digit_of_def checked_mul_u64_def
      checked_add_u64_def)

end
