(* ===== verification/Merkle_Tree.thy ===== *)
theory Merkle_Tree
  imports Prelude
begin

text \<open>
  The generic Merkle tree with inclusion proofs (\<open>chain-core/src/common/merkle_tree.rs\<close>).  The
  Blake2s digest is the parameter \<open>D\<close> and \<open>AsRef<[u8]>\<close> of the value type the parameter \<open>as_ref\<close>.  The
  theory shows that the level-by-level construction keeps the values in order with a height of the
  rounded-up binary logarithm, that a proof can be generated exactly for the values whose leaf hash
  occurs and then verifies, that the root hash binds the values as long as the digest has no
  collision on what was hashed, and that verification does not look at the value of a proof.
\<close>

section \<open>Hashes\<close>

type_synonym digest = "bytes \<Rightarrow> H256"

definition HASH_SIZE_256 :: nat where "HASH_SIZE_256 = 32"

definition hash256 :: "digest \<Rightarrow> bytes \<Rightarrow> H256" where
  "hash256 D data = D data"

definition EMPTY_HASH :: H256 where
  "EMPTY_HASH = [227, 77, 116, 219, 175, 79, 244, 198, 171, 216, 113, 204, 34, 4, 81, 210, 234, 38,
     72, 132, 108, 119, 87, 251, 170, 200, 47, 229, 26, 214, 75, 234]"

datatype NodeType = LeafType | IntermediateType

definition prefix_with_byte :: "bytes \<Rightarrow> u8 \<Rightarrow> bytes" where
  "prefix_with_byte value prefix = prefix # value"

definition merkle_hash :: "digest \<Rightarrow> bytes \<Rightarrow> NodeType \<Rightarrow> H256" where
  "merkle_hash D value node_type = (case node_type of
     LeafType \<Rightarrow> hash256 D (prefix_with_byte value 0)
   | IntermediateType \<Rightarrow> hash256 D (prefix_with_byte value 1))"

definition combine :: "H256 \<Rightarrow> H256 \<Rightarrow> H512" where
  "combine left right = left @ right"

definition combined_hash :: "digest \<Rightarrow> H256 \<Rightarrow> H256 \<Rightarrow> H256" where
  "combined_hash D left right = merkle_hash D (combine left right) IntermediateType"

lemma merkle_hash_simps:
  "merkle_hash D b LeafType = D (0 # b)" "combined_hash D l r = D (1 # l @ r)"
  by (simp_all add: merkle_hash_def combined_hash_def combine_def hash256_def prefix_with_byte_def)

section \<open>Trees\<close>

datatype 'a Tree = Empty | Leaf H256 'a | Node H256 "'a Tree" "'a Tree"

definition tree_leaf :: "digest \<Rightarrow> ('a \<Rightarrow> bytes) \<Rightarrow> 'a \<Rightarrow> 'a Tree" where
  "tree_leaf D as_ref value = Leaf (merkle_hash D (as_ref value) LeafType) value"

primrec tree_hash :: "'a Tree \<Rightarrow> H256" where
  "tree_hash Empty = EMPTY_HASH"
| "tree_hash (Leaf hash value) = hash"
| "tree_hash (Node hash left right) = hash"

definition tree_node :: "digest \<Rightarrow> 'a Tree \<Rightarrow> 'a Tree \<Rightarrow> 'a Tree" where
  "tree_node D left right = Node (combined_hash D (tree_hash left) (tree_hash right)) left right"

datatype Sibling = Left H256 | Right H256

datatype Path = Path (node_hash: H256) (sibling: "Sibling option") (sub_path: "Path option")

primrec set_sibling :: "Path \<Rightarrow> Sibling \<Rightarrow> Path" where
  "set_sibling (Path h s p) s' = Path h (Some s') p"

primrec generate_path :: "digest \<Rightarrow> ('a \<Rightarrow> bytes) \<Rightarrow> 'a Tree \<Rightarrow> 'a \<Rightarrow> Path option" where
  "generate_path D as_ref Empty value = None"
| "generate_path D as_ref (Leaf hash v) value =
     (if merkle_hash D (as_ref value) LeafType = hash then Some (Path hash None None) else None)"
| "generate_path D as_ref (Node hash left right) value =
     (case generate_path D as_ref left value of
        None \<Rightarrow> map_option (\<lambda>path. Path hash None (Some (set_sibling path (Left (tree_hash left)))))
          (generate_path D as_ref right value)
      | Some path \<Rightarrow> Some (Path hash None (Some (set_sibling path (Right (tree_hash right))))))"

text \<open>The hash a path leads to: the sibling, if any, is combined on its side.\<close>

definition with_sibling :: "digest \<Rightarrow> Sibling \<Rightarrow> H256 \<Rightarrow> H256" where
  "with_sibling D s h = (case s of Left l \<Rightarrow> combined_hash D l h | Right r \<Rightarrow> combined_hash D h r)"

fun calculate_hash :: "digest \<Rightarrow> Path \<Rightarrow> H256 option" where
  "calculate_hash D (Path h s None) = (case s of
     None \<Rightarrow> Some h
   | Some sib \<Rightarrow> Some (with_sibling D sib h))"
| "calculate_hash D (Path h s (Some sub)) = (case s of
     None \<Rightarrow> calculate_hash D sub
   | Some sib \<Rightarrow> map_option (with_sibling D sib) (calculate_hash D sub))"

definition path_verify :: "digest \<Rightarrow> Path \<Rightarrow> bool" where
  "path_verify D p = (case calculate_hash D p of
     None \<Rightarrow> False
   | Some path_hash \<Rightarrow> path_hash = node_hash p)"

record 'a Proof =
  proof_root_hash :: H256
  proof_path :: Path
  proof_value :: 'a

definition proof_verify :: "digest \<Rightarrow> 'a Proof \<Rightarrow> H256 \<Rightarrow> bool" where
  "proof_verify D p root_hash \<longleftrightarrow>
     root_hash = proof_root_hash p \<and> root_hash = node_hash (proof_path p) \<and> path_verify D (proof_path p)"

section \<open>Construction\<close>

record 'a MerkleTree =
  mt_tree :: "'a Tree"
  mt_len :: u64
  mt_height :: u64

definition merkle_empty :: "'a MerkleTree" where
  "merkle_empty = \<lparr> mt_tree = Empty, mt_len = 0, mt_height = 0 \<rparr>"

text \<open>The items \<open>PairIter\<close> yields: consecutive pairs, the last one without a partner when the number is odd.\<close>

fun pair_iter :: "'a list \<Rightarrow> ('a \<times> 'a option) list" where
  "pair_iter [] = []"
| "pair_iter [x] = [(x, None)]"
| "pair_iter (x # y # rest) = (x, Some y) # pair_iter rest"

definition next_level :: "digest \<Rightarrow> 'a Tree list \<Rightarrow> 'a Tree list" where
  "next_level D trees = map (\<lambda>(left, right). case right of
     None \<Rightarrow> left
   | Some r \<Rightarrow> tree_node D left r) (pair_iter trees)"

lemma length_pair_iter: "length (pair_iter xs) = (length xs + 1) div 2"
  by (induction xs rule: pair_iter.induct) auto

lemma length_next_level: "length (next_level D ts) = (length ts + 1) div 2"
  by (simp add: next_level_def length_pair_iter)

function build_levels :: "digest \<Rightarrow> 'a Tree list \<Rightarrow> nat \<Rightarrow> 'a Tree list \<times> nat" where
  "build_levels D trees height =
     (if 1 < length trees then build_levels D (next_level D trees) (height + 1) else (trees, height))"
  by pat_completeness auto
termination by (relation "measure (\<lambda>(D, ts, h). length ts)") (auto simp: length_next_level)

declare build_levels.simps [simp del]

definition merkle_new :: "digest \<Rightarrow> ('a \<Rightarrow> bytes) \<Rightarrow> 'a list \<Rightarrow> 'a MerkleTree" where
  "merkle_new D as_ref values =
     (if values = [] then merkle_empty
      else let len = length values;
               (trees, height) = build_levels D (map (tree_leaf D as_ref) values) 0
           in \<lparr> mt_tree = hd trees, mt_len = of_nat len, mt_height = of_nat height \<rparr>)"

definition root_hash :: "'a MerkleTree \<Rightarrow> H256" where
  "root_hash m = tree_hash (mt_tree m)"

definition merkle_is_empty :: "'a MerkleTree \<Rightarrow> bool" where
  "merkle_is_empty m \<longleftrightarrow> 0 = mt_len m"

definition generate_proof :: "digest \<Rightarrow> ('a \<Rightarrow> bytes) \<Rightarrow> 'a MerkleTree \<Rightarrow> 'a \<Rightarrow> 'a Proof option" where
  "generate_proof D as_ref m value =
     map_option (\<lambda>path. \<lparr> proof_root_hash = root_hash m, proof_path = path, proof_value = value \<rparr>)
       (generate_path D as_ref (mt_tree m) value)"

section \<open>The values of a tree\<close>

primrec leaves :: "'a Tree \<Rightarrow> 'a list" where
  "leaves Empty = []"
| "leaves (Leaf h v) = [v]"
| "leaves (Node h l r) = leaves l @ leaves r"

primrec depth :: "'a Tree \<Rightarrow> nat" where
  "depth Empty = 0"
| "depth (Leaf h v) = 0"
| "depth (Node h l r) = Suc (max (depth l) (depth r))"

text \<open>Every stored hash is the hash of the content, and inner nodes have no empty child.\<close>

primrec tree_wf :: "digest \<Rightarrow> ('a \<Rightarrow> bytes) \<Rightarrow> 'a Tree \<Rightarrow> bool" where
  "tree_wf D as_ref Empty \<longleftrightarrow> True"
| "tree_wf D as_ref (Leaf h v) \<longleftrightarrow> h = merkle_hash D (as_ref v) LeafType"
| "tree_wf D as_ref (Node h l r) \<longleftrightarrow> h = combined_hash D (tree_hash l) (tree_hash r) \<and>
     l \<noteq> Empty \<and> r \<noteq> Empty \<and> tree_wf D as_ref l \<and> tree_wf D as_ref r"

definition forest_wf :: "digest \<Rightarrow> ('a \<Rightarrow> bytes) \<Rightarrow> 'a Tree list \<Rightarrow> bool" where
  "forest_wf D as_ref ts \<longleftrightarrow> (\<forall>t \<in> set ts. t \<noteq> Empty \<and> tree_wf D as_ref t)"

lemma next_level_simps:
  "next_level D [] = []" "next_level D [t] = [t]"
  "next_level D (l # r # ts) = tree_node D l r # next_level D ts"
  by (simp_all add: next_level_def)

lemma next_level_leaves: "concat (map leaves (next_level D ts)) = concat (map leaves ts)"
  by (induction ts rule: pair_iter.induct) (auto simp: next_level_simps tree_node_def)

lemma next_level_wf: "forest_wf D as_ref ts \<Longrightarrow> forest_wf D as_ref (next_level D ts)"
proof (induction ts rule: pair_iter.induct)
  case 1 then show ?case by (simp add: next_level_simps)
next
  case (2 x) then show ?case by (simp add: next_level_simps)
next
  case (3 x y rest)
  have "forest_wf D as_ref rest" using 3(2) unfolding forest_wf_def by simp
  then have "forest_wf D as_ref (next_level D rest)" by (rule 3(1))
  with 3(2) show ?case unfolding next_level_simps(3) forest_wf_def tree_node_def by simp
qed

text \<open>What the construction loop promises, for every starting level.\<close>

lemma build_levels_spec:
  assumes "ts \<noteq> []" "forest_wf D as_ref ts"
  shows "\<exists>t k. build_levels D ts h = ([t], h + k) \<and> leaves t = concat (map leaves ts) \<and>
    t \<noteq> Empty \<and> tree_wf D as_ref t \<and> length ts \<le> 2 ^ k \<and> (0 < k \<longrightarrow> 2 ^ (k - 1) < length ts)"
  using assms
proof (induction D ts h rule: build_levels.induct)
  case (1 D ts h)
  show ?case
  proof (cases "1 < length ts")
    case True
    let ?n = "next_level D ts"
    have "?n \<noteq> []" using True length_next_level [of D ts] by auto
    with "1.IH" [OF True] next_level_wf [OF "1.prems"(2)] obtain t k where
      b: "build_levels D ?n (h + 1) = ([t], h + 1 + k)" "leaves t = concat (map leaves ?n)"
        "t \<noteq> Empty" "tree_wf D as_ref t" and
      k: "(length ts + 1) div 2 \<le> 2 ^ k" "0 < k \<longrightarrow> 2 ^ (k - 1) < (length ts + 1) div 2"
      unfolding length_next_level by blast
    from k(1) have "length ts \<le> 2 ^ Suc k" by simp
    moreover have "2 ^ k < length ts"
      using True k(2) by (cases k) auto
    moreover have "build_levels D ts h = ([t], h + Suc k)"
      using b(1) True by (subst build_levels.simps) simp
    ultimately show ?thesis
      using b(2-4) by (intro exI [of _ t] exI [of _ "Suc k"]) (simp add: next_level_leaves)
  next
    case False
    then obtain t where "ts = [t]" using "1.prems"(1) by (cases ts) auto
    then show ?thesis
      using "1.prems"(2) by (subst build_levels.simps) (auto simp: forest_wf_def intro!: exI [of _ 0])
  qed
qed

lemma merkle_new_spec:
  assumes "vs \<noteq> []"
  shows "\<exists>k. leaves (mt_tree (merkle_new D as_ref vs)) = vs \<and>
    mt_tree (merkle_new D as_ref vs) \<noteq> Empty \<and> tree_wf D as_ref (mt_tree (merkle_new D as_ref vs)) \<and>
    mt_len (merkle_new D as_ref vs) = of_nat (length vs) \<and>
    mt_height (merkle_new D as_ref vs) = of_nat k \<and>
    length vs \<le> 2 ^ k \<and> (0 < k \<longrightarrow> 2 ^ (k - 1) < length vs)"
proof -
  let ?ts = "map (tree_leaf D as_ref) vs"
  have "forest_wf D as_ref ?ts" by (auto simp: forest_wf_def tree_leaf_def)
  moreover have "?ts \<noteq> []" using assms by simp
  ultimately obtain t k where "build_levels D ?ts 0 = ([t], 0 + k)"
    "leaves t = concat (map leaves ?ts)" "t \<noteq> Empty" "tree_wf D as_ref t"
    "length ?ts \<le> 2 ^ k" "0 < k \<longrightarrow> 2 ^ (k - 1) < length ?ts"
    using build_levels_spec [of ?ts D as_ref 0] by blast
  moreover have "concat (map leaves ?ts) = vs"
    by (induction vs) (auto simp: tree_leaf_def)
  ultimately show ?thesis
    using assms by (intro exI [of _ k]) (auto simp: merkle_new_def)
qed

lemma merkle_new_leaves [simp]: "leaves (mt_tree (merkle_new D as_ref vs)) = vs"
  using merkle_new_spec [of vs D as_ref] by (cases "vs = []") (auto simp: merkle_new_def merkle_empty_def)

lemma merkle_new_wf [simp]: "tree_wf D as_ref (mt_tree (merkle_new D as_ref vs))"
  using merkle_new_spec [of vs D as_ref] by (cases "vs = []") (auto simp: merkle_new_def merkle_empty_def)

lemma merkle_new_Empty_iff [simp]: "mt_tree (merkle_new D as_ref vs) = Empty \<longleftrightarrow> vs = []"
  using merkle_new_spec [of vs D as_ref] by (cases "vs = []") (auto simp: merkle_new_def merkle_empty_def)

section \<open>Inclusion proofs\<close>

lemma generate_path_None_iff:
  "tree_wf D as_ref t \<Longrightarrow> generate_path D as_ref t v = None \<longleftrightarrow>
   merkle_hash D (as_ref v) LeafType \<notin> (\<lambda>w. merkle_hash D (as_ref w) LeafType) ` set (leaves t)"
  by (induction t) (auto split: option.splits)

lemma calculate_hash_set_sibling:
  "calculate_hash D (Path h None q) = Some k \<Longrightarrow>
   calculate_hash D (set_sibling (Path h None q) s) = Some (with_sibling D s k)"
  by (cases q) auto

lemmas calculate_hash_set_sibling' = calculate_hash_set_sibling [unfolded set_sibling.simps]

text \<open>A generated path carries the hash of the tree on top and recomputes it from the leaf.\<close>

lemma generate_path_hash:
  "\<lbrakk> tree_wf D as_ref t; generate_path D as_ref t v = Some p \<rbrakk> \<Longrightarrow>
   node_hash p = tree_hash t \<and> sibling p = None \<and> calculate_hash D p = Some (tree_hash t)"
proof (induction t arbitrary: p)
  case (Node h l r)
  have step: "calculate_hash D (Path h None (Some (set_sibling q s))) = Some (with_sibling D s k)"
    if "sibling q = None" "calculate_hash D q = Some k" for q s k
    using that by (cases q) (simp add: calculate_hash_set_sibling')
  show ?case
  proof (cases "generate_path D as_ref l v")
    case (Some q)
    then show ?thesis
      using Node.IH(1) [OF _ Some] Node.prems step [of q "tree_hash l" "Right (tree_hash r)"]
      by (auto simp: with_sibling_def)
  next
    case None
    then obtain q where q: "generate_path D as_ref r v = Some q"
      using Node.prems by auto
    then show ?thesis
      using Node.IH(2) [OF _ q] Node.prems None step [of q "tree_hash r" "Left (tree_hash l)"]
      by (auto simp: with_sibling_def)
  qed
qed (auto split: if_splits)

lemma generate_proof_verifies:
  "generate_proof D as_ref (merkle_new D as_ref vs) v = Some p \<Longrightarrow>
   proof_verify D p (root_hash (merkle_new D as_ref vs)) \<and> proof_value p = v"
  using generate_path_hash [OF merkle_new_wf [of D as_ref vs]]
  by (auto simp: generate_proof_def proof_verify_def path_verify_def root_hash_def)

section \<open>The root binds the values\<close>

text \<open>The byte strings hashed while a tree is built.\<close>

primrec hashed :: "('a \<Rightarrow> bytes) \<Rightarrow> 'a Tree \<Rightarrow> bytes set" where
  "hashed as_ref Empty = {[0]}"
| "hashed as_ref (Leaf h v) = {0 # as_ref v}"
| "hashed as_ref (Node h l r) =
     insert (1 # tree_hash l @ tree_hash r) (hashed as_ref l \<union> hashed as_ref r)"

lemma tree_hash_digest:
  "\<lbrakk> tree_wf D as_ref t; D [0] = EMPTY_HASH \<rbrakk> \<Longrightarrow>
   \<exists>b \<in> hashed as_ref t. tree_hash t = D b \<and> (hd b = 1 \<longleftrightarrow> (\<exists>h l r. t = Node h l r))"
  by (cases t) (auto simp: merkle_hash_simps)

lemma tree_hash_length:
  assumes "tree_wf D as_ref t" "D [0] = EMPTY_HASH" "\<And>b. length (D b) = HASH_SIZE_256"
  shows "length (tree_hash t) = HASH_SIZE_256"
  using tree_hash_digest [OF assms(1,2)] assms(3) by auto

lemma tree_hash_binds:
  assumes "D [0] = EMPTY_HASH" "\<And>b. length (D b) = HASH_SIZE_256"
    and "tree_wf D as_ref t" "tree_wf D as_ref u" "[] \<notin> as_ref ` (set (leaves t) \<union> set (leaves u))"
    and "inj_on D (hashed as_ref t \<union> hashed as_ref u)" "tree_hash t = tree_hash u"
  shows "map as_ref (leaves t) = map as_ref (leaves u)"
  using assms(3-7)
proof (induction t arbitrary: u)
  case Empty
  note inj = inj_onD [OF Empty(4)]
  from Empty show ?case
    using assms(1) inj [of "[0]"] by (cases u) (force simp: merkle_hash_simps)+
next
  case (Leaf h v)
  note inj = inj_onD [OF Leaf(4)]
  from Leaf show ?case
    using assms(1) inj [of "0 # as_ref v"] by (cases u) (force simp: merkle_hash_simps)+
next
  case (Node h l r)
  let ?b = "1 # tree_hash l @ tree_hash r"
  note inj = inj_onD [OF Node.prems(4)]
  have h: "tree_hash u = D ?b" using Node.prems by (simp add: merkle_hash_simps)
  show ?case
  proof (cases u)
    case u: (Node h' l' r')
    then have "tree_hash l @ tree_hash r = tree_hash l' @ tree_hash r'"
      using inj [of ?b "1 # tree_hash l' @ tree_hash r'"] h Node.prems(2) by (simp add: merkle_hash_simps)
    moreover have "length (tree_hash l) = HASH_SIZE_256" "length (tree_hash l') = HASH_SIZE_256"
      using Node.prems(1,2) u by (auto intro!: tree_hash_length [of D as_ref, OF _ assms(1,2)])
    ultimately have "tree_hash l = tree_hash l'" "tree_hash r = tree_hash r'" by simp_all
    moreover have "inj_on D (hashed as_ref l \<union> hashed as_ref l')"
      "inj_on D (hashed as_ref r \<union> hashed as_ref r')"
      by (rule inj_on_subset [OF Node.prems(4)], use u in auto)+
    ultimately show ?thesis
      using Node.IH(1) [of l'] Node.IH(2) [of r'] Node.prems(1-3) u by (simp add: image_Un)
  next
    case Empty
    then show ?thesis using inj [of ?b "[0]"] h assms(1) by simp
  next
    case (Leaf h' v)
    then show ?thesis
      using inj [of ?b "0 # as_ref v"] h Node.prems(2) by (simp add: merkle_hash_simps)
  qed
qed

lemma merkle_root_binds:
  assumes "D [0] = EMPTY_HASH" "\<And>b. length (D b) = HASH_SIZE_256"
    and "inj_on D (hashed as_ref (mt_tree (merkle_new D as_ref vs)) \<union>
      hashed as_ref (mt_tree (merkle_new D as_ref ws)))"
    and "[] \<notin> as_ref ` (set vs \<union> set ws)"
    and "root_hash (merkle_new D as_ref vs) = root_hash (merkle_new D as_ref ws)"
  shows "map as_ref vs = map as_ref ws"
  using tree_hash_binds [OF assms(1,2) merkle_new_wf merkle_new_wf _ assms(3)] assms(4,5)
  by (simp add: root_hash_def)

section \<open>Properties\<close>

text \<open>
  C30: a tree built from a list of values has exactly these values as leaves in their order, stores
  the right hash in every node, and its recorded height is the least \<open>k\<close> with the number of values
  at most \<open>2 ^ k\<close>; the empty list gives the empty tree.
\<close>

theorem merkle_new_correct:
  "\<exists>k. leaves (mt_tree (merkle_new D as_ref vs)) = vs \<and>
    tree_wf D as_ref (mt_tree (merkle_new D as_ref vs)) \<and>
    mt_len (merkle_new D as_ref vs) = of_nat (length vs) \<and>
    mt_height (merkle_new D as_ref vs) = of_nat k \<and>
    (if vs = [] then k = 0 else k = (LEAST j. length vs \<le> 2 ^ j))"
proof (cases "vs = []")
  case False
  then obtain k where k: "leaves (mt_tree (merkle_new D as_ref vs)) = vs"
    "tree_wf D as_ref (mt_tree (merkle_new D as_ref vs))"
    "mt_len (merkle_new D as_ref vs) = of_nat (length vs)"
    "mt_height (merkle_new D as_ref vs) = of_nat k"
    "length vs \<le> 2 ^ k" "0 < k \<longrightarrow> 2 ^ (k - 1) < length vs"
    using merkle_new_spec [of vs D as_ref] by blast
  have "k \<le> j" if "length vs \<le> 2 ^ j" for j
  proof (rule ccontr)
    assume "\<not> k \<le> j"
    then have "(2 :: nat) ^ j \<le> 2 ^ (k - 1)" by (intro power_increasing) auto
    moreover have "2 ^ (k - 1) < length vs" using k(6) \<open>\<not> k \<le> j\<close> by simp
    ultimately show False using that by linarith
  qed
  with k(5) have "(LEAST j. length vs \<le> 2 ^ j) = k" by (intro Least_equality)
  with k False show ?thesis by auto
qed (simp add: merkle_new_def merkle_empty_def)

text \<open>
  An inclusion proof is generated exactly when some value of the tree has the leaf hash of the
  requested one; in particular every value of the tree has a proof, and a generated proof verifies
  against the root hash and carries the value.
\<close>

theorem inclusion_proof_complete:
  "(generate_proof D as_ref (merkle_new D as_ref vs) v = None \<longleftrightarrow>
      merkle_hash D (as_ref v) LeafType \<notin> (\<lambda>w. merkle_hash D (as_ref w) LeafType) ` set vs) \<and>
   (v \<in> set vs \<longrightarrow>
      (\<exists>p. generate_proof D as_ref (merkle_new D as_ref vs) v = Some p \<and> proof_value p = v \<and>
        proof_verify D p (root_hash (merkle_new D as_ref vs))))"
  using generate_path_None_iff [of D as_ref "mt_tree (merkle_new D as_ref vs)" v]
    generate_proof_verifies [of D as_ref vs v]
  by (cases "generate_proof D as_ref (merkle_new D as_ref vs) v") (auto simp: generate_proof_def)

theorem inclusion_proof_complete_witness:
  "\<exists>p. generate_proof (\<lambda>b. take 32 (b @ replicate 32 0)) id
      (merkle_new (\<lambda>b. take 32 (b @ replicate 32 0)) id [[1], [2], [3]]) [3] = Some p \<and>
    proof_value p = [3] \<and>
    proof_verify (\<lambda>b. take 32 (b @ replicate 32 0)) p
      (root_hash (merkle_new (\<lambda>b. take 32 (b @ replicate 32 0)) id [[1], [2], [3]]))"
proof -
  have "[3 :: u8] \<in> set [[1], [2], [3]]" by simp
  with inclusion_proof_complete [of "\<lambda>b. take 32 (b @ replicate 32 0)" id "[[1], [2], [3]]" "[3]"]
  show ?thesis by blast
qed

text \<open>
  C31: the root hash binds the values.  When the digest gives 32 bytes, the constant for the empty
  tree is the digest of the lone leaf prefix, and no two of the byte strings hashed for the two trees
  collide, equal roots mean equal lists of (non-empty) values.
\<close>

theorem root_hash_binding:
  assumes "D [0] = EMPTY_HASH" "\<And>b. length (D b) = HASH_SIZE_256"
    and "inj_on D (hashed as_ref (mt_tree (merkle_new D as_ref vs)) \<union>
      hashed as_ref (mt_tree (merkle_new D as_ref ws)))"
    and "[] \<notin> as_ref ` (set vs \<union> set ws)"
    and "root_hash (merkle_new D as_ref vs) = root_hash (merkle_new D as_ref ws)"
  shows "map as_ref vs = map as_ref ws"
  using assms by (rule merkle_root_binds)

text \<open>
  A digest of 32 bytes for concrete runs: it pads and cuts, appends length and sum, and gives the
  empty tree its constant.
\<close>

definition sample_digest :: digest where
  "sample_digest b =
     (if b = [0] then EMPTY_HASH
      else take 30 (b @ replicate 30 0) @ [of_nat (length b), sum_list b])"

lemma sample_digest_laws: "sample_digest [0] = EMPTY_HASH" "length (sample_digest b) = HASH_SIZE_256"
proof -
  show "sample_digest [0] = EMPTY_HASH" by (simp only: sample_digest_def simp_thms if_True)
  have e: "length EMPTY_HASH = HASH_SIZE_256" unfolding EMPTY_HASH_def HASH_SIZE_256_def by simp
  have t: "length (take 30 (b @ replicate 30 0)) = 30"
    by (rule length_take [THEN trans]) simp
  have u: "length (take 30 (b @ replicate 30 0) @ [of_nat (length b), sum_list b]) = HASH_SIZE_256"
    by (simp only: length_append t) (simp add: HASH_SIZE_256_def)
  show "length (sample_digest b) = HASH_SIZE_256"
    unfolding sample_digest_def using e u by (cases "b = [0]") (simp_all only: if_True if_False simp_thms)
qed

text \<open>The last two bytes tell most inputs apart.\<close>

definition digest_tail :: "bytes \<Rightarrow> u8 \<times> u8" where
  "digest_tail d = (d ! 30, d ! 31)"

lemma digest_tail_append: "length xs = 30 \<Longrightarrow> digest_tail (xs @ [a, b]) = (a, b)"
  by (simp add: digest_tail_def nth_append)

lemma sample_digest_tail:
  "b \<noteq> [0] \<Longrightarrow> digest_tail (sample_digest b) = (of_nat (length b), sum_list b)"
  by (subst sample_digest_def, subst if_not_P, assumption, rule digest_tail_append,
      rule length_take [THEN trans]) simp

lemma sample_digest_inj:
  assumes "distinct (map (\<lambda>b. digest_tail (sample_digest b)) bs)"
  shows "inj_on sample_digest (set bs)"
proof (rule inj_onI)
  fix x y
  assume "x \<in> set bs" "y \<in> set bs" "sample_digest x = sample_digest y"
  with inj_onD [of "\<lambda>b. digest_tail (sample_digest b)" "set bs" x y] assms show "x = y"
    by (simp only: distinct_map simp_thms)
qed

theorem root_hash_binding_witness:
  "root_hash (merkle_new sample_digest (\<lambda>n. [n]) [1 :: u8]) \<noteq>
   root_hash (merkle_new sample_digest (\<lambda>n. [n]) [2])"
proof
  let ?D = "sample_digest" and ?r = "\<lambda>n :: u8. [n]"
  have t1: "mt_tree (merkle_new ?D ?r [v]) = tree_leaf ?D ?r v" for v
    by (simp add: merkle_new_def build_levels.simps)
  assume eq: "root_hash (merkle_new ?D ?r [1]) = root_hash (merkle_new ?D ?r [2])"
  have "inj_on ?D (set [[0, 1], [0, 2]])"
    by (rule sample_digest_inj) (simp add: sample_digest_tail)
  then have "inj_on ?D (hashed ?r (mt_tree (merkle_new ?D ?r [1])) \<union>
      hashed ?r (mt_tree (merkle_new ?D ?r [2])))"
    unfolding t1 tree_leaf_def by (rule inj_on_subset) simp
  from root_hash_binding [OF sample_digest_laws this _ eq] show False by simp
qed

text \<open>
  Verification of an inclusion proof does not depend on the value it carries, and a one-node
  path holding the root itself is accepted: for every root and every value there is a proof that
  verifies.
\<close>

theorem proof_verify_ignores_value:
  "proof_verify D (p\<lparr> proof_value := v \<rparr>) root = proof_verify D p root \<and>
   proof_verify D \<lparr> proof_root_hash = root, proof_path = Path root None None, proof_value = v \<rparr> root"
  by (simp add: proof_verify_def path_verify_def)

end
