(* ===== verification/Address.thy ===== *)
theory Address
  imports Prelude
begin

text \<open>
  The chosen network (\<open>chain-core/src/init/network.rs\<close>), Ethereum-style addresses
  (\<open>init/address.rs\<close>) and transfer addresses (\<open>tx/data/address.rs\<close>) with their textual forms.  The
  hexadecimal, bech32 and base64 libraries are the parameter \<open>TextLib\<close>; \<open>text_laws\<close> states the
  documented round trips the code relies on.  The theory shows that the textual forms are read back,
  that an address of another network is refused, that the network is fixed by its first
  initialisation, and on which texts the parser of transfer addresses panics.
\<close>

section \<open>Text libraries\<close>

record TextLib =
  hex_encode :: "bytes \<Rightarrow> string"
  hex_decode :: "string \<Rightarrow> string + bytes"
  to_base32 :: "bytes \<Rightarrow> nat list"
  from_base32 :: "nat list \<Rightarrow> bytes option"
  bech32_encode :: "string \<Rightarrow> nat list \<Rightarrow> string option"
  bech32_decode :: "string \<Rightarrow> string + string \<times> nat list"
  base64_decode :: "string \<Rightarrow> bytes option"

definition hex_laws :: "TextLib \<Rightarrow> bool" where
  "hex_laws L \<longleftrightarrow> (\<forall>b. hex_decode L (hex_encode L b) = Ok b)"

section \<open>The network\<close>

datatype Network = Mainnet | Testnet | Devnet

definition TESTNET_CHAIN_ID :: string where
  "TESTNET_CHAIN_ID = ''testnet-thaler-crypto-com-chain-42''"

definition MAINNET_CHAIN_ID :: string where
  "MAINNET_CHAIN_ID = ''mainnet-crypto-com-chain-2A''"

text \<open>The two mutable statics and the two \<open>Once\<close> cells that guard them.\<close>

record NetworkState =
  NETWORK :: Network
  NETWORK_ID :: u8
  INIT_NETWORK :: bool
  INIT_NETWORK_ID :: bool

definition network_start :: NetworkState where
  "network_start = \<lparr> NETWORK = Devnet, NETWORK_ID = 0, INIT_NETWORK = False, INIT_NETWORK_ID = False \<rparr>"

definition init_network :: "Network \<Rightarrow> NetworkState \<Rightarrow> NetworkState" where
  "init_network n s = (if INIT_NETWORK s then s else s\<lparr> NETWORK := n, INIT_NETWORK := True \<rparr>)"

definition init_network_id :: "u8 \<Rightarrow> NetworkState \<Rightarrow> NetworkState" where
  "init_network_id i s = (if INIT_NETWORK_ID s then s else s\<lparr> NETWORK_ID := i, INIT_NETWORK_ID := True \<rparr>)"

definition init_chain_id :: "TextLib \<Rightarrow> string \<Rightarrow> NetworkState \<Rightarrow> panic + NetworkState" where
  "init_chain_id L chain_id s =
     (if length chain_id < 6 then Err (Panic ''assertion failed: chain_id.len() >= 6'')
      else try_bind (expect ''last two characters should be hex digits''
             (hex_decode L (drop (length chain_id - 2) chain_id))) (\<lambda>hexvalue.
           if length hexvalue \<noteq> 1 then Err (Panic ''assertion failed: 1 == hexvalue.len()'')
           else let s = init_network_id (hexvalue ! 0) s
                in Ok (if chain_id = MAINNET_CHAIN_ID then init_network Mainnet s
                       else if chain_id = TESTNET_CHAIN_ID then init_network Testnet s
                       else init_network Devnet s)))"

definition get_bech32_human_part :: "NetworkState \<Rightarrow> string" where
  "get_bech32_human_part s = (case NETWORK s of
     Mainnet \<Rightarrow> ''cro'' | Testnet \<Rightarrow> ''tcro'' | Devnet \<Rightarrow> ''dcro'')"

definition bech32_laws :: "TextLib \<Rightarrow> bool" where
  "bech32_laws L \<longleftrightarrow> (\<forall>b. from_base32 L (to_base32 L b) = Some b) \<and>
     (\<forall>n b. \<exists>s. bech32_encode L (get_bech32_human_part n) (to_base32 L b) = Some s \<and>
        bech32_decode L s = Ok (get_bech32_human_part n, to_base32 L b))"

lemma bech32_laws_obtain:
  assumes "bech32_laws L"
  obtains s where "bech32_encode L (get_bech32_human_part n) (to_base32 L b) = Some s"
    "bech32_decode L s = Ok (get_bech32_human_part n, to_base32 L b)"
    "from_base32 L (to_base32 L b) = Some b"
  using assms unfolding bech32_laws_def by blast

section \<open>Redeem addresses\<close>

definition REDEEM_ADDRESS_BYTES :: nat where "REDEEM_ADDRESS_BYTES = 20"

datatype RedeemAddress = RedeemAddress (redeem_raw: bytes)

text \<open>The derived \<open>Ord\<close> compares the arrays lexicographically.\<close>

instantiation RedeemAddress :: linorder
begin

definition less_eq_RedeemAddress :: "RedeemAddress \<Rightarrow> RedeemAddress \<Rightarrow> bool" where
  "less_eq_RedeemAddress a b \<longleftrightarrow> redeem_raw a \<le> redeem_raw b"

definition less_RedeemAddress :: "RedeemAddress \<Rightarrow> RedeemAddress \<Rightarrow> bool" where
  "less_RedeemAddress a b \<longleftrightarrow> redeem_raw a < redeem_raw b"

instance
  by standard (auto simp: less_eq_RedeemAddress_def less_RedeemAddress_def intro: RedeemAddress.expand)

end

datatype ErrorAddress =
    InvalidLength nat
  | InvalidHexLength string
  | UnexpectedHexEncoding string
  | EcdsaCryptoAddress
  | InvalidCroAddress

datatype CroAddressError = Bech32Error string | InvalidNetwork | ConvertError

definition redeem_try_from :: "bytes \<Rightarrow> ErrorAddress + RedeemAddress" where
  "redeem_try_from data =
     (if length data \<noteq> REDEEM_ADDRESS_BYTES then Err (InvalidLength (length data))
      else Ok (RedeemAddress data))"

definition redeem_default :: RedeemAddress where
  "redeem_default = RedeemAddress (replicate REDEEM_ADDRESS_BYTES 0)"

text \<open>The last twenty bytes of the Keccak hash of the uncompressed key without its first byte.\<close>

definition redeem_from_pk :: "(bytes \<Rightarrow> H256) \<Rightarrow> ('pk \<Rightarrow> bytes) \<Rightarrow> 'pk \<Rightarrow> RedeemAddress" where
  "redeem_from_pk keccak256 serialize_uncompressed pk =
     (let hash = keccak256 (drop 1 (serialize_uncompressed pk)) in RedeemAddress (drop 12 hash))"

definition redeem_from_str :: "TextLib \<Rightarrow> string \<Rightarrow> ErrorAddress + RedeemAddress" where
  "redeem_from_str L s =
     (if length s \<noteq> REDEEM_ADDRESS_BYTES * 2 \<and> take 2 s \<noteq> ''0x'' then Err (InvalidHexLength s)
      else let value = (if take 2 s = ''0x'' then drop 2 s else s)
           in try_bind (map_err UnexpectedHexEncoding (hex_decode L value)) redeem_try_from)"

definition redeem_display :: "TextLib \<Rightarrow> RedeemAddress \<Rightarrow> string" where
  "redeem_display L a = ''0x'' @ hex_encode L (redeem_raw a)"

definition redeem_to_cro :: "TextLib \<Rightarrow> NetworkState \<Rightarrow> RedeemAddress \<Rightarrow> panic + string" where
  "redeem_to_cro L n a =
     expect_some ''bech32 crms encoding''
       (bech32_encode L (get_bech32_human_part n) (to_base32 L (redeem_raw a)))"

definition redeem_from_cro :: "TextLib \<Rightarrow> NetworkState \<Rightarrow> string \<Rightarrow> CroAddressError + RedeemAddress" where
  "redeem_from_cro L n encoded =
     try_bind (map_err Bech32Error (bech32_decode L encoded)) (\<lambda>(human_part, u5_bytes).
     if human_part \<noteq> get_bech32_human_part n then Err InvalidNetwork
     else try_bind (ok_or ConvertError (from_base32 L u5_bytes)) (\<lambda>bytes.
          map_err (\<lambda>_. ConvertError) (redeem_try_from bytes)))"

section \<open>Transfer addresses\<close>

datatype ExtendedAddr = OrTree H256

definition extended_to_cro :: "TextLib \<Rightarrow> NetworkState \<Rightarrow> ExtendedAddr \<Rightarrow> panic + string" where
  "extended_to_cro L n a = (case a of OrTree hash \<Rightarrow>
     expect_some ''bech32 should be successful in ExtendedAddr get_string''
       (bech32_encode L (get_bech32_human_part n) (to_base32 L hash)))"

text \<open>
  \<open>copy_from_slice\<close> into the array of 32 bytes panics on every other length; the human-readable part is
  decoded but not looked at.
\<close>

definition extended_from_cro :: "TextLib \<Rightarrow> string \<Rightarrow> (CroAddressError, ExtendedAddr) exec" where
  "extended_from_cro L encoded =
     exec_bind (Ok (map_err Bech32Error (bech32_decode L encoded))) (\<lambda>a.
     exec_bind (Ok (ok_or ConvertError (from_base32 L (snd a)))) (\<lambda>src.
     if length src \<noteq> 32
     then Err (Panic ''source slice length does not match destination slice length'')
     else Ok (Ok (OrTree src))))"

definition extended_from_str :: "TextLib \<Rightarrow> string \<Rightarrow> (CroAddressError, ExtendedAddr) exec" where
  "extended_from_str L s = try_bind (extended_from_cro L s) (\<lambda>r. Ok (map_err (\<lambda>_. ConvertError) r))"

section \<open>Concrete text libraries for evaluation\<close>

text \<open>Two characters per byte, and a separator after the human-readable part, suffice for the laws.\<close>

fun pairs_decode :: "string \<Rightarrow> string + bytes" where
  "pairs_decode [] = Ok []"
| "pairs_decode [c] = Err ''Odd number of digits''"
| "pairs_decode (c # d # rest) =
     try_bind (pairs_decode rest) (\<lambda>bs. Ok (of_nat (of_char c * 16 + of_char d) # bs))"

definition pairs_encode :: "bytes \<Rightarrow> string" where
  "pairs_encode bs = concat (map (\<lambda>b. [char_of (unat b div 16), char_of (unat b mod 16)]) bs)"

definition sample_text :: TextLib where
  "sample_text = \<lparr>
     hex_encode = pairs_encode,
     hex_decode = pairs_decode,
     to_base32 = map unat,
     from_base32 = (\<lambda>ns. Some (map of_nat ns)),
     bech32_encode = (\<lambda>h d. Some (h @ ''1'' @ map char_of d)),
     bech32_decode = (\<lambda>s. Ok (takeWhile (\<lambda>c. c \<noteq> CHR ''1'') s,
        map of_char (drop 1 (dropWhile (\<lambda>c. c \<noteq> CHR ''1'') s)))),
     base64_decode = (\<lambda>s. Some (map (\<lambda>c. of_nat (of_char c)) s)) \<rparr>"

lemma pairs_decode_encode: "pairs_decode (pairs_encode bs) = Ok bs"
proof (induction bs)
  case (Cons b bs)
  have "unat b div 16 < 256" "unat b mod 16 < 256"
    using unat_bound [of b] by auto
  then have "(of_char (char_of (unat b div 16)) :: nat) * 16 + of_char (char_of (unat b mod 16)) = unat b"
    by simp
  with Cons show ?case by (simp add: pairs_encode_def)
qed (simp add: pairs_encode_def)

lemma sample_text_hex: "hex_laws sample_text"
  by (simp add: hex_laws_def sample_text_def pairs_decode_encode)

lemma sample_text_bech32: "bech32_laws sample_text"
proof -
  have "map (of_char :: char \<Rightarrow> nat) (map char_of (map unat b)) = map unat b" for b :: bytes
    by (induction b) auto
  moreover have "takeWhile (\<lambda>c. c \<noteq> CHR ''1'') (get_bech32_human_part n @ CHR ''1'' # x) = get_bech32_human_part n"
    "drop 1 (dropWhile (\<lambda>c. c \<noteq> CHR ''1'') (get_bech32_human_part n @ CHR ''1'' # x)) = x" for n x
    by (simp_all add: get_bech32_human_part_def split: Network.splits)
  ultimately show ?thesis
    by (simp add: bech32_laws_def sample_text_def comp_def)
qed

section \<open>Properties\<close>

text \<open>
  The hexadecimal and the bech32 text of a 20-byte address are read back as the same address on
  the network that printed it; on a network with another human-readable part the bech32 text is
  refused as belonging to a different network.
\<close>

theorem redeem_address_text:
  assumes "hex_laws L" "bech32_laws L" "length (redeem_raw a) = REDEEM_ADDRESS_BYTES"
  shows "redeem_from_str L (redeem_display L a) = Ok a \<and>
    (\<exists>s. redeem_to_cro L n a = Ok s \<and> redeem_from_cro L n s = Ok a \<and>
      (\<forall>m. get_bech32_human_part m \<noteq> get_bech32_human_part n \<longrightarrow>
         redeem_from_cro L m s = Err InvalidNetwork))"
proof
  have t: "redeem_try_from (redeem_raw a) = Ok a"
    using assms(3) by (simp add: redeem_try_from_def)
  then show "redeem_from_str L (redeem_display L a) = Ok a"
    using assms(1) by (simp add: redeem_from_str_def redeem_display_def hex_laws_def)
  obtain s where "bech32_encode L (get_bech32_human_part n) (to_base32 L (redeem_raw a)) = Some s"
    "bech32_decode L s = Ok (get_bech32_human_part n, to_base32 L (redeem_raw a))"
    "from_base32 L (to_base32 L (redeem_raw a)) = Some (redeem_raw a)"
    using bech32_laws_obtain [OF assms(2)] by blast
  with t show "\<exists>s. redeem_to_cro L n a = Ok s \<and> redeem_from_cro L n s = Ok a \<and>
      (\<forall>m. get_bech32_human_part m \<noteq> get_bech32_human_part n \<longrightarrow>
         redeem_from_cro L m s = Err InvalidNetwork)"
    by (auto simp: redeem_to_cro_def redeem_from_cro_def)
qed

theorem redeem_address_text_witness:
  "redeem_from_str sample_text (redeem_display sample_text redeem_default) = Ok redeem_default"
  using redeem_address_text [OF sample_text_hex sample_text_bech32, of redeem_default network_start]
  by (simp add: redeem_default_def)

text \<open>
  The bech32 text of a transfer address (32 bytes) is read back whatever the network that
  printed it, because the network part is not compared; a bech32 text with any other number of bytes,
  such as the text of a redeem address, makes the parser panic instead of returning an error.
\<close>

theorem extended_addr_text:
  assumes "bech32_laws L"
  shows "(length h = 32 \<longrightarrow>
      (\<exists>s. extended_to_cro L n (OrTree h) = Ok s \<and> extended_from_str L s = Ok (Ok (OrTree h)))) \<and>
    (length (redeem_raw a) = REDEEM_ADDRESS_BYTES \<longrightarrow>
      (\<exists>s p. redeem_to_cro L n a = Ok s \<and> extended_from_str L s = Err p))"
proof -
  obtain s where s: "bech32_encode L (get_bech32_human_part n) (to_base32 L h) = Some s"
    "bech32_decode L s = Ok (get_bech32_human_part n, to_base32 L h)"
    "from_base32 L (to_base32 L h) = Some h"
    using bech32_laws_obtain [OF assms] by blast
  obtain t where t: "bech32_encode L (get_bech32_human_part n) (to_base32 L (redeem_raw a)) = Some t"
    "bech32_decode L t = Ok (get_bech32_human_part n, to_base32 L (redeem_raw a))"
    "from_base32 L (to_base32 L (redeem_raw a)) = Some (redeem_raw a)"
    using bech32_laws_obtain [OF assms] by blast
  show ?thesis
    using s t by (auto simp: extended_to_cro_def extended_from_cro_def extended_from_str_def
      redeem_to_cro_def REDEEM_ADDRESS_BYTES_def)
qed

theorem extended_addr_text_witness:
  "\<exists>s p. redeem_to_cro sample_text network_start redeem_default = Ok s \<and>
     extended_from_str sample_text s = Err p"
proof -
  have "length (redeem_raw redeem_default) = REDEEM_ADDRESS_BYTES"
    by (simp add: redeem_default_def)
  then show ?thesis
    using extended_addr_text [OF sample_text_bech32, of "[]" network_start redeem_default] by blast
qed

text \<open>
  The network is chosen once: after a successful initialisation every later one leaves the
  network, the network id and with them the address prefix unchanged, and a successful first
  initialisation sets the id to the last byte of the chain id.
\<close>

theorem init_chain_id_once:
  assumes "init_chain_id L c s = Ok s'"
  shows "(init_chain_id L d s' = Ok s'' \<longrightarrow> s'' = s') \<and>
    (\<not> INIT_NETWORK_ID s \<longrightarrow> hex_decode L (drop (length c - 2) c) = Ok [NETWORK_ID s'])"
proof -
  have "INIT_NETWORK s' \<and> INIT_NETWORK_ID s'"
    using assms by (auto simp: init_chain_id_def init_network_def init_network_id_def result_simps
        Let_def split: if_splits)
  moreover have "\<not> INIT_NETWORK_ID s \<Longrightarrow> hex_decode L (drop (length c - 2) c) = Ok [NETWORK_ID s']"
    using assms by (auto simp: init_chain_id_def init_network_def init_network_id_def result_simps
        Let_def length_Suc_conv split: if_splits)
  ultimately show ?thesis
    by (auto simp: init_chain_id_def init_network_def init_network_id_def result_simps Let_def split: if_splits)
qed

theorem init_chain_id_once_witness:
  "hex_decode sample_text (drop (length MAINNET_CHAIN_ID - 2) MAINNET_CHAIN_ID) =
     Ok [NETWORK_ID (projr (init_chain_id sample_text MAINNET_CHAIN_ID network_start))]"
proof -
  have "init_chain_id sample_text MAINNET_CHAIN_ID network_start =
      Ok (projr (init_chain_id sample_text MAINNET_CHAIN_ID network_start))"
    by (simp add: init_chain_id_def MAINNET_CHAIN_ID_def sample_text_def)
  from init_chain_id_once [OF this] show ?thesis
    by (simp add: network_start_def)
qed

end
