(* ===== verification/Transactions.thy ===== *)
theory Transactions
  imports Fee Merkle_Tree Address
begin

text \<open>
  Transaction and account data (\<open>chain-core/src/tx\<close>, \<open>state/mod.rs\<close>, \<open>state/account.rs\<close>) and the
  staked state with its in-place updates.  Libraries outside the sources (Blake2s, Keccak, the
  secp256k1 operations, the SCALE encoders derived for the structures) are the fields of \<open>Ext\<close>.  The
  theory shows that the account updates keep amounts bounded, move exactly the stated amounts,
  count every operation in the nonce, and panic exactly when an amount would leave its range.
\<close>

section \<open>Inputs, outputs, attributes\<close>

type_synonym Timespec = i64
type_synonym TxId = H256
type_synonym TxoIndex = u16
type_synonym Nonce = u64

record TxoPointer =
  txo_id :: TxId
  txo_index :: TxoIndex

definition txo_pointer_new :: "TxId \<Rightarrow> u64 \<Rightarrow> TxoPointer" where
  "txo_pointer_new i ix = \<lparr> txo_id = i, txo_index = ucast ix \<rparr>"

record TxOut =
  out_address :: ExtendedAddr
  out_value :: Coin
  out_valid_from :: "Timespec option"

definition tx_out_new :: "ExtendedAddr \<Rightarrow> Coin \<Rightarrow> TxOut" where
  "tx_out_new a v = \<lparr> out_address = a, out_value = v, out_valid_from = None \<rparr>"

definition tx_out_new_with_timelock :: "ExtendedAddr \<Rightarrow> Coin \<Rightarrow> Timespec \<Rightarrow> TxOut" where
  "tx_out_new_with_timelock a v t = \<lparr> out_address = a, out_value = v, out_valid_from = Some t \<rparr>"

text \<open>Keys and signatures of secp256k1 are identified with a byte representation.\<close>

type_synonym PublicKey = bytes
type_synonym SchnorrSignature = bytes
type_synonym RecoverableSignature = bytes
type_synonym StandardSignature = bytes
type_synonym Message = bytes

datatype TxAccess = AllData | OutputAccess u64

record TxAccessPolicy =
  view_key :: PublicKey
  access :: TxAccess

record TxAttributes =
  attr_chain_hex_id :: u8
  allowed_view :: "TxAccessPolicy list"

definition tx_attributes_new :: "u8 \<Rightarrow> TxAttributes" where
  "tx_attributes_new i = \<lparr> attr_chain_hex_id = i, allowed_view = [] \<rparr>"

definition tx_attributes_new_with_access :: "u8 \<Rightarrow> TxAccessPolicy list \<Rightarrow> TxAttributes" where
  "tx_attributes_new_with_access i v = \<lparr> attr_chain_hex_id = i, allowed_view = v \<rparr>"

record Tx =
  tx_inputs :: "TxoPointer list"
  tx_outputs :: "TxOut list"
  tx_attributes :: TxAttributes

definition tx_new :: Tx where
  "tx_new = \<lparr> tx_inputs = [], tx_outputs = [], tx_attributes = tx_attributes_new 0 \<rparr>"

definition tx_new_with :: "TxoPointer list \<Rightarrow> TxOut list \<Rightarrow> TxAttributes \<Rightarrow> Tx" where
  "tx_new_with ins outs attr = \<lparr> tx_inputs = ins, tx_outputs = outs, tx_attributes = attr \<rparr>"

definition add_input :: "Tx \<Rightarrow> TxoPointer \<Rightarrow> Tx" where
  "add_input t i = t\<lparr> tx_inputs := tx_inputs t @ [i] \<rparr>"

definition add_output :: "Tx \<Rightarrow> TxOut \<Rightarrow> Tx" where
  "add_output t out = t\<lparr> tx_outputs := tx_outputs t @ [out] \<rparr>"

definition get_output_total :: "Tx \<Rightarrow> CoinResult" where
  "get_output_total t = sum_coins (map out_value (tx_outputs t))"

section \<open>Witnesses\<close>

datatype RawPubkey = RawPubkey (raw_pubkey_bytes: H264)

datatype TxInWitness = TreeSig SchnorrSignature "RawPubkey Proof"

type_synonym TxWitness = "TxInWitness list"

section \<open>Staked states\<close>

datatype StakedStateAddress = BasicRedeem RedeemAddress

instantiation StakedStateAddress :: linorder
begin

definition less_eq_StakedStateAddress :: "StakedStateAddress \<Rightarrow> StakedStateAddress \<Rightarrow> bool" where
  "less_eq_StakedStateAddress a b \<longleftrightarrow> (case (a, b) of (BasicRedeem x, BasicRedeem y) \<Rightarrow> x \<le> y)"

definition less_StakedStateAddress :: "StakedStateAddress \<Rightarrow> StakedStateAddress \<Rightarrow> bool" where
  "less_StakedStateAddress a b \<longleftrightarrow> (case (a, b) of (BasicRedeem x, BasicRedeem y) \<Rightarrow> x < y)"

instance
  by standard (auto simp: less_eq_StakedStateAddress_def less_StakedStateAddress_def
    split: StakedStateAddress.splits)

end

definition staked_address_try_from :: "bytes \<Rightarrow> ErrorAddress + StakedStateAddress" where
  "staked_address_try_from c = try_bind (redeem_try_from c) (\<lambda>addr. Ok (BasicRedeem addr))"

definition staked_address_from_str :: "TextLib \<Rightarrow> string \<Rightarrow> ErrorAddress + StakedStateAddress" where
  "staked_address_from_str L s = try_bind (redeem_from_str L s) (\<lambda>addr. Ok (BasicRedeem addr))"

record StakedState =
  nonce :: Nonce
  bonded :: Coin
  unbonded :: Coin
  unbonded_from :: Timespec
  address :: StakedStateAddress

definition to_stake_key :: "digest \<Rightarrow> StakedStateAddress \<Rightarrow> H256" where
  "to_stake_key D a = (case a of BasicRedeem r \<Rightarrow> hash256 D (redeem_raw r))"

definition staked_state_new ::
    "Nonce \<Rightarrow> Coin \<Rightarrow> Coin \<Rightarrow> Timespec \<Rightarrow> StakedStateAddress \<Rightarrow> StakedState" where
  "staked_state_new n b u f a =
     \<lparr> nonce = n, bonded = b, unbonded = u, unbonded_from = f, address = a \<rparr>"

definition staked_state_default :: StakedState where
  "staked_state_default = staked_state_new 0 coin_zero coin_zero 0 (BasicRedeem redeem_default)"

definition new_init :: "Coin \<Rightarrow> Timespec \<Rightarrow> StakedStateAddress \<Rightarrow> bool \<Rightarrow> StakedState" where
  "new_init amt genesis_time addr is_bonded =
     (if is_bonded
      then \<lparr> nonce = 0, bonded = amt, unbonded = coin_zero, unbonded_from = genesis_time, address = addr \<rparr>
      else \<lparr> nonce = 0, bonded = coin_zero, unbonded = amt, unbonded_from = genesis_time, address = addr \<rparr>)"

definition deposit :: "StakedState \<Rightarrow> Coin \<Rightarrow> panic + StakedState" where
  "deposit self amt =
     (let self = self\<lparr> nonce := nonce self + 1 \<rparr>
      in try_bind (expect ''should not be over the max supply'' (coin_add (bonded self) amt)) (\<lambda>b.
         Ok (self\<lparr> bonded := b \<rparr>)))"

definition unbond :: "StakedState \<Rightarrow> Coin \<Rightarrow> Coin \<Rightarrow> Timespec \<Rightarrow> panic + StakedState" where
  "unbond self amt fee from =
     (let self = self\<lparr> nonce := nonce self + 1, unbonded_from := from \<rparr>
      in try_bind (expect ''should not go below zero''
           (try_bind (coin_sub (bonded self) amt) (\<lambda>x. coin_sub x fee))) (\<lambda>b.
         let self = self\<lparr> bonded := b \<rparr>
         in try_bind (expect ''should not be over the max supply'' (coin_add (unbonded self) amt)) (\<lambda>u.
            Ok (self\<lparr> unbonded := u \<rparr>))))"

definition withdraw :: "StakedState \<Rightarrow> StakedState" where
  "withdraw self = self\<lparr> nonce := nonce self + 1, unbonded := coin_zero \<rparr>"

definition staked_state_key :: "digest \<Rightarrow> StakedState \<Rightarrow> H256" where
  "staked_state_key D self = to_stake_key D (address self)"

section \<open>Staking transactions\<close>

record StakedStateOpAttributes =
  op_chain_hex_id :: u8

definition op_attributes_new :: "u8 \<Rightarrow> StakedStateOpAttributes" where
  "op_attributes_new i = \<lparr> op_chain_hex_id = i \<rparr>"

record DepositBondTx =
  dep_inputs :: "TxoPointer list"
  dep_to_staked_account :: StakedStateAddress
  dep_attributes :: StakedStateOpAttributes

record UnbondTx =
  unb_value :: Coin
  unb_nonce :: Nonce
  unb_attributes :: StakedStateOpAttributes

record WithdrawUnbondedTx =
  wdr_nonce :: Nonce
  wdr_outputs :: "TxOut list"
  wdr_attributes :: TxAttributes

definition deposit_bond_tx_new ::
    "TxoPointer list \<Rightarrow> StakedStateAddress \<Rightarrow> StakedStateOpAttributes \<Rightarrow> DepositBondTx" where
  "deposit_bond_tx_new i a at = \<lparr> dep_inputs = i, dep_to_staked_account = a, dep_attributes = at \<rparr>"

definition unbond_tx_new :: "Coin \<Rightarrow> Nonce \<Rightarrow> StakedStateOpAttributes \<Rightarrow> UnbondTx" where
  "unbond_tx_new v n at = \<lparr> unb_value = v, unb_nonce = n, unb_attributes = at \<rparr>"

definition withdraw_tx_new :: "Nonce \<Rightarrow> TxOut list \<Rightarrow> TxAttributes \<Rightarrow> WithdrawUnbondedTx" where
  "withdraw_tx_new n outs at = \<lparr> wdr_nonce = n, wdr_outputs = outs, wdr_attributes = at \<rparr>"

definition wdr_get_output_total :: "WithdrawUnbondedTx \<Rightarrow> CoinResult" where
  "wdr_get_output_total t = sum_coins (map out_value (wdr_outputs t))"

datatype StakedStateOpWitness = BasicRedeemWitness RecoverableSignature

section \<open>Enveloped transactions\<close>

datatype TxWithOutputs = Transfer Tx | StakeWithdraw WithdrawUnbondedTx

datatype PlainTxAux =
    PlainTransferTx Tx TxWitness
  | PlainDepositStakeTx TxWitness
  | PlainWithdrawUnbondedStakeTx WithdrawUnbondedTx

record TxObfuscated =
  obf_key_from :: BlockHeight
  obf_nonce :: bytes
  txpayload :: bytes

datatype TxAux =
    TransferTx (aux_txid: TxId) (aux_inputs: "TxoPointer list") (aux_no_of_outputs: TxoIndex)
      (aux_payload: TxObfuscated)
  | DepositStakeTx DepositBondTx TxObfuscated
  | UnbondStakeTx UnbondTx StakedStateOpWitness
  | WithdrawUnbondedStakeTx TxId TxoIndex StakedStateOpWitness TxObfuscated

record RewardsPoolState =
  remaining :: Coin
  last_block_height :: BlockHeight

definition rewards_pool_new :: "Coin \<Rightarrow> BlockHeight \<Rightarrow> RewardsPoolState" where
  "rewards_pool_new r h = \<lparr> remaining = r, last_block_height = h \<rparr>"

record CouncilNode =
  staking_account_address :: StakedStateAddress
  consensus_pubkey :: TendermintValidatorPubKey
  council_nonce :: Nonce

definition council_node_new :: "StakedStateAddress \<Rightarrow> TendermintValidatorPubKey \<Rightarrow> CouncilNode" where
  "council_node_new a k = \<lparr> staking_account_address = a, consensus_pubkey = k, council_nonce = 0 \<rparr>"

section \<open>External libraries\<close>

datatype SecpError = InvalidPublicKey | OtherSecpError string

record Ext =
  blake2s :: digest
  keccak256 :: "bytes \<Rightarrow> H256"
  message_from_slice :: "bytes \<Rightarrow> SecpError + Message"
  pk_from_slice :: "bytes \<Rightarrow> SecpError + PublicKey"
  pk_serialize :: "PublicKey \<Rightarrow> H264"
  serialize_uncompressed :: "PublicKey \<Rightarrow> bytes"
  schnorr_verify :: "Message \<Rightarrow> SchnorrSignature \<Rightarrow> PublicKey \<Rightarrow> SecpError + unit"
  secp_recover :: "Message \<Rightarrow> RecoverableSignature \<Rightarrow> SecpError + PublicKey"
  secp_verify :: "Message \<Rightarrow> StandardSignature \<Rightarrow> PublicKey \<Rightarrow> SecpError + unit"
  to_standard :: "RecoverableSignature \<Rightarrow> StandardSignature"
  enc_tx :: "Tx \<Rightarrow> bytes"
  enc_deposit :: "DepositBondTx \<Rightarrow> bytes"
  enc_unbond :: "UnbondTx \<Rightarrow> bytes"
  enc_withdraw :: "WithdrawUnbondedTx \<Rightarrow> bytes"
  enc_rewards_pool :: "RewardsPoolState \<Rightarrow> bytes"

definition txid_hash :: "Ext \<Rightarrow> bytes \<Rightarrow> H256" where
  "txid_hash E buf = hash256 (blake2s E) buf"

text \<open>\<open>TransactionId::id\<close> of the four transaction structures.\<close>

definition tx_id :: "Ext \<Rightarrow> Tx \<Rightarrow> TxId" where
  "tx_id E t = txid_hash E (enc_tx E t)"

definition deposit_id :: "Ext \<Rightarrow> DepositBondTx \<Rightarrow> TxId" where
  "deposit_id E t = txid_hash E (enc_deposit E t)"

definition unbond_id :: "Ext \<Rightarrow> UnbondTx \<Rightarrow> TxId" where
  "unbond_id E t = txid_hash E (enc_unbond E t)"

definition withdraw_id :: "Ext \<Rightarrow> WithdrawUnbondedTx \<Rightarrow> TxId" where
  "withdraw_id E t = txid_hash E (enc_withdraw E t)"

definition two_outputs :: "TxWithOutputs \<Rightarrow> TxOut list" where
  "two_outputs t = (case t of Transfer tx \<Rightarrow> tx_outputs tx | StakeWithdraw tx \<Rightarrow> wdr_outputs tx)"

definition two_id :: "Ext \<Rightarrow> TxWithOutputs \<Rightarrow> TxId" where
  "two_id E t = (case t of Transfer tx \<Rightarrow> tx_id E tx | StakeWithdraw tx \<Rightarrow> withdraw_id E tx)"

definition txaux_id :: "Ext \<Rightarrow> TxAux \<Rightarrow> TxId" where
  "txaux_id E t = (case t of
     TransferTx txid _ _ _ \<Rightarrow> txid
   | DepositStakeTx tx _ \<Rightarrow> deposit_id E tx
   | UnbondStakeTx tx _ \<Rightarrow> unbond_id E tx
   | WithdrawUnbondedStakeTx txid _ _ _ \<Rightarrow> txid)"

definition rewards_pool_hash :: "Ext \<Rightarrow> RewardsPoolState \<Rightarrow> H256" where
  "rewards_pool_hash E p = hash256 (blake2s E) (enc_rewards_pool E p)"

definition compute_app_hash :: "Ext \<Rightarrow> H256 MerkleTree \<Rightarrow> H256 \<Rightarrow> RewardsPoolState \<Rightarrow> H256" where
  "compute_app_hash E valid_tx_id_tree account_state_root reward_pool =
     (let valid_tx_part = root_hash valid_tx_id_tree;
          rewards_pool_part = rewards_pool_hash E reward_pool
      in hash256 (blake2s E) (valid_tx_part @ account_state_root @ rewards_pool_part))"

record ChainInfo =
  min_fee_computed :: Fee
  ci_chain_hex_id :: u8
  previous_block_time :: Timespec
  unbonding_period :: u32

section \<open>Account updates\<close>

definition staked_wf :: "StakedState \<Rightarrow> bool" where
  "staked_wf s \<longleftrightarrow> coin_wf (bonded s) \<and> coin_wf (unbonded s)"

definition stake_total :: "StakedState \<Rightarrow> nat" where
  "stake_total s = amount (bonded s) + amount (unbonded s)"

lemma deposit_Ok_iff:
  "deposit s a = Ok s' \<longleftrightarrow>
   (\<exists>b. amount b = amount (bonded s) + amount a \<and> amount b \<le> max_supply \<and>
      s' = s\<lparr> nonce := nonce s + 1, bonded := b \<rparr>)"
  by (auto simp: deposit_def Let_def result_simps coin_simps)

lemma unbond_Ok_iff:
  assumes "coin_wf (bonded s)"
  shows "unbond s a f t = Ok s' \<longleftrightarrow>
   (\<exists>b u. amount (bonded s) = amount b + amount a + amount f \<and>
      amount u = amount (unbonded s) + amount a \<and> amount u \<le> max_supply \<and>
      s' = s\<lparr> nonce := nonce s + 1, unbonded_from := t, bonded := b, unbonded := u \<rparr>)"
    (is "?l \<longleftrightarrow> ?r")
proof
  assume ?l
  then show ?r by (fastforce simp: unbond_def Let_def result_simps coin_simps)
next
  assume ?r
  then obtain b u where bu: "amount (bonded s) = amount b + amount a + amount f"
    "amount u = amount (unbonded s) + amount a" "amount u \<le> max_supply"
    "s' = s\<lparr> nonce := nonce s + 1, unbonded_from := t, bonded := b, unbonded := u \<rparr>"
    by blast
  obtain x where "amount x = amount b + amount f" "coin_wf x"
    using coin_of_amount [of "amount b + amount f"] bu(1) assms by (auto simp: coin_simps)
  with bu assms have "coin_sub (bonded s) a = Ok x" "coin_sub x f = Ok b" "coin_add (unbonded s) a = Ok u"
    by (simp_all add: coin_simps)
  with bu(4) show ?l by (simp add: unbond_def Let_def)
qed

lemma deposit_panic_iff: "(\<exists>p. deposit s a = Err p) \<longleftrightarrow> max_supply < amount (bonded s) + amount a"
  using coin_add_Err_iff [of "bonded s" a] by (auto simp: deposit_def Let_def result_simps)

lemma unbond_panic_iff:
  assumes "coin_wf (bonded s)"
  shows "(\<exists>p. unbond s a f t = Err p) \<longleftrightarrow>
    amount (bonded s) < amount a + amount f \<or> max_supply < amount (unbonded s) + amount a"
    (is "_ \<longleftrightarrow> ?bad")
proof (cases ?bad)
  case True
  then have "unbond s a f t \<noteq> Ok s'" for s'
    unfolding unbond_Ok_iff [OF assms] by auto
  with True show ?thesis by (cases "unbond s a f t") auto
next
  case False
  then obtain u where u: "amount u = amount (unbonded s) + amount a"
    using coin_of_amount [of "amount (unbonded s) + amount a"] by auto
  have "amount (bonded s) - (amount a + amount f) \<le> max_supply"
    using assms by (simp add: coin_simps)
  then obtain b where "amount b = amount (bonded s) - (amount a + amount f)"
    using coin_of_amount by blast
  with u False have "amount (bonded s) = amount b + amount a + amount f \<and> amount u \<le> max_supply"
    by simp
  with u have "\<exists>s'. unbond s a f t = Ok s'"
    unfolding unbond_Ok_iff [OF assms] by blast
  with False show ?thesis by auto
qed

lemmas staked_ops = deposit_Ok_iff unbond_Ok_iff withdraw_def new_init_def

section \<open>Properties\<close>

text \<open>
  The account operations move exactly the stated amounts.  A deposit adds to the bonded
  amount, unbonding moves the amount to the unbonded side and takes the fee from the bonded side so
  that the total drops by the fee, and a withdrawal empties the unbonded side; each increments
  the nonce, none changes the address, and the result is again within the bounds of \<open>Coin\<close>.
\<close>

theorem staked_state_operations:
  assumes "staked_wf s"
  shows "(deposit s a = Ok s1 \<longrightarrow> staked_wf s1 \<and> nonce s1 = nonce s + 1 \<and> address s1 = address s \<and>
      unbonded s1 = unbonded s \<and> unbonded_from s1 = unbonded_from s \<and>
      amount (bonded s1) = amount (bonded s) + amount a) \<and>
    (unbond s a f t = Ok s2 \<longrightarrow> staked_wf s2 \<and> nonce s2 = nonce s + 1 \<and> address s2 = address s \<and>
      unbonded_from s2 = t \<and> amount (unbonded s2) = amount (unbonded s) + amount a \<and>
      stake_total s2 + amount f = stake_total s) \<and>
    (staked_wf (withdraw s) \<and> nonce (withdraw s) = nonce s + 1 \<and> address (withdraw s) = address s \<and>
      bonded (withdraw s) = bonded s \<and> unbonded_from (withdraw s) = unbonded_from s \<and>
      stake_total (withdraw s) + amount (unbonded s) = stake_total s)"
  using assms by (auto simp: staked_ops staked_wf_def coin_simps stake_total_def)

theorem staked_state_operations_witness:
  "\<exists>s. unbond (new_init (Coin 100) 0 (BasicRedeem redeem_default) True) (Coin 40) (Coin 5) 9 = Ok s \<and>
     stake_total s + 5 = 100 \<and> nonce s = 1"
proof -
  let ?s = "new_init (Coin 100) 0 (BasicRedeem redeem_default) True"
  have wf: "staked_wf ?s" by (simp add: staked_wf_def new_init_def coin_wf_def MAX_COIN_def coin_zero_def)
  obtain s where s: "unbond ?s (Coin 40) (Coin 5) 9 = Ok s"
    by (simp add: unbond_def new_init_def coin_sub_def coin_add_def coin_new_def checked_sub_u64_def
      checked_add_u64_def MAX_COIN_def coin_zero_def Let_def)
  then show ?thesis
    using staked_state_operations [OF wf, of "Coin 40" s "Coin 5" 9 s]
    by (auto simp: stake_total_def new_init_def amount_def coin_zero_def)
qed

text \<open>
  The account operations panic exactly when an amount would leave its range: a deposit when the
  bonded amount would exceed the total supply, unbonding when amount and fee exceed the bonded amount
  or the unbonded amount would exceed the total supply.
\<close>

theorem staked_state_panics:
  assumes "staked_wf s"
  shows "((\<exists>p. deposit s a = Err p) \<longleftrightarrow> max_supply < amount (bonded s) + amount a) \<and>
    ((\<exists>p. unbond s a f t = Err p) \<longleftrightarrow>
       amount (bonded s) < amount a + amount f \<or> max_supply < amount (unbonded s) + amount a)"
  using assms deposit_panic_iff unbond_panic_iff by (simp add: staked_wf_def)

theorem staked_state_panics_witness: "\<exists>p. deposit (new_init coin_max 0 (BasicRedeem redeem_default) True) (Coin 1) = Err p"
proof -
  let ?s = "new_init coin_max 0 (BasicRedeem redeem_default) True"
  have wf: "staked_wf ?s" by (simp add: staked_wf_def new_init_def coin_wf_def coin_max_def MAX_COIN_def coin_zero_def)
  moreover have "amount (Coin 1) = 1" "bonded ?s = coin_max" by (simp_all add: amount_def new_init_def)
  ultimately show ?thesis using staked_state_panics [OF wf, of "Coin 1" "Coin 0" 0] by simp
qed

text \<open>Concrete libraries for evaluation; signatures are accepted when they repeat the key.\<close>

definition sample_ext :: Ext where
  "sample_ext = \<lparr>
     blake2s = sample_digest,
     keccak256 = sample_digest,
     message_from_slice = Ok,
     pk_from_slice = Ok,
     pk_serialize = id,
     serialize_uncompressed = id,
     schnorr_verify = (\<lambda>m sig pk. if sig = pk then Ok () else Err (OtherSecpError ''schnorr'')),
     secp_recover = (\<lambda>m sig. Ok sig),
     secp_verify = (\<lambda>m sig pk. if sig = pk then Ok () else Err (OtherSecpError ''ecdsa'')),
     to_standard = id,
     enc_tx = (\<lambda>t. [10, of_nat (length (tx_inputs t)), of_nat (length (tx_outputs t))]),
     enc_deposit = (\<lambda>t. [11, of_nat (length (dep_inputs t))]),
     enc_unbond = (\<lambda>t. [12, ucast (unb_nonce t)]),
     enc_withdraw = (\<lambda>t. [13, ucast (wdr_nonce t), of_nat (length (wdr_outputs t))]),
     enc_rewards_pool = (\<lambda>p. replicate (unat (coin_u64 (remaining p))) 0 @
        1 # replicate (unat (last_block_height p)) 0) \<rparr>"

lemma sample_ext_rewards_inj: "inj (enc_rewards_pool sample_ext)"
proof (rule injI)
  fix p q :: RewardsPoolState
  let ?f = "\<lambda>b :: bytes. (length (takeWhile (\<lambda>x. x = 0) b), length b)"
  assume "enc_rewards_pool sample_ext p = enc_rewards_pool sample_ext q"
  then have "?f (enc_rewards_pool sample_ext p) = ?f (enc_rewards_pool sample_ext q)" by simp
  moreover have "?f (replicate n 0 @ 1 # replicate m 0) = (n, n + m + 1)" for n m
    by (induction n) auto
  ultimately have "unat (coin_u64 (remaining p)) = unat (coin_u64 (remaining q))"
    "unat (last_block_height p) = unat (last_block_height q)"
    by (simp_all add: sample_ext_def)
  then show "p = q" by (auto simp: word_unat_eq_iff intro!: RewardsPoolState.equality Coin.expand)
qed

text \<open>
  C33: the application hash binds the block: if Blake2s has no collision on the byte strings hashed
  for two application states, equal application hashes mean equal lists of valid transaction ids,
  equal account roots and equal rewards pools.
\<close>

theorem app_hash_binding:
  fixes E :: Ext
  defines "D \<equiv> blake2s E"
  defines "outer ids r p \<equiv> root_hash (merkle_new D id ids) @ r @ rewards_pool_hash E p"
  defines "strings ids r p \<equiv>
    insert (outer ids r p) (insert (enc_rewards_pool E p) (hashed id (mt_tree (merkle_new D id ids))))"
  assumes "D [0] = EMPTY_HASH" "\<And>b. length (D b) = HASH_SIZE_256" "inj (enc_rewards_pool E)"
    and "inj_on D (strings ids r p \<union> strings ids' r' p')"
    and "[] \<notin> set ids \<union> set ids'" "length r = length r'"
    and "compute_app_hash E (merkle_new D id ids) r p = compute_app_hash E (merkle_new D id ids') r' p'"
  shows "ids = ids' \<and> r = r' \<and> p = p'"
proof -
  have len: "length (root_hash (merkle_new D id vs)) = HASH_SIZE_256" for vs
    using tree_hash_length [of D id "mt_tree (merkle_new D id vs)"] assms(4,5) by (simp add: root_hash_def)
  have "D (outer ids r p) = D (outer ids' r' p')"
    using assms(10) by (simp add: compute_app_hash_def outer_def D_def hash256_def Let_def)
  then have "outer ids r p = outer ids' r' p'"
    using inj_onD [OF assms(7), of "outer ids r p" "outer ids' r' p'"] by (simp add: strings_def)
  then have eq: "root_hash (merkle_new D id ids) = root_hash (merkle_new D id ids')" "r = r'"
    "D (enc_rewards_pool E p) = D (enc_rewards_pool E p')"
    using len assms(9) by (simp_all add: outer_def rewards_pool_hash_def hash256_def D_def)
  have "inj_on D (hashed id (mt_tree (merkle_new D id ids)) \<union> hashed id (mt_tree (merkle_new D id ids')))"
    by (rule inj_on_subset [OF assms(7)]) (auto simp: strings_def)
  then have "ids = ids'"
    using merkle_root_binds [OF assms(4,5) _ _ eq(1)] assms(8) by simp
  moreover have "p = p'"
    using inj_onD [OF assms(7) eq(3)] injD [OF assms(6)] by (simp add: strings_def)
  ultimately show ?thesis using eq(2) by simp
qed

theorem app_hash_binding_witness:
  "compute_app_hash sample_ext (merkle_new sample_digest id []) (replicate 32 7) \<lparr> remaining = Coin 2, last_block_height = 5 \<rparr> \<noteq>
   compute_app_hash sample_ext (merkle_new sample_digest id []) (replicate 32 7) \<lparr> remaining = Coin 1, last_block_height = 5 \<rparr>"
proof
  let ?p = "\<lparr> remaining = Coin 2, last_block_height = 5 \<rparr>"
    and ?q = "\<lparr> remaining = Coin 1, last_block_height = 5 \<rparr>"
  have D: "blake2s sample_ext = sample_digest" by (simp add: sample_ext_def)
  have laws: "blake2s sample_ext [0] = EMPTY_HASH" "\<And>b. length (blake2s sample_ext b) = HASH_SIZE_256"
    by (simp_all add: D sample_digest_laws)
  let ?e = "[0, 0, 1, 0, 0, 0, 0, 0] :: bytes" and ?f = "[0, 1, 0, 0, 0, 0, 0] :: bytes"
  let ?out = "\<lambda>b. EMPTY_HASH @ replicate 32 7 @ sample_digest b"
  have enc: "enc_rewards_pool sample_ext ?p = ?e" "enc_rewards_pool sample_ext ?q = ?f"
    by (simp add: sample_ext_def, simp add: numeral_eq_Suc)+
  have root: "mt_tree (merkle_new sample_digest id []) = Empty" by simp
  have out: "?out b \<noteq> [0]" "of_nat (length (?out b)) = (96 :: u8)"
    "sum_list (?out b) = sum_list EMPTY_HASH + 224 + sum_list (sample_digest b)" for b
    using sample_digest_laws(2) by (simp_all add: HASH_SIZE_256_def EMPTY_HASH_def sum_list_replicate)
  have "sum_list (sample_digest ?e) = 10" "sum_list (sample_digest ?f) = 9"
    by (simp_all add: sample_digest_def sum_list_replicate)
  then have tails: "digest_tail (sample_digest (?out ?e)) = (96, sum_list EMPTY_HASH + 224 + 10)"
    "digest_tail (sample_digest (?out ?f)) = (96, sum_list EMPTY_HASH + 224 + 9)"
    by (simp_all only: sample_digest_tail [OF out(1)] out(2,3))
  have "digest_tail (sample_digest ?e) = (8, 1)" "digest_tail (sample_digest ?f) = (7, 1)"
    by (simp_all add: sample_digest_tail)
  moreover have "digest_tail (sample_digest [0]) = (75, 234)"
    unfolding sample_digest_laws(1) by (simp add: digest_tail_def EMPTY_HASH_def)
  ultimately have "inj_on sample_digest (set [?out ?e, ?out ?f, ?e, ?f, [0]])"
    using tails by (intro sample_digest_inj)
      (simp only: list.map distinct.simps list.set insert_iff empty_iff prod.inject simp_thms, simp)
  note inj = this
  have "inj_on sample_digest
     (insert (root_hash (merkle_new sample_digest id []) @ replicate 32 7 @ rewards_pool_hash sample_ext ?p)
        (insert (enc_rewards_pool sample_ext ?p) (hashed id (mt_tree (merkle_new sample_digest id [])))) \<union>
      insert (root_hash (merkle_new sample_digest id []) @ replicate 32 7 @ rewards_pool_hash sample_ext ?q)
        (insert (enc_rewards_pool sample_ext ?q) (hashed id (mt_tree (merkle_new sample_digest id [])))))"
    unfolding root root_hash_def rewards_pool_hash_def hash256_def D enc tree_hash.simps hashed.simps
    by (rule inj_on_subset [OF inj]) auto
  note bind = app_hash_binding [OF laws sample_ext_rewards_inj, unfolded D, OF this]
  assume "compute_app_hash sample_ext (merkle_new sample_digest id []) (replicate 32 7) ?p =
    compute_app_hash sample_ext (merkle_new sample_digest id []) (replicate 32 7) ?q"
  from bind [OF _ _ this] show False by simp
qed

end
