(* ===== verification/Codec.thy ===== *)
theory Codec
  imports Transactions
begin

text \<open>
  The hand-written SCALE codecs of transactions, amounts, access policies and witnesses (\<open>Encode\<close> and
  \<open>Decode\<close> in \<open>init/coin.rs\<close>, \<open>tx/mod.rs\<close>, \<open>tx/data\<close>, \<open>tx/witness/mod.rs\<close>, \<open>state/account.rs\<close>) and
  the derived ones of the structures that contain them.  The codecs of the library's types (numbers,
  arrays, \<open>Vec\<close> as a function of the codec of its elements) and the derived ones of structures with
  library types only are the fields of \<open>ScaleLib\<close>; \<open>scale_laws\<close> says that each of them reads back what
  it wrote and leaves the rest of the input.  The derived \<open>Encode\<close> of a structure writes its fields in
  order, that of an enum the index of the variant and then its fields.  \<open>Decode for Coin\<close> refuses
  amounts above the total supply, which no coin of the program has: the round trips are stated for
  \<open>coin_wf\<close> amounts.  The theory shows which encoded transactions are read back and that the size
  limits of nested decoders count the bytes that follow.
\<close>

section \<open>Decoders\<close>

type_synonym 'a decoder = "bytes \<Rightarrow> string + 'a \<times> bytes"

record 'a codec =
  enc :: "'a \<Rightarrow> bytes"
  dec :: "'a decoder"

definition reads_back :: "'a codec \<Rightarrow> bool" where
  "reads_back c \<longleftrightarrow> (\<forall>x rest. dec c (enc c x @ rest) = Ok (x, rest))"

lemma reads_backD: "reads_back c \<Longrightarrow> dec c (enc c x @ rest) = Ok (x, rest)"
  by (simp add: reads_back_def)

lemma reads_back_nil: "reads_back c \<Longrightarrow> dec c (enc c x) = Ok (x, [])"
  using reads_backD [of c x "[]"] by simp

text \<open>The round trip for the values that satisfy a predicate.\<close>

definition reads_back_on :: "('a \<Rightarrow> bool) \<Rightarrow> 'a codec \<Rightarrow> bool" where
  "reads_back_on P c \<longleftrightarrow> (\<forall>x rest. P x \<longrightarrow> dec c (enc c x @ rest) = Ok (x, rest))"

lemma reads_back_onD: "\<lbrakk> reads_back_on P c; P x \<rbrakk> \<Longrightarrow> dec c (enc c x @ rest) = Ok (x, rest)"
  by (simp add: reads_back_on_def)

lemma reads_back_on_nil: "\<lbrakk> reads_back_on P c; P x \<rbrakk> \<Longrightarrow> dec c (enc c x) = Ok (x, [])"
  using reads_back_onD [of P c x "[]"] by simp

text \<open>A \<open>Vec\<close> reads back the elements that the codec of the elements reads back.\<close>

definition vec_law :: "('a codec \<Rightarrow> 'a list codec) \<Rightarrow> bool" where
  "vec_law vec \<longleftrightarrow> (\<forall>P c. reads_back_on P c \<longrightarrow> reads_back_on (list_all P) (vec c))"

lemma vec_lawD: "\<lbrakk> vec_law vec; reads_back_on P c \<rbrakk> \<Longrightarrow> reads_back_on (list_all P) (vec c)"
  by (simp add: vec_law_def)

text \<open>\<open>Input::read_byte\<close> on a slice.\<close>

fun read_byte :: "u8 decoder" where
  "read_byte [] = Err ''Not enough data to fill buffer''"
| "read_byte (b # rest) = Ok (b, rest)"

record ScaleLib =
  c_txid :: "TxId codec"
  c_txo_pointers :: "TxoPointer list codec"
  c_u64 :: "u64 codec"
  c_u8 :: "u8 codec"
  c_out_address :: "ExtendedAddr codec"
  c_valid_from :: "Timespec option codec"
  c_index :: "TxoIndex codec"
  c_obfuscated :: "TxObfuscated codec"
  c_staked_address :: "StakedStateAddress codec"
  c_op_attributes :: "StakedStateOpAttributes codec"
  c_raw_signature :: "H512 codec"
  c_h264 :: "H264 codec"
  c_access :: "TxAccess codec"
  c_proof :: "RawPubkey Proof codec"
  c_vec_tx_out :: "TxOut codec \<Rightarrow> TxOut list codec"
  c_vec_access_policy :: "TxAccessPolicy codec \<Rightarrow> TxAccessPolicy list codec"
  c_vec_in_witness :: "TxInWitness codec \<Rightarrow> TxInWitness list codec"
  view_key_serialize :: "PublicKey \<Rightarrow> H264"
  view_key_from_slice :: "H264 \<Rightarrow> PublicKey option"
  schnorr_serialize_default :: "SchnorrSignature \<Rightarrow> H512"
  schnorr_from_default :: "H512 \<Rightarrow> SchnorrSignature option"
  sig_serialize_compact :: "RecoverableSignature \<Rightarrow> u8 \<times> H512"
  recovery_id_from_i32 :: "u8 \<Rightarrow> u8 option"
  sig_from_compact :: "H512 \<Rightarrow> u8 \<Rightarrow> RecoverableSignature option"

definition scale_laws :: "ScaleLib \<Rightarrow> bool" where
  "scale_laws S \<longleftrightarrow> reads_back (c_txid S) \<and> reads_back (c_txo_pointers S) \<and> reads_back (c_u64 S) \<and>
     reads_back (c_u8 S) \<and> reads_back (c_out_address S) \<and> reads_back (c_valid_from S) \<and>
     reads_back (c_index S) \<and> reads_back (c_obfuscated S) \<and>
     reads_back (c_staked_address S) \<and> reads_back (c_op_attributes S) \<and>
     reads_back (c_raw_signature S) \<and> reads_back (c_h264 S) \<and>
     reads_back (c_access S) \<and> reads_back (c_proof S) \<and>
     vec_law (c_vec_tx_out S) \<and> vec_law (c_vec_access_policy S) \<and> vec_law (c_vec_in_witness S) \<and>
     (\<forall>k. view_key_from_slice S (view_key_serialize S k) = Some k) \<and>
     (\<forall>g. schnorr_from_default S (schnorr_serialize_default S g) = Some g) \<and>
     (\<forall>g. case sig_serialize_compact S g of (rid, raw) \<Rightarrow>
        recovery_id_from_i32 S rid = Some rid \<and> sig_from_compact S raw rid = Some g)"

section \<open>Witnesses\<close>

definition MAX_WITNESS_SIZE :: nat where "MAX_WITNESS_SIZE = 51200"

definition encode_op_witness :: "ScaleLib \<Rightarrow> StakedStateOpWitness \<Rightarrow> bytes" where
  "encode_op_witness S w = (case w of BasicRedeemWitness sig \<Rightarrow>
     let (rid, serialized_sig) = sig_serialize_compact S sig
     in [0] @ [rid] @ enc (c_raw_signature S) serialized_sig)"

definition decode_op_witness :: "ScaleLib \<Rightarrow> StakedStateOpWitness decoder" where
  "decode_op_witness S input =
     try_bind (read_byte input) (\<lambda>(tag, input).
     if tag = 0
     then try_bind (read_byte input) (\<lambda>(rid, input).
          try_bind (dec (c_raw_signature S) input) (\<lambda>(raw_sig, input).
          try_bind (ok_or ''Unable to parse recovery ID'' (recovery_id_from_i32 S rid)) (\<lambda>recovery_id.
          try_bind (ok_or ''Unable to create recoverable signature''
                      (sig_from_compact S raw_sig recovery_id)) (\<lambda>sig.
          Ok (BasicRedeemWitness sig, input)))))
     else Err ''Invalid tag'')"

definition encode_in_witness :: "ScaleLib \<Rightarrow> TxInWitness \<Rightarrow> bytes" where
  "encode_in_witness S w = (case w of TreeSig schnorrsig proof \<Rightarrow>
     [0] @ enc (c_raw_signature S) (schnorr_serialize_default S schnorrsig) @ enc (c_proof S) proof)"

definition decode_in_witness :: "ScaleLib \<Rightarrow> TxInWitness decoder" where
  "decode_in_witness S input =
     try_bind (read_byte input) (\<lambda>(tag, input).
     if tag = 0
     then try_bind (dec (c_raw_signature S) input) (\<lambda>(raw_sig, input).
          try_bind (ok_or ''Unable to parse schnorr signature''
                      (schnorr_from_default S raw_sig)) (\<lambda>schnorrsig.
          try_bind (dec (c_proof S) input) (\<lambda>(proof, input).
          Ok (TreeSig schnorrsig proof, input))))
     else Err ''Invalid tag'')"

definition c_in_witnesses :: "ScaleLib \<Rightarrow> TxInWitness list codec" where
  "c_in_witnesses S = c_vec_in_witness S \<lparr> enc = encode_in_witness S, dec = decode_in_witness S \<rparr>"

text \<open>The size that \<open>Input::remaining_len\<close> reports is everything that is left of the slice.\<close>

definition decode_tx_witness :: "ScaleLib \<Rightarrow> TxWitness decoder" where
  "decode_tx_witness S input =
     (if MAX_WITNESS_SIZE < length input then Err ''Input too large''
      else dec (c_in_witnesses S) input)"

section \<open>Outputs, attributes and account operations\<close>

definition encode_access_policy :: "ScaleLib \<Rightarrow> TxAccessPolicy \<Rightarrow> bytes" where
  "encode_access_policy S p = enc (c_h264 S) (view_key_serialize S (view_key p)) @ enc (c_access S) (access p)"

definition decode_access_policy :: "ScaleLib \<Rightarrow> TxAccessPolicy decoder" where
  "decode_access_policy S input =
     try_bind (dec (c_h264 S) input) (\<lambda>(view_key_bytes, input).
     try_bind (ok_or ''Unable to parse public key'' (view_key_from_slice S view_key_bytes)) (\<lambda>k.
     try_bind (dec (c_access S) input) (\<lambda>(a, input).
     Ok (\<lparr> view_key = k, access = a \<rparr>, input))))"

definition c_access_policies :: "ScaleLib \<Rightarrow> TxAccessPolicy list codec" where
  "c_access_policies S = c_vec_access_policy S \<lparr> enc = encode_access_policy S, dec = decode_access_policy S \<rparr>"

definition c_tx_attributes :: "ScaleLib \<Rightarrow> TxAttributes codec" where
  "c_tx_attributes S = \<lparr>
     enc = (\<lambda>a. enc (c_u8 S) (attr_chain_hex_id a) @ enc (c_access_policies S) (allowed_view a)),
     dec = (\<lambda>input.
       try_bind (dec (c_u8 S) input) (\<lambda>(i, input).
       try_bind (dec (c_access_policies S) input) (\<lambda>(v, input).
       Ok (\<lparr> attr_chain_hex_id = i, allowed_view = v \<rparr>, input)))) \<rparr>"

text \<open>The derived \<open>Encode\<close> of a coin writes its number; decoding checks the bound.\<close>

definition coin_codec :: "ScaleLib \<Rightarrow> Coin codec" where
  "coin_codec S = \<lparr> enc = (\<lambda>c. enc (c_u64 S) (coin_u64 c)), dec = coin_decode (dec (c_u64 S)) \<rparr>"

definition c_tx_out :: "ScaleLib \<Rightarrow> TxOut codec" where
  "c_tx_out S = \<lparr>
     enc = (\<lambda>x. enc (c_out_address S) (out_address x) @ enc (coin_codec S) (out_value x) @
       enc (c_valid_from S) (out_valid_from x)),
     dec = (\<lambda>input.
       try_bind (dec (c_out_address S) input) (\<lambda>(a, input).
       try_bind (dec (coin_codec S) input) (\<lambda>(v, input).
       try_bind (dec (c_valid_from S) input) (\<lambda>(t, input).
       Ok (\<lparr> out_address = a, out_value = v, out_valid_from = t \<rparr>, input))))) \<rparr>"

definition c_tx_outs :: "ScaleLib \<Rightarrow> TxOut list codec" where
  "c_tx_outs S = c_vec_tx_out S (c_tx_out S)"

definition c_unbond :: "ScaleLib \<Rightarrow> UnbondTx codec" where
  "c_unbond S = \<lparr>
     enc = (\<lambda>t. enc (coin_codec S) (unb_value t) @ enc (c_u64 S) (unb_nonce t) @
       enc (c_op_attributes S) (unb_attributes t)),
     dec = (\<lambda>input.
       try_bind (dec (coin_codec S) input) (\<lambda>(v, input).
       try_bind (dec (c_u64 S) input) (\<lambda>(n, input).
       try_bind (dec (c_op_attributes S) input) (\<lambda>(a, input).
       Ok (\<lparr> unb_value = v, unb_nonce = n, unb_attributes = a \<rparr>, input))))) \<rparr>"

definition c_withdraw :: "ScaleLib \<Rightarrow> WithdrawUnbondedTx codec" where
  "c_withdraw S = \<lparr>
     enc = (\<lambda>t. enc (c_u64 S) (wdr_nonce t) @ enc (c_tx_outs S) (wdr_outputs t) @
       enc (c_tx_attributes S) (wdr_attributes t)),
     dec = (\<lambda>input.
       try_bind (dec (c_u64 S) input) (\<lambda>(n, input).
       try_bind (dec (c_tx_outs S) input) (\<lambda>(outs, input).
       try_bind (dec (c_tx_attributes S) input) (\<lambda>(a, input).
       Ok (\<lparr> wdr_nonce = n, wdr_outputs = outs, wdr_attributes = a \<rparr>, input))))) \<rparr>"

text \<open>The amounts a structure contains are within the total supply.\<close>

definition outs_wf :: "TxOut list \<Rightarrow> bool" where
  "outs_wf outs \<longleftrightarrow> list_all (\<lambda>x. coin_wf (out_value x)) outs"

section \<open>Transactions\<close>

definition MAX_TX_SIZE :: nat where "MAX_TX_SIZE = 8100"
definition MAX_DEPOSIT_TX_SIZE :: nat where "MAX_DEPOSIT_TX_SIZE = 2200"
definition TX_AUX_SIZE :: nat where "TX_AUX_SIZE = 1024 * 60"

definition encode_tx :: "ScaleLib \<Rightarrow> Tx \<Rightarrow> bytes" where
  "encode_tx S t = enc (c_txo_pointers S) (tx_inputs t) @ enc (c_tx_outs S) (tx_outputs t) @
     enc (c_tx_attributes S) (tx_attributes t)"

definition decode_tx :: "ScaleLib \<Rightarrow> Tx decoder" where
  "decode_tx S input =
     (if MAX_TX_SIZE < length input then Err ''Input too large''
      else try_bind (dec (c_txo_pointers S) input) (\<lambda>(inputs, input).
           try_bind (dec (c_tx_outs S) input) (\<lambda>(outputs, input).
           try_bind (dec (c_tx_attributes S) input) (\<lambda>(attributes, input).
           Ok (\<lparr> tx_inputs = inputs, tx_outputs = outputs, tx_attributes = attributes \<rparr>, input)))))"

definition encode_deposit :: "ScaleLib \<Rightarrow> DepositBondTx \<Rightarrow> bytes" where
  "encode_deposit S t = enc (c_txo_pointers S) (dep_inputs t) @
     enc (c_staked_address S) (dep_to_staked_account t) @ enc (c_op_attributes S) (dep_attributes t)"

definition decode_deposit :: "ScaleLib \<Rightarrow> DepositBondTx decoder" where
  "decode_deposit S input =
     (if MAX_DEPOSIT_TX_SIZE < length input then Err ''Input too large''
      else try_bind (dec (c_txo_pointers S) input) (\<lambda>(inputs, input).
           try_bind (dec (c_staked_address S) input) (\<lambda>(to_staked_account, input).
           try_bind (dec (c_op_attributes S) input) (\<lambda>(attributes, input).
           Ok (\<lparr> dep_inputs = inputs, dep_to_staked_account = to_staked_account,
                 dep_attributes = attributes \<rparr>, input)))))"

definition encode_txaux :: "ScaleLib \<Rightarrow> TxAux \<Rightarrow> bytes" where
  "encode_txaux S t = (case t of
     TransferTx txid inputs no_of_outputs payload \<Rightarrow>
       [0] @ enc (c_txid S) txid @ enc (c_txo_pointers S) inputs @ enc (c_index S) no_of_outputs @
       enc (c_obfuscated S) payload
   | DepositStakeTx tx payload \<Rightarrow> [1] @ encode_deposit S tx @ enc (c_obfuscated S) payload
   | UnbondStakeTx tx witness \<Rightarrow> [2] @ enc (c_unbond S) tx @ encode_op_witness S witness
   | WithdrawUnbondedStakeTx txid no_of_outputs witness payload \<Rightarrow>
       [3] @ enc (c_txid S) txid @ enc (c_index S) no_of_outputs @ encode_op_witness S witness @
       enc (c_obfuscated S) payload)"

definition decode_txaux :: "ScaleLib \<Rightarrow> TxAux decoder" where
  "decode_txaux S input =
     (if TX_AUX_SIZE < length input then Err ''Input too large''
      else try_bind (read_byte input) (\<lambda>(tag, input).
        if tag = 0
        then try_bind (dec (c_txid S) input) (\<lambda>(txid, input).
             try_bind (dec (c_txo_pointers S) input) (\<lambda>(inputs, input).
             try_bind (dec (c_index S) input) (\<lambda>(no_of_outputs, input).
             try_bind (dec (c_obfuscated S) input) (\<lambda>(payload, input).
             Ok (TransferTx txid inputs no_of_outputs payload, input)))))
        else if tag = 1
        then try_bind (decode_deposit S input) (\<lambda>(tx, input).
             try_bind (dec (c_obfuscated S) input) (\<lambda>(payload, input).
             Ok (DepositStakeTx tx payload, input)))
        else if tag = 2
        then try_bind (dec (c_unbond S) input) (\<lambda>(tx, input).
             try_bind (decode_op_witness S input) (\<lambda>(witness, input).
             Ok (UnbondStakeTx tx witness, input)))
        else if tag = 3
        then try_bind (dec (c_txid S) input) (\<lambda>(txid, input).
             try_bind (dec (c_index S) input) (\<lambda>(no_of_outputs, input).
             try_bind (decode_op_witness S input) (\<lambda>(witness, input).
             try_bind (dec (c_obfuscated S) input) (\<lambda>(payload, input).
             Ok (WithdrawUnbondedStakeTx txid no_of_outputs witness payload, input)))))
        else Err ''No such variant in enum TxAux''))"

text \<open>The derived codec of the plain form inside the enclaves calls the decoders above.\<close>

definition encode_plain_txaux :: "ScaleLib \<Rightarrow> PlainTxAux \<Rightarrow> bytes" where
  "encode_plain_txaux S t = (case t of
     PlainTransferTx tx witness \<Rightarrow> [0] @ encode_tx S tx @ enc (c_in_witnesses S) witness
   | PlainDepositStakeTx witness \<Rightarrow> [1] @ enc (c_in_witnesses S) witness
   | PlainWithdrawUnbondedStakeTx tx \<Rightarrow> [2] @ enc (c_withdraw S) tx)"

definition decode_plain_txaux :: "ScaleLib \<Rightarrow> PlainTxAux decoder" where
  "decode_plain_txaux S input =
     try_bind (read_byte input) (\<lambda>(tag, input).
     if tag = 0
     then try_bind (decode_tx S input) (\<lambda>(tx, input).
          try_bind (decode_tx_witness S input) (\<lambda>(witness, input).
          Ok (PlainTransferTx tx witness, input)))
     else if tag = 1
     then try_bind (decode_tx_witness S input) (\<lambda>(witness, input).
          Ok (PlainDepositStakeTx witness, input))
     else if tag = 2
     then try_bind (dec (c_withdraw S) input) (\<lambda>(tx, input).
          Ok (PlainWithdrawUnbondedStakeTx tx, input))
     else Err ''No such variant in enum PlainTxAux'')"

section \<open>Round trips\<close>

named_theorems codec_simps "codecs that read back what they wrote"

lemma scale_library:
  assumes "scale_laws S"
  shows "dec (c_txid S) (enc (c_txid S) a @ r) = Ok (a, r)"
    "dec (c_txo_pointers S) (enc (c_txo_pointers S) b @ r) = Ok (b, r)"
    "dec (c_u64 S) (enc (c_u64 S) c @ r) = Ok (c, r)"
    "dec (c_u8 S) (enc (c_u8 S) d @ r) = Ok (d, r)"
    "dec (c_out_address S) (enc (c_out_address S) o' @ r) = Ok (o', r)"
    "dec (c_valid_from S) (enc (c_valid_from S) v @ r) = Ok (v, r)"
    "dec (c_index S) (enc (c_index S) e @ r) = Ok (e, r)"
    "dec (c_obfuscated S) (enc (c_obfuscated S) f @ r) = Ok (f, r)"
    "dec (c_obfuscated S) (enc (c_obfuscated S) f) = Ok (f, [])"
    "dec (c_staked_address S) (enc (c_staked_address S) g @ r) = Ok (g, r)"
    "dec (c_op_attributes S) (enc (c_op_attributes S) h @ r) = Ok (h, r)"
    "dec (c_raw_signature S) (enc (c_raw_signature S) j @ r) = Ok (j, r)"
    "dec (c_h264 S) (enc (c_h264 S) k @ r) = Ok (k, r)"
    "dec (c_access S) (enc (c_access S) l @ r) = Ok (l, r)"
    "dec (c_proof S) (enc (c_proof S) m @ r) = Ok (m, r)"
    "view_key_from_slice S (view_key_serialize S p) = Some p"
    "schnorr_from_default S (schnorr_serialize_default S q) = Some q"
  using assms unfolding scale_laws_def by (simp_all add: reads_backD reads_back_nil)

lemma scale_vecs:
  assumes "scale_laws S"
  shows "vec_law (c_vec_tx_out S)" "vec_law (c_vec_access_policy S)" "vec_law (c_vec_in_witness S)"
  using assms by (simp_all add: scale_laws_def)

lemma coin_codec_reads_back: "scale_laws S \<Longrightarrow> reads_back_on coin_wf (coin_codec S)"
  by (auto simp: reads_back_on_def coin_codec_def coin_decode_def coin_wf_def scale_library)

lemma coin_reads_back:
  "\<lbrakk> scale_laws S; coin_wf c \<rbrakk> \<Longrightarrow> dec (coin_codec S) (enc (coin_codec S) c @ r) = Ok (c, r)"
  by (rule reads_back_onD [OF coin_codec_reads_back])

lemma access_policy_reads_back:
  "scale_laws S \<Longrightarrow> decode_access_policy S (encode_access_policy S p @ rest) = Ok (p, rest)"
  by (simp add: encode_access_policy_def decode_access_policy_def scale_library)

lemma in_witness_reads_back:
  "scale_laws S \<Longrightarrow> decode_in_witness S (encode_in_witness S w @ rest) = Ok (w, rest)"
  by (cases w) (simp add: encode_in_witness_def decode_in_witness_def scale_library)

lemma in_witnesses_reads_back:
  assumes "scale_laws S"
  shows "dec (c_in_witnesses S) (enc (c_in_witnesses S) n @ r) = Ok (n, r)"
proof -
  have "reads_back_on (\<lambda>_. True) \<lparr> enc = encode_in_witness S, dec = decode_in_witness S \<rparr>"
    by (simp add: reads_back_on_def in_witness_reads_back [OF assms])
  from reads_back_onD [OF vec_lawD [OF scale_vecs(3) [OF assms] this]] show ?thesis
    by (simp add: c_in_witnesses_def list_all_iff)
qed

lemma access_policies_reads_back:
  assumes "scale_laws S"
  shows "dec (c_access_policies S) (enc (c_access_policies S) n @ r) = Ok (n, r)"
proof -
  have "reads_back_on (\<lambda>_. True) \<lparr> enc = encode_access_policy S, dec = decode_access_policy S \<rparr>"
    by (simp add: reads_back_on_def access_policy_reads_back [OF assms])
  from reads_back_onD [OF vec_lawD [OF scale_vecs(2) [OF assms] this]] show ?thesis
    by (simp add: c_access_policies_def list_all_iff)
qed

lemma tx_attributes_reads_back:
  "scale_laws S \<Longrightarrow> dec (c_tx_attributes S) (enc (c_tx_attributes S) d @ r) = Ok (d, r)"
  by (simp add: c_tx_attributes_def scale_library access_policies_reads_back)

lemma tx_outs_reads_back:
  assumes "scale_laws S" "outs_wf outs"
  shows "dec (c_tx_outs S) (enc (c_tx_outs S) outs @ r) = Ok (outs, r)"
proof -
  have "reads_back_on (\<lambda>x. coin_wf (out_value x)) (c_tx_out S)"
    by (simp add: reads_back_on_def c_tx_out_def scale_library [OF assms(1)] coin_reads_back [OF assms(1)])
  from reads_back_onD [OF vec_lawD [OF scale_vecs(1) [OF assms(1)] this]] assms(2) show ?thesis
    by (simp add: c_tx_outs_def outs_wf_def)
qed

lemma unbond_reads_back:
  "\<lbrakk> scale_laws S; coin_wf (unb_value t) \<rbrakk> \<Longrightarrow> dec (c_unbond S) (enc (c_unbond S) t @ r) = Ok (t, r)"
  by (simp add: c_unbond_def scale_library coin_reads_back)

lemma unbond_refused:
  "\<lbrakk> scale_laws S; \<not> coin_wf (unb_value t) \<rbrakk> \<Longrightarrow>
   dec (c_unbond S) (enc (c_unbond S) t @ r) = Err ''Value greater than maximum allowed''"
  by (simp add: c_unbond_def scale_library coin_codec_def coin_decode_def coin_wf_def)

lemma withdraw_reads_back:
  "\<lbrakk> scale_laws S; outs_wf (wdr_outputs t) \<rbrakk> \<Longrightarrow> dec (c_withdraw S) (enc (c_withdraw S) t @ r) = Ok (t, r)"
  by (simp add: c_withdraw_def scale_library tx_outs_reads_back tx_attributes_reads_back)

lemma reads_back_ends:
  assumes "scale_laws S"
  shows "dec (c_in_witnesses S) (enc (c_in_witnesses S) n) = Ok (n, [])"
    "dec (c_tx_attributes S) (enc (c_tx_attributes S) d) = Ok (d, [])"
    "coin_wf (unb_value t) \<Longrightarrow> dec (c_unbond S) (enc (c_unbond S) t) = Ok (t, [])"
    "outs_wf (wdr_outputs w) \<Longrightarrow> dec (c_withdraw S) (enc (c_withdraw S) w) = Ok (w, [])"
  using in_witnesses_reads_back [OF assms, of n "[]"] tx_attributes_reads_back [OF assms, of d "[]"]
    unbond_reads_back [OF assms, of t "[]"] withdraw_reads_back [OF assms, of w "[]"]
  by simp_all

lemmas scale_reads_back = scale_library in_witnesses_reads_back tx_attributes_reads_back
  tx_outs_reads_back unbond_reads_back withdraw_reads_back reads_back_ends

lemma op_witness_reads_back:
  assumes "scale_laws S"
  shows "decode_op_witness S (encode_op_witness S w @ rest) = Ok (w, rest)"
proof (cases w)
  case (BasicRedeemWitness sig)
  obtain rid raw where "sig_serialize_compact S sig = (rid, raw)" by fastforce
  moreover have "case sig_serialize_compact S sig of (rid, raw) \<Rightarrow>
      recovery_id_from_i32 S rid = Some rid \<and> sig_from_compact S raw rid = Some sig"
    using assms unfolding scale_laws_def by (elim conjE) (erule allE)
  ultimately show ?thesis
    using scale_reads_back(12) [OF assms]
    by (simp add: BasicRedeemWitness encode_op_witness_def decode_op_witness_def)
qed

lemma op_witness_reads_back_nil: "scale_laws S \<Longrightarrow> decode_op_witness S (encode_op_witness S w) = Ok (w, [])"
  using op_witness_reads_back [of S w "[]"] by simp

lemma deposit_decode:
  "scale_laws S \<Longrightarrow> decode_deposit S (encode_deposit S t @ rest) =
     (if MAX_DEPOSIT_TX_SIZE < length (encode_deposit S t @ rest) then Err ''Input too large'' else Ok (t, rest))"
  by (simp add: decode_deposit_def encode_deposit_def scale_reads_back)

lemma tx_decode:
  "\<lbrakk> scale_laws S; outs_wf (tx_outputs t) \<rbrakk> \<Longrightarrow> decode_tx S (encode_tx S t @ rest) =
     (if MAX_TX_SIZE < length (encode_tx S t @ rest) then Err ''Input too large'' else Ok (t, rest))"
  by (simp add: decode_tx_def encode_tx_def scale_reads_back)

section \<open>A concrete library for evaluation\<close>

text \<open>Combinators with unary numbers; each reads back what it writes.\<close>

fun dec_unary :: "nat decoder" where
  "dec_unary [] = Err ''Not enough data to fill buffer''"
| "dec_unary (b # rest) =
     (if b = 0 then Ok (0, rest) else try_bind (dec_unary rest) (\<lambda>(n, rest). Ok (Suc n, rest)))"

definition nat_codec :: "nat codec" where
  "nat_codec = \<lparr> enc = (\<lambda>n. replicate n 1 @ [0]), dec = dec_unary \<rparr>"

definition map_codec :: "('b \<Rightarrow> 'a) \<Rightarrow> ('a \<Rightarrow> 'b) \<Rightarrow> 'a codec \<Rightarrow> 'b codec" where
  "map_codec f g c = \<lparr> enc = (\<lambda>x. enc c (f x)),
     dec = (\<lambda>i. try_bind (dec c i) (\<lambda>(x, r). Ok (g x, r))) \<rparr>"

definition pair_codec :: "'a codec \<Rightarrow> 'b codec \<Rightarrow> ('a \<times> 'b) codec" where
  "pair_codec c d = \<lparr> enc = (\<lambda>(x, y). enc c x @ enc d y),
     dec = (\<lambda>i. try_bind (dec c i) (\<lambda>(x, r). try_bind (dec d r) (\<lambda>(y, r). Ok ((x, y), r)))) \<rparr>"

fun dec_times :: "'a decoder \<Rightarrow> nat \<Rightarrow> 'a list decoder" where
  "dec_times f 0 i = Ok ([], i)"
| "dec_times f (Suc n) i = try_bind (f i) (\<lambda>(x, r). try_bind (dec_times f n r) (\<lambda>(xs, r). Ok (x # xs, r)))"

definition list_codec :: "'a codec \<Rightarrow> 'a list codec" where
  "list_codec c = \<lparr> enc = (\<lambda>xs. enc nat_codec (length xs) @ concat (map (enc c) xs)),
     dec = (\<lambda>i. try_bind (dec nat_codec i) (\<lambda>(n, r). dec_times (dec c) n r)) \<rparr>"

definition word_codec :: "'w::len word codec" where
  "word_codec = map_codec unat of_nat nat_codec"

lemma nat_codec_ok: "reads_back nat_codec"
proof -
  have "dec_unary (replicate n 1 @ 0 # rest) = Ok (n, rest)" for n rest
    by (induction n) auto
  then show ?thesis by (simp add: reads_back_def nat_codec_def)
qed

lemma map_codec_ok: "\<lbrakk> reads_back c; \<And>x. g (f x) = x \<rbrakk> \<Longrightarrow> reads_back (map_codec f g c)"
  by (simp add: reads_back_def map_codec_def)

lemma pair_codec_ok: "\<lbrakk> reads_back c; reads_back d \<rbrakk> \<Longrightarrow> reads_back (pair_codec c d)"
  by (auto simp: reads_back_def pair_codec_def)

lemma list_codec_ok:
  assumes "reads_back c"
  shows "reads_back (list_codec c)"
proof -
  have "dec_times (dec c) (length xs) (concat (map (enc c) xs) @ rest) = Ok (xs, rest)" for xs rest
    by (induction xs) (simp_all add: reads_backD [OF assms])
  then show ?thesis
    by (simp add: reads_back_def list_codec_def reads_backD [OF nat_codec_ok])
qed

lemma list_codec_vec: "vec_law list_codec"
proof -
  have "dec_times (dec c) (length xs) (concat (map (enc c) xs) @ rest) = Ok (xs, rest)"
    if "reads_back_on P c" "list_all P xs" for P and c :: "'a codec" and xs rest
    using that(2) by (induction xs) (simp_all add: reads_back_onD [OF that(1)])
  then show ?thesis
    by (simp add: vec_law_def reads_back_on_def [of "list_all _"] list_codec_def reads_backD [OF nat_codec_ok])
qed

lemma word_codec_ok: "reads_back (word_codec :: 'w::len word codec)"
  unfolding word_codec_def by (rule map_codec_ok [OF nat_codec_ok]) simp

abbreviation bytes_codec :: "bytes codec" where "bytes_codec \<equiv> list_codec word_codec"

definition option_codec :: "'a codec \<Rightarrow> 'a option codec" where
  "option_codec c = map_codec (\<lambda>x. case x of None \<Rightarrow> [] | Some y \<Rightarrow> [y])
     (\<lambda>l. case l of [] \<Rightarrow> None | y # _ \<Rightarrow> Some y) (list_codec c)"

lemma option_codec_ok: "reads_back c \<Longrightarrow> reads_back (option_codec c)"
  unfolding option_codec_def by (rule map_codec_ok [OF list_codec_ok]) (auto split: option.splits)

text \<open>Paths are lists of steps.\<close>

fun path_steps :: "Path \<Rightarrow> (H256 \<times> Sibling option) list" where
  "path_steps (Path h s None) = [(h, s)]"
| "path_steps (Path h s (Some p)) = (h, s) # path_steps p"

fun steps_path :: "(H256 \<times> Sibling option) list \<Rightarrow> Path" where
  "steps_path [] = Path [] None None"
| "steps_path [(h, s)] = Path h s None"
| "steps_path ((h, s) # rest) = Path h s (Some (steps_path rest))"

lemma steps_path_steps: "steps_path (path_steps p) = p"
proof (induction p rule: path_steps.induct)
  case (2 h s p)
  then show ?case by (cases "path_steps p") (auto elim: path_steps.elims)
qed simp

definition sibling_codec :: "Sibling codec" where
  "sibling_codec = map_codec (\<lambda>s. case s of Left h \<Rightarrow> (0, h) | Right h \<Rightarrow> (1 :: nat, h))
     (\<lambda>(t, h). if t = 0 then Left h else Right h) (pair_codec nat_codec bytes_codec)"

definition proof_codec :: "RawPubkey Proof codec" where
  "proof_codec = map_codec
     (\<lambda>p. (proof_root_hash p, path_steps (proof_path p), raw_pubkey_bytes (proof_value p)))
     (\<lambda>(r, p, v). \<lparr> proof_root_hash = r, proof_path = steps_path p, proof_value = RawPubkey v \<rparr>)
     (pair_codec bytes_codec
       (pair_codec (list_codec (pair_codec bytes_codec (option_codec sibling_codec))) bytes_codec))"

definition tx_out_codec :: "TxOut codec" where
  "tx_out_codec = map_codec
     (\<lambda>x. (case out_address x of OrTree h \<Rightarrow> h, coin_u64 (out_value x), out_valid_from x))
     (\<lambda>(h, v, t). \<lparr> out_address = OrTree h, out_value = Coin v, out_valid_from = t \<rparr>)
     (pair_codec bytes_codec (pair_codec word_codec (option_codec word_codec)))"

definition access_codec :: "TxAccess codec" where
  "access_codec = map_codec (\<lambda>a. case a of AllData \<Rightarrow> None | OutputAccess n \<Rightarrow> Some n)
     (\<lambda>x. case x of None \<Rightarrow> AllData | Some n \<Rightarrow> OutputAccess n) (option_codec word_codec)"

definition pointer_codec :: "TxoPointer codec" where
  "pointer_codec = map_codec (\<lambda>x. (txo_id x, txo_index x)) (\<lambda>(i, n). \<lparr> txo_id = i, txo_index = n \<rparr>)
     (pair_codec bytes_codec word_codec)"

definition obfuscated_codec :: "TxObfuscated codec" where
  "obfuscated_codec = map_codec (\<lambda>x. (obf_key_from x, obf_nonce x, txpayload x))
     (\<lambda>(k, n, p). \<lparr> obf_key_from = k, obf_nonce = n, txpayload = p \<rparr>)
     (pair_codec word_codec (pair_codec bytes_codec bytes_codec))"

definition op_attributes_codec :: "StakedStateOpAttributes codec" where
  "op_attributes_codec = map_codec op_chain_hex_id op_attributes_new word_codec"

definition sample_scale :: ScaleLib where
  "sample_scale = \<lparr>
     c_txid = bytes_codec,
     c_txo_pointers = list_codec pointer_codec,
     c_u64 = word_codec,
     c_u8 = word_codec,
     c_out_address = map_codec (\<lambda>a. case a of OrTree h \<Rightarrow> h) OrTree bytes_codec,
     c_valid_from = option_codec word_codec,
     c_index = word_codec,
     c_obfuscated = obfuscated_codec,
     c_staked_address = map_codec (\<lambda>a. case a of BasicRedeem r \<Rightarrow> redeem_raw r)
       (\<lambda>b. BasicRedeem (RedeemAddress b)) bytes_codec,
     c_op_attributes = op_attributes_codec,
     c_raw_signature = bytes_codec,
     c_h264 = bytes_codec,
     c_access = access_codec,
     c_proof = proof_codec,
     c_vec_tx_out = list_codec,
     c_vec_access_policy = list_codec,
     c_vec_in_witness = list_codec,
     view_key_serialize = id,
     view_key_from_slice = Some,
     schnorr_serialize_default = id,
     schnorr_from_default = Some,
     sig_serialize_compact = (\<lambda>g. (0, g)),
     recovery_id_from_i32 = Some,
     sig_from_compact = (\<lambda>raw rid. Some raw) \<rparr>"

lemmas codec_oks = nat_codec_ok pair_codec_ok list_codec_ok word_codec_ok option_codec_ok

text \<open>Merkle trees: the index of the variant, then its fields; the bytes left bound the depth.\<close>

primrec enc_tree :: "'a codec \<Rightarrow> 'a Tree \<Rightarrow> bytes" where
  "enc_tree c Empty = [0]"
| "enc_tree c (Leaf h v) = 1 # enc bytes_codec h @ enc c v"
| "enc_tree c (Node h l r) = 2 # enc bytes_codec h @ enc_tree c l @ enc_tree c r"

fun dec_tree :: "'a codec \<Rightarrow> nat \<Rightarrow> 'a Tree decoder" where
  "dec_tree c 0 i = Err ''too deep''"
| "dec_tree c (Suc n) [] = Err ''no input''"
| "dec_tree c (Suc n) (b # i) =
     (if b = 0 then Ok (Empty, i)
      else if b = 1 then try_bind (dec bytes_codec i) (\<lambda>(h, i). try_bind (dec c i) (\<lambda>(v, i). Ok (Leaf h v, i)))
      else try_bind (dec bytes_codec i) (\<lambda>(h, i). try_bind (dec_tree c n i) (\<lambda>(l, i). try_bind (dec_tree c n i) (\<lambda>(r, i).
        Ok (Node h l r, i)))))"

definition merkle_tree_codec :: "'a codec \<Rightarrow> 'a MerkleTree codec" where
  "merkle_tree_codec c = map_codec (\<lambda>m. (mt_tree m, mt_len m, mt_height m))
     (\<lambda>(t, n, h). \<lparr> mt_tree = t, mt_len = n, mt_height = h \<rparr>)
     (pair_codec \<lparr> enc = enc_tree c, dec = (\<lambda>i. dec_tree c (length i) i) \<rparr> (pair_codec word_codec word_codec))"

lemma dec_tree_enc:
  assumes "reads_back c"
  shows "length (enc_tree c t) \<le> n \<Longrightarrow> dec_tree c n (enc_tree c t @ i) = Ok (t, i)"
proof (induction t arbitrary: n i)
  case Empty
  then show ?case by (cases n) simp_all
next
  case (Leaf h v)
  then show ?case
    by (cases n) (simp_all add: reads_backD [OF assms] reads_backD [OF list_codec_ok [OF word_codec_ok]])
next
  case (Node h l r)
  then obtain m where "n = Suc m" "length (enc_tree c l) \<le> m" "length (enc_tree c r) \<le> m" by (cases n) auto
  with Node.IH show ?case by (simp add: reads_backD [OF list_codec_ok [OF word_codec_ok]])
qed

lemma merkle_tree_codec_ok: "reads_back c \<Longrightarrow> reads_back (merkle_tree_codec c)"
proof -
  assume c: "reads_back c"
  have "reads_back \<lparr> enc = enc_tree c, dec = (\<lambda>i. dec_tree c (length i) i) \<rparr>"
    by (simp add: reads_back_def dec_tree_enc [OF c])
  then show ?thesis
    unfolding merkle_tree_codec_def by (intro map_codec_ok codec_oks) simp_all
qed

lemma structure_codecs_ok:
  "reads_back sibling_codec" "reads_back tx_out_codec" "reads_back access_codec"
  "reads_back pointer_codec" "reads_back obfuscated_codec" "reads_back op_attributes_codec"
  unfolding sibling_codec_def tx_out_codec_def access_codec_def pointer_codec_def
    obfuscated_codec_def op_attributes_codec_def
  by (intro map_codec_ok codec_oks;
      simp add: op_attributes_new_def split: Sibling.splits ExtendedAddr.splits TxAccess.splits)+

lemma proof_codec_ok: "reads_back proof_codec"
  unfolding proof_codec_def
  by (intro map_codec_ok codec_oks structure_codecs_ok) (simp add: steps_path_steps)

lemma sample_scale_laws: "scale_laws sample_scale"
proof -
  have "reads_back (map_codec (\<lambda>a. case a of BasicRedeem r \<Rightarrow> redeem_raw r)
      (\<lambda>b. BasicRedeem (RedeemAddress b)) bytes_codec)"
    "reads_back (map_codec (\<lambda>a. case a of OrTree h \<Rightarrow> h) OrTree bytes_codec)"
    by (intro map_codec_ok codec_oks; simp split: StakedStateAddress.splits ExtendedAddr.splits)+
  then show ?thesis
    by (simp add: scale_laws_def sample_scale_def codec_oks structure_codecs_ok proof_codec_ok list_codec_vec)
qed

text \<open>The pieces whose lengths are computed in evaluations with the concrete library.\<close>

lemmas sample_scale_defs = sample_scale_def c_tx_outs_def c_tx_out_def coin_codec_def c_tx_attributes_def
  c_access_policies_def c_unbond_def c_withdraw_def c_in_witnesses_def encode_in_witness_def
  list_codec_def map_codec_def pair_codec_def word_codec_def nat_codec_def option_codec_def

section \<open>Envelopes are read back\<close>

definition plain_wf :: "PlainTxAux \<Rightarrow> bool" where
  "plain_wf t \<longleftrightarrow> (case t of
     PlainTransferTx tx _ \<Rightarrow> outs_wf (tx_outputs tx)
   | PlainDepositStakeTx _ \<Rightarrow> True
   | PlainWithdrawUnbondedStakeTx tx \<Rightarrow> outs_wf (wdr_outputs tx))"

lemma txaux_reads_back:
  assumes "scale_laws S"
  shows "decode_txaux S (encode_txaux S t) =
    (if TX_AUX_SIZE < length (encode_txaux S t) then Err ''Input too large''
     else if (\<exists>tx payload. t = DepositStakeTx tx payload) \<and> MAX_DEPOSIT_TX_SIZE + 1 < length (encode_txaux S t)
     then Err ''Input too large''
     else if \<exists>tx witness. t = UnbondStakeTx tx witness \<and> \<not> coin_wf (unb_value tx)
     then Err ''Value greater than maximum allowed''
     else Ok (t, []))"
proof (cases "TX_AUX_SIZE < length (encode_txaux S t)")
  case False
  then show ?thesis
  proof (cases t)
    case (DepositStakeTx tx payload)
    with False show ?thesis
      using deposit_decode [OF assms, of tx "enc (c_obfuscated S) payload"]
      by (simp add: decode_txaux_def encode_txaux_def scale_reads_back [OF assms])
  next
    case (UnbondStakeTx tx witness)
    with False show ?thesis
      using unbond_reads_back [OF assms, of tx] unbond_refused [OF assms, of tx]
      by (cases "coin_wf (unb_value tx)")
        (simp_all add: decode_txaux_def encode_txaux_def op_witness_reads_back_nil [OF assms])
  qed (simp_all add: decode_txaux_def encode_txaux_def scale_reads_back [OF assms]
      op_witness_reads_back [OF assms] op_witness_reads_back_nil [OF assms])
qed (simp add: decode_txaux_def)

lemma plain_txaux_reads_back:
  assumes "scale_laws S" "plain_wf t"
  shows "decode_plain_txaux S (encode_plain_txaux S t) =
    (case t of
       PlainTransferTx tx witness \<Rightarrow>
         if MAX_TX_SIZE < length (encode_tx S tx @ enc (c_in_witnesses S) witness)
         then Err ''Input too large'' else Ok (t, [])
     | PlainDepositStakeTx witness \<Rightarrow>
         if MAX_WITNESS_SIZE < length (enc (c_in_witnesses S) witness)
         then Err ''Input too large'' else Ok (t, [])
     | PlainWithdrawUnbondedStakeTx tx \<Rightarrow> Ok (t, []))"
  using assms
  by (cases t) (auto simp: plain_wf_def decode_plain_txaux_def encode_plain_txaux_def tx_decode decode_tx_witness_def
      scale_reads_back MAX_TX_SIZE_def MAX_WITNESS_SIZE_def)

section \<open>Properties\<close>

text \<open>
  C34: an encoded envelope is read back in full exactly when it is not larger than 60 KB and, for
  a deposit, when everything after the variant byte, the encrypted payload included, is not larger
  than the 2200 bytes meant for the deposit structure alone; otherwise the input is too large.  An
  amount to unbond above the total supply is refused as well.
\<close>

theorem txaux_decode_encode:
  assumes "scale_laws S"
  shows "decode_txaux S (encode_txaux S t) =
    (if TX_AUX_SIZE < length (encode_txaux S t) then Err ''Input too large''
     else if (\<exists>tx payload. t = DepositStakeTx tx payload) \<and> MAX_DEPOSIT_TX_SIZE + 1 < length (encode_txaux S t)
     then Err ''Input too large''
     else if \<exists>tx witness. t = UnbondStakeTx tx witness \<and> \<not> coin_wf (unb_value tx)
     then Err ''Value greater than maximum allowed''
     else Ok (t, []))"
  using assms by (rule txaux_reads_back)

theorem txaux_decode_encode_witness:
  "decode_txaux sample_scale (encode_txaux sample_scale
     (UnbondStakeTx (unbond_tx_new (Coin 3) 1 (op_attributes_new 2)) (BasicRedeemWitness [5]))) =
   Ok (UnbondStakeTx (unbond_tx_new (Coin 3) 1 (op_attributes_new 2)) (BasicRedeemWitness [5]), [])"
proof -
  let ?t = "UnbondStakeTx (unbond_tx_new (Coin 3) 1 (op_attributes_new 2)) (BasicRedeemWitness [5])"
  have "length (encode_txaux sample_scale ?t) \<le> TX_AUX_SIZE"
    by (simp add: encode_txaux_def sample_scale_defs encode_op_witness_def op_attributes_codec_def
        unbond_tx_new_def op_attributes_new_def TX_AUX_SIZE_def)
  moreover have "coin_wf (unb_value (unbond_tx_new (Coin 3) 1 (op_attributes_new 2)))"
    by (simp add: unbond_tx_new_def coin_wf_def MAX_COIN_def)
  ultimately show ?thesis
    using txaux_decode_encode [OF sample_scale_laws, of ?t] by simp
qed

text \<open>
  The plain form of a transaction inside an enclave, its amounts within the supply, is read
  back in full exactly when the bytes that follow the variant byte are few enough.  For a transfer
  the limit of 8100 bytes meant for the transaction alone also counts its witnesses, so a transfer
  never has the 51200 bytes that the witness decoder allows; a deposit, which carries witnesses only, has
  them.  The witnesses inside are read by the hand-written decoder of their signatures and proofs.
\<close>

theorem plain_txaux_decode_encode:
  assumes "scale_laws S" "plain_wf t"
  shows "decode_plain_txaux S (encode_plain_txaux S t) =
    (case t of
       PlainTransferTx tx witness \<Rightarrow>
         if MAX_TX_SIZE < length (encode_tx S tx @ enc (c_in_witnesses S) witness)
         then Err ''Input too large'' else Ok (t, [])
     | PlainDepositStakeTx witness \<Rightarrow>
         if MAX_WITNESS_SIZE < length (enc (c_in_witnesses S) witness)
         then Err ''Input too large'' else Ok (t, [])
     | PlainWithdrawUnbondedStakeTx tx \<Rightarrow> Ok (t, []))"
  using assms by (rule plain_txaux_reads_back)

theorem plain_txaux_decode_encode_witness:
  "decode_plain_txaux sample_scale (encode_plain_txaux sample_scale (PlainTransferTx tx_new [])) =
   Ok (PlainTransferTx tx_new [], [])"
  using plain_txaux_decode_encode [OF sample_scale_laws, of "PlainTransferTx tx_new []"]
  by (simp add: plain_wf_def outs_wf_def encode_tx_def tx_new_def tx_attributes_new_def sample_scale_defs MAX_TX_SIZE_def)

end
