(* ===== verification/Ordered_Map.thy ===== *)
theory Ordered_Map
  imports Prelude
begin

text \<open>
  \<open>std::collections::BTreeMap\<close> as the sources use it: an association list sorted by key, so that
  iteration is in key order.  The interface \<open>kv_map\<close> states what its clients rely on and derives how
  totals over the entries change under insertion and removal; the interpretation \<open>btree\<close> discharges it.
\<close>

section \<open>The interface of a map\<close>

locale kv_map =
  fixes empty :: 'm
    and get :: "'m \<Rightarrow> 'k \<Rightarrow> 'v option"
    and ins :: "'k \<Rightarrow> 'v \<Rightarrow> 'm \<Rightarrow> 'm"
    and del :: "'k \<Rightarrow> 'm \<Rightarrow> 'm"
    and entries :: "'m \<Rightarrow> ('k \<times> 'v) list"
    and ok :: "'m \<Rightarrow> bool"
  assumes ok_empty: "ok empty"
    and entries_empty: "entries empty = []"
    and ok_ins: "ok m \<Longrightarrow> ok (ins k v m)"
    and ok_del: "ok m \<Longrightarrow> ok (del k m)"
    and get_ins: "ok m \<Longrightarrow> get (ins k v m) k' = (if k' = k then Some v else get m k')"
    and get_del: "ok m \<Longrightarrow> get (del k m) k' = (if k' = k then None else get m k')"
    and distinct_entries: "ok m \<Longrightarrow> distinct (map fst (entries m))"
    and get_entries: "ok m \<Longrightarrow> get m k = Some v \<longleftrightarrow> (k, v) \<in> set (entries m)"
begin

lemma get_empty: "get empty k = None"
  using get_entries [OF ok_empty, of k] by (cases "get empty k") (auto simp: entries_empty)

lemma entries_eqI:
  assumes "ok m" "ok m'" "\<And>k. get m k = get m' k"
  shows "set (entries m) = set (entries m')"
proof -
  have "(k, v) \<in> set (entries m) \<longleftrightarrow> (k, v) \<in> set (entries m')" for k v
    using assms(3) [of k] get_entries [OF assms(1), of k v] get_entries [OF assms(2), of k v] by simp
  then show ?thesis by auto
qed

lemma set_entries_ins:
  assumes "ok m" "get m k = None"
  shows "set (entries (ins k v m)) = insert (k, v) (set (entries m))"
proof -
  have "(k', v') \<in> set (entries (ins k v m)) \<longleftrightarrow> (k', v') \<in> insert (k, v) (set (entries m))" for k' v'
    using assms get_entries [OF ok_ins [OF assms(1), of k v], of k' v']
      get_entries [OF assms(1), of k' v'] get_entries [OF assms(1), of k v']
    by (auto simp: get_ins split: if_splits)
  then show ?thesis by auto
qed

text \<open>A total over the entries.\<close>

definition total :: "('k \<times> 'v \<Rightarrow> nat) \<Rightarrow> 'm \<Rightarrow> nat" where
  "total f m = sum_list (map f (entries m))"

lemma total_sum:
  assumes "ok m"
  shows "total f m = sum f (set (entries m))"
proof -
  have "distinct (entries m)"
    using distinct_entries [OF assms] by (simp add: distinct_map)
  then show ?thesis by (simp add: total_def sum_list_distinct_conv_sum_set)
qed

lemma total_empty: "total f empty = 0"
  by (simp add: total_def entries_empty)

lemma total_ins_new:
  assumes "ok m" "get m k = None"
  shows "total f (ins k v m) = f (k, v) + total f m"
proof -
  have "(k, v) \<notin> set (entries m)"
    using assms get_entries [OF assms(1), of k v] by simp
  then show ?thesis
    using assms by (simp add: total_sum ok_ins set_entries_ins)
qed

lemma total_del:
  assumes "ok m" "get m k = Some v"
  shows "total f m = f (k, v) + total f (del k m)"
proof -
  have "set (entries m) = set (entries (ins k v (del k m)))"
    using assms by (intro entries_eqI) (auto simp: ok_ins ok_del get_ins get_del)
  then have "total f m = total f (ins k v (del k m))"
    using assms by (simp add: total_sum ok_ins ok_del)
  also have "\<dots> = f (k, v) + total f (del k m)"
    using assms by (intro total_ins_new) (auto simp: ok_del get_del)
  finally show ?thesis .
qed

lemma total_update:
  assumes "ok m" "get m k = Some v"
  shows "total f (ins k w m) + f (k, v) = total f m + f (k, w)"
proof -
  have "set (entries (ins k w m)) = set (entries (ins k w (del k m)))"
    using assms by (intro entries_eqI) (auto simp: ok_ins ok_del get_ins get_del)
  then have "total f (ins k w m) = total f (ins k w (del k m))"
    using assms by (simp add: total_sum ok_ins ok_del)
  also have "\<dots> = f (k, w) + total f (del k m)"
    using assms by (intro total_ins_new) (auto simp: ok_del get_del)
  finally show ?thesis
    using total_del [OF assms, of f] by simp
qed

lemma entry_le_total: "ok m \<Longrightarrow> get m k = Some v \<Longrightarrow> f (k, v) \<le> total f m"
  using total_del [of m k v f] by simp

end

section \<open>Sorted association lists\<close>

type_synonym ('k, 'v) btree = "('k \<times> 'v) list"

definition bt_ok :: "('k::linorder, 'v) btree \<Rightarrow> bool" where
  "bt_ok m \<longleftrightarrow> sorted_wrt (<) (map fst m)"

definition bt_get :: "('k, 'v) btree \<Rightarrow> 'k \<Rightarrow> 'v option" where
  "bt_get m k = map_of m k"

fun bt_insert :: "'k::linorder \<Rightarrow> 'v \<Rightarrow> ('k, 'v) btree \<Rightarrow> ('k, 'v) btree" where
  "bt_insert k v [] = [(k, v)]"
| "bt_insert k v ((k', v') # m) =
     (if k < k' then (k, v) # (k', v') # m
      else if k = k' then (k, v) # m
      else (k', v') # bt_insert k v m)"

definition bt_remove :: "'k \<Rightarrow> ('k, 'v) btree \<Rightarrow> ('k, 'v) btree" where
  "bt_remove k m = filter (\<lambda>(k', _). k' \<noteq> k) m"

definition bt_contains_key :: "('k, 'v) btree \<Rightarrow> 'k \<Rightarrow> bool" where
  "bt_contains_key m k \<longleftrightarrow> bt_get m k \<noteq> None"

definition bt_values :: "('k, 'v) btree \<Rightarrow> 'v list" where
  "bt_values m = map snd m"

definition bt_from_list :: "('k::linorder \<times> 'v) list \<Rightarrow> ('k, 'v) btree" where
  "bt_from_list xs = fold (\<lambda>(k, v). bt_insert k v) xs []"

lemma bt_ok_simps [simp]:
  "bt_ok []" "bt_ok ((k, v) # m) \<longleftrightarrow> (\<forall>x \<in> fst ` set m. k < x) \<and> bt_ok m"
  by (auto simp: bt_ok_def)

lemma fst_set_bt_insert: "fst ` set (bt_insert k v m) = insert k (fst ` set m)"
  by (induction k v m rule: bt_insert.induct) auto

lemma bt_ok_insert: "bt_ok m \<Longrightarrow> bt_ok (bt_insert k v m)"
  by (induction k v m rule: bt_insert.induct) (auto simp: fst_set_bt_insert simp flip: image_iff)

lemma bt_get_insert: "bt_ok m \<Longrightarrow> bt_get (bt_insert k v m) k' = (if k' = k then Some v else bt_get m k')"
  by (induction k v m rule: bt_insert.induct) (auto simp: bt_get_def)

lemma bt_get_remove: "bt_get (bt_remove k m) k' = (if k' = k then None else bt_get m k')"
  by (induction m) (auto simp: bt_get_def bt_remove_def)

lemma bt_ok_remove: "bt_ok m \<Longrightarrow> bt_ok (bt_remove k m)"
  by (induction m) (auto simp: bt_remove_def)

lemma bt_ok_distinct: "bt_ok m \<Longrightarrow> distinct (map fst m)"
  by (simp add: bt_ok_def strict_sorted_iff)

interpretation btree: kv_map "[] :: ('k::linorder, 'v) btree" bt_get bt_insert bt_remove id bt_ok
proof
  fix m :: "('k, 'v) btree" and k v
  assume "bt_ok m"
  then show "bt_get m k = Some v \<longleftrightarrow> (k, v) \<in> set (id m)"
    by (simp add: bt_get_def bt_ok_distinct)
qed (auto simp: bt_ok_insert bt_ok_remove bt_get_insert bt_get_remove bt_ok_distinct)

abbreviation bt_total :: "('k \<times> 'v \<Rightarrow> nat) \<Rightarrow> ('k::linorder, 'v) btree \<Rightarrow> nat" where
  "bt_total f m \<equiv> sum_list (map f m)"

lemma btree_total: "btree.total f m = bt_total f m"
  by (simp add: btree.total_def)

lemmas bt_total_insert_new = btree.total_ins_new [unfolded btree_total]
lemmas bt_total_update = btree.total_update [unfolded btree_total]
lemmas bt_total_remove = btree.total_del [unfolded btree_total]

lemma bt_ok_from_list: "bt_ok (bt_from_list xs)"
proof -
  have "bt_ok m \<Longrightarrow> bt_ok (fold (\<lambda>(k, v). bt_insert k v) xs m)" for m :: "('a, 'b) btree"
    by (induction xs arbitrary: m) (auto simp: bt_ok_insert)
  then show ?thesis by (simp add: bt_from_list_def)
qed

lemmas bt_simps = bt_ok_insert bt_ok_remove bt_get_insert bt_get_remove

end
