(* ===== verification/Genesis.thy ===== *)
theory Genesis
  imports Transactions Ordered_Map
begin

text \<open>
  The initial configuration (\<open>chain-core/src/init/config.rs\<close>): its checks and the genesis accounts,
  rewards pool and council nodes computed from it.  The theory shows that a configuration that passes
  gives away exactly the total supply, that validators are distinct, bonded with the required stake
  and within Tendermint's voting power, and that no step of the computation panics.
\<close>

section \<open>Configuration\<close>

record InitNetworkParameters =
  initial_fee_policy :: LinearFee
  required_council_node_stake :: Coin
  np_unbonding_period :: u32

datatype AccountType = ExternallyOwnedAccount | Contract

datatype ValidatorKeyType = Ed25519Key

record InitialValidator =
  iv_staking_account_address :: RedeemAddress
  iv_consensus_pubkey_type :: ValidatorKeyType
  iv_consensus_pubkey_b64 :: string

record InitConfig =
  distribution :: "(RedeemAddress, Coin \<times> AccountType) btree"
  launch_incentive_from :: RedeemAddress
  launch_incentive_to :: RedeemAddress
  long_term_incentive :: RedeemAddress
  network_params :: InitNetworkParameters
  council_nodes :: "InitialValidator list"

datatype DistributionError =
    DistributionCoinError CoinError
  | DoesNotMatchMaxSupply Coin
  | AddressNotInDistribution RedeemAddress
  | DoesNotMatchRequiredAmount RedeemAddress Coin
  | InvalidValidatorKey
  | DuplicateValidatorKey
  | InvalidValidatorAccount
  | DuplicateValidatorAccount
  | NoValidators
  | InvalidVotingPower

section \<open>Checks\<close>

definition check_address :: "InitConfig \<Rightarrow> RedeemAddress \<Rightarrow> DistributionError + unit" where
  "check_address self a =
     (if bt_contains_key (distribution self) a then Ok () else Err (AddressNotInDistribution a))"

definition check_address_expected_amount ::
    "InitConfig \<Rightarrow> RedeemAddress \<Rightarrow> Coin \<Rightarrow> DistributionError + unit" where
  "check_address_expected_amount self a expected = (case bt_get (distribution self) a of
     Some (c, t) \<Rightarrow>
       if c = expected \<and> t = ExternallyOwnedAccount then Ok () else Err (DoesNotMatchRequiredAmount a c)
   | None \<Rightarrow> Err (AddressNotInDistribution a))"

definition check_validator_key ::
    "TextLib \<Rightarrow> ValidatorKeyType \<Rightarrow> string \<Rightarrow> DistributionError + TendermintValidatorPubKey" where
  "check_validator_key L t encoded = (case base64_decode L encoded of
     Some key \<Rightarrow> (case t of Ed25519Key \<Rightarrow>
       if length key = 32 then Ok (Ed25519 key) else Err InvalidValidatorKey)
   | None \<Rightarrow> Err InvalidValidatorKey)"

definition is_rewards_pool_address :: "InitConfig \<Rightarrow> RedeemAddress \<Rightarrow> bool" where
  "is_rewards_pool_address self a \<longleftrightarrow>
     a = launch_incentive_from self \<or> a = launch_incentive_to self \<or> a = long_term_incentive self"

section \<open>The genesis state\<close>

fun genesis_loop ::
    "InitConfig \<Rightarrow> Timespec \<Rightarrow> RedeemAddress list \<Rightarrow> (RedeemAddress \<times> Coin \<times> AccountType) list \<Rightarrow>
     u64 \<Rightarrow> StakedState list \<Rightarrow> u64 \<times> StakedState list" where
  "genesis_loop self genesis_time validator_addresses [] pool accounts = (pool, accounts)"
| "genesis_loop self genesis_time validator_addresses ((a, amt, address_type) # rest) pool accounts =
     (if is_rewards_pool_address self a \<or> address_type = Contract
      then genesis_loop self genesis_time validator_addresses rest (pool + coin_u64 amt) accounts
      else genesis_loop self genesis_time validator_addresses rest pool
        (accounts @ [new_init amt genesis_time (BasicRedeem a) (a \<in> set validator_addresses)]))"

definition get_genesis_state ::
    "InitConfig \<Rightarrow> Timespec \<Rightarrow> RedeemAddress list \<Rightarrow> panic + StakedState list \<times> RewardsPoolState" where
  "get_genesis_state self genesis_time validator_addresses =
     (let (pool, accounts) =
        genesis_loop self genesis_time validator_addresses (distribution self) 0 []
      in try_bind (expect ''rewards pool amount'' (coin_new pool)) (\<lambda>c.
         Ok (accounts, rewards_pool_new c 0)))"

text \<open>The loop over the council nodes; the two hash sets are lists of what was inserted.\<close>

fun council_loop ::
    "TextLib \<Rightarrow> InitConfig \<Rightarrow> InitialValidator list \<Rightarrow> CouncilNode list \<Rightarrow> RedeemAddress list \<Rightarrow>
     TendermintValidatorPubKey list \<Rightarrow> DistributionError + CouncilNode list \<times> RedeemAddress list" where
  "council_loop L self [] validators addresses pubkeys = Ok (validators, addresses)"
| "council_loop L self (node # rest) validators addresses pubkeys =
     (if is_rewards_pool_address self (iv_staking_account_address node) then Err InvalidValidatorAccount
      else if iv_staking_account_address node \<in> set addresses then Err DuplicateValidatorAccount
      else try_bind (check_address_expected_amount self (iv_staking_account_address node)
             (required_council_node_stake (network_params self))) (\<lambda>_.
           try_bind (check_validator_key L (iv_consensus_pubkey_type node) (iv_consensus_pubkey_b64 node))
             (\<lambda>validator_key.
           if validator_key \<in> set pubkeys then Err DuplicateValidatorKey
           else council_loop L self rest
             (validators @ [council_node_new (BasicRedeem (iv_staking_account_address node)) validator_key])
             (addresses @ [iv_staking_account_address node]) (pubkeys @ [validator_key]))))"

definition validate_config_get_genesis ::
    "TextLib \<Rightarrow> InitConfig \<Rightarrow> Timespec \<Rightarrow>
     (DistributionError, StakedState list \<times> RewardsPoolState \<times> CouncilNode list) exec" where
  "validate_config_get_genesis L self genesis_time =
     exec_bind (Ok (check_address self (launch_incentive_from self))) (\<lambda>_.
     exec_bind (Ok (check_address self (launch_incentive_to self))) (\<lambda>_.
     exec_bind (Ok (check_address self (long_term_incentive self))) (\<lambda>_.
     if council_nodes self = [] then Ok (Err NoValidators)
     else
     exec_bind (Ok (council_loop L self (council_nodes self) [] [] [])) (\<lambda>(validators, validator_addresses).
     exec_bind (case coin_new (coin_u64 (required_council_node_stake (network_params self)) *
                      of_nat (length (council_nodes self))) of
          Inr tvs \<Rightarrow> lift_panic (vote_power_from_coin tvs)
        | Inl _ \<Rightarrow> Ok (Err InvalidVotingPower)) (\<lambda>_.
     case sum_coins (map (\<lambda>(_, amt, _). amt) (distribution self)) of
       Inr s \<Rightarrow>
         if s \<noteq> coin_max then Ok (Err (DoesNotMatchMaxSupply s))
         else exec_bind (lift_panic (get_genesis_state self genesis_time validator_addresses))
           (\<lambda>(accounts, rewards_pool). Ok (Ok (accounts, rewards_pool, validators)))
     | Inl e \<Rightarrow> Ok (Err (DistributionCoinError e)))))))"

section \<open>What the loops compute\<close>

abbreviation entry_amount :: "RedeemAddress \<times> Coin \<times> AccountType \<Rightarrow> nat" where
  "entry_amount \<equiv> \<lambda>(a, amt, t). amount amt"

definition pool_entry :: "InitConfig \<Rightarrow> RedeemAddress \<times> Coin \<times> AccountType \<Rightarrow> bool" where
  "pool_entry cfg e = (case e of (a, amt, t) \<Rightarrow> is_rewards_pool_address cfg a \<or> t = Contract)"

lemma genesis_loop_spec:
  "genesis_loop cfg t vs es pool acc =
    (pool + sum_list (map (\<lambda>(a, amt, ty). coin_u64 amt) (filter (pool_entry cfg) es)),
     acc @ map (\<lambda>(a, amt, ty). new_init amt t (BasicRedeem a) (a \<in> set vs)) (filter (Not \<circ> pool_entry cfg) es))"
  by (induction cfg t vs es pool acc rule: genesis_loop.induct) (auto simp: pool_entry_def add.assoc)

lemma unat_sum_list_coins:
  "sum_list (map (\<lambda>(a, amt, ty). amount amt) es) < 2 ^ 64 \<Longrightarrow>
   unat (sum_list (map (\<lambda>(a, amt, ty). coin_u64 amt) es)) = sum_list (map (\<lambda>(a, amt, ty). amount amt) es)"
proof (induction es)
  case (Cons e es)
  then show ?case
    by (cases e) (simp add: amount_def unat_add_no_wrap)
qed simp

lemma sum_list_filter_split:
  fixes f :: "'a \<Rightarrow> nat"
  shows "sum_list (map f (filter P xs)) + sum_list (map f (filter (Not \<circ> P) xs)) = sum_list (map f xs)"
  by (induction xs) auto

lemma stake_total_new_init: "stake_total (new_init amt t a b) = amount amt"
  by (simp add: stake_total_def new_init_def)

text \<open>An accepted list of nodes: distinct accounts and keys, each holding the required stake.\<close>

definition council_ok ::
    "InitConfig \<Rightarrow> CouncilNode list \<Rightarrow> RedeemAddress list \<Rightarrow> TendermintValidatorPubKey list \<Rightarrow> bool" where
  "council_ok cfg validators addresses pubkeys \<longleftrightarrow>
     distinct addresses \<and> distinct pubkeys \<and>
     map staking_account_address validators = map BasicRedeem addresses \<and>
     map consensus_pubkey validators = pubkeys \<and>
     (\<forall>a \<in> set addresses. \<not> is_rewards_pool_address cfg a \<and>
        bt_get (distribution cfg) a =
          Some (required_council_node_stake (network_params cfg), ExternallyOwnedAccount))"

lemma council_loop_spec:
  assumes "council_loop L cfg nodes validators addresses pubkeys = Ok (vs, as)"
    and "council_ok cfg validators addresses pubkeys"
  shows "(\<exists>ks. council_ok cfg vs as ks) \<and> length as = length addresses + length nodes"
  using assms
proof (induction L cfg nodes validators addresses pubkeys arbitrary: vs as rule: council_loop.induct)
  case (2 L cfg node rest validators addresses pubkeys)
  let ?a = "iv_staking_account_address node"
  from 2(2) obtain k where a: "\<not> is_rewards_pool_address cfg ?a" "?a \<notin> set addresses"
    and c: "check_address_expected_amount cfg ?a (required_council_node_stake (network_params cfg)) = Ok ()"
    and k: "check_validator_key L (iv_consensus_pubkey_type node) (iv_consensus_pubkey_b64 node) = Ok k"
      "k \<notin> set pubkeys"
    and r: "council_loop L cfg rest (validators @ [council_node_new (BasicRedeem ?a) k])
      (addresses @ [?a]) (pubkeys @ [k]) = Ok (vs, as)"
    by (auto simp: result_simps split: if_splits)
  have "bt_get (distribution cfg) ?a =
      Some (required_council_node_stake (network_params cfg), ExternallyOwnedAccount)"
    using c by (auto simp: check_address_expected_amount_def split: option.splits if_splits)
  then have "council_ok cfg (validators @ [council_node_new (BasicRedeem ?a) k]) (addresses @ [?a]) (pubkeys @ [k])"
    using 2(3) a k by (auto simp: council_ok_def council_node_new_def)
  with 2(1) [OF a c k r] show ?case by simp
qed auto

text \<open>The genesis accounts and rewards pool split the distribution.\<close>

lemma get_genesis_state_spec:
  assumes "sum_list (map entry_amount (distribution cfg)) \<le> max_supply"
  shows "\<exists>c. get_genesis_state cfg t vs =
      Ok (map (\<lambda>(a, amt, ty). new_init amt t (BasicRedeem a) (a \<in> set vs))
            (filter (Not \<circ> pool_entry cfg) (distribution cfg)), rewards_pool_new c 0) \<and>
    amount c = sum_list (map entry_amount (filter (pool_entry cfg) (distribution cfg))) \<and> coin_wf c"
proof -
  let ?es = "filter (pool_entry cfg) (distribution cfg)"
  let ?p = "sum_list (map (\<lambda>(a, amt, ty). coin_u64 amt) ?es)"
  have le: "sum_list (map entry_amount ?es) \<le> max_supply"
    using assms sum_list_filter_split [of entry_amount "pool_entry cfg" "distribution cfg"] by linarith
  then have p: "unat ?p = sum_list (map entry_amount ?es)"
    by (intro unat_sum_list_coins) simp
  with le have "coin_new ?p = Ok (Coin ?p)" by (simp add: coin_simps)
  then have "get_genesis_state cfg t vs =
      Ok (map (\<lambda>(a, amt, ty). new_init amt t (BasicRedeem a) (a \<in> set vs))
            (filter (Not \<circ> pool_entry cfg) (distribution cfg)), rewards_pool_new (Coin ?p) 0)"
    by (simp add: get_genesis_state_def genesis_loop_spec)
  moreover have "amount (Coin ?p) = sum_list (map entry_amount ?es)" "coin_wf (Coin ?p)"
    using p le by (simp_all add: amount_def coin_simps)
  ultimately show ?thesis by blast
qed

lemma sum_distribution:
  "sum_coins (map (\<lambda>(_, amt, _). amt) es) = Ok s \<Longrightarrow>
   sum_list (map entry_amount es) = amount s \<and> amount s \<le> max_supply"
  by (simp add: sum_coins_Ok_iff comp_def case_prod_beta')

lemma validate_config_Ok:
  assumes "validate_config_get_genesis L cfg t = Ok (Ok (accounts, pool, validators))"
  shows "\<exists>as ks. council_ok cfg validators as ks \<and> length as = length (council_nodes cfg) \<and> as \<noteq> [] \<and>
    sum_list (map entry_amount (distribution cfg)) = max_supply \<and>
    get_genesis_state cfg t as = Ok (accounts, pool)"
proof -
  from assms obtain as where ne: "council_nodes cfg \<noteq> []"
    and loop: "council_loop L cfg (council_nodes cfg) [] [] [] = Ok (validators, as)"
    and sum: "sum_coins (map (\<lambda>(_, amt, _). amt) (distribution cfg)) = Ok coin_max"
    and st: "get_genesis_state cfg t as = Ok (accounts, pool)"
    unfolding validate_config_get_genesis_def
    by (cases "sum_coins (map (\<lambda>(_, amt, _). amt) (distribution cfg))")
      (auto simp: result_simps split: if_splits sum.splits)
  have "council_ok cfg [] [] []" by (simp add: council_ok_def)
  from council_loop_spec [OF loop this] ne st sum_distribution [OF sum] show ?thesis
    by (auto simp: amount_max)
qed

lemma genesis_accounts_wf:
  assumes "validate_config_get_genesis L cfg t = Ok (Ok (accounts, pool, validators))"
  shows "\<forall>a \<in> set accounts. staked_wf a"
proof -
  from validate_config_Ok [OF assms] obtain as where
    sum: "sum_list (map entry_amount (distribution cfg)) = max_supply" and
    st: "get_genesis_state cfg t as = Ok (accounts, pool)" by blast
  have le: "entry_amount e \<le> max_supply" if "e \<in> set (distribution cfg)" for e
    using member_le_sum_list [of "entry_amount e" "map entry_amount (distribution cfg)"] that sum by simp
  from get_genesis_state_spec [of cfg t as] sum st have
    "accounts = map (\<lambda>(a, amt, ty). new_init amt t (BasicRedeem a) (a \<in> set as))
      (filter (Not \<circ> pool_entry cfg) (distribution cfg))" by auto
  then show ?thesis using le by (fastforce simp: staked_wf_def new_init_def coin_wf_amount)
qed

section \<open>A concrete configuration\<close>

definition sample_node :: InitialValidator where
  "sample_node = \<lparr> iv_staking_account_address = RedeemAddress [4], iv_consensus_pubkey_type = Ed25519Key,
     iv_consensus_pubkey_b64 = replicate 32 (CHR ''k'') \<rparr>"

definition sample_config :: InitConfig where
  "sample_config = \<lparr>
     distribution = [(RedeemAddress [1], Coin 9000000000000000000, ExternallyOwnedAccount),
       (RedeemAddress [2], Coin 0, ExternallyOwnedAccount), (RedeemAddress [3], Coin 5, ExternallyOwnedAccount),
       (RedeemAddress [4], Coin 900000000000000000, ExternallyOwnedAccount),
       (RedeemAddress [5], Coin 99999999999999995, ExternallyOwnedAccount)],
     launch_incentive_from = RedeemAddress [1], launch_incentive_to = RedeemAddress [2],
     long_term_incentive = RedeemAddress [3],
     network_params = \<lparr> initial_fee_policy = linear_fee_new (Milli 0) (Milli 0),
       required_council_node_stake = Coin 900000000000000000, np_unbonding_period = 60 \<rparr>,
     council_nodes = [sample_node] \<rparr>"

lemma sample_config_ok: "bt_ok (distribution sample_config)"
  by (simp add: sample_config_def less_RedeemAddress_def)

lemma sample_config_validates:
  "validate_config_get_genesis sample_text sample_config 7 =
   Ok (Ok ([new_init (Coin 900000000000000000) 7 (BasicRedeem (RedeemAddress [4])) True,
            new_init (Coin 99999999999999995) 7 (BasicRedeem (RedeemAddress [5])) False],
     rewards_pool_new (Coin 9000000000000000005) 0,
     [council_node_new (BasicRedeem (RedeemAddress [4])) (Ed25519 (replicate 32 107))]))"
proof -
  have key: "check_validator_key sample_text Ed25519Key (replicate 32 (CHR ''k'')) = Ok (Ed25519 (replicate 32 107))"
    by (simp add: check_validator_key_def sample_text_def)
  have loop: "council_loop sample_text sample_config [sample_node] [] [] [] =
      Ok ([council_node_new (BasicRedeem (RedeemAddress [4])) (Ed25519 (replicate 32 107))], [RedeemAddress [4]])"
    using key by (simp add: sample_node_def is_rewards_pool_address_def check_address_expected_amount_def
      sample_config_def bt_get_def)
  obtain v where vp: "vote_power_from_coin (Coin 900000000000000000) = Ok v"
    using vote_power_from_coin_ok [of "Coin 900000000000000000"] by (auto simp: coin_wf_def MAX_COIN_def)
  have sum: "sum_coins (map (\<lambda>(_, amt, _). amt) (distribution sample_config)) = Ok coin_max"
    by (simp add: sum_coins_Ok_iff sample_config_def amount_def coin_max_def MAX_COIN_def)
  have st: "get_genesis_state sample_config 7 [RedeemAddress [4]] =
      Ok ([new_init (Coin 900000000000000000) 7 (BasicRedeem (RedeemAddress [4])) True,
           new_init (Coin 99999999999999995) 7 (BasicRedeem (RedeemAddress [5])) False],
          rewards_pool_new (Coin 9000000000000000005) 0)"
    by (simp add: get_genesis_state_def sample_config_def is_rewards_pool_address_def coin_new_def MAX_COIN_def)
  have "check_address sample_config a = Ok ()"
    if "a \<in> {launch_incentive_from sample_config, launch_incentive_to sample_config, long_term_incentive sample_config}" for a
    using that by (auto simp: check_address_def bt_contains_key_def bt_get_def sample_config_def)
  moreover have "council_nodes sample_config = [sample_node]"
    "required_council_node_stake (network_params sample_config) = Coin 900000000000000000"
    by (simp_all add: sample_config_def)
  moreover have "coin_new 900000000000000000 = Ok (Coin 900000000000000000)"
    by (simp add: coin_new_def MAX_COIN_def)
  ultimately show ?thesis
    by (simp add: validate_config_get_genesis_def loop vp sum st del: council_loop.simps)
qed

section \<open>Properties\<close>

text \<open>
  C28: a valid configuration distributes exactly the total supply: the genesis accounts and the
  rewards pool together hold every base unit, and no two accounts share an address.
\<close>

theorem genesis_supply:
  assumes "bt_ok (distribution cfg)"
    and "validate_config_get_genesis L cfg t = Ok (Ok (accounts, pool, validators))"
  shows "sum_list (map stake_total accounts) + amount (remaining pool) = max_supply \<and>
    distinct (map address accounts)"
proof
  from validate_config_Ok [OF assms(2)] obtain as where
    sum: "sum_list (map entry_amount (distribution cfg)) = max_supply" and
    st: "get_genesis_state cfg t as = Ok (accounts, pool)" by blast
  from get_genesis_state_spec [of cfg t as] sum st obtain c where
    acc: "accounts = map (\<lambda>(a, amt, ty). new_init amt t (BasicRedeem a) (a \<in> set as))
        (filter (Not \<circ> pool_entry cfg) (distribution cfg))" and
    pool: "remaining pool = c" "amount c = sum_list (map entry_amount (filter (pool_entry cfg) (distribution cfg)))"
    by (auto simp: rewards_pool_new_def)
  have "map stake_total accounts = map entry_amount (filter (Not \<circ> pool_entry cfg) (distribution cfg))"
    unfolding acc by (auto simp: stake_total_new_init)
  then show "sum_list (map stake_total accounts) + amount (remaining pool) = max_supply"
    using pool sum sum_list_filter_split [of entry_amount "pool_entry cfg" "distribution cfg"] by simp
  have "map address accounts = map BasicRedeem (map fst (filter (Not \<circ> pool_entry cfg) (distribution cfg)))"
    unfolding acc by (auto simp: new_init_def)
  moreover have "distinct (map fst (filter (Not \<circ> pool_entry cfg) (distribution cfg)))"
    using bt_ok_distinct [OF assms(1)] by (rule distinct_map_filter)
  ultimately show "distinct (map address accounts)"
    by (simp only: distinct_map) (simp add: inj_on_def)
qed

theorem genesis_supply_witness:
  "sum_list (map stake_total [new_init (Coin 900000000000000000) 7 (BasicRedeem (RedeemAddress [4])) True,
     new_init (Coin 99999999999999995) 7 (BasicRedeem (RedeemAddress [5])) False]) +
   amount (remaining (rewards_pool_new (Coin 9000000000000000005) 0)) = max_supply"
  by (rule conjunct1 [OF genesis_supply [OF sample_config_ok sample_config_validates]])

text \<open>
  Validating a configuration never panics: neither the conversion of the total stake to voting
  power nor the sum for the rewards pool can leave its range.
\<close>

theorem genesis_never_panics: "validate_config_get_genesis L cfg t \<noteq> Err p"
proof
  assume "validate_config_get_genesis L cfg t = Err p"
  then consider
      (power) tvs where "coin_new (coin_u64 (required_council_node_stake (network_params cfg)) *
          of_nat (length (council_nodes cfg))) = Ok tvs" "vote_power_from_coin tvs = Err p"
    | (pool) as where "sum_coins (map (\<lambda>(_, amt, _). amt) (distribution cfg)) = Ok coin_max"
        "get_genesis_state cfg t as = Err p"
    unfolding validate_config_get_genesis_def
    by (cases "sum_coins (map (\<lambda>(_, amt, _). amt) (distribution cfg))")
      (auto simp: result_simps split: if_splits sum.splits)
  then show False
  proof cases
    case power
    then have "coin_wf tvs" by (auto simp: coin_simps amount_def)
    with power(2) vote_power_from_coin_ok [of tvs] show False by auto
  next
    case pool
    with sum_distribution [OF pool(1)] get_genesis_state_spec [of cfg t as] show False by auto
  qed
qed

text \<open>
  C29: the council nodes of a valid configuration are at least one, have pairwise different accounts and
  consensus keys, and each has a genesis account that holds the required stake, all of it bonded; all
  stakes together stay within the total supply.
\<close>

theorem genesis_validators:
  assumes "bt_ok (distribution cfg)"
    and "validate_config_get_genesis L cfg t = Ok (Ok (accounts, pool, validators))"
  shows "validators \<noteq> [] \<and> length validators = length (council_nodes cfg) \<and>
    distinct (map staking_account_address validators) \<and> distinct (map consensus_pubkey validators) \<and>
    (\<forall>v \<in> set validators. new_init (required_council_node_stake (network_params cfg)) t
       (staking_account_address v) True \<in> set accounts) \<and>
    length validators * amount (required_council_node_stake (network_params cfg)) \<le> max_supply"
proof -
  let ?req = "required_council_node_stake (network_params cfg)"
  from validate_config_Ok [OF assms(2)] obtain as ks where
    ok: "council_ok cfg validators as ks" and len: "length as = length (council_nodes cfg)" "as \<noteq> []" and
    sum: "sum_list (map entry_amount (distribution cfg)) = max_supply" and
    st: "get_genesis_state cfg t as = Ok (accounts, pool)" by blast
  from get_genesis_state_spec [of cfg t as] sum st have
    acc: "accounts = map (\<lambda>(a, amt, ty). new_init amt t (BasicRedeem a) (a \<in> set as))
        (filter (Not \<circ> pool_entry cfg) (distribution cfg))" by auto
  have mem: "(a, ?req, ExternallyOwnedAccount) \<in> set (distribution cfg)" if "a \<in> set as" for a
    using ok that btree.get_entries [OF assms(1)] by (auto simp: council_ok_def)
  have addr: "map staking_account_address validators = map BasicRedeem as"
    and pk: "map consensus_pubkey validators = ks" and da: "distinct as" and dk: "distinct ks"
    using ok by (simp_all add: council_ok_def)
  from addr have lenv: "length validators = length as" by (rule map_eq_imp_length_eq)
  have "new_init ?req t (BasicRedeem a) True \<in> set accounts" if "a \<in> set as" for a
    using mem [OF that] ok that unfolding acc
    by (force simp: council_ok_def pool_entry_def image_iff)
  moreover have "set (map staking_account_address validators) = BasicRedeem ` set as" using addr by simp
  ultimately have bonded: "\<forall>v \<in> set validators. new_init ?req t (staking_account_address v) True \<in> set accounts"
    by (auto simp: set_eq_iff image_iff) (metis imageI)
  have "length as * amount ?req = sum entry_amount ((\<lambda>a. (a, ?req, ExternallyOwnedAccount)) ` set as)"
    using da by (subst sum.reindex) (auto simp: inj_on_def distinct_card)
  also have "\<dots> \<le> sum entry_amount (set (distribution cfg))"
    using mem by (intro sum_mono2) auto
  also have "\<dots> = sum_list (map entry_amount (distribution cfg))"
    using bt_ok_distinct [OF assms(1)] by (simp add: sum_list_distinct_conv_sum_set distinct_map)
  finally have "length validators * amount ?req \<le> max_supply" using sum lenv by simp
  then show ?thesis
    using len lenv addr pk da dk bonded by (auto simp: distinct_map inj_on_def)
qed

theorem genesis_validators_witness:
  "new_init (Coin 900000000000000000) 7 (BasicRedeem (RedeemAddress [4])) True \<in>
     set [new_init (Coin 900000000000000000) 7 (BasicRedeem (RedeemAddress [4])) True,
       new_init (Coin 99999999999999995) 7 (BasicRedeem (RedeemAddress [5])) False]"
proof -
  from genesis_validators [OF sample_config_ok sample_config_validates]
  have "\<forall>v \<in> set [council_node_new (BasicRedeem (RedeemAddress [4])) (Ed25519 (replicate 32 107))].
      new_init (required_council_node_stake (network_params sample_config)) 7 (staking_account_address v) True \<in>
        set [new_init (Coin 900000000000000000) 7 (BasicRedeem (RedeemAddress [4])) True,
          new_init (Coin 99999999999999995) 7 (BasicRedeem (RedeemAddress [5])) False]"
    by blast
  then show ?thesis
    by (simp add: sample_config_def council_node_new_def)
qed

end
