(* ===== verification/Validation.thy ===== *)
theory Validation
  imports Transactions
begin

text \<open>
  Pure transaction validation (\<open>chain-tx-validation/src/lib.rs\<close>, \<open>witness.rs\<close>).  Each verifier is
  translated with its checks in order; a failed \<open>unwrap\<close> or \<open>expect\<close> is a panic value.  The theory
  characterises acceptance of the four kinds of transactions, shows that no value is created and that
  the minimal fee is paid, when the verifiers cannot panic, and what a spending witness really has to show.
\<close>

section \<open>Errors\<close>

datatype Error =
    WrongChainHexId | NoInputs | NoOutputs | DuplicateInputs | ZeroCoin | InvalidSum
  | UnexpectedWitnesses | MissingWitnesses | InvalidInput | InputSpent | InputOutputDoNotMatch
  | OutputInTimelock | EcdsaCrypto | IoError | EnclaveRejected | AccountNotFound
  | AccountNotUnbonded | AccountWithdrawOutputNotLocked | AccountIncorrectNonce

text \<open>\<open>Error::X as i32\<close>: the position of the variant.\<close>

definition error_code :: "Error \<Rightarrow> int" where
  "error_code e = (case e of
     WrongChainHexId \<Rightarrow> 0 | NoInputs \<Rightarrow> 1 | NoOutputs \<Rightarrow> 2 | DuplicateInputs \<Rightarrow> 3 | ZeroCoin \<Rightarrow> 4
   | InvalidSum \<Rightarrow> 5 | UnexpectedWitnesses \<Rightarrow> 6 | MissingWitnesses \<Rightarrow> 7 | InvalidInput \<Rightarrow> 8
   | InputSpent \<Rightarrow> 9 | InputOutputDoNotMatch \<Rightarrow> 10 | OutputInTimelock \<Rightarrow> 11 | EcdsaCrypto \<Rightarrow> 12
   | IoError \<Rightarrow> 13 | EnclaveRejected \<Rightarrow> 14 | AccountNotFound \<Rightarrow> 15 | AccountNotUnbonded \<Rightarrow> 16
   | AccountWithdrawOutputNotLocked \<Rightarrow> 17 | AccountIncorrectNonce \<Rightarrow> 18)"

fun error_display :: "Error \<Rightarrow> string" where
  "error_display WrongChainHexId = ''chain hex ID does not match''"
| "error_display DuplicateInputs = ''duplicated inputs''"
| "error_display UnexpectedWitnesses = ''transaction has more witnesses than inputs''"
| "error_display MissingWitnesses = ''transaction has more inputs than witnesses''"
| "error_display NoInputs = ''transaction has no inputs''"
| "error_display NoOutputs = ''transaction has no outputs''"
| "error_display ZeroCoin = ''output with no credited value''"
| "error_display InvalidSum = ''input or output sum error (summation more than the total supply)''"
| "error_display InvalidInput = ''transaction spends an invalid input''"
| "error_display InputSpent = ''transaction spends an input that was already spent''"
| "error_display InputOutputDoNotMatch = ''transaction input output coin (plus fee) sums don't match''"
| "error_display OutputInTimelock = ''output transaction is in timelock''"
| "error_display EcdsaCrypto = ''cryptographic error (signature verification or public key recovery failed)''"
| "error_display IoError = ''database lookup error''"
| "error_display EnclaveRejected = ''enclave error or invalid TX''"
| "error_display AccountNotFound = ''account not found''"
| "error_display AccountNotUnbonded = ''account not unbonded for withdrawal''"
| "error_display AccountWithdrawOutputNotLocked = ''account withdrawal outputs not time-locked to unbonded_from''"
| "error_display AccountIncorrectNonce = ''incorrect transaction count for account operation''"

definition error_from_i32 :: "int \<Rightarrow> Error" where
  "error_from_i32 x =
     (if x = error_code WrongChainHexId then WrongChainHexId
      else if x = error_code NoInputs then NoInputs
      else if x = error_code NoOutputs then NoOutputs
      else if x = error_code DuplicateInputs then DuplicateInputs
      else if x = error_code ZeroCoin then ZeroCoin
      else if x = error_code UnexpectedWitnesses then UnexpectedWitnesses
      else if x = error_code MissingWitnesses then MissingWitnesses
      else if x = error_code InvalidInput then InvalidInput
      else if x = error_code InputSpent then InputSpent
      else if x = error_code InputOutputDoNotMatch then InputOutputDoNotMatch
      else if x = error_code OutputInTimelock then OutputInTimelock
      else if x = error_code EcdsaCrypto then EcdsaCrypto
      else if x = error_code IoError then IoError
      else if x = error_code AccountNotFound then AccountNotFound
      else if x = error_code AccountNotUnbonded then AccountNotUnbonded
      else if x = error_code AccountWithdrawOutputNotLocked then AccountWithdrawOutputNotLocked
      else if x = error_code AccountIncorrectNonce then AccountIncorrectNonce
      else EnclaveRejected)"

section \<open>Witnesses\<close>

definition verify_tx_address :: "Ext \<Rightarrow> TxInWitness \<Rightarrow> TxId \<Rightarrow> ExtendedAddr \<Rightarrow> SecpError + unit" where
  "verify_tx_address E witness txid addr =
     try_bind (message_from_slice E txid) (\<lambda>message.
     case (witness, addr) of (TreeSig sig proof, OrTree root) \<Rightarrow>
       if \<not> proof_verify (blake2s E) proof root then Err InvalidPublicKey
       else try_bind (pk_from_slice E (raw_pubkey_bytes (proof_value proof))) (\<lambda>pk.
            schnorr_verify E message sig pk))"

definition verify_tx_recover_address ::
    "Ext \<Rightarrow> StakedStateOpWitness \<Rightarrow> TxId \<Rightarrow> SecpError + StakedStateAddress" where
  "verify_tx_recover_address E witness txid = (case witness of BasicRedeemWitness sig \<Rightarrow>
     try_bind (message_from_slice E txid) (\<lambda>message.
     try_bind (secp_recover E message sig) (\<lambda>pk.
     try_bind (secp_verify E message (to_standard E sig) pk) (\<lambda>_.
     Ok (BasicRedeem (redeem_from_pk (keccak256 E) (serialize_uncompressed E) pk))))))"

section \<open>Basic checks\<close>

definition check_attributes :: "u8 \<Rightarrow> ChainInfo \<Rightarrow> Error + unit" where
  "check_attributes tx_chain_hex_id extra_info =
     (if ci_chain_hex_id extra_info \<noteq> tx_chain_hex_id then Err WrongChainHexId else Ok ())"

text \<open>\<open>iter().all(|x| set.insert(x))\<close>: stops at the first element that is already in the set.\<close>

fun all_inserted :: "'a set \<Rightarrow> 'a list \<Rightarrow> bool" where
  "all_inserted seen [] = True"
| "all_inserted seen (x # xs) = (if x \<in> seen then False else all_inserted (insert x seen) xs)"

definition check_inputs_basic :: "TxoPointer list \<Rightarrow> TxWitness \<Rightarrow> Error + unit" where
  "check_inputs_basic inputs witness =
     (if inputs = [] then Err NoInputs
      else if \<not> all_inserted {} inputs then Err DuplicateInputs
      else if length inputs < length witness then Err UnexpectedWitnesses
      else if length witness < length inputs then Err MissingWitnesses
      else Ok ())"

fun check_inputs_loop ::
    "Ext \<Rightarrow> TxId \<Rightarrow> ChainInfo \<Rightarrow> (TxoPointer \<times> TxWithOutputs \<times> TxInWitness) list \<Rightarrow> Coin \<Rightarrow> Error + Coin" where
  "check_inputs_loop E main_txid extra_info [] incoins = Ok incoins"
| "check_inputs_loop E main_txid extra_info ((txin, tx, in_witness) # rest) incoins =
     (if txo_id txin \<noteq> two_id E tx then Err InvalidInput
      else
      let input_index = unat (txo_index txin); outputs = two_outputs tx
      in if length outputs \<le> input_index then Err InvalidInput
      else
      let txout = outputs ! input_index
      in if (case out_valid_from txout of
               Some valid_from \<Rightarrow> previous_block_time extra_info <s valid_from
             | None \<Rightarrow> False) then Err OutputInTimelock
      else case verify_tx_address E in_witness main_txid (out_address txout) of
        Inl _ \<Rightarrow> Err EcdsaCrypto
      | Inr _ \<Rightarrow> (case coin_add incoins (out_value txout) of
          Inl _ \<Rightarrow> Err InvalidSum
        | Inr s \<Rightarrow> check_inputs_loop E main_txid extra_info rest s))"

definition check_inputs ::
    "Ext \<Rightarrow> TxId \<Rightarrow> TxoPointer list \<Rightarrow> TxWitness \<Rightarrow> ChainInfo \<Rightarrow> TxWithOutputs list \<Rightarrow> Error + Coin" where
  "check_inputs E main_txid inputs witness extra_info transaction_inputs =
     check_inputs_loop E main_txid extra_info (zip inputs (zip transaction_inputs witness)) coin_zero"

definition check_outputs_basic :: "TxOut list \<Rightarrow> Error + unit" where
  "check_outputs_basic outputs =
     (if outputs = [] then Err NoOutputs
      else if \<not> list_all (\<lambda>x. coin_zero < out_value x) outputs then Err ZeroCoin
      else Ok ())"

definition check_input_output_sums :: "Coin \<Rightarrow> Coin \<Rightarrow> ChainInfo \<Rightarrow> (Error, Fee) exec" where
  "check_input_output_sums incoins outcoins extra_info =
     (let min_fee = to_coin (min_fee_computed extra_info)
      in case coin_add outcoins min_fee of
        Inl _ \<Rightarrow> Ok (Err InvalidSum)
      | Inr total_outsum \<Rightarrow>
          if incoins < total_outsum then Ok (Err InputOutputDoNotMatch)
          else lift_panic (try_bind (expect ''called Result::unwrap() on an Err value'' (coin_sub incoins outcoins))
                 (\<lambda>fee_paid. Ok (Fee fee_paid))))"

section \<open>Verifiers\<close>

definition verify_transfer ::
    "Ext \<Rightarrow> Tx \<Rightarrow> TxWitness \<Rightarrow> ChainInfo \<Rightarrow> TxWithOutputs list \<Rightarrow> (Error, Fee) exec" where
  "verify_transfer E maintx witness extra_info transaction_inputs =
     exec_bind (Ok (check_attributes (attr_chain_hex_id (tx_attributes maintx)) extra_info)) (\<lambda>_.
     exec_bind (Ok (check_inputs_basic (tx_inputs maintx) witness)) (\<lambda>_.
     exec_bind (Ok (check_outputs_basic (tx_outputs maintx))) (\<lambda>_.
     exec_bind (Ok (check_inputs E (tx_id E maintx) (tx_inputs maintx) witness extra_info transaction_inputs))
       (\<lambda>incoins.
     case get_output_total maintx of
       Inl _ \<Rightarrow> Ok (Err InvalidSum)
     | Inr outcoins \<Rightarrow> check_input_output_sums incoins outcoins extra_info))))"

definition verify_bonded_deposit_core ::
    "Ext \<Rightarrow> DepositBondTx \<Rightarrow> TxWitness \<Rightarrow> ChainInfo \<Rightarrow> TxWithOutputs list \<Rightarrow> Error + Coin" where
  "verify_bonded_deposit_core E maintx witness extra_info transaction_inputs =
     try_bind (check_attributes (op_chain_hex_id (dep_attributes maintx)) extra_info) (\<lambda>_.
     try_bind (check_inputs_basic (dep_inputs maintx) witness) (\<lambda>_.
     try_bind (check_inputs E (deposit_id E maintx) (dep_inputs maintx) witness extra_info transaction_inputs)
       (\<lambda>incoins.
     if incoins \<le> to_coin (min_fee_computed extra_info) then Err InputOutputDoNotMatch else Ok incoins)))"

definition verify_bonded_deposit ::
    "Ext \<Rightarrow> DepositBondTx \<Rightarrow> TxWitness \<Rightarrow> ChainInfo \<Rightarrow> TxWithOutputs list \<Rightarrow> StakedState option \<Rightarrow>
     (Error, Fee \<times> StakedState option) exec" where
  "verify_bonded_deposit E maintx witness extra_info transaction_inputs maccount =
     exec_bind (Ok (verify_bonded_deposit_core E maintx witness extra_info transaction_inputs)) (\<lambda>incoins.
     exec_bind (lift_panic (expect ''init'' (coin_sub incoins (to_coin (min_fee_computed extra_info)))))
       (\<lambda>deposit_amount.
     exec_bind (case maccount of
         Some a \<Rightarrow> lift_panic (try_bind (deposit a deposit_amount) (\<lambda>a. Ok (Some a)))
       | None \<Rightarrow> Ok (Ok (Some (new_init deposit_amount (previous_block_time extra_info)
                                (dep_to_staked_account maintx) True)))) (\<lambda>account.
     Ok (Ok (min_fee_computed extra_info, account)))))"

definition verify_unbonding ::
    "UnbondTx \<Rightarrow> ChainInfo \<Rightarrow> StakedState \<Rightarrow> (Error, Fee \<times> StakedState option) exec" where
  "verify_unbonding maintx extra_info account =
     exec_bind (Ok (check_attributes (op_chain_hex_id (unb_attributes maintx)) extra_info)) (\<lambda>_.
     if unb_nonce maintx \<noteq> nonce account then Ok (Err AccountIncorrectNonce)
     else if unb_value maintx = coin_zero then Ok (Err ZeroCoin)
     else exec_bind (check_input_output_sums (bonded account) (unb_value maintx) extra_info) (\<lambda>_.
          exec_bind (lift_panic (unbond account (unb_value maintx) (to_coin (min_fee_computed extra_info))
              (previous_block_time extra_info + ucast (unbonding_period extra_info)))) (\<lambda>account.
          Ok (Ok (min_fee_computed extra_info, Some account)))))"

definition verify_unbonded_withdraw_core ::
    "WithdrawUnbondedTx \<Rightarrow> ChainInfo \<Rightarrow> StakedState \<Rightarrow> (Error, Fee) exec" where
  "verify_unbonded_withdraw_core maintx extra_info account =
     exec_bind (Ok (check_attributes (attr_chain_hex_id (wdr_attributes maintx)) extra_info)) (\<lambda>_.
     exec_bind (Ok (check_outputs_basic (wdr_outputs maintx))) (\<lambda>_.
     if wdr_nonce maintx \<noteq> nonce account then Ok (Err AccountIncorrectNonce)
     else if previous_block_time extra_info <s unbonded_from account then Ok (Err AccountNotUnbonded)
     else if unbonded account = coin_zero then Ok (Err ZeroCoin)
     else if \<not> list_all (\<lambda>x. out_valid_from x = Some (unbonded_from account)) (wdr_outputs maintx)
     then Ok (Err AccountWithdrawOutputNotLocked)
     else case wdr_get_output_total maintx of
       Inl _ \<Rightarrow> Ok (Err InvalidSum)
     | Inr outcoins \<Rightarrow> check_input_output_sums (unbonded account) outcoins extra_info))"

definition verify_unbonded_withdraw ::
    "WithdrawUnbondedTx \<Rightarrow> ChainInfo \<Rightarrow> StakedState \<Rightarrow> (Error, Fee \<times> StakedState option) exec" where
  "verify_unbonded_withdraw maintx extra_info account =
     exec_bind (verify_unbonded_withdraw_core maintx extra_info account) (\<lambda>fee.
     Ok (Ok (fee, Some (withdraw account))))"

section \<open>Facts about the checks\<close>

named_theorems check_simps "when the basic checks pass"

lemma all_inserted_iff: "all_inserted seen xs \<longleftrightarrow> distinct xs \<and> seen \<inter> set xs = {}"
  by (induction seen xs rule: all_inserted.induct) auto

lemma check_attributes_Ok_iff [check_simps]: "check_attributes i info = Ok u \<longleftrightarrow> ci_chain_hex_id info = i"
  by (simp add: check_attributes_def)

lemma check_inputs_basic_Ok_iff [check_simps]:
  "check_inputs_basic ins w = Ok u \<longleftrightarrow> ins \<noteq> [] \<and> distinct ins \<and> length w = length ins"
  by (auto simp: check_inputs_basic_def all_inserted_iff)

lemma check_outputs_basic_Ok_iff [check_simps]:
  "check_outputs_basic outs = Ok u \<longleftrightarrow> outs \<noteq> [] \<and> (\<forall>x \<in> set outs. 0 < amount (out_value x))"
  by (auto simp: check_outputs_basic_def list_all_iff coin_simps)

text \<open>What an input has to satisfy, and its value.\<close>

definition spendable :: "Ext \<Rightarrow> TxId \<Rightarrow> ChainInfo \<Rightarrow> TxoPointer \<times> TxWithOutputs \<times> TxInWitness \<Rightarrow> bool" where
  "spendable E txid info x = (case x of (txin, tx, w) \<Rightarrow>
     txo_id txin = two_id E tx \<and> unat (txo_index txin) < length (two_outputs tx) \<and>
     (let out = two_outputs tx ! unat (txo_index txin)
      in (\<forall>t. out_valid_from out = Some t \<longrightarrow> sint t \<le> sint (previous_block_time info)) \<and>
         verify_tx_address E w txid (out_address out) = Ok ()))"

definition input_value :: "TxoPointer \<times> TxWithOutputs \<times> TxInWitness \<Rightarrow> nat" where
  "input_value x = (case x of (txin, tx, w) \<Rightarrow> amount (out_value (two_outputs tx ! unat (txo_index txin))))"

lemma check_inputs_loop_Ok_iff:
  "check_inputs_loop E txid info xs c = Ok d \<longleftrightarrow>
   (\<forall>x \<in> set xs. spendable E txid info x) \<and> amount d = amount c + sum_list (map input_value xs) \<and>
   (amount d \<le> max_supply \<or> xs = [])"
proof (induction E txid info xs c rule: check_inputs_loop.induct)
  case (1 E txid info c)
  then show ?case by (auto simp: amount_inject)
next
  case (2 E txid info txin tx w rest c)
  let ?out = "two_outputs tx ! unat (txo_index txin)"
  show ?case
  proof (cases "spendable E txid info (txin, tx, w)")
    case True
    then have g: "txo_id txin = two_id E tx" "\<not> length (two_outputs tx) \<le> unat (txo_index txin)"
      "\<not> (case out_valid_from ?out of Some t \<Rightarrow> previous_block_time info <s t | None \<Rightarrow> False)"
      "verify_tx_address E w txid (out_address ?out) = Ok ()"
      by (auto simp: spendable_def Let_def word_sless_alt split: option.splits)
    show ?thesis
    proof (cases "coin_add c (out_value ?out)")
      case (Inl e)
      then have "max_supply < amount c + amount (out_value ?out)"
        using coin_add_Err_iff [of c "out_value ?out"] by blast
      with g Inl show ?thesis by (auto simp: Let_def input_value_def)
    next
      case (Inr s)
      then have s: "amount s = amount c + amount (out_value ?out)" "amount s \<le> max_supply"
        by (simp_all add: coin_simps)
      have "check_inputs_loop E txid info ((txin, tx, w) # rest) c = check_inputs_loop E txid info rest s"
        using g Inr by (simp add: Let_def)
      also have "(\<dots> = Ok d) \<longleftrightarrow> (\<forall>x \<in> set rest. spendable E txid info x) \<and>
          amount d = amount s + sum_list (map input_value rest) \<and> (amount d \<le> max_supply \<or> rest = [])"
        using "2.IH" [OF _ refl refl _ refl _ _ Inr] g by simp
      finally show ?thesis using True s by (auto simp: input_value_def)
    qed
  next
    case False
    then have "check_inputs_loop E txid info ((txin, tx, w) # rest) c \<noteq> Ok d"
      by (auto simp: spendable_def Let_def word_sless_alt split: option.splits sum.splits)
    with False show ?thesis by simp
  qed
qed

lemma check_inputs_Ok_iff [check_simps]:
  "check_inputs E txid ins w info prevs = Ok c \<longleftrightarrow>
   (\<forall>x \<in> set (zip ins (zip prevs w)). spendable E txid info x) \<and>
   amount c = sum_list (map input_value (zip ins (zip prevs w))) \<and> amount c \<le> max_supply"
  by (auto simp: check_inputs_def check_inputs_loop_Ok_iff)

lemma check_input_output_sums_Ok_iff [check_simps]:
  "check_input_output_sums a b info = Ok (Ok fee) \<longleftrightarrow>
   amount a = amount b + amount (to_coin fee) \<and> amount (to_coin fee) \<le> max_supply \<and>
   amount (to_coin (min_fee_computed info)) \<le> amount (to_coin fee) \<and>
   amount b + amount (to_coin (min_fee_computed info)) \<le> max_supply"
proof (cases "coin_add b (to_coin (min_fee_computed info))")
  case (Inl e)
  then have "max_supply < amount b + amount (to_coin (min_fee_computed info))"
    using coin_add_Err_iff by blast
  with Inl show ?thesis by (simp add: check_input_output_sums_def)
next
  case (Inr t)
  then have t: "amount t = amount b + amount (to_coin (min_fee_computed info))" "amount t \<le> max_supply"
    by (simp_all add: coin_simps)
  show ?thesis
    by (cases fee) (use Inr t in \<open>auto simp: check_input_output_sums_def result_simps coin_less_iff coin_sub_Ok_iff\<close>)
qed

lemma check_input_output_sums_no_panic: "coin_wf a \<Longrightarrow> check_input_output_sums a b info \<noteq> Err p"
proof
  assume wf: "coin_wf a" and p: "check_input_output_sums a b info = Err p"
  then obtain t e where "coin_add b (to_coin (min_fee_computed info)) = Ok t" "\<not> a < t" "coin_sub a b = Err e"
    by (auto simp: check_input_output_sums_def Let_def result_simps split: sum.splits if_splits)
  moreover from this wf have "amount a < amount b"
    using coin_sub_Err_iff [of a b] by blast
  ultimately show False by (simp add: coin_simps)
qed

lemma get_output_total_Ok_iff [check_simps]:
  "get_output_total t = Ok c \<longleftrightarrow>
   amount c = sum_list (map (amount \<circ> out_value) (tx_outputs t)) \<and> amount c \<le> max_supply"
  "wdr_get_output_total w = Ok c \<longleftrightarrow>
   amount c = sum_list (map (amount \<circ> out_value) (wdr_outputs w)) \<and> amount c \<le> max_supply"
  by (simp_all add: get_output_total_def wdr_get_output_total_def sum_coins_Ok_iff)

lemma check_inputs_wf: "check_inputs E txid ins w info prevs = Ok c \<Longrightarrow> coin_wf c"
  by (simp add: check_simps coin_simps)

section \<open>Value flows\<close>

abbreviation min_fee :: "ChainInfo \<Rightarrow> nat" where
  "min_fee info \<equiv> amount (to_coin (min_fee_computed info))"

abbreviation outputs_total :: "TxOut list \<Rightarrow> nat" where
  "outputs_total outs \<equiv> sum_list (map (amount \<circ> out_value) outs)"

abbreviation inputs_total :: "TxoPointer list \<Rightarrow> TxWithOutputs list \<Rightarrow> TxWitness \<Rightarrow> nat" where
  "inputs_total ins prevs w \<equiv> sum_list (map input_value (zip ins (zip prevs w)))"

lemma verify_transfer_Ok_iff:
  "verify_transfer E tx w info prevs = Ok (Ok fee) \<longleftrightarrow>
   ci_chain_hex_id info = attr_chain_hex_id (tx_attributes tx) \<and>
   tx_inputs tx \<noteq> [] \<and> distinct (tx_inputs tx) \<and> length w = length (tx_inputs tx) \<and>
   tx_outputs tx \<noteq> [] \<and> (\<forall>x \<in> set (tx_outputs tx). 0 < amount (out_value x)) \<and>
   (\<forall>x \<in> set (zip (tx_inputs tx) (zip prevs w)). spendable E (tx_id E tx) info x) \<and>
   inputs_total (tx_inputs tx) prevs w \<le> max_supply \<and>
   inputs_total (tx_inputs tx) prevs w = outputs_total (tx_outputs tx) + amount (to_coin fee) \<and>
   min_fee info \<le> amount (to_coin fee) \<and> outputs_total (tx_outputs tx) + min_fee info \<le> max_supply"
    (is "?l \<longleftrightarrow> ?r")
proof
  assume ?l
  then obtain a b where "check_inputs E (tx_id E tx) (tx_inputs tx) w info prevs = Ok a"
    "get_output_total tx = Ok b" "check_input_output_sums a b info = Ok (Ok fee)"
    "check_attributes (attr_chain_hex_id (tx_attributes tx)) info = Ok ()"
    "check_inputs_basic (tx_inputs tx) w = Ok ()" "check_outputs_basic (tx_outputs tx) = Ok ()"
    unfolding verify_transfer_def
    by (cases "get_output_total tx") (auto simp: result_simps split: sum.splits)
  then show ?r by (simp add: check_simps)
next
  assume r: ?r
  obtain a where a: "amount a = inputs_total (tx_inputs tx) prevs w" "coin_wf a"
    using coin_of_amount r by blast
  obtain b where b: "amount b = outputs_total (tx_outputs tx)" "coin_wf b"
    using coin_of_amount [of "outputs_total (tx_outputs tx)"] r by auto
  have "check_inputs E (tx_id E tx) (tx_inputs tx) w info prevs = Ok a"
    "get_output_total tx = Ok b" "check_input_output_sums a b info = Ok (Ok fee)"
    "check_attributes (attr_chain_hex_id (tx_attributes tx)) info = Ok ()"
    "check_inputs_basic (tx_inputs tx) w = Ok ()" "check_outputs_basic (tx_outputs tx) = Ok ()"
    using r a b by (simp_all add: check_simps coin_wf_amount)
  then show ?l by (simp add: verify_transfer_def)
qed

lemma verify_bonded_deposit_core_Ok_iff:
  "verify_bonded_deposit_core E tx w info prevs = Ok c \<longleftrightarrow>
   ci_chain_hex_id info = op_chain_hex_id (dep_attributes tx) \<and>
   dep_inputs tx \<noteq> [] \<and> distinct (dep_inputs tx) \<and> length w = length (dep_inputs tx) \<and>
   (\<forall>x \<in> set (zip (dep_inputs tx) (zip prevs w)). spendable E (deposit_id E tx) info x) \<and>
   amount c = inputs_total (dep_inputs tx) prevs w \<and> amount c \<le> max_supply \<and> min_fee info < amount c"
  by (auto simp: verify_bonded_deposit_core_def result_simps check_simps coin_le_iff not_le)

lemma verify_bonded_deposit_Ok:
  assumes "verify_bonded_deposit E tx w info prevs m = Ok (Ok (fee, acc))"
  shows "\<exists>c d s. verify_bonded_deposit_core E tx w info prevs = Ok c \<and> fee = min_fee_computed info \<and>
    acc = Some s \<and> amount c = amount d + min_fee info \<and> amount d \<le> max_supply \<and>
    (case m of Some a \<Rightarrow> deposit a d = Ok s
     | None \<Rightarrow> s = new_init d (previous_block_time info) (dep_to_staked_account tx) True)"
proof -
  from assms obtain c d s where "verify_bonded_deposit_core E tx w info prevs = Ok c"
    "fee = min_fee_computed info" "acc = Some s" "coin_sub c (to_coin (min_fee_computed info)) = Ok d"
    "case m of Some a \<Rightarrow> deposit a d = Ok s
     | None \<Rightarrow> s = new_init d (previous_block_time info) (dep_to_staked_account tx) True"
    unfolding verify_bonded_deposit_def by (cases m) (auto simp: result_simps)
  then show ?thesis by (intro exI [of _ c] exI [of _ d] exI [of _ s]) (simp add: coin_sub_Ok_iff)
qed

lemma verify_unbonding_Ok_iff:
  "verify_unbonding tx info a = Ok (Ok (fee, acc)) \<longleftrightarrow>
   (\<exists>s paid. ci_chain_hex_id info = op_chain_hex_id (unb_attributes tx) \<and> unb_nonce tx = nonce a \<and>
      unb_value tx \<noteq> coin_zero \<and> check_input_output_sums (bonded a) (unb_value tx) info = Ok (Ok paid) \<and>
      unbond a (unb_value tx) (to_coin (min_fee_computed info))
        (previous_block_time info + ucast (unbonding_period info)) = Ok s \<and>
      fee = min_fee_computed info \<and> acc = Some s)"
  unfolding verify_unbonding_def by (auto simp: result_simps check_attributes_Ok_iff split: if_splits)

lemma verify_unbonded_withdraw_core_Ok_iff:
  "verify_unbonded_withdraw_core tx info a = Ok (Ok fee) \<longleftrightarrow>
   ci_chain_hex_id info = attr_chain_hex_id (wdr_attributes tx) \<and> wdr_nonce tx = nonce a \<and>
   wdr_outputs tx \<noteq> [] \<and> (\<forall>x \<in> set (wdr_outputs tx). 0 < amount (out_value x)) \<and>
   sint (unbonded_from a) \<le> sint (previous_block_time info) \<and> unbonded a \<noteq> coin_zero \<and>
   (\<forall>x \<in> set (wdr_outputs tx). out_valid_from x = Some (unbonded_from a)) \<and>
   amount (unbonded a) = outputs_total (wdr_outputs tx) + amount (to_coin fee) \<and>
   amount (to_coin fee) \<le> max_supply \<and> min_fee info \<le> amount (to_coin fee) \<and>
   outputs_total (wdr_outputs tx) + min_fee info \<le> max_supply"
    (is "?l \<longleftrightarrow> ?r")
proof
  assume ?l
  then obtain b where "wdr_get_output_total tx = Ok b" "check_input_output_sums (unbonded a) b info = Ok (Ok fee)"
    and "check_attributes (attr_chain_hex_id (wdr_attributes tx)) info = Ok ()"
    "check_outputs_basic (wdr_outputs tx) = Ok ()" "wdr_nonce tx = nonce a"
    "\<not> previous_block_time info <s unbonded_from a" "unbonded a \<noteq> coin_zero"
    "list_all (\<lambda>x. out_valid_from x = Some (unbonded_from a)) (wdr_outputs tx)"
    unfolding verify_unbonded_withdraw_core_def
    by (cases "wdr_get_output_total tx") (auto simp: result_simps split: if_splits)
  then show ?r by (simp add: check_simps word_sless_alt list_all_iff)
next
  assume r: ?r
  then obtain b where b: "amount b = outputs_total (wdr_outputs tx)" "coin_wf b"
    using coin_of_amount [of "outputs_total (wdr_outputs tx)"] by auto
  have "wdr_get_output_total tx = Ok b" "check_input_output_sums (unbonded a) b info = Ok (Ok fee)"
    and "check_attributes (attr_chain_hex_id (wdr_attributes tx)) info = Ok ()"
    "check_outputs_basic (wdr_outputs tx) = Ok ()"
    "\<not> previous_block_time info <s unbonded_from a"
    "list_all (\<lambda>x. out_valid_from x = Some (unbonded_from a)) (wdr_outputs tx)"
    using r b by (simp_all add: check_simps coin_wf_amount word_sless_alt list_all_iff)
  with r show ?l by (simp add: verify_unbonded_withdraw_core_def)
qed

lemma verify_unbonded_withdraw_Ok_iff:
  "verify_unbonded_withdraw tx info a = Ok (Ok (fee, acc)) \<longleftrightarrow>
   verify_unbonded_withdraw_core tx info a = Ok (Ok fee) \<and> acc = Some (withdraw a)"
  by (auto simp: verify_unbonded_withdraw_def result_simps)

section \<open>Panics\<close>

lemma verify_transfer_no_panic: "verify_transfer E tx w info prevs \<noteq> Err p"
  unfolding verify_transfer_def
  by (auto simp: result_simps dest: check_inputs_wf check_input_output_sums_no_panic split: sum.splits)

lemma verify_bonded_deposit_panic_iff:
  "(\<exists>p. verify_bonded_deposit E tx w info prevs m = Err p) \<longleftrightarrow>
   (\<exists>c a. verify_bonded_deposit_core E tx w info prevs = Ok c \<and> m = Some a \<and>
      max_supply < amount (bonded a) + (amount c - min_fee info))"
proof (cases "verify_bonded_deposit_core E tx w info prevs")
  case (Inr c)
  then have c: "min_fee info < amount c" "amount c \<le> max_supply"
    by (simp_all add: verify_bonded_deposit_core_Ok_iff)
  then obtain d where d: "coin_sub c (to_coin (min_fee_computed info)) = Ok d"
    using coin_sub_ok_ex [of c "to_coin (min_fee_computed info)"] by (auto simp: coin_wf_amount)
  then have "amount d = amount c - min_fee info" by (simp add: coin_sub_Ok_iff)
  with deposit_panic_iff [of _ d] Inr d show ?thesis
    by (cases m) (simp_all add: verify_bonded_deposit_def result_simps)
qed (simp add: verify_bonded_deposit_def)

lemma verify_unbonding_no_panic:
  assumes "staked_wf a" "stake_total a \<le> max_supply"
  shows "verify_unbonding tx info a \<noteq> Err p"
proof
  assume "verify_unbonding tx info a = Err p"
  moreover have "check_input_output_sums (bonded a) (unb_value tx) info \<noteq> Err p"
    using assms by (intro check_input_output_sums_no_panic) (simp add: staked_wf_def)
  ultimately obtain paid where ok: "check_input_output_sums (bonded a) (unb_value tx) info = Ok (Ok paid)"
    and "unbond a (unb_value tx) (to_coin (min_fee_computed info))
        (previous_block_time info + ucast (unbonding_period info)) = Err p"
    unfolding verify_unbonding_def by (auto simp: result_simps split: if_splits)
  then have "amount (bonded a) < amount (unb_value tx) + min_fee info \<or>
      max_supply < amount (unbonded a) + amount (unb_value tx)"
    using unbond_panic_iff [of a "unb_value tx"] assms(1) unfolding staked_wf_def by blast
  with ok assms show False by (simp add: check_simps stake_total_def)
qed

lemma verify_unbonded_withdraw_no_panic:
  "staked_wf a \<Longrightarrow> verify_unbonded_withdraw tx info a \<noteq> Err p"
  unfolding verify_unbonded_withdraw_def verify_unbonded_withdraw_core_def
  by (auto simp: result_simps staked_wf_def dest: check_input_output_sums_no_panic split: sum.splits if_splits)

section \<open>Concrete transactions\<close>

definition sample_root :: H256 where "sample_root = sample_digest [0, 9]"

definition sample_in_witness :: TxInWitness where
  "sample_in_witness = TreeSig [9] \<lparr> proof_root_hash = sample_root, proof_path = Path sample_root None None,
     proof_value = RawPubkey [9] \<rparr>"

definition sample_prev :: TxWithOutputs where
  "sample_prev = Transfer (tx_new_with [] [tx_out_new (OrTree sample_root) (Coin 10)] (tx_attributes_new 0))"

definition sample_pointer :: TxoPointer where
  "sample_pointer = \<lparr> txo_id = two_id sample_ext sample_prev, txo_index = 0 \<rparr>"

definition sample_tx :: Tx where
  "sample_tx = tx_new_with [sample_pointer] [tx_out_new (OrTree sample_root) (Coin 7)] (tx_attributes_new 0)"

definition sample_info :: ChainInfo where
  "sample_info = \<lparr> min_fee_computed = Fee (Coin 2), ci_chain_hex_id = 0, previous_block_time = 100,
     unbonding_period = 60 \<rparr>"

lemma sample_verify_address: "verify_tx_address sample_ext sample_in_witness txid (OrTree sample_root) = Ok ()"
  by (simp add: verify_tx_address_def sample_in_witness_def sample_ext_def proof_verify_def path_verify_def)

lemma sample_spendable: "spendable sample_ext txid sample_info (sample_pointer, sample_prev, sample_in_witness)"
  by (simp add: spendable_def sample_pointer_def two_outputs_def sample_prev_def tx_new_with_def tx_out_new_def
      sample_verify_address)

lemma sample_input_value: "input_value (sample_pointer, sample_prev, sample_in_witness) = 10"
  by (simp add: input_value_def sample_pointer_def two_outputs_def sample_prev_def tx_new_with_def tx_out_new_def
      amount_def)

lemma sample_tx_simps:
  "tx_inputs sample_tx = [sample_pointer]" "attr_chain_hex_id (tx_attributes sample_tx) = 0"
  "tx_outputs sample_tx = [\<lparr> out_address = OrTree sample_root, out_value = Coin 7, out_valid_from = None \<rparr>]"
  by (simp_all add: sample_tx_def tx_new_with_def tx_out_new_def tx_attributes_new_def)

lemma sample_info_simps:
  "min_fee_computed sample_info = Fee (Coin 2)" "ci_chain_hex_id sample_info = 0"
  "previous_block_time sample_info = 100" "unbonding_period sample_info = 60"
  by (simp_all add: sample_info_def)

section \<open>Properties\<close>

text \<open>
  C6: a transfer is accepted with a fee exactly when the network matches, there are inputs without
  duplicates and one witness each, there are outputs and all are positive, every input that is paired
  with a previous transaction points to an existing, unlocked output of it and its witness verifies, and the
  inputs pay the outputs and at least the minimal fee with nothing left over, all within the total supply.
\<close>

theorem transfer_acceptance:
  "verify_transfer E tx w info prevs = Ok (Ok fee) \<longleftrightarrow>
   ci_chain_hex_id info = attr_chain_hex_id (tx_attributes tx) \<and>
   tx_inputs tx \<noteq> [] \<and> distinct (tx_inputs tx) \<and> length w = length (tx_inputs tx) \<and>
   tx_outputs tx \<noteq> [] \<and> (\<forall>x \<in> set (tx_outputs tx). 0 < amount (out_value x)) \<and>
   (\<forall>x \<in> set (zip (tx_inputs tx) (zip prevs w)). spendable E (tx_id E tx) info x) \<and>
   inputs_total (tx_inputs tx) prevs w \<le> max_supply \<and>
   inputs_total (tx_inputs tx) prevs w = outputs_total (tx_outputs tx) + amount (to_coin fee) \<and>
   min_fee info \<le> amount (to_coin fee) \<and> outputs_total (tx_outputs tx) + min_fee info \<le> max_supply"
  by (rule verify_transfer_Ok_iff)

theorem transfer_acceptance_witness:
  "verify_transfer sample_ext sample_tx [sample_in_witness] sample_info [sample_prev] = Ok (Ok (Fee (Coin 3)))"
  unfolding transfer_acceptance
  by (simp add: sample_spendable sample_input_value sample_tx_simps sample_info_simps) (simp add: amount_def)

text \<open>
  C24: a deposit moves the value of its inputs, less the minimal fee, into the bonded stake.  The
  account it returns is the old one or a new one for the named address, its total grew by exactly the
  inputs minus the fee, and the fee is the computed one.
\<close>

theorem deposit_value_flow:
  assumes "verify_bonded_deposit E tx w info prevs m = Ok (Ok (fee, acc))"
  shows "fee = min_fee_computed info \<and> (\<forall>x \<in> set (zip (dep_inputs tx) (zip prevs w)). spendable E (deposit_id E tx) info x) \<and>
    (\<exists>s. acc = Some s \<and> min_fee info < inputs_total (dep_inputs tx) prevs w \<and>
      stake_total s + min_fee info =
        (case m of None \<Rightarrow> 0 | Some a \<Rightarrow> stake_total a) + inputs_total (dep_inputs tx) prevs w \<and>
      unbonded s = (case m of None \<Rightarrow> coin_zero | Some a \<Rightarrow> unbonded a) \<and>
      address s = (case m of None \<Rightarrow> dep_to_staked_account tx | Some a \<Rightarrow> address a) \<and>
      nonce s = (case m of None \<Rightarrow> 0 | Some a \<Rightarrow> nonce a + 1))"
proof -
  from verify_bonded_deposit_Ok [OF assms] obtain c d s where
    c: "verify_bonded_deposit_core E tx w info prevs = Ok c" and
    s: "fee = min_fee_computed info" "acc = Some s" "amount c = amount d + min_fee info"
      "case m of Some a \<Rightarrow> deposit a d = Ok s
       | None \<Rightarrow> s = new_init d (previous_block_time info) (dep_to_staked_account tx) True"
    by blast
  from c have "amount c = inputs_total (dep_inputs tx) prevs w" "min_fee info < amount c"
    "\<forall>x \<in> set (zip (dep_inputs tx) (zip prevs w)). spendable E (deposit_id E tx) info x"
    by (simp_all add: verify_bonded_deposit_core_Ok_iff)
  with s show ?thesis
    by (cases m) (auto simp: staked_ops stake_total_def)
qed

definition sample_deposit :: DepositBondTx where
  "sample_deposit = deposit_bond_tx_new [sample_pointer] (BasicRedeem redeem_default) (op_attributes_new 0)"

theorem deposit_value_flow_witness:
  "\<exists>s. verify_bonded_deposit sample_ext sample_deposit [sample_in_witness] sample_info [sample_prev] None =
      Ok (Ok (Fee (Coin 2), Some s)) \<and> stake_total s + 2 = 10"
proof -
  have core: "verify_bonded_deposit_core sample_ext sample_deposit [sample_in_witness] sample_info [sample_prev] = Ok (Coin 10)"
    by (simp add: verify_bonded_deposit_core_Ok_iff sample_deposit_def deposit_bond_tx_new_def op_attributes_new_def
        sample_spendable sample_input_value) (simp add: sample_info_def amount_def)
  obtain s where s: "verify_bonded_deposit sample_ext sample_deposit [sample_in_witness] sample_info [sample_prev] None =
      Ok (Ok (Fee (Coin 2), Some s))"
    by (simp add: verify_bonded_deposit_def core) (simp add: sample_info_def coin_sub_def checked_sub_u64_def
        coin_new_def MAX_COIN_def)
  have "inputs_total (dep_inputs sample_deposit) [sample_prev] [sample_in_witness] = 10" "min_fee sample_info = 2"
    by (simp_all add: sample_deposit_def deposit_bond_tx_new_def sample_input_value sample_info_def amount_def)
  with deposit_value_flow [OF s] s show ?thesis by auto
qed

text \<open>
  C25: unbonding is accepted only with the nonce of the account, moves the amount from bonded to
  unbonded, charges exactly the computed fee to the bonded side, locks the unbonded amount until the
  last block time plus the unbonding period, and increments the nonce.
\<close>

theorem unbonding_value_flow:
  assumes "staked_wf a" "verify_unbonding tx info a = Ok (Ok (fee, acc))"
  shows "fee = min_fee_computed info \<and> unb_nonce tx = nonce a \<and>
    (\<exists>s. acc = Some s \<and> staked_wf s \<and> nonce s = nonce a + 1 \<and> address s = address a \<and>
      unbonded_from s = previous_block_time info + ucast (unbonding_period info) \<and>
      amount (unbonded s) = amount (unbonded a) + amount (unb_value tx) \<and>
      stake_total s + min_fee info = stake_total a)"
proof -
  have wf: "coin_wf (bonded a)" using assms(1) by (simp add: staked_wf_def)
  then show ?thesis
    using assms unfolding verify_unbonding_Ok_iff unbond_Ok_iff [OF wf]
    by (auto simp: staked_wf_def coin_wf_amount stake_total_def)
qed

definition sample_account :: StakedState where
  "sample_account = staked_state_new 3 (Coin 50) (Coin 20) 90 (BasicRedeem redeem_default)"

lemma sample_account_wf: "staked_wf sample_account" "stake_total sample_account = 70"
  by (simp_all add: sample_account_def staked_wf_def staked_state_new_def coin_wf_def MAX_COIN_def
      stake_total_def amount_def)

theorem unbonding_value_flow_witness:
  "\<exists>s. verify_unbonding (unbond_tx_new (Coin 5) 3 (op_attributes_new 0)) sample_info sample_account =
      Ok (Ok (Fee (Coin 2), Some s)) \<and> unbonded_from s = 160 \<and> stake_total s + 2 = 70"
proof -
  let ?tx = "unbond_tx_new (Coin 5) 3 (op_attributes_new 0)"
  obtain s where s: "verify_unbonding ?tx sample_info sample_account = Ok (Ok (Fee (Coin 2), Some s))"
    by (simp add: verify_unbonding_def check_attributes_def check_input_output_sums_def unbond_def Let_def
        sample_info_def sample_account_def unbond_tx_new_def op_attributes_new_def staked_state_new_def
        coin_zero_def coin_add_def coin_sub_def coin_new_def checked_add_u64_def checked_sub_u64_def
        MAX_COIN_def less_Coin_def)
  from unbonding_value_flow [OF sample_account_wf(1) s] s show ?thesis
    using sample_account_wf(2) by (auto simp: sample_info_def amount_def)
qed

text \<open>
  C26: a withdrawal is accepted with a fee exactly when network and nonce match, there are outputs and
  all are positive and locked until the time the stake was unbonded from, that time has passed, and the unbonded
  amount pays the outputs and a fee of at least the minimum; the account returned has nothing
  unbonded left and the next nonce.
\<close>

theorem withdraw_acceptance:
  "verify_unbonded_withdraw tx info a = Ok (Ok (fee, acc)) \<longleftrightarrow>
   ci_chain_hex_id info = attr_chain_hex_id (wdr_attributes tx) \<and> wdr_nonce tx = nonce a \<and>
   wdr_outputs tx \<noteq> [] \<and> (\<forall>x \<in> set (wdr_outputs tx). 0 < amount (out_value x)) \<and>
   sint (unbonded_from a) \<le> sint (previous_block_time info) \<and> unbonded a \<noteq> coin_zero \<and>
   (\<forall>x \<in> set (wdr_outputs tx). out_valid_from x = Some (unbonded_from a)) \<and>
   amount (unbonded a) = outputs_total (wdr_outputs tx) + amount (to_coin fee) \<and>
   amount (to_coin fee) \<le> max_supply \<and> min_fee info \<le> amount (to_coin fee) \<and>
   outputs_total (wdr_outputs tx) + min_fee info \<le> max_supply \<and>
   acc = Some (a\<lparr> nonce := nonce a + 1, unbonded := coin_zero \<rparr>)"
  unfolding verify_unbonded_withdraw_Ok_iff verify_unbonded_withdraw_core_Ok_iff withdraw_def by blast

theorem withdraw_acceptance_witness:
  "verify_unbonded_withdraw
     (withdraw_tx_new 3 [tx_out_new_with_timelock (OrTree []) (Coin 15) 90] (tx_attributes_new 0))
     sample_info sample_account =
   Ok (Ok (Fee (Coin 5), Some (sample_account\<lparr> nonce := 4, unbonded := coin_zero \<rparr>)))"
  unfolding withdraw_acceptance
  by (simp add: withdraw_tx_new_def tx_out_new_with_timelock_def tx_attributes_new_def sample_info_simps
      sample_account_def staked_state_new_def coin_zero_def amount_def)

text \<open>
  C27: the verifiers do not panic.  A transfer never does; unbonding and withdrawing do not on an
  account whose amounts are valid and whose total is within the supply; a deposit panics only if
  the bonded amount would exceed the total supply.
\<close>

theorem verifiers_do_not_panic:
  "verify_transfer E tx w info prevs \<noteq> Err p \<and>
   (staked_wf a \<and> stake_total a \<le> max_supply \<longrightarrow>
      verify_unbonding utx info a \<noteq> Err p \<and> verify_unbonded_withdraw wtx info a \<noteq> Err p) \<and>
   ((\<exists>p. verify_bonded_deposit E dtx w info prevs m = Err p) \<longleftrightarrow>
      (\<exists>c a. verify_bonded_deposit_core E dtx w info prevs = Ok c \<and> m = Some a \<and>
         max_supply < amount (bonded a) + (amount c - min_fee info)))"
  using verify_transfer_no_panic verify_unbonding_no_panic verify_unbonded_withdraw_no_panic
    verify_bonded_deposit_panic_iff by simp

theorem verifiers_do_not_panic_witness:
  "verify_unbonding (unbond_tx_new (Coin 60) 3 (op_attributes_new 0)) sample_info sample_account \<noteq> Err (Panic ''x'')"
  using verifiers_do_not_panic [of sample_ext sample_tx "[]" sample_info "[]" "Panic ''x''" sample_account
      "unbond_tx_new (Coin 60) 3 (op_attributes_new 0)" "withdraw_tx_new 0 [] (tx_attributes_new 0)" sample_deposit None]
    sample_account_wf by simp

text \<open>
  The number passed through the enclave boundary gives back every error except \<open>InvalidSum\<close>,
  which comes back as \<open>EnclaveRejected\<close>; every other number is \<open>EnclaveRejected\<close> as well.
\<close>

theorem error_code_roundtrip:
  "error_from_i32 (error_code e) = (if e = InvalidSum then EnclaveRejected else e) \<and>
   (x \<notin> range error_code \<longrightarrow> error_from_i32 x = EnclaveRejected)"
proof
  show "error_from_i32 (error_code e) = (if e = InvalidSum then EnclaveRejected else e)"
    by (cases e) (simp_all add: error_from_i32_def error_code_def)
  show "x \<notin> range error_code \<longrightarrow> error_from_i32 x = EnclaveRejected"
    unfolding error_from_i32_def by (auto simp: image_iff)
qed

theorem error_code_roundtrip_witness: "error_from_i32 99 = EnclaveRejected"
proof -
  have "99 \<notin> range error_code"
  proof
    assume "99 \<in> range error_code"
    then obtain e where "99 = error_code e" by blast
    then show False by (cases e) (simp_all add: error_code_def)
  qed
  then show ?thesis using error_code_roundtrip [of NoInputs 99] by blast
qed

text \<open>
  C32: a witness does not have to show that its key belongs to the address it spends from: for
  every address there is an accepted witness with any key that has a valid signature of the transaction.
\<close>

theorem any_key_spends:
  assumes "message_from_slice E txid = Ok msg" "pk_from_slice E kb = Ok pk"
    and "schnorr_verify E msg sig pk = Ok ()"
  shows "\<exists>w. (\<exists>p. w = TreeSig sig p \<and> proof_value p = RawPubkey kb) \<and> verify_tx_address E w txid addr = Ok ()"
proof (cases addr)
  case (OrTree root)
  let ?p = "\<lparr> proof_root_hash = root, proof_path = Path root None None, proof_value = RawPubkey kb \<rparr>"
  have "verify_tx_address E (TreeSig sig ?p) txid addr = Ok ()"
    using assms by (simp add: OrTree verify_tx_address_def proof_verify_def path_verify_def)
  then show ?thesis by (intro exI [of _ "TreeSig sig ?p"]) simp
qed

theorem any_key_spends_witness:
  "\<exists>w. (\<exists>p. w = TreeSig [5] p \<and> proof_value p = RawPubkey [5]) \<and>
     verify_tx_address sample_ext w [1] (OrTree sample_root) = Ok ()"
  by (rule any_key_spends [where msg = "[1]" and pk = "[5]"]) (simp_all add: sample_ext_def)

end
