(* ===== verification/Enclave_Protocol.thy ===== *)
theory Enclave_Protocol
  imports Codec Validation
begin

text \<open>
  Messages between the node, the enclave server and the query enclave
  (\<open>enclave-protocol/src/lib.rs\<close>), the size-limited decoder of encryption requests, and signed decryption
  requests.  The theory shows the round trips, that a created decryption request verifies for its own
  challenge and for no other, and that the limits of the inner decoders restrict encryption requests.
\<close>

section \<open>Node and enclave server\<close>

datatype EnclaveRequest =
    CheckChain (req_chain_hex_id: u8) (req_last_app_hash: "H256 option")
  | VerifyTx (req_tx: TxAux) (req_account: "StakedState option") (req_info: ChainInfo)
  | CommitBlock (req_app_hash: H256)
  | GetCachedLaunchToken (req_metaname: bytes)
  | UpdateCachedLaunchToken (req_update_metaname: bytes) (req_token: bytes)
  | GetSealedTxData (req_txids: "TxId list")

datatype EnclaveResponse =
    RespCheckChain "H256 option + unit"
  | RespVerifyTx "Error + Fee \<times> StakedState option"
  | RespCommitBlock "unit + unit"
  | RespGetCachedLaunchToken "unit + bytes option"
  | RespUpdateCachedLaunchToken "unit + unit"
  | RespGetSealedTxData "bytes list option"
  | UnsupportedTxType
  | UnknownRequest

section \<open>Encryption requests\<close>

definition ENCRYPTION_REQUEST_SIZE :: nat where "ENCRYPTION_REQUEST_SIZE = 1024 * 60"

datatype EncryptionRequest =
    EncTransferTx Tx TxWitness
  | EncDepositStake DepositBondTx TxWitness
  | EncWithdrawStake WithdrawUnbondedTx StakedState StakedStateOpWitness

definition encode_encryption_request ::
    "ScaleLib \<Rightarrow> StakedState codec \<Rightarrow> EncryptionRequest \<Rightarrow> bytes" where
  "encode_encryption_request S c r = (case r of
     EncTransferTx tx w \<Rightarrow> [0] @ encode_tx S tx @ enc (c_in_witnesses S) w
   | EncDepositStake tx w \<Rightarrow> [1] @ encode_deposit S tx @ enc (c_in_witnesses S) w
   | EncWithdrawStake tx a w \<Rightarrow> [2] @ enc (c_withdraw S) tx @ enc c a @ encode_op_witness S w)"

definition decode_encryption_request ::
    "ScaleLib \<Rightarrow> StakedState codec \<Rightarrow> EncryptionRequest decoder" where
  "decode_encryption_request S c input =
     (if ENCRYPTION_REQUEST_SIZE < length input then Err ''Request too large''
      else try_bind (read_byte input) (\<lambda>(tag, input).
        if tag = 0
        then try_bind (decode_tx S input) (\<lambda>(tx, input).
             try_bind (decode_tx_witness S input) (\<lambda>(w, input).
             Ok (EncTransferTx tx w, input)))
        else if tag = 1
        then try_bind (decode_deposit S input) (\<lambda>(tx, input).
             try_bind (decode_tx_witness S input) (\<lambda>(w, input).
             Ok (EncDepositStake tx w, input)))
        else if tag = 2
        then try_bind (dec (c_withdraw S) input) (\<lambda>(tx, input).
             try_bind (dec c input) (\<lambda>(a, input).
             try_bind (decode_op_witness S input) (\<lambda>(w, input).
             Ok (EncWithdrawStake tx a w, input))))
        else Err ''No such variant in enum EncryptionRequest''))"

section \<open>Decryption requests\<close>

record DecryptionRequestBody =
  body_txs :: "TxId list"
  body_view_key :: PublicKey
  body_challenge :: H256

record DecryptionRequest =
  dr_body :: DecryptionRequestBody
  view_key_sig :: StandardSignature

type_synonym SecretKey = bytes

text \<open>The signing side of the signature library and the codecs of the request.\<close>

record RequestLib =
  pk_from_secret_key :: "SecretKey \<Rightarrow> PublicKey"
  secp_sign :: "Message \<Rightarrow> SecretKey \<Rightarrow> StandardSignature"
  signature_serialize_compact :: "StandardSignature \<Rightarrow> H512"
  signature_from_compact :: "H512 \<Rightarrow> StandardSignature option"
  c_txids :: "TxId list codec"
  c_h256 :: "H256 codec"
  c_h512 :: "H512 codec"

definition request_laws :: "Ext \<Rightarrow> RequestLib \<Rightarrow> bool" where
  "request_laws E R \<longleftrightarrow> reads_back (c_txids R) \<and> reads_back (c_h256 R) \<and> reads_back (c_h512 R) \<and>
     (\<forall>g. signature_from_compact R (signature_serialize_compact R g) = Some g) \<and>
     (\<forall>k. pk_from_slice E (pk_serialize E k) = Ok k)"

definition signing_laws :: "Ext \<Rightarrow> RequestLib \<Rightarrow> bool" where
  "signing_laws E R \<longleftrightarrow> (\<forall>m sk. secp_verify E m (secp_sign R m sk) (pk_from_secret_key R sk) = Ok ()) \<and>
     (\<forall>b. \<exists>m. message_from_slice E (blake2s E b) = Ok m)"

definition encode_request_body :: "Ext \<Rightarrow> ScaleLib \<Rightarrow> RequestLib \<Rightarrow> DecryptionRequestBody \<Rightarrow> bytes" where
  "encode_request_body E S R b =
     enc (c_txids R) (body_txs b) @ enc (c_h264 S) (pk_serialize E (body_view_key b)) @
     enc (c_h256 R) (body_challenge b)"

definition decode_request_body :: "Ext \<Rightarrow> ScaleLib \<Rightarrow> RequestLib \<Rightarrow> DecryptionRequestBody decoder" where
  "decode_request_body E S R input =
     try_bind (dec (c_txids R) input) (\<lambda>(txs, input).
     try_bind (dec (c_h264 S) input) (\<lambda>(view_key_bytes, input).
     try_bind (map_err (\<lambda>_. ''Unable to parse public key'') (pk_from_slice E view_key_bytes)) (\<lambda>k.
     try_bind (dec (c_h256 R) input) (\<lambda>(challenge, input).
     Ok (\<lparr> body_txs = txs, body_view_key = k, body_challenge = challenge \<rparr>, input)))))"

definition decryption_request_create ::
    "Ext \<Rightarrow> ScaleLib \<Rightarrow> RequestLib \<Rightarrow> TxId list \<Rightarrow> H256 \<Rightarrow> SecretKey \<Rightarrow> panic + DecryptionRequest" where
  "decryption_request_create E S R txs challenge view_secret_key =
     (let public_key = pk_from_secret_key R view_secret_key;
          body = \<lparr> body_txs = txs, body_view_key = public_key, body_challenge = challenge \<rparr>;
          body_hash = txid_hash E (encode_request_body E S R body)
      in try_bind (expect ''32 bytes'' (message_from_slice E body_hash)) (\<lambda>message.
         Ok \<lparr> dr_body = body, view_key_sig = secp_sign R message view_secret_key \<rparr>))"

definition decryption_request_verify ::
    "Ext \<Rightarrow> ScaleLib \<Rightarrow> RequestLib \<Rightarrow> DecryptionRequest \<Rightarrow> H256 \<Rightarrow> (SecpError, unit) exec" where
  "decryption_request_verify E S R r challenge =
     (if body_challenge (dr_body r) \<noteq> challenge then Ok (Err (OtherSecpError ''InvalidMessage''))
      else let body_hash = txid_hash E (encode_request_body E S R (dr_body r))
           in exec_bind (lift_panic (expect ''32 bytes'' (message_from_slice E body_hash))) (\<lambda>message.
              Ok (secp_verify E message (view_key_sig r) (body_view_key (dr_body r)))))"

definition encode_decryption_request :: "Ext \<Rightarrow> ScaleLib \<Rightarrow> RequestLib \<Rightarrow> DecryptionRequest \<Rightarrow> bytes" where
  "encode_decryption_request E S R r =
     encode_request_body E S R (dr_body r) @
     enc (c_h512 R) (signature_serialize_compact R (view_key_sig r))"

definition decode_decryption_request :: "Ext \<Rightarrow> ScaleLib \<Rightarrow> RequestLib \<Rightarrow> DecryptionRequest decoder" where
  "decode_decryption_request E S R input =
     try_bind (decode_request_body E S R input) (\<lambda>(body, input).
     try_bind (dec (c_h512 R) input) (\<lambda>(view_sig_bytes, input).
     try_bind (ok_or ''Unable to parse signature'' (signature_from_compact R view_sig_bytes)) (\<lambda>sig.
     Ok (\<lparr> dr_body = body, view_key_sig = sig \<rparr>, input))))"

section \<open>Round trips\<close>

lemma request_body_reads_back:
  "\<lbrakk> scale_laws S; request_laws E R \<rbrakk> \<Longrightarrow>
   decode_request_body E S R (encode_request_body E S R b @ rest) = Ok (b, rest)"
  by (simp add: decode_request_body_def encode_request_body_def request_laws_def reads_backD scale_reads_back)

lemma decryption_request_reads_back:
  "\<lbrakk> scale_laws S; request_laws E R \<rbrakk> \<Longrightarrow>
   decode_decryption_request E S R (encode_decryption_request E S R r @ rest) = Ok (r, rest)"
  using request_body_reads_back [of S E R]
  by (simp add: decode_decryption_request_def encode_decryption_request_def request_laws_def reads_backD)

definition sample_request_lib :: RequestLib where
  "sample_request_lib = \<lparr> pk_from_secret_key = id, secp_sign = (\<lambda>m sk. sk),
     signature_serialize_compact = id, signature_from_compact = Some,
     c_txids = list_codec bytes_codec, c_h256 = bytes_codec, c_h512 = bytes_codec \<rparr>"

lemma sample_request_laws:
  "request_laws sample_ext sample_request_lib" "signing_laws sample_ext sample_request_lib"
  by (simp_all add: request_laws_def signing_laws_def sample_request_lib_def sample_ext_def codec_oks)

section \<open>Properties\<close>

text \<open>
  A decryption request is read back from its encoding, the request created for a challenge
  with a secret key verifies for this challenge, and verification for any other challenge is refused
  without looking at the signature.
\<close>

theorem decryption_request_contract:
  assumes "scale_laws S" "request_laws E R" "signing_laws E R"
  shows "\<exists>r. decryption_request_create E S R txs challenge sk = Ok r \<and>
    decode_decryption_request E S R (encode_decryption_request E S R r) = Ok (r, []) \<and>
    decryption_request_verify E S R r challenge = Ok (Ok ()) \<and>
    (\<forall>c. c \<noteq> challenge \<longrightarrow> decryption_request_verify E S R r c = Ok (Err (OtherSecpError ''InvalidMessage'')))"
proof -
  let ?b = "\<lparr> body_txs = txs, body_view_key = pk_from_secret_key R sk, body_challenge = challenge \<rparr>"
  obtain m where m: "message_from_slice E (blake2s E (encode_request_body E S R ?b)) = Ok m"
    using assms(3) unfolding signing_laws_def by blast
  let ?r = "\<lparr> dr_body = ?b, view_key_sig = secp_sign R m sk \<rparr>"
  have "decryption_request_create E S R txs challenge sk = Ok ?r"
    using m by (simp add: decryption_request_create_def txid_hash_def hash256_def)
  moreover have "decryption_request_verify E S R ?r challenge = Ok (Ok ())"
    using m assms(3) by (simp add: decryption_request_verify_def txid_hash_def hash256_def signing_laws_def)
  moreover have "decode_decryption_request E S R (encode_decryption_request E S R ?r) = Ok (?r, [])"
    using decryption_request_reads_back [OF assms(1,2), of ?r "[]"] by simp
  ultimately show ?thesis by (auto simp: decryption_request_verify_def)
qed

theorem decryption_request_contract_witness:
  "\<exists>r. decryption_request_create sample_ext sample_scale sample_request_lib [[1]] [2] [3] = Ok r \<and>
     decryption_request_verify sample_ext sample_scale sample_request_lib r [2] = Ok (Ok ()) \<and>
     decryption_request_verify sample_ext sample_scale sample_request_lib r [0] =
       Ok (Err (OtherSecpError ''InvalidMessage''))"
proof -
  have "[0] \<noteq> [2 :: u8]" by simp
  with decryption_request_contract [OF sample_scale_laws sample_request_laws, of "[[1]]" "[2]" "[3]"]
  show ?thesis by blast
qed

end
