(* ===== verification/Enclave_Bridge.thy ===== *)
theory Enclave_Bridge
  imports Enclave_Protocol
begin

text \<open>
  The interface \<open>EnclaveProxy\<close> between the node and whoever validates confidential transactions
  (\<open>chain-abci/src/enclave_bridge/mod.rs\<close>) as a locale, with what the node may conclude from an accepted
  request, and the in-process implementation \<open>MockClient\<close> (\<open>mock.rs\<close>) as its first interpretation.
\<close>

section \<open>The interface\<close>

text \<open>Some pure verifier accepted the request with this fee and account.\<close>

definition purely_verified ::
    "Ext \<Rightarrow> TxAux \<Rightarrow> StakedState option \<Rightarrow> ChainInfo \<Rightarrow> Fee \<Rightarrow> StakedState option \<Rightarrow> bool" where
  "purely_verified E txaux macc info fee acc \<longleftrightarrow>
     (\<exists>tx w prevs. verify_transfer E tx w info prevs = Ok (Ok fee) \<and> acc = None) \<or>
     (\<exists>tx payload w prevs. txaux = DepositStakeTx tx payload \<and>
        verify_bonded_deposit E tx w info prevs macc = Ok (Ok (fee, acc))) \<or>
     (\<exists>tx a. macc = Some a \<and> verify_unbonded_withdraw tx info a = Ok (Ok (fee, acc)))"

text \<open>An account after one more operation.\<close>

definition next_account :: "StakedState option \<Rightarrow> StakedState \<Rightarrow> bool" where
  "next_account old new \<longleftrightarrow> staked_wf new \<and> (case old of
     None \<Rightarrow> nonce new = 0 | Some a \<Rightarrow> nonce new = nonce a + 1 \<and> address new = address a)"

lemma purely_verified_account:
  assumes "purely_verified E txaux macc info fee (Some s)" "\<forall>a. macc = Some a \<longrightarrow> staked_wf a"
  shows "next_account macc s \<and> (macc = None \<longrightarrow> (\<exists>tx payload. txaux = DepositStakeTx tx payload \<and> address s = dep_to_staked_account tx))"
proof -
  from assms(1) consider (d) tx payload w prevs where "txaux = DepositStakeTx tx payload"
      "verify_bonded_deposit E tx w info prevs macc = Ok (Ok (fee, Some s))"
    | (x) tx a where "macc = Some a" "verify_unbonded_withdraw tx info a = Ok (Ok (fee, Some s))"
    unfolding purely_verified_def by blast
  then show ?thesis
  proof cases
    case d
    then show ?thesis
      using verify_bonded_deposit_Ok [OF d(2)] assms(2)
      by (cases macc) (auto simp: next_account_def deposit_Ok_iff staked_wf_def coin_wf_amount new_init_def)
  next
    case x
    then show ?thesis
      using assms(2) by (auto simp: verify_unbonded_withdraw_Ok_iff withdraw_def staked_wf_def next_account_def)
  qed
qed

locale enclave_proxy =
  fixes E :: Ext
    and process :: "'e \<Rightarrow> EnclaveRequest \<Rightarrow> panic + 'e \<times> EnclaveResponse"
  assumes verified: "process e (VerifyTx txaux macc info) = Ok (e', RespVerifyTx (Ok (fee, acc))) \<Longrightarrow>
      purely_verified E txaux macc info fee acc"
    and no_unbond: "process e (VerifyTx (UnbondStakeTx tx w) macc info) \<noteq> Ok (e', RespVerifyTx (Ok r))"
begin

lemma accepted_fee:
  assumes "process e (VerifyTx txaux macc info) = Ok (e', RespVerifyTx (Ok (fee, acc)))"
  shows "min_fee info \<le> amount (to_coin fee)"
proof -
  consider (t) tx w prevs where "verify_transfer E tx w info prevs = Ok (Ok fee)"
    | (d) tx w prevs where "verify_bonded_deposit E tx w info prevs macc = Ok (Ok (fee, acc))"
    | (x) tx a where "verify_unbonded_withdraw tx info a = Ok (Ok (fee, acc))"
    using verified [OF assms] unfolding purely_verified_def by blast
  then show ?thesis
  proof cases
    case t
    then show ?thesis by (simp add: verify_transfer_Ok_iff)
  next
    case d
    then show ?thesis using verify_bonded_deposit_Ok [OF d] by auto
  next
    case x
    then show ?thesis by (simp add: verify_unbonded_withdraw_Ok_iff verify_unbonded_withdraw_core_Ok_iff)
  qed
qed

lemma accepted_account:
  assumes "process e (VerifyTx txaux (Some a) info) = Ok (e', RespVerifyTx (Ok (fee, Some s)))"
    and "staked_wf a"
  shows "staked_wf s \<and> nonce s = nonce a + 1 \<and> address s = address a"
  using purely_verified_account [OF verified [OF assms(1)]] assms(2) by (simp add: next_account_def)

end

section \<open>The in-process implementation\<close>

record MockClient =
  mock_chain_hex_id :: u8
  local_tx_store :: "TxId \<Rightarrow> TxWithOutputs option"

definition mock_new :: "u8 \<Rightarrow> MockClient" where
  "mock_new i = \<lparr> mock_chain_hex_id = i, local_tx_store = (\<lambda>_. None) \<rparr>"

definition mock_lookup :: "MockClient \<Rightarrow> TxId \<Rightarrow> panic + TxWithOutputs" where
  "mock_lookup self txid =
     expect_some ''mock is expected to be fed valid/existing TX'' (local_tx_store self txid)"

definition mock_inputs :: "MockClient \<Rightarrow> TxoPointer list \<Rightarrow> panic + TxWithOutputs list" where
  "mock_inputs self inputs = collect_result (\<lambda>x. mock_lookup self (txo_id x)) inputs"

definition mock_verify ::
    "Ext \<Rightarrow> ScaleLib \<Rightarrow> MockClient \<Rightarrow> TxAux \<Rightarrow> StakedState option \<Rightarrow> ChainInfo \<Rightarrow> bytes \<Rightarrow> TxWithOutputs list \<Rightarrow>
     panic + MockClient \<times> EnclaveResponse" where
  "mock_verify E S self tx account info payload inputs =
     (case (tx, decode_plain_txaux S payload) of
        (_, Inr (PlainTransferTx maintx witness, _)) \<Rightarrow>
          try_bind (verify_transfer E maintx witness info inputs) (\<lambda>result.
          Ok (if is_ok result
              then self\<lparr> local_tx_store := (local_tx_store self)(tx_id E maintx \<mapsto> Transfer maintx) \<rparr>
              else self,
              RespVerifyTx (try_bind result (\<lambda>x. Ok (x, None)))))
      | (DepositStakeTx dtx _, Inr (PlainDepositStakeTx witness, _)) \<Rightarrow>
          try_bind (verify_bonded_deposit E dtx witness info inputs account) (\<lambda>result.
          Ok (self, RespVerifyTx result))
      | (_, Inr (PlainWithdrawUnbondedStakeTx wtx, _)) \<Rightarrow>
          try_bind (expect_some ''account exists in withdraw'' account) (\<lambda>a.
          try_bind (verify_unbonded_withdraw wtx info a) (\<lambda>result.
          Ok (if is_ok result
              then self\<lparr> local_tx_store := (local_tx_store self)(withdraw_id E wtx \<mapsto> StakeWithdraw wtx) \<rparr>
              else self,
              RespVerifyTx result)))
      | _ \<Rightarrow> Ok (self, UnknownRequest))"

definition mock_process_request ::
    "Ext \<Rightarrow> ScaleLib \<Rightarrow> MockClient \<Rightarrow> EnclaveRequest \<Rightarrow> panic + MockClient \<times> EnclaveResponse" where
  "mock_process_request E S self request = (case request of
     CheckChain chain_hex_id _ \<Rightarrow>
       Ok (self, RespCheckChain (if chain_hex_id = mock_chain_hex_id self then Ok () else Err None))
   | CommitBlock _ \<Rightarrow> Ok (self, RespCommitBlock (Ok ()))
   | VerifyTx tx account info \<Rightarrow> (case tx of
       TransferTx _ inputs _ payload \<Rightarrow>
         try_bind (mock_inputs self inputs) (\<lambda>ins.
         mock_verify E S self tx account info (txpayload payload) ins)
     | DepositStakeTx dtx payload \<Rightarrow>
         try_bind (mock_inputs self (dep_inputs dtx)) (\<lambda>ins.
         mock_verify E S self tx account info (txpayload payload) ins)
     | WithdrawUnbondedStakeTx _ _ _ payload \<Rightarrow>
         mock_verify E S self tx account info (txpayload payload) []
     | UnbondStakeTx _ _ \<Rightarrow> Ok (self, UnsupportedTxType))
   | _ \<Rightarrow> Ok (self, UnknownRequest))"

lemma mock_verify_purely:
  assumes "mock_verify E S m txaux macc info payload ins = Ok (m', RespVerifyTx (Ok (fee, acc)))"
  shows "purely_verified E txaux macc info fee acc"
proof (cases "decode_plain_txaux S payload")
  case (Inl e)
  with assms show ?thesis by (simp add: mock_verify_def split: TxAux.splits)
next
  case (Inr p)
  then obtain plain rest where p: "decode_plain_txaux S payload = Ok (plain, rest)" by (cases p) auto
  show ?thesis
  proof (cases plain)
    case (PlainTransferTx tx w)
    then have "verify_transfer E tx w info ins = Ok (Ok fee)" "acc = None"
      using assms p by (auto simp: mock_verify_def result_simps split: TxAux.splits)
    then show ?thesis unfolding purely_verified_def by blast
  next
    case (PlainDepositStakeTx w)
    then obtain dtx pl where "txaux = DepositStakeTx dtx pl"
      "verify_bonded_deposit E dtx w info ins macc = Ok (Ok (fee, acc))"
      using assms p by (auto simp: mock_verify_def result_simps split: TxAux.splits)
    then show ?thesis unfolding purely_verified_def by blast
  next
    case (PlainWithdrawUnbondedStakeTx tx)
    then obtain a where "macc = Some a" "verify_unbonded_withdraw tx info a = Ok (Ok (fee, acc))"
      using assms p by (auto simp: mock_verify_def result_simps split: TxAux.splits)
    then show ?thesis unfolding purely_verified_def by blast
  qed
qed

interpretation mock: enclave_proxy E "mock_process_request E S" for E S
proof
  fix e txaux macc info e' fee acc
  assume "mock_process_request E S e (VerifyTx txaux macc info) = Ok (e', RespVerifyTx (Ok (fee, acc)))"
  then show "purely_verified E txaux macc info fee acc"
    by (cases txaux) (auto simp: mock_process_request_def result_simps intro: mock_verify_purely)
qed (simp add: mock_process_request_def)

end
