(* ===== verification/Tx_Enclave.thy ===== *)
theory Tx_Enclave
  imports Enclave_Bridge
begin

text \<open>
  The transaction validation enclave (\<open>tx-validation/enclave/src/lib.rs\<close>), the untrusted calls around
  it (\<open>tx-validation/app/src/enclave_u/mod.rs\<close>) and the server loop (\<open>server/mod.rs\<close>).  Sealing and the
  enclave runtime are the fields of \<open>SgxLib\<close>, the embedded database those of \<open>SledLib\<close>.  A call writes
  its results into out parameters, modelled as a record.  \<open>Enclave_Refinement\<close> shows what the server
  promises.
\<close>

section \<open>Libraries\<close>

datatype sgx_status = SGX_SUCCESS | SGX_ERROR_INVALID_PARAMETER | SGX_ERROR_OTHER nat

record SgxLib =
  network_hex_id :: u8
  seal_data :: "bytes \<Rightarrow> bytes \<Rightarrow> sgx_status + bytes"
  to_raw_sealed :: "bytes \<Rightarrow> u32 \<Rightarrow> bytes option"
  from_raw_sealed :: "bytes \<Rightarrow> bytes option"
  unseal_data :: "bytes \<Rightarrow> sgx_status + bytes"
  ecall_result :: sgx_status
  sealed_header_size :: nat
  c_chain_info :: "ChainInfo codec"
  c_byte_vecs :: "bytes list codec"
  c_staked_state :: "StakedState codec"

record 'sl SledLib =
  sl_get :: "'sl \<Rightarrow> bytes \<Rightarrow> unit + bytes option"
  sl_insert :: "'sl \<Rightarrow> bytes \<Rightarrow> bytes \<Rightarrow> 'sl \<times> (unit + unit)"
  sl_flush :: "'sl \<Rightarrow> 'sl \<times> (unit + unit)"

text \<open>The derived codec of transactions with outputs; the inner decoder of a transfer is size-limited.\<close>

definition encode_two :: "ScaleLib \<Rightarrow> TxWithOutputs \<Rightarrow> bytes" where
  "encode_two S t = (case t of
     Transfer tx \<Rightarrow> [0] @ encode_tx S tx
   | StakeWithdraw tx \<Rightarrow> [1] @ enc (c_withdraw S) tx)"

definition decode_two :: "ScaleLib \<Rightarrow> TxWithOutputs decoder" where
  "decode_two S input =
     try_bind (read_byte input) (\<lambda>(tag, input).
     if tag = 0 then try_bind (decode_tx S input) (\<lambda>(tx, input). Ok (Transfer tx, input))
     else if tag = 1 then try_bind (dec (c_withdraw S) input) (\<lambda>(tx, input). Ok (StakeWithdraw tx, input))
     else Err ''No such variant in enum TxWithOutputs'')"

section \<open>Inside the enclave\<close>

definition ecall_initchain :: "SgxLib \<Rightarrow> u8 \<Rightarrow> sgx_status" where
  "ecall_initchain G chain_hex_id =
     (if chain_hex_id = network_hex_id G then SGX_SUCCESS else SGX_ERROR_INVALID_PARAMETER)"

definition check_chain_info :: "SgxLib \<Rightarrow> bytes \<Rightarrow> ChainInfo option" where
  "check_chain_info G chain_info = (case dec (c_chain_info G) chain_info of
     Inr (info, _) \<Rightarrow> if ci_chain_hex_id info = network_hex_id G then Some info else None
   | Inl _ \<Rightarrow> None)"

definition unseal :: "ScaleLib \<Rightarrow> SgxLib \<Rightarrow> bytes \<Rightarrow> TxWithOutputs option" where
  "unseal S G sealed_log =
     (if 4294967295 \<le> length sealed_log then None
      else case from_raw_sealed G sealed_log of
        None \<Rightarrow> None
      | Some sealed_data \<Rightarrow> (case unseal_data G sealed_data of
          Inl _ \<Rightarrow> None
        | Inr unsealed \<Rightarrow> (case decode_two S unsealed of
            Inr (tx, _) \<Rightarrow> Some tx
          | Inl _ \<Rightarrow> None)))"

fun unseal_all :: "ScaleLib \<Rightarrow> SgxLib \<Rightarrow> bytes list \<Rightarrow> TxWithOutputs list option" where
  "unseal_all S G [] = Some []"
| "unseal_all S G (sealed_log # rest) = (case unseal S G sealed_log of
     Some tx \<Rightarrow> map_option ((#) tx) (unseal_all S G rest)
   | None \<Rightarrow> None)"

text \<open>The memory behind the out pointers.\<close>

record EcallOut =
  out_coins :: u64
  out_sealed :: bytes
  out_error :: int

text \<open>Writing through a pointer to a buffer leaves what lies behind the written bytes.\<close>

definition write_prefix :: "bytes \<Rightarrow> bytes \<Rightarrow> bytes" where
  "write_prefix raw buffer = raw @ drop (length raw) buffer"

definition seal_result ::
    "SgxLib \<Rightarrow> TxId \<Rightarrow> bytes \<Rightarrow> u32 \<Rightarrow> Fee \<Rightarrow> EcallOut \<Rightarrow> sgx_status \<times> EcallOut" where
  "seal_result G txid to_seal sealed_log_size fee out = (case seal_data G txid to_seal of
     Inl ret \<Rightarrow> (ret, out)
   | Inr sealed_data \<Rightarrow> (case to_raw_sealed G sealed_data sealed_log_size of
       None \<Rightarrow> (SGX_ERROR_INVALID_PARAMETER, out)
     | Some raw \<Rightarrow> (SGX_SUCCESS, out\<lparr> out_sealed := write_prefix raw (out_sealed out),
         out_coins := coin_u64 (to_coin fee) \<rparr>)))"

definition ecall_check_transfer_tx ::
    "Ext \<Rightarrow> ScaleLib \<Rightarrow> SgxLib \<Rightarrow> u32 \<Rightarrow> bytes \<Rightarrow> bytes \<Rightarrow> bytes \<Rightarrow> EcallOut \<Rightarrow> panic + sgx_status \<times> EcallOut" where
  "ecall_check_transfer_tx E S G sealed_log_size chain_info txaux txsin out =
     (case check_chain_info G chain_info of
        None \<Rightarrow> Ok (SGX_ERROR_INVALID_PARAMETER, out)
      | Some info \<Rightarrow> (case decode_txaux S txaux of
          Inr (TransferTx txid _ no_of_outputs payload, _) \<Rightarrow>
            (case (decode_plain_txaux S (txpayload payload), dec (c_byte_vecs G) txsin) of
               (Inr (PlainTransferTx tx witness, _), Inr (logs, _)) \<Rightarrow>
                 (case unseal_all S G logs of
                    None \<Rightarrow> Ok (SGX_ERROR_INVALID_PARAMETER, out)
                  | Some input_txs \<Rightarrow>
                      if tx_id E tx \<noteq> txid \<or> of_nat (length (tx_outputs tx)) \<noteq> no_of_outputs
                      then Ok (SGX_ERROR_INVALID_PARAMETER, out)
                      else try_bind (verify_transfer E tx witness info input_txs) (\<lambda>result. case result of
                        Inl e \<Rightarrow> Ok (SGX_ERROR_INVALID_PARAMETER, out\<lparr> out_error := error_code e \<rparr>)
                      | Inr fee \<Rightarrow> Ok (seal_result G txid (encode_two S (Transfer tx)) sealed_log_size fee out)))
             | _ \<Rightarrow> Ok (SGX_ERROR_INVALID_PARAMETER, out))
        | _ \<Rightarrow> Ok (SGX_ERROR_INVALID_PARAMETER, out)))"

definition ecall_check_deposit_tx ::
    "Ext \<Rightarrow> ScaleLib \<Rightarrow> SgxLib \<Rightarrow> bytes \<Rightarrow> bytes \<Rightarrow> bytes \<Rightarrow> EcallOut \<Rightarrow> sgx_status \<times> EcallOut" where
  "ecall_check_deposit_tx E S G chain_info txaux txsin out =
     (case check_chain_info G chain_info of
        None \<Rightarrow> (SGX_ERROR_INVALID_PARAMETER, out)
      | Some info \<Rightarrow> (case decode_txaux S txaux of
          Inr (DepositStakeTx tx payload, _) \<Rightarrow>
            (case (decode_plain_txaux S (txpayload payload), dec (c_byte_vecs G) txsin) of
               (Inr (PlainDepositStakeTx witness, _), Inr (logs, _)) \<Rightarrow>
                 (case unseal_all S G logs of
                    None \<Rightarrow> (SGX_ERROR_INVALID_PARAMETER, out)
                  | Some input_txs \<Rightarrow> (case verify_bonded_deposit_core E tx witness info input_txs of
                      Inl e \<Rightarrow> (SGX_ERROR_INVALID_PARAMETER, out\<lparr> out_error := error_code e \<rparr>)
                    | Inr incoins \<Rightarrow> (SGX_SUCCESS, out\<lparr> out_coins := coin_u64 incoins \<rparr>)))
             | _ \<Rightarrow> (SGX_ERROR_INVALID_PARAMETER, out))
        | _ \<Rightarrow> (SGX_ERROR_INVALID_PARAMETER, out)))"

definition ecall_check_withdraw_tx ::
    "Ext \<Rightarrow> ScaleLib \<Rightarrow> SgxLib \<Rightarrow> u32 \<Rightarrow> bytes \<Rightarrow> bytes \<Rightarrow> bytes \<Rightarrow> EcallOut \<Rightarrow> panic + sgx_status \<times> EcallOut" where
  "ecall_check_withdraw_tx E S G sealed_log_size chain_info txaux account out =
     (case check_chain_info G chain_info of
        None \<Rightarrow> Ok (SGX_ERROR_INVALID_PARAMETER, out)
      | Some info \<Rightarrow> (case decode_txaux S txaux of
          Inr (WithdrawUnbondedStakeTx txid no_of_outputs witness payload, _) \<Rightarrow>
            (case verify_tx_recover_address E witness txid of
               Inl _ \<Rightarrow> Ok (SGX_ERROR_INVALID_PARAMETER, out)
             | Inr addr \<Rightarrow>
            (case (decode_plain_txaux S (txpayload payload), dec (c_staked_state G) account) of
               (Inr (PlainWithdrawUnbondedStakeTx tx, _), Inr (acc, _)) \<Rightarrow>
                 if withdraw_id E tx \<noteq> txid \<or> no_of_outputs \<noteq> of_nat (length (wdr_outputs tx)) \<or>
                    address acc \<noteq> addr
                 then Ok (SGX_ERROR_INVALID_PARAMETER, out)
                 else try_bind (verify_unbonded_withdraw_core tx info acc) (\<lambda>result. case result of
                   Inl e \<Rightarrow> Ok (SGX_ERROR_INVALID_PARAMETER, out\<lparr> out_error := error_code e \<rparr>)
                 | Inr fee \<Rightarrow> Ok (seal_result G txid (encode_two S (StakeWithdraw tx)) sealed_log_size fee out))
             | _ \<Rightarrow> Ok (SGX_ERROR_INVALID_PARAMETER, out)))
        | _ \<Rightarrow> Ok (SGX_ERROR_INVALID_PARAMETER, out)))"

section \<open>Around the enclave\<close>

definition TOKEN_LEN :: nat where "TOKEN_LEN = 1024"

definition get_token :: "'sl SledLib \<Rightarrow> 'sl \<Rightarrow> bytes \<Rightarrow> bytes option" where
  "get_token K metadb token_key = (case sl_get K metadb token_key of Inr x \<Rightarrow> x | Inl _ \<Rightarrow> None)"

definition get_token_arr :: "'sl SledLib \<Rightarrow> 'sl \<Rightarrow> bytes \<Rightarrow> (unit, bytes option) exec" where
  "get_token_arr K metadb token_key = (case sl_get K metadb token_key of
     Inr (Some tok) \<Rightarrow>
       if length tok \<noteq> TOKEN_LEN
       then Err (Panic ''source slice length does not match destination slice length'')
       else Ok (Ok (Some tok))
   | Inr None \<Rightarrow> Ok (Ok None)
   | Inl _ \<Rightarrow> Ok (Err ()))"

definition store_token :: "'sl SledLib \<Rightarrow> 'sl \<Rightarrow> bytes \<Rightarrow> bytes \<Rightarrow> 'sl \<times> (unit + unit)" where
  "store_token K metadb token_key launch_token = sl_insert K metadb token_key launch_token"

text \<open>
  The runtime either enters the enclave, or reports its own status and leaves \<open>retval\<close> (initially
  success) and the out parameters alone.  A panic inside the enclave aborts it and is kept as a panic.
\<close>

definition enter_enclave ::
    "SgxLib \<Rightarrow> EcallOut \<Rightarrow> panic + sgx_status \<times> EcallOut \<Rightarrow> panic + sgx_status \<times> sgx_status \<times> EcallOut" where
  "enter_enclave G out call =
     (if ecall_result G = SGX_SUCCESS
      then try_bind call (\<lambda>(retval, out). Ok (SGX_SUCCESS, retval, out))
      else Ok (ecall_result G, SGX_SUCCESS, out))"

definition ecall_ok :: "sgx_status \<Rightarrow> sgx_status \<Rightarrow> bool" where
  "ecall_ok result retval \<longleftrightarrow> retval = SGX_SUCCESS \<and> result = retval"

definition check_initchain :: "SgxLib \<Rightarrow> u8 \<Rightarrow> H256 option \<Rightarrow> H256 option + unit" where
  "check_initchain G chain_hex_id last_app_hash =
     (let retval = (if ecall_result G = SGX_SUCCESS then ecall_initchain G chain_hex_id else SGX_SUCCESS)
      in if ecall_ok (ecall_result G) retval then Ok () else Err last_app_hash)"

definition ecall_start :: "nat \<Rightarrow> EcallOut" where
  "ecall_start sealed_log_size =
     \<lparr> out_coins = 0, out_sealed = replicate sealed_log_size 0, out_error = - 1 \<rparr>"

definition check_transfertx ::
    "Ext \<Rightarrow> ScaleLib \<Rightarrow> SgxLib \<Rightarrow> 'sl SledLib \<Rightarrow> TxAux \<Rightarrow> bytes list \<Rightarrow> ChainInfo \<Rightarrow> 'sl \<Rightarrow>
     panic + 'sl \<times> (Error + Fee \<times> StakedState option)" where
  "check_transfertx E S G K txaux txins info txdb =
     (let txins_enc = enc (c_byte_vecs G) txins; txaux_enc = encode_txaux S txaux;
          info_enc = enc (c_chain_info G) info;
          sealed_log_size = sealed_header_size G + length txaux_enc
      in try_bind (enter_enclave G (ecall_start sealed_log_size)
           (ecall_check_transfer_tx E S G (of_nat sealed_log_size) info_enc txaux_enc txins_enc
              (ecall_start sealed_log_size))) (\<lambda>(result, retval, out).
         if ecall_ok result retval
         then try_bind (expect ''fee should not be larger than coin supply'' (coin_new (out_coins out))) (\<lambda>fee.
              case sl_insert K txdb (txaux_id E txaux) (out_sealed out) of
                (txdb, Inl _) \<Rightarrow> Ok (txdb, Err IoError)
              | (txdb, Inr _) \<Rightarrow> Ok (txdb, Ok (Fee fee, None)))
         else Ok (txdb, Err (error_from_i32 (out_error out)))))"

definition check_deposit_tx ::
    "Ext \<Rightarrow> ScaleLib \<Rightarrow> SgxLib \<Rightarrow> TxAux \<Rightarrow> bytes list \<Rightarrow> StakedState option \<Rightarrow> ChainInfo \<Rightarrow>
     (Error, Fee \<times> StakedState option) exec" where
  "check_deposit_tx E S G txaux txins maccount info =
     (let txins_enc = enc (c_byte_vecs G) txins; txaux_enc = encode_txaux S txaux;
          info_enc = enc (c_chain_info G) info
      in try_bind (enter_enclave G (ecall_start 0)
           (Ok (ecall_check_deposit_tx E S G info_enc txaux_enc txins_enc (ecall_start 0)))) (\<lambda>(result, retval, out).
         if ecall_ok result retval
         then exec_bind (lift_panic (expect ''correct coin'' (coin_new (out_coins out)))) (\<lambda>c.
              exec_bind (lift_panic (expect ''init'' (coin_sub c (to_coin (min_fee_computed info))))) (\<lambda>deposit_amount.
              exec_bind (lift_panic (case (maccount, txaux) of
                  (Some a, _) \<Rightarrow> try_bind (deposit a deposit_amount) (\<lambda>a. Ok (Some a))
                | (None, DepositStakeTx tx _) \<Rightarrow>
                    Ok (Some (new_init deposit_amount (previous_block_time info) (dep_to_staked_account tx) True))
                | (_, _) \<Rightarrow> Err (Panic ''one shouldn't call this with other variants''))) (\<lambda>account.
              Ok (Ok (min_fee_computed info, account)))))
         else Ok (Err (error_from_i32 (out_error out)))))"

definition check_withdraw_tx ::
    "Ext \<Rightarrow> ScaleLib \<Rightarrow> SgxLib \<Rightarrow> 'sl SledLib \<Rightarrow> TxAux \<Rightarrow> StakedState \<Rightarrow> ChainInfo \<Rightarrow> 'sl \<Rightarrow>
     panic + 'sl \<times> (Error + Fee \<times> StakedState option)" where
  "check_withdraw_tx E S G K txaux account info txdb =
     (let account_enc = enc (c_staked_state G) account; txaux_enc = encode_txaux S txaux;
          info_enc = enc (c_chain_info G) info;
          sealed_log_size = sealed_header_size G + length txaux_enc
      in try_bind (enter_enclave G (ecall_start sealed_log_size)
           (ecall_check_withdraw_tx E S G (of_nat sealed_log_size) info_enc txaux_enc account_enc
              (ecall_start sealed_log_size))) (\<lambda>(result, retval, out).
         if ecall_ok result retval
         then try_bind (expect ''fee should not be larger than coin supply'' (coin_new (out_coins out))) (\<lambda>fee.
              let account = withdraw account
              in case sl_insert K txdb (txaux_id E txaux) (out_sealed out) of
                (txdb, Inl _) \<Rightarrow> Ok (txdb, Err IoError)
              | (txdb, Inr _) \<Rightarrow> Ok (txdb, Ok (Fee fee, Some account)))
         else Ok (txdb, Err (error_from_i32 (out_error out)))))"

section \<open>The server\<close>

record 'sl TxValidationServer =
  txdb :: 'sl
  metadb :: 'sl

definition LAST_APPHASH_KEY :: bytes where
  "LAST_APPHASH_KEY = map (\<lambda>c. of_nat (of_char c)) ''last_apphash''"

fun lookup_txids :: "'sl SledLib \<Rightarrow> 'sl \<Rightarrow> TxId list \<Rightarrow> bytes list option" where
  "lookup_txids K db [] = Some []"
| "lookup_txids K db (i # rest) = (case sl_get K db i of
     Inr (Some txin) \<Rightarrow> map_option ((#) txin) (lookup_txids K db rest)
   | _ \<Rightarrow> None)"

definition server_lookup :: "'sl SledLib \<Rightarrow> 'sl TxValidationServer \<Rightarrow> TxAux \<Rightarrow> bytes list option" where
  "server_lookup K self tx = (case tx of
     TransferTx _ inputs _ _ \<Rightarrow> lookup_txids K (txdb self) (map txo_id inputs)
   | DepositStakeTx dtx _ \<Rightarrow> lookup_txids K (txdb self) (map txo_id (dep_inputs dtx))
   | _ \<Rightarrow> None)"

definition server_check_chain ::
    "SgxLib \<Rightarrow> 'sl SledLib \<Rightarrow> 'sl TxValidationServer \<Rightarrow> u8 \<Rightarrow> H256 option \<Rightarrow> panic + EnclaveResponse" where
  "server_check_chain G K self chain_hex_id last_app_hash =
     (case sl_get K (txdb self) LAST_APPHASH_KEY of
        Inl _ \<Rightarrow> Ok (RespCheckChain (Err None))
      | Inr s \<Rightarrow>
          if (case s of None \<Rightarrow> False | Some stored \<Rightarrow> length stored \<noteq> 32)
          then Err (Panic ''source slice length does not match destination slice length'')
          else Ok (RespCheckChain (if last_app_hash = s then check_initchain G chain_hex_id s else Err s)))"

definition server_handle ::
    "Ext \<Rightarrow> ScaleLib \<Rightarrow> SgxLib \<Rightarrow> 'sl SledLib \<Rightarrow> 'sl TxValidationServer \<Rightarrow> EnclaveRequest \<Rightarrow>
     panic + 'sl TxValidationServer \<times> EnclaveResponse" where
  "server_handle E S G K self request = (case request of
     CheckChain chain_hex_id last_app_hash \<Rightarrow>
       try_bind (server_check_chain G K self chain_hex_id last_app_hash) (\<lambda>r. Ok (self, r))
   | CommitBlock app_hash \<Rightarrow>
       let db = fst (sl_insert K (txdb self) LAST_APPHASH_KEY app_hash)
       in (case sl_flush K db of
             (db, Inr _) \<Rightarrow> Ok (self\<lparr> txdb := db \<rparr>, RespCommitBlock (Ok ()))
           | (db, Inl _) \<Rightarrow> Ok (self\<lparr> txdb := db \<rparr>, RespCommitBlock (Err ())))
   | VerifyTx tx account info \<Rightarrow> (case tx of
       TransferTx _ _ _ _ \<Rightarrow> (case server_lookup K self tx of
           Some txins \<Rightarrow> try_bind (check_transfertx E S G K tx txins info (txdb self)) (\<lambda>(db, r).
             Ok (self\<lparr> txdb := db \<rparr>, RespVerifyTx r))
         | None \<Rightarrow> Ok (self, RespVerifyTx (Err InvalidInput)))
     | DepositStakeTx _ _ \<Rightarrow> (case server_lookup K self tx of
           Some txins \<Rightarrow> try_bind (check_deposit_tx E S G tx txins account info) (\<lambda>r.
             Ok (self, RespVerifyTx r))
         | None \<Rightarrow> Ok (self, RespVerifyTx (Err InvalidInput)))
     | WithdrawUnbondedStakeTx _ _ _ _ \<Rightarrow> (case account of
           Some a \<Rightarrow> try_bind (check_withdraw_tx E S G K tx a info (txdb self)) (\<lambda>(db, r).
             Ok (self\<lparr> txdb := db \<rparr>, RespVerifyTx r))
         | None \<Rightarrow> Ok (self, UnsupportedTxType))
     | UnbondStakeTx _ _ \<Rightarrow> Ok (self, UnsupportedTxType))
   | GetCachedLaunchToken enclave_metaname \<Rightarrow>
       try_bind (get_token_arr K (metadb self) enclave_metaname) (\<lambda>r. Ok (self, RespGetCachedLaunchToken r))
   | UpdateCachedLaunchToken enclave_metaname token \<Rightarrow>
       (case store_token K (metadb self) enclave_metaname token of (db, r) \<Rightarrow>
          Ok (self\<lparr> metadb := db \<rparr>, RespUpdateCachedLaunchToken r))
   | GetSealedTxData txids \<Rightarrow> Ok (self, RespGetSealedTxData (lookup_txids K (txdb self) txids)))"

text \<open>One turn of the loop of \<open>execute\<close>: decode, answer, encode.\<close>

definition server_turn ::
    "Ext \<Rightarrow> ScaleLib \<Rightarrow> SgxLib \<Rightarrow> 'sl SledLib \<Rightarrow> EnclaveRequest decoder \<Rightarrow> (EnclaveResponse \<Rightarrow> bytes) \<Rightarrow>
     'sl TxValidationServer \<Rightarrow> bytes \<Rightarrow> panic + 'sl TxValidationServer \<times> bytes" where
  "server_turn E S G K dec_request enc_response self msg = (case dec_request msg of
     Inr (request, _) \<Rightarrow>
       try_bind (server_handle E S G K self request) (\<lambda>(self, resp). Ok (self, enc_response resp))
   | Inl _ \<Rightarrow> Ok (self, enc_response UnknownRequest))"

text \<open>\<open>ZmqEnclaveClient::process_request\<close>: the request travels over a socket to one turn of the server.\<close>

definition zmq_process_request ::
    "Ext \<Rightarrow> ScaleLib \<Rightarrow> SgxLib \<Rightarrow> 'sl SledLib \<Rightarrow> EnclaveRequest codec \<Rightarrow> EnclaveResponse codec \<Rightarrow>
     'sl TxValidationServer \<Rightarrow> EnclaveRequest \<Rightarrow> panic + 'sl TxValidationServer \<times> EnclaveResponse" where
  "zmq_process_request E S G K c_req c_resp self request =
     try_bind (server_turn E S G K (dec c_req) (enc c_resp) self (enc c_req request)) (\<lambda>(self, msg).
     try_bind (expect ''failed to parse a response'' (dec c_resp msg)) (\<lambda>(resp, _).
     Ok (self, resp)))"

end
