(* ===== verification/Enclave_Refinement.thy ===== *)
theory Enclave_Refinement
  imports Tx_Enclave
begin

text \<open>
  The validation server against its specification.  The in-process client of \<open>Enclave_Bridge\<close> keeps
  the validated transactions in a plain map and calls the verifiers directly; the server keeps them
  sealed in a database behind an enclave.  The theory relates the two states and shows that, for
  envelopes that describe their payload, every answer of the server is the answer of the in-process
  client with its error passed through the number coding, and the states stay related.  It also shows
  that the server satisfies the contract \<open>enclave_proxy\<close>, and what of an envelope it ignores.
\<close>

lemma exec_cases:
  obtains (panicked) p where "x = Err p" | (failed) e where "x = Ok (Err e)" | (returned) v where "x = Ok (Ok v)"
  by (cases x; cases "projr x") auto

section \<open>What the libraries promise\<close>

text \<open>Sealed data survives the zero bytes that follow it in the buffer, and unseals to what was sealed.\<close>

definition sgx_laws :: "SgxLib \<Rightarrow> bool" where
  "sgx_laws G \<longleftrightarrow> reads_back (c_chain_info G) \<and> reads_back (c_byte_vecs G) \<and> reads_back (c_staked_state G) \<and>
     (\<forall>aad txt. seal_data G aad txt \<noteq> Err SGX_SUCCESS) \<and>
     (\<forall>aad txt. length aad + length txt < 2 ^ 31 \<longrightarrow> (\<exists>sealed. seal_data G aad txt = Ok sealed \<and>
        unseal_data G sealed = Ok txt \<and>
        (\<forall>size. sealed_header_size G + length aad + length txt \<le> unat size \<longrightarrow>
           (\<exists>raw. to_raw_sealed G sealed size = Some raw \<and> length raw \<le> unat size \<and>
              (\<forall>k. from_raw_sealed G (raw @ replicate k 0) = Some sealed)))))"

text \<open>A database that does not fail.\<close>

definition sled_laws :: "'sl SledLib \<Rightarrow> bool" where
  "sled_laws K \<longleftrightarrow>
     (\<forall>db k v k'. sl_get K (fst (sl_insert K db k v)) k' = (if k' = k then Ok (Some v) else sl_get K db k')) \<and>
     (\<forall>db k v. snd (sl_insert K db k v) = Ok ()) \<and>
     (\<forall>db k. sl_get K (fst (sl_flush K db)) k = sl_get K db k) \<and> (\<forall>db. snd (sl_flush K db) = Ok ())"

text \<open>An encoded id holds the id's bytes, an encoded payload the payload's.\<close>

definition size_laws :: "ScaleLib \<Rightarrow> bool" where
  "size_laws S \<longleftrightarrow> (\<forall>i. length i \<le> length (enc (c_txid S) i)) \<and>
     (\<forall>p. length (txpayload p) \<le> length (enc (c_obfuscated S) p))"

definition digest_size :: "Ext \<Rightarrow> bool" where
  "digest_size E \<longleftrightarrow> (\<forall>b. length (blake2s E b) = 32)"

definition enclave_laws :: "Ext \<Rightarrow> ScaleLib \<Rightarrow> SgxLib \<Rightarrow> 'sl SledLib \<Rightarrow> bool" where
  "enclave_laws E S G K \<longleftrightarrow> digest_size E \<and> scale_laws S \<and> size_laws S \<and> sgx_laws G \<and> sled_laws K \<and>
     sealed_header_size G < 2 ^ 16 \<and> ecall_result G = SGX_SUCCESS"

section \<open>The relation between the states\<close>

definition represents ::
    "ScaleLib \<Rightarrow> SgxLib \<Rightarrow> 'sl SledLib \<Rightarrow> 'sl \<Rightarrow> (TxId \<Rightarrow> TxWithOutputs option) \<Rightarrow> bool" where
  "represents S G K db store \<longleftrightarrow> (\<forall>i t. length i = 32 \<and> store i = Some t \<longrightarrow>
     (\<exists>raw. sl_get K db i = Ok (Some raw) \<and> unseal S G raw = Some t))"

text \<open>The error as it arrives on the other side of the enclave boundary.\<close>

definition recode :: "EnclaveResponse \<Rightarrow> EnclaveResponse" where
  "recode r = (case r of RespVerifyTx (Inl e) \<Rightarrow> RespVerifyTx (Err (error_from_i32 (error_code e))) | _ \<Rightarrow> r)"

text \<open>An envelope that describes its payload, with amounts within the supply, and respects the size limits.\<close>

definition honest_envelope :: "Ext \<Rightarrow> ScaleLib \<Rightarrow> TxAux \<Rightarrow> StakedState option \<Rightarrow> bool" where
  "honest_envelope E S txaux macc \<longleftrightarrow> length (encode_txaux S txaux) \<le> TX_AUX_SIZE \<and> (case txaux of
     TransferTx txid ins n payload \<Rightarrow> (\<forall>x \<in> set ins. length (txo_id x) = 32) \<and>
       (\<exists>tx w. txpayload payload = encode_plain_txaux S (PlainTransferTx tx w) \<and> outs_wf (tx_outputs tx) \<and>
          length (encode_tx S tx @ enc (c_in_witnesses S) w) \<le> MAX_TX_SIZE \<and>
          txid = tx_id E tx \<and> n = of_nat (length (tx_outputs tx)))
   | DepositStakeTx dtx payload \<Rightarrow> (\<forall>x \<in> set (dep_inputs dtx). length (txo_id x) = 32) \<and>
       length (encode_txaux S txaux) \<le> MAX_DEPOSIT_TX_SIZE + 1 \<and>
       (\<exists>w. txpayload payload = encode_plain_txaux S (PlainDepositStakeTx w) \<and>
          length (enc (c_in_witnesses S) w) \<le> MAX_WITNESS_SIZE)
   | WithdrawUnbondedStakeTx txid n witness payload \<Rightarrow>
       (\<exists>tx a. macc = Some a \<and> staked_wf a \<and>
          txpayload payload = encode_plain_txaux S (PlainWithdrawUnbondedStakeTx tx) \<and> outs_wf (wdr_outputs tx) \<and>
          txid = withdraw_id E tx \<and> n = of_nat (length (wdr_outputs tx)) \<and>
          verify_tx_recover_address E witness txid = Ok (address a))
   | UnbondStakeTx _ _ \<Rightarrow> True)"

section \<open>Lookup and sealing\<close>

lemma lookup_represents:
  assumes "represents S G K db (local_tx_store m)" "\<forall>x \<in> set ins. length (txo_id x) = 32"
    and "mock_inputs m ins = Ok prevs"
  shows "\<exists>logs. lookup_txids K db (map txo_id ins) = Some logs \<and> unseal_all S G logs = Some prevs"
  using assms(2,3)
proof (induction ins arbitrary: prevs)
  case Nil
  then show ?case by (simp add: mock_inputs_def)
next
  case (Cons x ins)
  from Cons.prems(2) obtain t rest where t: "local_tx_store m (txo_id x) = Some t" "prevs = t # rest"
    and r: "mock_inputs m ins = Ok rest"
    by (auto simp: mock_inputs_def mock_lookup_def result_simps split: option.splits)
  from assms(1) t(1) Cons.prems(1) obtain raw where
    "sl_get K db (txo_id x) = Ok (Some raw)" "unseal S G raw = Some t"
    unfolding represents_def by (metis list.set_intros(1))
  moreover from Cons.IH [OF _ r] Cons.prems(1) obtain logs where
    "lookup_txids K db (map txo_id ins) = Some logs" "unseal_all S G logs = Some rest"
    by auto
  ultimately show ?case using t by simp
qed

lemma two_reads_back:
  assumes "scale_laws S" "\<And>tx. t = Transfer tx \<Longrightarrow> length (encode_tx S tx) \<le> MAX_TX_SIZE \<and> outs_wf (tx_outputs tx)"
    and "\<And>tx. t = StakeWithdraw tx \<Longrightarrow> outs_wf (wdr_outputs tx)"
  shows "decode_two S (encode_two S t) = Ok (t, [])"
proof (cases t)
  case (Transfer tx)
  then show ?thesis
    using assms(2) tx_decode [OF assms(1), of tx "[]"] by (simp add: decode_two_def encode_two_def)
next
  case (StakeWithdraw tx)
  with assms(3) show ?thesis by (simp add: decode_two_def encode_two_def reads_back_ends [OF assms(1)])
qed

lemma seal_result_ok:
  assumes "sgx_laws G" "scale_laws S"
    and "\<And>tx. t = Transfer tx \<Longrightarrow> length (encode_tx S tx) \<le> MAX_TX_SIZE \<and> outs_wf (tx_outputs tx)"
    and "\<And>tx. t = StakeWithdraw tx \<Longrightarrow> outs_wf (wdr_outputs tx)"
    and "sealed_header_size G + length i + length (encode_two S t) \<le> n" "n < 2 ^ 31"
  shows "\<exists>raw. unseal S G raw = Some t \<and> (\<forall>fee. seal_result G i (encode_two S t) (of_nat n) fee (ecall_start n) =
      (SGX_SUCCESS, (ecall_start n)\<lparr> out_sealed := raw, out_coins := coin_u64 (to_coin fee) \<rparr>))"
proof -
  have "unat (of_nat n :: u32) = n" using assms(6) by (simp add: unat_of_nat)
  moreover have "length i + length (encode_two S t) < 2 ^ 31" using assms(5,6) by linarith
  ultimately obtain sealed raw where s: "seal_data G i (encode_two S t) = Ok sealed"
    "unseal_data G sealed = Ok (encode_two S t)" "to_raw_sealed G sealed (of_nat n) = Some raw" "length raw \<le> n"
    "\<And>k. from_raw_sealed G (raw @ replicate k 0) = Some sealed"
    using assms(1,5) unfolding sgx_laws_def by metis
  let ?buf = "raw @ replicate (n - length raw) 0"
  have "length ?buf < 4294967295" using s(4) assms(6) by simp
  then have "unseal S G ?buf = Some t"
    using s two_reads_back [OF assms(2,3,4)] by (simp add: unseal_def)
  moreover have "seal_result G i (encode_two S t) (of_nat n) fee (ecall_start n) =
      (SGX_SUCCESS, (ecall_start n)\<lparr> out_sealed := ?buf, out_coins := coin_u64 (to_coin fee) \<rparr>)" for fee
    using s by (simp add: seal_result_def ecall_start_def write_prefix_def)
  ultimately show ?thesis by blast
qed

lemma sled_insert:
  assumes "sled_laws K"
  obtains db' where "sl_insert K db k v = (db', Ok ())"
  using assms unfolding sled_laws_def by (metis prod.collapse)

lemma represents_insert:
  assumes "sled_laws K" "represents S G K db store" "unseal S G raw = Some t"
  shows "represents S G K (fst (sl_insert K db i raw)) (store(i \<mapsto> t))"
  using assms by (auto simp: represents_def sled_laws_def)

section \<open>The calls around the enclave\<close>

lemma coin_new_u64: "coin_wf c \<Longrightarrow> coin_new (coin_u64 c) = Ok c"
  by (cases c) (simp add: coin_new_Ok_iff coin_wf_amount amount_def)

lemma accepted_fee_coin:
  "verify_transfer E tx w info prevs = Ok (Ok fee) \<Longrightarrow> coin_new (coin_u64 (to_coin fee)) = Ok (to_coin fee)"
  "verify_unbonded_withdraw_core wtx info a = Ok (Ok fee) \<Longrightarrow> staked_wf a \<Longrightarrow>
     coin_new (coin_u64 (to_coin fee)) = Ok (to_coin fee)"
  by (intro coin_new_u64;
      simp add: verify_transfer_Ok_iff verify_unbonded_withdraw_core_Ok_iff coin_wf_amount staked_wf_def)+

lemma chain_info_read:
  "sgx_laws G \<Longrightarrow> ci_chain_hex_id info = network_hex_id G \<Longrightarrow>
   check_chain_info G (enc (c_chain_info G) info) = Some info"
  by (simp add: check_chain_info_def sgx_laws_def reads_back_nil)

lemma envelope_read:
  assumes "scale_laws S" "length (encode_txaux S t) \<le> TX_AUX_SIZE"
    and "\<And>tx p. t = DepositStakeTx tx p \<Longrightarrow> length (encode_txaux S t) \<le> MAX_DEPOSIT_TX_SIZE + 1"
    and "\<And>tx w. t \<noteq> UnbondStakeTx tx w"
  shows "decode_txaux S (encode_txaux S t) = Ok (t, [])"
proof -
  have "\<not> ((\<exists>tx payload. t = DepositStakeTx tx payload) \<and> MAX_DEPOSIT_TX_SIZE + 1 < length (encode_txaux S t))"
    using assms(3) by (auto simp: not_less)
  then show ?thesis
    using assms(2,4) by (simp only: txaux_reads_back [OF assms(1)] not_less [symmetric] if_False simp_thms)
qed

lemma sealed_buffer_fits:
  assumes "size_laws S" "length i + length (encode_two S t) \<le> length (enc (c_txid S) i) + length pl" "pl = txpayload p"
    and "length (encode_txaux S txaux) \<le> TX_AUX_SIZE" "sealed_header_size G < 2 ^ 16"
    and "length (enc (c_txid S) i) + length (enc (c_obfuscated S) p) \<le> length (encode_txaux S txaux)"
  shows "sealed_header_size G + length i + length (encode_two S t) \<le> sealed_header_size G + length (encode_txaux S txaux)"
    and "sealed_header_size G + length (encode_txaux S txaux) < 2 ^ 31"
proof -
  have "length pl \<le> length (enc (c_obfuscated S) p)" using assms(1,3) by (simp add: size_laws_def)
  then show "sealed_header_size G + length i + length (encode_two S t) \<le> sealed_header_size G + length (encode_txaux S txaux)"
    using assms(2,6) by linarith
  show "sealed_header_size G + length (encode_txaux S txaux) < 2 ^ 31"
    using assms(4,5) by (simp add: TX_AUX_SIZE_def)
qed

lemma check_transfer_refines:
  fixes tx :: Tx
  assumes laws: "enclave_laws E S G K" "ci_chain_hex_id info = network_hex_id G"
    and env: "txaux = TransferTx (tx_id E tx) ins (of_nat (length (tx_outputs tx))) payload"
      "length (encode_txaux S txaux) \<le> TX_AUX_SIZE"
    and pl: "txpayload payload = encode_plain_txaux S (PlainTransferTx tx w)" "outs_wf (tx_outputs tx)"
      "length (encode_tx S tx @ enc (c_in_witnesses S) w) \<le> MAX_TX_SIZE"
    and ins: "unseal_all S G logs = Some prevs"
  shows "\<exists>raw. unseal S G raw = Some (Transfer tx) \<and> check_transfertx E S G K txaux logs info db =
    (case verify_transfer E tx w info prevs of
       Inl p \<Rightarrow> Err p
     | Inr (Inl e) \<Rightarrow> Ok (db, Err (error_from_i32 (error_code e)))
     | Inr (Inr fee) \<Rightarrow> Ok (fst (sl_insert K db (tx_id E tx) raw), Ok (fee, None)))"
proof -
  from laws(1) have l: "scale_laws S" "size_laws S" "sgx_laws G" "sled_laws K" "sealed_header_size G < 2 ^ 16"
    "ecall_result G = SGX_SUCCESS" by (simp_all add: enclave_laws_def)
  define n where "n = sealed_header_size G + length (encode_txaux S txaux)"
  have small: "length (encode_tx S tx) \<le> MAX_TX_SIZE \<and> outs_wf (tx_outputs tx)" using pl(2,3) by simp
  have d: "decode_txaux S (encode_txaux S txaux) = Ok (txaux, [])"
    using env by (intro envelope_read [OF l(1)]) auto
  have p: "decode_plain_txaux S (txpayload payload) = Ok (PlainTransferTx tx w, [])"
    using pl plain_txaux_reads_back [OF l(1), of "PlainTransferTx tx w"] by (simp add: plain_wf_def)
  have v: "dec (c_byte_vecs G) (enc (c_byte_vecs G) logs) = Ok (logs, [])"
    using l(3) by (simp add: sgx_laws_def reads_back_nil)
  have two: "length (tx_id E tx) + length (encode_two S (Transfer tx)) \<le>
      length (enc (c_txid S) (tx_id E tx)) + length (txpayload payload)"
    using l(2) pl(1) by (auto simp: size_laws_def encode_two_def encode_plain_txaux_def intro: trans_le_add1)
  have "length (enc (c_txid S) (tx_id E tx)) + length (enc (c_obfuscated S) payload) \<le> length (encode_txaux S txaux)"
    by (simp add: env(1) encode_txaux_def)
  note fits = sealed_buffer_fits [OF l(2) two refl env(2) l(5) this, folded n_def]
  obtain raw where raw: "unseal S G raw = Some (Transfer tx)"
    "\<And>fee. seal_result G (tx_id E tx) (encode_two S (Transfer tx)) (of_nat n) fee (ecall_start n) =
      (SGX_SUCCESS, (ecall_start n)\<lparr> out_sealed := raw, out_coins := coin_u64 (to_coin fee) \<rparr>)"
    using seal_result_ok [OF l(3,1) _ _ fits] small by blast
  have e: "ecall_check_transfer_tx E S G (of_nat n) (enc (c_chain_info G) info) (encode_txaux S txaux)
      (enc (c_byte_vecs G) logs) (ecall_start n) =
    try_bind (verify_transfer E tx w info prevs) (\<lambda>result. case result of
        Inl e \<Rightarrow> Ok (SGX_ERROR_INVALID_PARAMETER, (ecall_start n)\<lparr> out_error := error_code e \<rparr>)
      | Inr fee \<Rightarrow> Ok (SGX_SUCCESS, (ecall_start n)\<lparr> out_sealed := raw, out_coins := coin_u64 (to_coin fee) \<rparr>))"
    unfolding ecall_check_transfer_tx_def chain_info_read [OF l(3) laws(2)] d v
    by (simp add: env(1) p ins raw(2))
  have i: "txaux_id E txaux = tx_id E tx" by (simp add: env(1) txaux_id_def)
  obtain db' where db': "sl_insert K db (tx_id E tx) raw = (db', Ok ())" by (rule sled_insert [OF l(4)])
  have "check_transfertx E S G K txaux logs info db =
    (case verify_transfer E tx w info prevs of
       Inl p \<Rightarrow> Err p
     | Inr (Inl e) \<Rightarrow> Ok (db, Err (error_from_i32 (error_code e)))
     | Inr (Inr fee) \<Rightarrow> Ok (fst (sl_insert K db (tx_id E tx) raw), Ok (fee, None)))"
    unfolding check_transfertx_def Let_def n_def [symmetric] e i
    by (cases "verify_transfer E tx w info prevs" rule: exec_cases)
      (simp_all add: enter_enclave_def l(6) ecall_ok_def db' accepted_fee_coin(1))
  with raw(1) show ?thesis by blast
qed

lemma check_withdraw_refines:
  fixes tx :: WithdrawUnbondedTx
  assumes laws: "enclave_laws E S G K" "ci_chain_hex_id info = network_hex_id G"
    and env: "txaux = WithdrawUnbondedStakeTx (withdraw_id E tx) (of_nat (length (wdr_outputs tx))) witness payload"
      "length (encode_txaux S txaux) \<le> TX_AUX_SIZE"
    and pl: "txpayload payload = encode_plain_txaux S (PlainWithdrawUnbondedStakeTx tx)" "outs_wf (wdr_outputs tx)"
    and sig: "verify_tx_recover_address E witness (withdraw_id E tx) = Ok (address a)"
    and a: "staked_wf a"
  shows "\<exists>raw. unseal S G raw = Some (StakeWithdraw tx) \<and> check_withdraw_tx E S G K txaux a info db =
    (case verify_unbonded_withdraw_core tx info a of
       Inl p \<Rightarrow> Err p
     | Inr (Inl e) \<Rightarrow> Ok (db, Err (error_from_i32 (error_code e)))
     | Inr (Inr fee) \<Rightarrow> Ok (fst (sl_insert K db (withdraw_id E tx) raw), Ok (fee, Some (withdraw a))))"
proof -
  from laws(1) have l: "scale_laws S" "size_laws S" "sgx_laws G" "sled_laws K" "sealed_header_size G < 2 ^ 16"
    "ecall_result G = SGX_SUCCESS" by (simp_all add: enclave_laws_def)
  define n where "n = sealed_header_size G + length (encode_txaux S txaux)"
  have d: "decode_txaux S (encode_txaux S txaux) = Ok (txaux, [])"
    using env by (intro envelope_read [OF l(1)]) auto
  have p: "decode_plain_txaux S (txpayload payload) = Ok (PlainWithdrawUnbondedStakeTx tx, [])"
    using pl plain_txaux_reads_back [OF l(1), of "PlainWithdrawUnbondedStakeTx tx"] by (simp add: plain_wf_def)
  have v: "dec (c_staked_state G) (enc (c_staked_state G) a) = Ok (a, [])"
    using l(3) by (simp add: sgx_laws_def reads_back_nil)
  have two: "length (withdraw_id E tx) + length (encode_two S (StakeWithdraw tx)) \<le>
      length (enc (c_txid S) (withdraw_id E tx)) + length (txpayload payload)"
    using l(2) pl(1) by (auto simp: size_laws_def encode_two_def encode_plain_txaux_def)
  have "length (enc (c_txid S) (withdraw_id E tx)) + length (enc (c_obfuscated S) payload) \<le> length (encode_txaux S txaux)"
    by (simp add: env(1) encode_txaux_def)
  note fits = sealed_buffer_fits [OF l(2) two refl env(2) l(5) this, folded n_def]
  obtain raw where raw: "unseal S G raw = Some (StakeWithdraw tx)"
    "\<And>fee. seal_result G (withdraw_id E tx) (encode_two S (StakeWithdraw tx)) (of_nat n) fee (ecall_start n) =
      (SGX_SUCCESS, (ecall_start n)\<lparr> out_sealed := raw, out_coins := coin_u64 (to_coin fee) \<rparr>)"
    using seal_result_ok [OF l(3,1) _ _ fits] pl(2) by blast
  have e: "ecall_check_withdraw_tx E S G (of_nat n) (enc (c_chain_info G) info) (encode_txaux S txaux)
      (enc (c_staked_state G) a) (ecall_start n) =
    try_bind (verify_unbonded_withdraw_core tx info a) (\<lambda>result. case result of
        Inl e \<Rightarrow> Ok (SGX_ERROR_INVALID_PARAMETER, (ecall_start n)\<lparr> out_error := error_code e \<rparr>)
      | Inr fee \<Rightarrow> Ok (SGX_SUCCESS, (ecall_start n)\<lparr> out_sealed := raw, out_coins := coin_u64 (to_coin fee) \<rparr>))"
    unfolding ecall_check_withdraw_tx_def chain_info_read [OF l(3) laws(2)] d v
    by (simp add: env(1) p sig raw(2))
  have i: "txaux_id E txaux = withdraw_id E tx" by (simp add: env(1) txaux_id_def)
  obtain db' where db': "sl_insert K db (withdraw_id E tx) raw = (db', Ok ())" by (rule sled_insert [OF l(4)])
  have "check_withdraw_tx E S G K txaux a info db =
    (case verify_unbonded_withdraw_core tx info a of
       Inl p \<Rightarrow> Err p
     | Inr (Inl e) \<Rightarrow> Ok (db, Err (error_from_i32 (error_code e)))
     | Inr (Inr fee) \<Rightarrow> Ok (fst (sl_insert K db (withdraw_id E tx) raw), Ok (fee, Some (withdraw a))))"
    unfolding check_withdraw_tx_def Let_def n_def [symmetric] e i
    by (cases "verify_unbonded_withdraw_core tx info a" rule: exec_cases)
      (simp_all add: enter_enclave_def l(6) ecall_ok_def db' accepted_fee_coin(2) a)
  with raw(1) show ?thesis by blast
qed

lemma check_deposit_refines:
  assumes laws: "enclave_laws E S G K" "ci_chain_hex_id info = network_hex_id G"
    and env: "txaux = DepositStakeTx tx payload" "length (encode_txaux S txaux) \<le> TX_AUX_SIZE"
      "length (encode_txaux S txaux) \<le> MAX_DEPOSIT_TX_SIZE + 1"
    and pl: "txpayload payload = encode_plain_txaux S (PlainDepositStakeTx w)"
      "length (enc (c_in_witnesses S) w) \<le> MAX_WITNESS_SIZE"
    and ins: "unseal_all S G logs = Some prevs"
    and ok: "verify_bonded_deposit E tx w info prevs macc = Ok r"
  shows "check_deposit_tx E S G txaux logs macc info = Ok (map_sum (error_from_i32 \<circ> error_code) id r)"
proof -
  from laws(1) have l: "scale_laws S" "sgx_laws G" "ecall_result G = SGX_SUCCESS"
    by (simp_all add: enclave_laws_def)
  have d: "decode_txaux S (encode_txaux S txaux) = Ok (txaux, [])"
    using env by (intro envelope_read [OF l(1)]) auto
  have p: "decode_plain_txaux S (txpayload payload) = Ok (PlainDepositStakeTx w, [])"
    using pl plain_txaux_reads_back [OF l(1), of "PlainDepositStakeTx w"] by (simp add: plain_wf_def)
  have v: "dec (c_byte_vecs G) (enc (c_byte_vecs G) logs) = Ok (logs, [])"
    using l(2) by (simp add: sgx_laws_def reads_back_nil)
  have e: "ecall_check_deposit_tx E S G (enc (c_chain_info G) info) (encode_txaux S txaux)
      (enc (c_byte_vecs G) logs) (ecall_start 0) = (case verify_bonded_deposit_core E tx w info prevs of
        Inl e \<Rightarrow> (SGX_ERROR_INVALID_PARAMETER, (ecall_start 0)\<lparr> out_error := error_code e \<rparr>)
      | Inr c \<Rightarrow> (SGX_SUCCESS, (ecall_start 0)\<lparr> out_coins := coin_u64 c \<rparr>))"
    unfolding ecall_check_deposit_tx_def chain_info_read [OF l(2) laws(2)] d v
    by (simp add: env(1) p ins)
  show ?thesis
  proof (cases "verify_bonded_deposit_core E tx w info prevs")
    case (Inl err)
    with ok show ?thesis
      unfolding check_deposit_tx_def Let_def e
      by (auto simp: enter_enclave_def l(3) ecall_ok_def verify_bonded_deposit_def result_simps)
  next
    case (Inr c)
    then have "coin_new (coin_u64 c) = Ok c"
      by (intro coin_new_u64) (simp add: verify_bonded_deposit_core_Ok_iff coin_wf_amount)
    with Inr ok show ?thesis
      unfolding check_deposit_tx_def Let_def e verify_bonded_deposit_def
      by (cases "coin_sub c (to_coin (min_fee_computed info))"; cases macc;
          cases "deposit (the macc) (projr (coin_sub c (to_coin (min_fee_computed info))))")
        (auto simp: enter_enclave_def l(3) ecall_ok_def env(1))
  qed
qed

section \<open>The simulation, case by case\<close>

lemma recode_verify:
  "recode (RespVerifyTx r) = RespVerifyTx (map_sum (error_from_i32 \<circ> error_code) id r)"
  by (cases r) (simp_all add: recode_def)

lemma simulate_transfer:
  assumes laws: "enclave_laws E S G K" "ci_chain_hex_id info = network_hex_id G"
    and rep: "represents S G K (txdb srv) (local_tx_store m)"
    and env: "txaux = TransferTx txid ins n payload" "honest_envelope E S txaux macc"
    and mock: "mock_process_request E S m (VerifyTx txaux macc info) = Ok (m', resp)"
  shows "\<exists>db. server_handle E S G K srv (VerifyTx txaux macc info) = Ok (srv\<lparr> txdb := db \<rparr>, recode resp) \<and>
    represents S G K db (local_tx_store m')"
proof -
  from env obtain tx w where h: "length (encode_txaux S txaux) \<le> TX_AUX_SIZE" "\<forall>x \<in> set ins. length (txo_id x) = 32"
    "txpayload payload = encode_plain_txaux S (PlainTransferTx tx w)" "outs_wf (tx_outputs tx)"
    "length (encode_tx S tx @ enc (c_in_witnesses S) w) \<le> MAX_TX_SIZE"
    "txaux = TransferTx (tx_id E tx) ins (of_nat (length (tx_outputs tx))) payload"
    unfolding honest_envelope_def by auto
  from laws(1) have l: "scale_laws S" "sled_laws K" by (simp_all add: enclave_laws_def)
  have p: "decode_plain_txaux S (txpayload payload) = Ok (PlainTransferTx tx w, [])"
    using h(3-5) plain_txaux_reads_back [OF l(1), of "PlainTransferTx tx w"] by (simp add: plain_wf_def)
  from mock obtain prevs where prevs: "mock_inputs m ins = Ok prevs"
    by (cases "mock_inputs m ins") (simp_all add: env(1) mock_process_request_def)
  with mock obtain r where r: "verify_transfer E tx w info prevs = Ok r"
    by (cases "verify_transfer E tx w info prevs") (simp_all add: env(1) mock_process_request_def mock_verify_def p)
  from lookup_represents [OF rep h(2) prevs] obtain logs where
    logs: "lookup_txids K (txdb srv) (map txo_id ins) = Some logs" "unseal_all S G logs = Some prevs" by blast
  from check_transfer_refines [OF laws h(6,1,3,4,5) logs(2), of "txdb srv"] obtain raw where
    raw: "unseal S G raw = Some (Transfer tx)" and c: "check_transfertx E S G K txaux logs info (txdb srv) =
      (case r of Inl e \<Rightarrow> Ok (txdb srv, Err (error_from_i32 (error_code e)))
       | Inr fee \<Rightarrow> Ok (fst (sl_insert K (txdb srv) (tx_id E tx) raw), Ok (fee, None)))"
    by (auto simp: r)
  have s: "server_handle E S G K srv (VerifyTx txaux macc info) =
      try_bind (check_transfertx E S G K txaux logs info (txdb srv)) (\<lambda>(db, r). Ok (srv\<lparr> txdb := db \<rparr>, RespVerifyTx r))"
    by (simp add: server_handle_def env(1) server_lookup_def logs)
  from mock show ?thesis
    unfolding s c using rep represents_insert [OF l(2) rep raw]
    by (cases r) (auto simp: env(1) mock_process_request_def prevs mock_verify_def p r recode_verify
        intro: exI [of _ "txdb srv"])
qed

lemma simulate_deposit:
  assumes laws: "enclave_laws E S G K" "ci_chain_hex_id info = network_hex_id G"
    and rep: "represents S G K (txdb srv) (local_tx_store m)"
    and env: "txaux = DepositStakeTx dtx payload" "honest_envelope E S txaux macc"
    and mock: "mock_process_request E S m (VerifyTx txaux macc info) = Ok (m', resp)"
  shows "server_handle E S G K srv (VerifyTx txaux macc info) = Ok (srv, recode resp) \<and> m' = m"
proof -
  from env obtain w where h: "length (encode_txaux S txaux) \<le> TX_AUX_SIZE"
    "length (encode_txaux S txaux) \<le> MAX_DEPOSIT_TX_SIZE + 1" "\<forall>x \<in> set (dep_inputs dtx). length (txo_id x) = 32"
    "txpayload payload = encode_plain_txaux S (PlainDepositStakeTx w)"
    "length (enc (c_in_witnesses S) w) \<le> MAX_WITNESS_SIZE"
    unfolding honest_envelope_def by auto
  from laws(1) have l: "scale_laws S" by (simp add: enclave_laws_def)
  have p: "decode_plain_txaux S (txpayload payload) = Ok (PlainDepositStakeTx w, [])"
    using h(4,5) plain_txaux_reads_back [OF l(1), of "PlainDepositStakeTx w"] by (simp add: plain_wf_def)
  from mock obtain prevs where prevs: "mock_inputs m (dep_inputs dtx) = Ok prevs"
    by (cases "mock_inputs m (dep_inputs dtx)") (simp_all add: env(1) mock_process_request_def)
  with mock obtain r where r: "verify_bonded_deposit E dtx w info prevs macc = Ok r"
    by (cases "verify_bonded_deposit E dtx w info prevs macc")
      (simp_all add: env(1) mock_process_request_def mock_verify_def p)
  from lookup_represents [OF rep h(3) prevs] obtain logs where
    logs: "lookup_txids K (txdb srv) (map txo_id (dep_inputs dtx)) = Some logs" "unseal_all S G logs = Some prevs"
    by blast
  note c = check_deposit_refines [OF laws env(1) h(1,2,4,5) logs(2) r]
  have "server_handle E S G K srv (VerifyTx txaux macc info) =
      try_bind (check_deposit_tx E S G txaux logs macc info) (\<lambda>r. Ok (srv, RespVerifyTx r))"
    by (simp add: server_handle_def env(1) server_lookup_def logs)
  with mock show ?thesis
    by (auto simp: c env(1) [symmetric]) (auto simp: env(1) mock_process_request_def prevs mock_verify_def p r recode_verify)
qed

lemma simulate_withdraw:
  assumes laws: "enclave_laws E S G K" "ci_chain_hex_id info = network_hex_id G"
    and rep: "represents S G K (txdb srv) (local_tx_store m)"
    and env: "txaux = WithdrawUnbondedStakeTx txid n witness payload" "honest_envelope E S txaux macc"
    and mock: "mock_process_request E S m (VerifyTx txaux macc info) = Ok (m', resp)"
  shows "\<exists>db. server_handle E S G K srv (VerifyTx txaux macc info) = Ok (srv\<lparr> txdb := db \<rparr>, recode resp) \<and>
    represents S G K db (local_tx_store m')"
proof -
  from env obtain tx a where h: "length (encode_txaux S txaux) \<le> TX_AUX_SIZE"
    "txpayload payload = encode_plain_txaux S (PlainWithdrawUnbondedStakeTx tx)" "outs_wf (wdr_outputs tx)"
    "verify_tx_recover_address E witness (withdraw_id E tx) = Ok (address a)" "staked_wf a" "macc = Some a"
    "txaux = WithdrawUnbondedStakeTx (withdraw_id E tx) (of_nat (length (wdr_outputs tx))) witness payload"
    unfolding honest_envelope_def by auto
  from laws(1) have l: "scale_laws S" "sled_laws K" by (simp_all add: enclave_laws_def)
  have p: "decode_plain_txaux S (txpayload payload) = Ok (PlainWithdrawUnbondedStakeTx tx, [])"
    using h(2,3) plain_txaux_reads_back [OF l(1), of "PlainWithdrawUnbondedStakeTx tx"] by (simp add: plain_wf_def)
  from mock obtain r where r: "verify_unbonded_withdraw_core tx info a = Ok r"
    by (cases "verify_unbonded_withdraw_core tx info a")
      (simp_all add: env(1) mock_process_request_def mock_verify_def p h(6) verify_unbonded_withdraw_def)
  from check_withdraw_refines [OF laws h(7,1-5), of "txdb srv"] obtain raw where
    raw: "unseal S G raw = Some (StakeWithdraw tx)" and c: "check_withdraw_tx E S G K txaux a info (txdb srv) =
      (case r of Inl e \<Rightarrow> Ok (txdb srv, Err (error_from_i32 (error_code e)))
       | Inr fee \<Rightarrow> Ok (fst (sl_insert K (txdb srv) (withdraw_id E tx) raw), Ok (fee, Some (withdraw a))))"
    by (auto simp: r)
  have s: "server_handle E S G K srv (VerifyTx txaux macc info) =
      try_bind (check_withdraw_tx E S G K txaux a info (txdb srv)) (\<lambda>(db, r). Ok (srv\<lparr> txdb := db \<rparr>, RespVerifyTx r))"
    by (simp add: server_handle_def env(1) h(6))
  from mock show ?thesis
    unfolding s c using rep represents_insert [OF l(2) rep raw]
    by (cases r)
      (auto simp: env(1) h(6) mock_process_request_def mock_verify_def p verify_unbonded_withdraw_def r recode_verify
        intro: exI [of _ "txdb srv"])
qed

section \<open>The contract of the interface\<close>

lemma seal_result_success:
  "sgx_laws G \<Longrightarrow> seal_result G i b n fee out = (SGX_SUCCESS, out') \<Longrightarrow> out_coins out' = coin_u64 (to_coin fee)"
  by (auto simp: seal_result_def sgx_laws_def split: sum.splits option.splits)

text \<open>
  What a request must satisfy to be accepted: the payload decodes to the kind of transaction that the
  envelope announces, id and number of outputs agree, the spent transactions are found and unsealed,
  the witness of a withdrawal is from the owner of the given account, and the pure verifier accepts
  with the fee and the account that are answered.
\<close>

definition verified_request ::
    "Ext \<Rightarrow> ScaleLib \<Rightarrow> SgxLib \<Rightarrow> 'sl SledLib \<Rightarrow> 'sl \<Rightarrow> TxAux \<Rightarrow> StakedState option \<Rightarrow> ChainInfo \<Rightarrow> Fee \<Rightarrow>
     StakedState option \<Rightarrow> bool" where
  "verified_request E S G K db txaux macc info fee acc \<longleftrightarrow> ci_chain_hex_id info = network_hex_id G \<and> (case txaux of
     TransferTx txid ins n payload \<Rightarrow> acc = None \<and> (\<exists>tx w r logs prevs.
       decode_plain_txaux S (txpayload payload) = Ok (PlainTransferTx tx w, r) \<and>
       tx_id E tx = txid \<and> of_nat (length (tx_outputs tx)) = n \<and>
       lookup_txids K db (map txo_id ins) = Some logs \<and> unseal_all S G logs = Some prevs \<and>
       verify_transfer E tx w info prevs = Ok (Ok fee))
   | DepositStakeTx dtx payload \<Rightarrow> (\<exists>w r logs prevs.
       decode_plain_txaux S (txpayload payload) = Ok (PlainDepositStakeTx w, r) \<and>
       lookup_txids K db (map txo_id (dep_inputs dtx)) = Some logs \<and> unseal_all S G logs = Some prevs \<and>
       verify_bonded_deposit E dtx w info prevs macc = Ok (Ok (fee, acc)))
   | WithdrawUnbondedStakeTx txid n witness payload \<Rightarrow> (\<exists>tx r a. macc = Some a \<and>
       decode_plain_txaux S (txpayload payload) = Ok (PlainWithdrawUnbondedStakeTx tx, r) \<and>
       withdraw_id E tx = txid \<and> of_nat (length (wdr_outputs tx)) = n \<and>
       verify_tx_recover_address E witness txid = Ok (address a) \<and>
       verify_unbonded_withdraw tx info a = Ok (Ok (fee, acc)))
   | UnbondStakeTx _ _ \<Rightarrow> False)"

lemma verified_request_pure:
  "verified_request E S G K db txaux macc info fee acc \<Longrightarrow> purely_verified E txaux macc info fee acc"
  unfolding verified_request_def purely_verified_def by (cases txaux) auto

lemma envelope_same:
  "\<lbrakk> scale_laws S; decode_txaux S (encode_txaux S t) = Ok (t', r) \<rbrakk> \<Longrightarrow> t' = t"
  by (simp add: txaux_reads_back split: if_split_asm)

lemma ecall_transfer_success:
  assumes "sgx_laws G" "ecall_check_transfer_tx E S G n ci ta ti out = Ok (SGX_SUCCESS, out')"
  shows "\<exists>info txid ins m payload q tx w r logs r' prevs fee. check_chain_info G ci = Some info \<and>
    decode_txaux S ta = Ok (TransferTx txid ins m payload, q) \<and>
    decode_plain_txaux S (txpayload payload) = Ok (PlainTransferTx tx w, r) \<and>
    dec (c_byte_vecs G) ti = Ok (logs, r') \<and> unseal_all S G logs = Some prevs \<and>
    tx_id E tx = txid \<and> of_nat (length (tx_outputs tx)) = m \<and>
    verify_transfer E tx w info prevs = Ok (Ok fee) \<and> out_coins out' = coin_u64 (to_coin fee)"
proof -
  from assms(2) obtain info txid ins m payload q tx w r logs r' prevs where c: "check_chain_info G ci = Some info"
    "decode_txaux S ta = Ok (TransferTx txid ins m payload, q)"
    "decode_plain_txaux S (txpayload payload) = Ok (PlainTransferTx tx w, r)"
    "dec (c_byte_vecs G) ti = Ok (logs, r')" "unseal_all S G logs = Some prevs"
    "tx_id E tx = txid" "of_nat (length (tx_outputs tx)) = m"
    "try_bind (verify_transfer E tx w info prevs) (\<lambda>result. case result of
        Inl e \<Rightarrow> Ok (SGX_ERROR_INVALID_PARAMETER, out\<lparr> out_error := error_code e \<rparr>)
      | Inr fee \<Rightarrow> Ok (seal_result G txid (encode_two S (Transfer tx)) n fee out)) = Ok (SGX_SUCCESS, out')"
    unfolding ecall_check_transfer_tx_def
    by (auto simp del: try_bind_Ok_iff split: option.split_asm sum.split_asm prod.split_asm TxAux.split_asm
        PlainTxAux.split_asm if_split_asm)
  from c(8) show ?thesis
    by (cases "verify_transfer E tx w info prevs" rule: exec_cases) (use c(1-7) seal_result_success [OF assms(1)] in auto)
qed

lemma ecall_withdraw_success:
  assumes "sgx_laws G" "ecall_check_withdraw_tx E S G n ci ta ai out = Ok (SGX_SUCCESS, out')"
  shows "\<exists>info txid m witness payload q tx r' acc r fee. check_chain_info G ci = Some info \<and>
    decode_txaux S ta = Ok (WithdrawUnbondedStakeTx txid m witness payload, q) \<and>
    decode_plain_txaux S (txpayload payload) = Ok (PlainWithdrawUnbondedStakeTx tx, r') \<and>
    dec (c_staked_state G) ai = Ok (acc, r) \<and> withdraw_id E tx = txid \<and> of_nat (length (wdr_outputs tx)) = m \<and>
    verify_tx_recover_address E witness txid = Ok (address acc) \<and>
    verify_unbonded_withdraw_core tx info acc = Ok (Ok fee) \<and> out_coins out' = coin_u64 (to_coin fee)"
proof -
  from assms(2) obtain info txid m witness payload q tx r' acc r where c: "check_chain_info G ci = Some info"
    "decode_txaux S ta = Ok (WithdrawUnbondedStakeTx txid m witness payload, q)"
    "decode_plain_txaux S (txpayload payload) = Ok (PlainWithdrawUnbondedStakeTx tx, r')"
    "dec (c_staked_state G) ai = Ok (acc, r)" "withdraw_id E tx = txid" "of_nat (length (wdr_outputs tx)) = m"
    "verify_tx_recover_address E witness txid = Ok (address acc)"
    "try_bind (verify_unbonded_withdraw_core tx info acc) (\<lambda>result. case result of
        Inl e \<Rightarrow> Ok (SGX_ERROR_INVALID_PARAMETER, out\<lparr> out_error := error_code e \<rparr>)
      | Inr fee \<Rightarrow> Ok (seal_result G txid (encode_two S (StakeWithdraw tx)) n fee out)) = Ok (SGX_SUCCESS, out')"
    unfolding ecall_check_withdraw_tx_def
    by (auto simp del: try_bind_Ok_iff split: option.split_asm sum.split_asm prod.split_asm TxAux.split_asm
        PlainTxAux.split_asm if_split_asm)
  from c(8) show ?thesis
    by (cases "verify_unbonded_withdraw_core tx info acc" rule: exec_cases)
      (use c(1-7) seal_result_success [OF assms(1)] in auto)
qed

lemma chain_info_same:
  "sgx_laws G \<Longrightarrow> check_chain_info G (enc (c_chain_info G) info) = Some info' \<Longrightarrow> info' = info"
  by (auto simp: check_chain_info_def sgx_laws_def reads_back_nil split: if_splits)

lemma chain_info_network: "check_chain_info G ci = Some info \<Longrightarrow> ci_chain_hex_id info = network_hex_id G"
  by (auto simp: check_chain_info_def split: sum.split_asm if_split_asm)

lemma enter_enclave_success:
  "enter_enclave G out call = Ok (result, retval, out') \<Longrightarrow> ecall_ok result retval \<Longrightarrow> call = Ok (SGX_SUCCESS, out')"
  by (auto simp: enter_enclave_def ecall_ok_def result_simps split: if_splits)

lemma insert_case_Ok:
  "(case r of (d, Inl _) \<Rightarrow> Ok (d, Err e) | (d, Inr _) \<Rightarrow> Ok (d, Ok v)) = Ok (db, Ok v') \<longleftrightarrow>
   (\<exists>u. r = (db, Inr u)) \<and> v' = v"
  by (cases r; cases "snd r") auto

lemma server_transfer_verified:
  assumes laws: "scale_laws S" "sgx_laws G" and logs: "lookup_txids K store (map txo_id ins) = Some logs"
    and ok: "check_transfertx E S G K (TransferTx i ins m p) logs info db = Ok (db', Ok (fee, acc))"
  shows "verified_request E S G K store (TransferTx i ins m p) macc info fee acc"
proof -
  from ok obtain n out0 result retval out c where
    e: "enter_enclave G out0 (ecall_check_transfer_tx E S G n (enc (c_chain_info G) info)
          (encode_txaux S (TransferTx i ins m p)) (enc (c_byte_vecs G) logs) out0) = Ok (result, retval, out)"
      "ecall_ok result retval" "coin_new (out_coins out) = Ok c" "fee = Fee c" "acc = None"
    by (auto simp: check_transfertx_def Let_def result_simps insert_case_Ok split: if_split_asm)
  from ecall_transfer_success [OF laws(2) enter_enclave_success [OF e(1,2)]]
  obtain info' txid ins' m' p' q tx w r logs' r' prevs f where
    f: "check_chain_info G (enc (c_chain_info G) info) = Some info'"
      "decode_txaux S (encode_txaux S (TransferTx i ins m p)) = Ok (TransferTx txid ins' m' p', q)"
      "decode_plain_txaux S (txpayload p') = Ok (PlainTransferTx tx w, r)"
      "dec (c_byte_vecs G) (enc (c_byte_vecs G) logs) = Ok (logs', r')" "unseal_all S G logs' = Some prevs"
      "tx_id E tx = txid" "of_nat (length (tx_outputs tx)) = m'"
      "verify_transfer E tx w info' prevs = Ok (Ok f)" "out_coins out = coin_u64 (to_coin f)"
    by blast
  have same: "info' = info" "logs' = logs" "txid = i" "m' = m" "p' = p"
    using chain_info_same [OF laws(2) f(1)] f(4) envelope_same [OF laws(1) f(2)] laws(2)
    by (auto simp: sgx_laws_def reads_back_nil)
  moreover have "f = fee" using e(3,4) accepted_fee_coin(1) [OF f(8)] by (auto simp: f(9))
  ultimately show ?thesis
    using f(3,5-8) logs chain_info_network [OF f(1)] e(5) by (auto simp: verified_request_def)
qed

lemma server_withdraw_verified:
  assumes laws: "scale_laws S" "sgx_laws G"
    and ok: "check_withdraw_tx E S G K (WithdrawUnbondedStakeTx i m v p) a info db = Ok (db', Ok (fee, acc))"
  shows "verified_request E S G K store (WithdrawUnbondedStakeTx i m v p) (Some a) info fee acc"
proof -
  let ?t = "WithdrawUnbondedStakeTx i m v p"
  from ok obtain n out0 result retval out c where
    e: "enter_enclave G out0 (ecall_check_withdraw_tx E S G n (enc (c_chain_info G) info)
          (encode_txaux S ?t) (enc (c_staked_state G) a) out0) = Ok (result, retval, out)"
      "ecall_ok result retval" "coin_new (out_coins out) = Ok c" "fee = Fee c" "acc = Some (withdraw a)"
    by (auto simp: check_withdraw_tx_def Let_def result_simps insert_case_Ok split: if_split_asm)
  from ecall_withdraw_success [OF laws(2) enter_enclave_success [OF e(1,2)]]
  obtain info' txid m' v' p' q tx r' a' r f where
    f: "check_chain_info G (enc (c_chain_info G) info) = Some info'"
      "decode_txaux S (encode_txaux S ?t) = Ok (WithdrawUnbondedStakeTx txid m' v' p', q)"
      "decode_plain_txaux S (txpayload p') = Ok (PlainWithdrawUnbondedStakeTx tx, r')"
      "dec (c_staked_state G) (enc (c_staked_state G) a) = Ok (a', r)"
      "withdraw_id E tx = txid" "of_nat (length (wdr_outputs tx)) = m'"
      "verify_tx_recover_address E v' txid = Ok (address a')"
      "verify_unbonded_withdraw_core tx info' a' = Ok (Ok f)" "out_coins out = coin_u64 (to_coin f)"
    by blast
  have same: "info' = info" "a' = a" "txid = i" "m' = m" "v' = v" "p' = p"
    using chain_info_same [OF laws(2) f(1)] f(4) envelope_same [OF laws(1) f(2)] laws(2)
    by (auto simp: sgx_laws_def reads_back_nil)
  moreover have "Fee c = f"
    using e(3) f(8,9) by (cases f) (auto simp: coin_new_def verify_unbonded_withdraw_core_Ok_iff split: if_splits)
  ultimately show ?thesis
    using f(3,5-8) chain_info_network [OF f(1)] e(4,5) by (auto simp: verified_request_def verify_unbonded_withdraw_Ok_iff)
qed

lemma server_deposit_verified:
  assumes laws: "scale_laws S" "sgx_laws G" and logs: "lookup_txids K store (map txo_id (dep_inputs tx)) = Some logs"
    and ok: "check_deposit_tx E S G (DepositStakeTx tx payload) logs macc info = Ok (Ok (fee, acc))"
  shows "verified_request E S G K store (DepositStakeTx tx payload) macc info fee acc"
proof -
  let ?ta = "encode_txaux S (DepositStakeTx tx payload)"
  let ?call = "ecall_check_deposit_tx E S G (enc (c_chain_info G) info) ?ta (enc (c_byte_vecs G) logs) (ecall_start 0)"
  have l: "dec (c_byte_vecs G) (enc (c_byte_vecs G) logs) = Ok (logs, [])"
    using laws(2) by (simp add: sgx_laws_def reads_back_nil)
  have call: "fst ?call = SGX_SUCCESS \<Longrightarrow> \<exists>w r prevs c. check_chain_info G (enc (c_chain_info G) info) = Some info \<and>
      decode_plain_txaux S (txpayload payload) = Ok (PlainDepositStakeTx w, r) \<and> unseal_all S G logs = Some prevs \<and>
      verify_bonded_deposit_core E tx w info prevs = Ok c \<and> out_coins (snd ?call) = coin_u64 c"
    using txaux_reads_back [OF laws(1), of "DepositStakeTx tx payload"] chain_info_same [OF laws(2), of info]
    by (auto simp: ecall_check_deposit_tx_def l split: option.splits sum.splits prod.splits PlainTxAux.splits if_splits)
  from ok have "fst ?call = SGX_SUCCESS"
    by (auto simp: check_deposit_tx_def Let_def enter_enclave_def ecall_ok_def split: if_splits prod.splits)
  with call obtain w r prevs c where c: "verify_bonded_deposit_core E tx w info prevs = Ok c"
    "out_coins (snd ?call) = coin_u64 c" "decode_plain_txaux S (txpayload payload) = Ok (PlainDepositStakeTx w, r)"
    "unseal_all S G logs = Some prevs" "check_chain_info G (enc (c_chain_info G) info) = Some info" by blast
  then have "coin_new (coin_u64 c) = Ok c"
    by (intro coin_new_u64) (simp add: verify_bonded_deposit_core_Ok_iff coin_wf_amount)
  with ok c(1,2) have "verify_bonded_deposit E tx w info prevs macc = Ok (Ok (fee, acc))"
    by (cases "coin_sub c (to_coin (min_fee_computed info))"; cases macc;
        cases "deposit (the macc) (projr (coin_sub c (to_coin (min_fee_computed info))))")
      (auto simp: check_deposit_tx_def Let_def verify_bonded_deposit_def enter_enclave_def ecall_ok_def
        split: if_splits prod.splits)
  then show ?thesis using c(3,4) logs chain_info_network [OF c(5)] by (auto simp: verified_request_def)
qed

lemma server_verified:
  assumes laws: "scale_laws S" "sgx_laws G"
    and ok: "server_handle E S G K srv (VerifyTx txaux macc info) = Ok (srv', RespVerifyTx (Ok (fee, acc)))"
  shows "verified_request E S G K (txdb srv) txaux macc info fee acc"
  using ok
  by (cases txaux) (auto simp: server_handle_def server_lookup_def result_simps split: option.splits
      intro: server_transfer_verified [OF laws] server_withdraw_verified [OF laws] server_deposit_verified [OF laws])

lemma server_is_proxy:
  assumes "scale_laws S" "sgx_laws G"
  shows "enclave_proxy E (server_handle E S G K)"
  by unfold_locales (auto intro: verified_request_pure [OF server_verified [OF assms]], simp add: server_handle_def)

section \<open>A concrete enclave\<close>

definition sample_sgx :: SgxLib where
  "sample_sgx = \<lparr>
     network_hex_id = 0,
     seal_data = (\<lambda>aad txt. Ok txt),
     to_raw_sealed = (\<lambda>sealed size. if length sealed < unat size then Some (sealed @ [1]) else None),
     from_raw_sealed = (\<lambda>b. case dropWhile (\<lambda>x. x = 0) (rev b) of [] \<Rightarrow> None | _ # r \<Rightarrow> Some (rev r)),
     unseal_data = Ok,
     ecall_result = SGX_SUCCESS,
     sealed_header_size = 560,
     c_chain_info = map_codec
       (\<lambda>i. (coin_u64 (to_coin (min_fee_computed i)), ci_chain_hex_id i, previous_block_time i, unbonding_period i))
       (\<lambda>(f, h, t, u). \<lparr> min_fee_computed = Fee (Coin f), ci_chain_hex_id = h, previous_block_time = t,
          unbonding_period = u \<rparr>)
       (pair_codec word_codec (pair_codec word_codec (pair_codec word_codec word_codec))),
     c_byte_vecs = list_codec bytes_codec,
     c_staked_state = map_codec
       (\<lambda>s. (nonce s, coin_u64 (bonded s), coin_u64 (unbonded s), unbonded_from s,
          case address s of BasicRedeem r \<Rightarrow> redeem_raw r))
       (\<lambda>(n, b, u, f, a). staked_state_new n (Coin b) (Coin u) f (BasicRedeem (RedeemAddress a)))
       (pair_codec word_codec (pair_codec word_codec (pair_codec word_codec (pair_codec word_codec bytes_codec)))) \<rparr>"

definition sample_sled :: "(bytes \<Rightarrow> bytes option) SledLib" where
  "sample_sled = \<lparr> sl_get = (\<lambda>db k. Ok (db k)), sl_insert = (\<lambda>db k v. (db(k \<mapsto> v), Ok ())),
     sl_flush = (\<lambda>db. (db, Ok ())) \<rparr>"

definition sample_server :: "(bytes \<Rightarrow> bytes option) TxValidationServer" where
  "sample_server = \<lparr> txdb = (\<lambda>_. None), metadb = (\<lambda>_. None) \<rparr>"

lemma sample_sgx_laws: "sgx_laws sample_sgx"
proof -
  have c: "reads_back (c_chain_info sample_sgx)" "reads_back (c_staked_state sample_sgx)"
    "reads_back (c_byte_vecs sample_sgx)"
    unfolding sample_sgx_def SgxLib.simps
    by (intro map_codec_ok codec_oks;
        simp add: staked_state_new_def split: StakedStateAddress.splits)+
  have "from_raw_sealed sample_sgx ((b @ [1]) @ replicate k 0) = Some b" for b k
    by (simp add: sample_sgx_def dropWhile_append)
  with c show ?thesis
    by (auto simp: sgx_laws_def) (auto simp: sample_sgx_def)
qed

lemma bytes_codec_length: "length (enc bytes_codec b) \<le> 257 * length (b :: bytes) + 1"
  "length b \<le> length (enc bytes_codec b)"
proof -
  have "length (concat (map (enc word_codec) b)) \<le> 256 * length b"
  proof (induction b)
    case (Cons w b)
    have "unat w < 256" using unat_bound [of w] by simp
    then show ?case using Cons by (simp add: word_codec_def map_codec_def nat_codec_def)
  qed simp
  then show "length (enc bytes_codec b) \<le> 257 * length b + 1" "length b \<le> length (enc bytes_codec b)"
    by (simp_all add: list_codec_def nat_codec_def)
qed

lemma sample_enclave_laws: "enclave_laws sample_ext sample_scale sample_sgx sample_sled"
proof -
  have "digest_size sample_ext"
    using sample_digest_laws(2) by (simp add: digest_size_def sample_ext_def HASH_SIZE_256_def)
  moreover have "size_laws sample_scale"
    using bytes_codec_length(2)
    by (auto simp: size_laws_def sample_scale_def obfuscated_codec_def map_codec_def pair_codec_def
        intro: le_trans trans_le_add2)
  moreover have "sled_laws sample_sled" by (simp add: sled_laws_def sample_sled_def)
  ultimately show ?thesis
    by (simp add: enclave_laws_def sample_scale_laws sample_sgx_laws) (simp add: sample_sgx_def)
qed

definition sample_withdraw :: WithdrawUnbondedTx where
  "sample_withdraw = withdraw_tx_new 3 [tx_out_new_with_timelock (OrTree []) (Coin 15) 90] (tx_attributes_new 0)"

definition sample_withdraw_aux :: TxAux where
  "sample_withdraw_aux = WithdrawUnbondedStakeTx (withdraw_id sample_ext sample_withdraw) 1 (BasicRedeemWitness [5])
     \<lparr> obf_key_from = 0, obf_nonce = [],
        txpayload = encode_plain_txaux sample_scale (PlainWithdrawUnbondedStakeTx sample_withdraw) \<rparr>"

definition sample_owner :: StakedState where
  "sample_owner = sample_account\<lparr> address :=
     BasicRedeem (redeem_from_pk (keccak256 sample_ext) (serialize_uncompressed sample_ext) [5]) \<rparr>"

lemma sample_withdraw_payload:
  "length (encode_plain_txaux sample_scale (PlainWithdrawUnbondedStakeTx sample_withdraw)) = 119"
  by (simp add: encode_plain_txaux_def sample_scale_defs sample_withdraw_def withdraw_tx_new_def
      tx_out_new_with_timelock_def tx_attributes_new_def)

lemma sample_withdraw_wf: "outs_wf (wdr_outputs sample_withdraw)"
  by (simp add: outs_wf_def sample_withdraw_def withdraw_tx_new_def tx_out_new_with_timelock_def coin_wf_def MAX_COIN_def)

lemma sample_withdraw_size: "length (encode_txaux sample_scale sample_withdraw_aux) \<le> TX_AUX_SIZE"
proof -
  let ?p = "encode_plain_txaux sample_scale (PlainWithdrawUnbondedStakeTx sample_withdraw)"
  have i: "length (withdraw_id sample_ext sample_withdraw) = 32"
    using sample_enclave_laws by (simp add: withdraw_id_def txid_hash_def hash256_def enclave_laws_def digest_size_def)
  have "length (encode_txaux sample_scale sample_withdraw_aux) \<le>
      length (enc bytes_codec (withdraw_id sample_ext sample_withdraw)) + length (enc bytes_codec ?p) + 40"
    by (simp add: sample_withdraw_aux_def encode_txaux_def sample_scale_def encode_op_witness_def obfuscated_codec_def
        map_codec_def pair_codec_def word_codec_def) (simp add: list_codec_def nat_codec_def map_codec_def)
  with bytes_codec_length(1) [of ?p] bytes_codec_length(1) [of "withdraw_id sample_ext sample_withdraw"]
  show ?thesis by (simp add: i sample_withdraw_payload TX_AUX_SIZE_def)
qed

lemma sample_mock_answer:
  "mock_process_request sample_ext sample_scale (mock_new 0) (VerifyTx sample_withdraw_aux (Some sample_owner) sample_info) =
   Ok (\<lparr> mock_chain_hex_id = 0,
          local_tx_store = [withdraw_id sample_ext sample_withdraw \<mapsto> StakeWithdraw sample_withdraw] \<rparr>,
       RespVerifyTx (Ok (Fee (Coin 5), Some (withdraw sample_owner))))"
proof -
  have "verify_unbonded_withdraw sample_withdraw sample_info sample_owner =
      Ok (Ok (Fee (Coin 5), Some (withdraw sample_owner)))"
    by (simp add: verify_unbonded_withdraw_Ok_iff verify_unbonded_withdraw_core_Ok_iff sample_withdraw_def withdraw_tx_new_def
        tx_out_new_with_timelock_def tx_attributes_new_def sample_info_simps sample_owner_def sample_account_def
        staked_state_new_def coin_zero_def amount_def)
  moreover have "decode_plain_txaux sample_scale (encode_plain_txaux sample_scale (PlainWithdrawUnbondedStakeTx sample_withdraw)) =
      Ok (PlainWithdrawUnbondedStakeTx sample_withdraw, [])"
    using plain_txaux_reads_back [OF sample_scale_laws, of "PlainWithdrawUnbondedStakeTx sample_withdraw"]
      sample_withdraw_wf by (simp add: plain_wf_def)
  ultimately show ?thesis
    by (simp add: mock_process_request_def sample_withdraw_aux_def mock_verify_def mock_new_def)
qed

lemma sample_honest: "honest_envelope sample_ext sample_scale sample_withdraw_aux (Some sample_owner)"
proof -
  have "verify_tx_recover_address sample_ext (BasicRedeemWitness [5]) i = Ok (address sample_owner)" for i
    by (simp add: verify_tx_recover_address_def sample_owner_def) (simp add: sample_ext_def)
  moreover have "staked_wf sample_owner"
    using sample_account_wf(1) by (simp add: sample_owner_def staked_wf_def)
  ultimately show ?thesis
    using sample_withdraw_size sample_withdraw_wf
    by (auto simp: honest_envelope_def sample_withdraw_aux_def) (auto simp: sample_withdraw_def withdraw_tx_new_def)
qed

section \<open>Commits\<close>

text \<open>The server records the committed hash next to the transactions and checks the chain against it.\<close>

lemma commit_recorded:
  assumes "sled_laws K" "length app_hash = 32" "ecall_result G = SGX_SUCCESS"
    and "server_handle E S G K srv (CommitBlock app_hash) = Ok (srv', resp)"
  shows "resp = RespCommitBlock (Ok ()) \<and>
    server_handle E S G K srv' (CheckChain i h) = Ok (srv', RespCheckChain
      (if h = Some app_hash \<and> i = network_hex_id G then Ok () else Err (Some app_hash))) \<and>
    (represents S G K (txdb srv) store \<longrightarrow> represents S G K (txdb srv') store)"
proof -
  have key: "length LAST_APPHASH_KEY = 12" by (simp add: LAST_APPHASH_KEY_def)
  obtain db db' where db: "sl_insert K (txdb srv) LAST_APPHASH_KEY app_hash = (db, Ok ())" "sl_flush K db = (db', Ok ())"
    using assms(1) unfolding sled_laws_def by (metis prod.collapse)
  have srv': "srv' = srv\<lparr> txdb := db' \<rparr>" "resp = RespCommitBlock (Ok ())"
    using assms(4) by (auto simp: server_handle_def db)
  have get: "sl_get K db' k = (if k = LAST_APPHASH_KEY then Ok (Some app_hash) else sl_get K (txdb srv) k)" for k
    using assms(1) db unfolding sled_laws_def by (metis fst_conv)
  have "server_check_chain G K srv' i h = Ok (RespCheckChain
      (if h = Some app_hash \<and> i = network_hex_id G then Ok () else Err (Some app_hash)))"
    using assms(2,3) by (auto simp: server_check_chain_def srv' get check_initchain_def ecall_initchain_def ecall_ok_def)
  moreover have "represents S G K (txdb srv) store \<longrightarrow> represents S G K (txdb srv') store"
    using key by (auto simp: represents_def srv' get)
  ultimately show ?thesis by (simp add: srv'(2) server_handle_def)
qed

section \<open>Properties\<close>

text \<open>
  C3: the validation server refines the in-process client.  For an envelope that describes its
  payload, whenever the in-process client answers, the server answers the same up to the coding of
  errors, and its sealed database still represents the map of validated transactions.
\<close>

theorem server_simulates_mock:
  assumes "enclave_laws E S G K" "ci_chain_hex_id info = network_hex_id G"
    and "represents S G K (txdb srv) (local_tx_store m)" "honest_envelope E S txaux macc"
    and "mock_process_request E S m (VerifyTx txaux macc info) = Ok (m', resp)"
  shows "\<exists>db. server_handle E S G K srv (VerifyTx txaux macc info) = Ok (srv\<lparr> txdb := db \<rparr>, recode resp) \<and>
    represents S G K db (local_tx_store m')"
proof (cases txaux)
  case (TransferTx i ins n p)
  then show ?thesis using assms by (intro simulate_transfer)
next
  case (DepositStakeTx tx p)
  from simulate_deposit [OF assms(1-3) this assms(4,5)] assms(3) show ?thesis
    by (intro exI [of _ "txdb srv"]) simp
next
  case (WithdrawUnbondedStakeTx i n w p)
  then show ?thesis using assms by (intro simulate_withdraw)
next
  case (UnbondStakeTx tx w)
  then show ?thesis using assms(3,5)
    by (intro exI [of _ "txdb srv"]) (auto simp: server_handle_def mock_process_request_def recode_def)
qed

theorem server_simulates_mock_witness:
  "\<exists>db. server_handle sample_ext sample_scale sample_sgx sample_sled sample_server
      (VerifyTx sample_withdraw_aux (Some sample_owner) sample_info) =
    Ok (sample_server\<lparr> txdb := db \<rparr>, RespVerifyTx (Ok (Fee (Coin 5), Some (withdraw sample_owner))))"
proof -
  have "ci_chain_hex_id sample_info = network_hex_id sample_sgx" by (simp add: sample_info_def sample_sgx_def)
  moreover have "represents sample_scale sample_sgx sample_sled (txdb sample_server) (local_tx_store (mock_new 0))"
    by (simp add: represents_def mock_new_def)
  ultimately show ?thesis
    using server_simulates_mock [OF sample_enclave_laws _ _ sample_honest sample_mock_answer, of sample_server]
    by (auto simp: recode_def)
qed

text \<open>
  C13: the server accepts only what the pure verifiers accept.  Whenever it answers a request with a
  fee, the chain is the enclave's, the decrypted payload decodes to the announced kind of transaction
  with the announced id and number of outputs, the transactions named as inputs were found and unsealed,
  a withdrawal is signed by the owner of the account that was sent along, and the verifier of that kind
  accepts this very transaction, its witness and the unsealed inputs with the answered fee and account;
  unbonding is never accepted.  So the fee is at least the minimum, and an account that is given back is
  well formed with the next nonce and the same address.
\<close>

theorem server_accepts_only_verified:
  assumes "scale_laws S" "sgx_laws G"
    and "server_handle E S G K srv (VerifyTx txaux macc info) = Ok (srv', RespVerifyTx (Ok (fee, acc)))"
  shows "verified_request E S G K (txdb srv) txaux macc info fee acc \<and>
    min_fee info \<le> amount (to_coin fee) \<and> (\<forall>tx w. txaux \<noteq> UnbondStakeTx tx w) \<and>
    (\<forall>a s. macc = Some a \<and> acc = Some s \<and> staked_wf a \<longrightarrow> staked_wf s \<and> nonce s = nonce a + 1 \<and> address s = address a)"
proof -
  note proxy = server_is_proxy [OF assms(1,2), of E K]
  show ?thesis
    using assms(3) server_verified [OF assms] enclave_proxy.accepted_fee [OF proxy assms(3)]
      enclave_proxy.accepted_account [OF proxy] enclave_proxy.no_unbond [OF proxy] by blast
qed

theorem server_accepts_only_verified_witness:
  "\<exists>srv. server_handle sample_ext sample_scale sample_sgx sample_sled sample_server
      (VerifyTx sample_withdraw_aux (Some sample_owner) sample_info) =
    Ok (srv, RespVerifyTx (Ok (Fee (Coin 5), Some (withdraw sample_owner)))) \<and> min_fee sample_info \<le> 5 \<and>
    verified_request sample_ext sample_scale sample_sgx sample_sled (txdb sample_server) sample_withdraw_aux
      (Some sample_owner) sample_info (Fee (Coin 5)) (Some (withdraw sample_owner))"
proof -
  have "represents sample_scale sample_sgx sample_sled (txdb sample_server) (local_tx_store (mock_new 0))"
    by (simp add: represents_def mock_new_def)
  from simulate_withdraw [OF sample_enclave_laws _ this sample_withdraw_aux_def sample_honest sample_mock_answer] obtain db where
    ok: "server_handle sample_ext sample_scale sample_sgx sample_sled sample_server
      (VerifyTx sample_withdraw_aux (Some sample_owner) sample_info) =
    Ok (sample_server\<lparr> txdb := db \<rparr>, RespVerifyTx (Ok (Fee (Coin 5), Some (withdraw sample_owner))))"
    by (auto simp: recode_def sample_info_def sample_sgx_def)
  from server_accepts_only_verified [OF sample_scale_laws sample_sgx_laws ok] ok show ?thesis by (auto simp: amount_def)
qed

text \<open>
  After a block is committed, the chain is recognised exactly with the committed hash and the
  network the enclave was built for; a wrong hash is answered with the one that was committed, and the
  commit does not disturb the stored transactions.
\<close>

theorem commit_then_check_chain:
  assumes "sled_laws K" "length app_hash = 32" "ecall_result G = SGX_SUCCESS"
    and "server_handle E S G K srv (CommitBlock app_hash) = Ok (srv', resp)"
  shows "resp = RespCommitBlock (Ok ()) \<and>
    server_handle E S G K srv' (CheckChain i h) = Ok (srv', RespCheckChain
      (if h = Some app_hash \<and> i = network_hex_id G then Ok () else Err (Some app_hash))) \<and>
    (represents S G K (txdb srv) store \<longrightarrow> represents S G K (txdb srv') store)"
  by (rule commit_recorded [OF assms])

theorem commit_then_check_chain_witness:
  "\<exists>srv. server_handle sample_ext sample_scale sample_sgx sample_sled sample_server (CommitBlock (replicate 32 7)) =
      Ok (srv, RespCommitBlock (Ok ())) \<and>
    server_handle sample_ext sample_scale sample_sgx sample_sled srv (CheckChain 0 (Some (replicate 32 7))) =
      Ok (srv, RespCheckChain (Ok ()))"
proof -
  obtain srv resp where r: "server_handle sample_ext sample_scale sample_sgx sample_sled sample_server
      (CommitBlock (replicate 32 7)) = Ok (srv, resp)"
    by (simp add: server_handle_def sample_sled_def)
  have "sled_laws sample_sled" "ecall_result sample_sgx = SGX_SUCCESS"
    using sample_enclave_laws by (simp_all add: enclave_laws_def)
  from commit_then_check_chain [OF this(1) _ this(2) r, of 0 "Some (replicate 32 7)"] r show ?thesis
    by (auto simp: sample_sgx_def)
qed

text \<open>
  C38: of the inputs listed in the envelope of a transfer the server uses only the ids.  Another choice
  of the output indices gives the same answer and the same state, so the outputs the node marks as spent
  need not be the ones the encrypted transaction spends.
\<close>

theorem public_indices_ignored:
  assumes "scale_laws S" "map txo_id ins = map txo_id ins'"
    and "length (encode_txaux S (TransferTx i ins n p)) = length (encode_txaux S (TransferTx i ins' n p))"
  shows "server_handle E S G K srv (VerifyTx (TransferTx i ins n p) macc info) =
    server_handle E S G K srv (VerifyTx (TransferTx i ins' n p) macc info)"
proof -
  have e: "ecall_check_transfer_tx E S G z ci (encode_txaux S (TransferTx i ins n p)) ti out =
      ecall_check_transfer_tx E S G z ci (encode_txaux S (TransferTx i ins' n p)) ti out" for z ci ti out
    unfolding ecall_check_transfer_tx_def txaux_reads_back [OF assms(1)] assms(3) by (simp split: option.split)
  have i: "txaux_id E (TransferTx i ins n p) = txaux_id E (TransferTx i ins' n p)" by (simp add: txaux_id_def)
  have "check_transfertx E S G K (TransferTx i ins n p) logs info db =
      check_transfertx E S G K (TransferTx i ins' n p) logs info db" for logs db
    unfolding check_transfertx_def Let_def assms(3) e i by (rule refl)
  then show ?thesis by (simp add: server_handle_def server_lookup_def assms(2) split: option.split)
qed

theorem public_indices_ignored_witness:
  "server_handle sample_ext sample_scale sample_sgx sample_sled sample_server (VerifyTx (TransferTx [2]
     [\<lparr> txo_id = [1], txo_index = 0 \<rparr>, \<lparr> txo_id = [1], txo_index = 1 \<rparr>] 1 \<lparr> obf_key_from = 0, obf_nonce = [], txpayload = [] \<rparr>)
     None sample_info) =
   server_handle sample_ext sample_scale sample_sgx sample_sled sample_server (VerifyTx (TransferTx [2]
     [\<lparr> txo_id = [1], txo_index = 1 \<rparr>, \<lparr> txo_id = [1], txo_index = 0 \<rparr>] 1 \<lparr> obf_key_from = 0, obf_nonce = [], txpayload = [] \<rparr>)
     None sample_info)"
  by (rule public_indices_ignored [OF sample_scale_laws])
    (simp_all add: encode_txaux_def sample_scale_def pointer_codec_def list_codec_def map_codec_def pair_codec_def
      word_codec_def nat_codec_def)

end
