(* ===== verification/Block_Filter.thy ===== *)
theory Block_Filter
  imports Transactions
begin

text \<open>
  The per-block filter of view keys and staking addresses (\<open>chain-tx-filter/src/lib.rs\<close>).  The Bloom
  filter itself is a library, the fields of \<open>BloomLib\<close>; the theory shows that what was added is found,
  also by a client that rebuilds the filter from the event of the block.
\<close>

section \<open>Definitions\<close>

record 'bl BloomLib =
  bloom_default :: 'bl
  bloom_accrue :: "'bl \<Rightarrow> bytes \<Rightarrow> 'bl"
  bloom_contains :: "'bl \<Rightarrow> bytes \<Rightarrow> bool"
  bloom_data :: "'bl \<Rightarrow> bytes"
  bloom_from :: "bytes \<Rightarrow> 'bl"
  enc_staked_address :: "StakedStateAddress \<Rightarrow> bytes"

record 'bl BlockFilter =
  bloom :: 'bl
  modified :: bool

definition filter_default :: "'bl BloomLib \<Rightarrow> 'bl BlockFilter" where
  "filter_default L = \<lparr> bloom = bloom_default L, modified = False \<rparr>"

definition add_view_key :: "Ext \<Rightarrow> 'bl BloomLib \<Rightarrow> 'bl BlockFilter \<Rightarrow> PublicKey \<Rightarrow> 'bl BlockFilter" where
  "add_view_key E L self vk =
     self\<lparr> modified := True, bloom := bloom_accrue L (bloom self) (pk_serialize E vk) \<rparr>"

definition add_staked_state_address :: "'bl BloomLib \<Rightarrow> 'bl BlockFilter \<Rightarrow> StakedStateAddress \<Rightarrow> 'bl BlockFilter" where
  "add_staked_state_address L self a =
     self\<lparr> modified := True, bloom := bloom_accrue L (bloom self) (enc_staked_address L a) \<rparr>"

definition ethbloom_key :: bytes where
  "ethbloom_key = ascii ''ethbloom''"

definition get_tendermint_kv :: "'bl BloomLib \<Rightarrow> 'bl BlockFilter \<Rightarrow> (bytes \<times> bytes) option" where
  "get_tendermint_kv L self =
     (if modified self then Some (ethbloom_key, bloom_data L (bloom self)) else None)"

definition check_view_key :: "Ext \<Rightarrow> 'bl BloomLib \<Rightarrow> 'bl BlockFilter \<Rightarrow> PublicKey \<Rightarrow> bool" where
  "check_view_key E L self vk = bloom_contains L (bloom self) (pk_serialize E vk)"

definition check_staked_state_address :: "'bl BloomLib \<Rightarrow> 'bl BlockFilter \<Rightarrow> StakedStateAddress \<Rightarrow> bool" where
  "check_staked_state_address L self a = bloom_contains L (bloom self) (enc_staked_address L a)"

definition is_modified :: "'bl BlockFilter \<Rightarrow> bool" where
  "is_modified self = modified self"

definition filter_try_from :: "'bl BloomLib \<Rightarrow> bytes \<Rightarrow> string + 'bl BlockFilter" where
  "filter_try_from L value =
     (if length value \<noteq> 256 then Err ''Invalid length, ethbloom is expected to be 256-bytes''
      else Ok \<lparr> bloom = bloom_from L value, modified = False \<rparr>)"

text \<open>The types of the events that carry filters and transactions to the clients.\<close>

datatype TendermintEventType = ValidTransactions | BlockFilterEvent

fun event_type_display :: "TendermintEventType \<Rightarrow> string" where
  "event_type_display ValidTransactions = ''valid_txs''"
| "event_type_display BlockFilterEvent = ''block_filter''"

section \<open>No false negatives\<close>

text \<open>What the Bloom filter library documents.\<close>

definition bloom_laws :: "'bl BloomLib \<Rightarrow> bool" where
  "bloom_laws L \<longleftrightarrow> (\<forall>b x. bloom_contains L (bloom_accrue L b x) x) \<and>
     (\<forall>b x y. bloom_contains L b y \<longrightarrow> bloom_contains L (bloom_accrue L b x) y) \<and>
     (\<forall>b. bloom_from L (bloom_data L b) = b) \<and> (\<forall>b. length (bloom_data L b) = 256)"

lemma filter_kept:
  assumes "bloom_laws L"
  shows "check_view_key E L f k \<Longrightarrow> check_view_key E L (add_view_key E L f k') k"
    and "check_view_key E L f k \<Longrightarrow> check_view_key E L (add_staked_state_address L f a) k"
    and "check_staked_state_address L f b \<Longrightarrow> check_staked_state_address L (add_view_key E L f k') b"
    and "check_staked_state_address L f b \<Longrightarrow> check_staked_state_address L (add_staked_state_address L f a) b"
  using assms
  by (simp_all add: bloom_laws_def check_view_key_def check_staked_state_address_def add_view_key_def
      add_staked_state_address_def)

lemma filter_added:
  assumes "bloom_laws L"
  shows "check_view_key E L (add_view_key E L f k) k"
    and "check_staked_state_address L (add_staked_state_address L f a) a"
  using assms
  by (simp_all add: bloom_laws_def check_view_key_def check_staked_state_address_def add_view_key_def
      add_staked_state_address_def)

lemma fold_add_view_key_kept:
  assumes "bloom_laws L"
  shows "check_view_key E L f k \<Longrightarrow> check_view_key E L (fold (\<lambda>k f. add_view_key E L f k) ks f) k"
    and "check_staked_state_address L f a \<Longrightarrow>
      check_staked_state_address L (fold (\<lambda>k f. add_view_key E L f k) ks f) a"
  by (induction ks arbitrary: f) (simp_all add: filter_kept [OF assms])

lemma fold_add_view_key_added:
  assumes "bloom_laws L" "k \<in> set ks"
  shows "check_view_key E L (fold (\<lambda>k f. add_view_key E L f k) ks f) k"
  using assms(2)
proof (induction ks arbitrary: f)
  case (Cons k' ks)
  then show ?case
    using fold_add_view_key_kept(1) [OF assms(1) filter_added(1) [OF assms(1)]] by auto
qed simp

text \<open>The event of a modified filter gives back the same membership answers.\<close>

lemma filter_event:
  assumes "bloom_laws L" "get_tendermint_kv L f = Some (key, v)"
  shows "\<exists>g. filter_try_from L v = Ok g \<and> key = ethbloom_key \<and> check_view_key E L g = check_view_key E L f \<and>
    check_staked_state_address L g = check_staked_state_address L f"
  using assms
  by (auto simp: bloom_laws_def get_tendermint_kv_def filter_try_from_def check_view_key_def
      check_staked_state_address_def split: if_splits)

definition sample_bloom :: "bool BloomLib" where
  "sample_bloom = \<lparr> bloom_default = False, bloom_accrue = (\<lambda>b x. True), bloom_contains = (\<lambda>b x. b),
     bloom_data = (\<lambda>b. replicate 256 (if b then 255 else 0)), bloom_from = (\<lambda>d. hd d = 255),
     enc_staked_address = (\<lambda>a. case a of BasicRedeem r \<Rightarrow> redeem_raw r) \<rparr>"

lemma sample_bloom_laws: "bloom_laws sample_bloom"
  by (auto simp: bloom_laws_def sample_bloom_def hd_replicate)

end
