(* ===== verification/Node_Storage.thy ===== *)
theory Node_Storage
  imports Enclave_Bridge Ordered_Map Block_Filter
begin

text \<open>
  The storage of the node: the columns of the key-value database (\<open>chain-abci/src/storage/mod.rs\<close>),
  the lookups and the verification against the current state (\<open>storage/tx.rs\<close>), and the marking of
  outputs as spent (\<open>app/mod.rs\<close>, \<open>app/commit.rs\<close>).  The database, the account trie, the bit vectors and
  the enclave are the fields of \<open>NodeLib\<close>.  The theory shows when an input passes the lookup, that marking
  inputs as spent changes exactly their bits, and that a marked input fails the lookup from then on.
\<close>

section \<open>Libraries\<close>

text \<open>A database transaction is the list of its puts, in order.\<close>

type_synonym column = "u32 option"
type_synonym DBTransaction = "(column \<times> bytes \<times> bytes) list"

record ('db, 'acc, 'enc, 'bl) NodeLib =
  nl_ext :: Ext
  nl_scale :: ScaleLib
  nl_bloom :: "'bl BloomLib"
  kv_get :: "'db \<Rightarrow> column \<Rightarrow> bytes \<Rightarrow> unit + bytes option"
  kv_write_buffered :: "'db \<Rightarrow> DBTransaction \<Rightarrow> 'db"
  kv_write :: "'db \<Rightarrow> DBTransaction \<Rightarrow> 'db \<times> (unit + unit)"
  acc_get_one :: "'acc \<Rightarrow> H256 \<Rightarrow> H256 \<Rightarrow> unit + StakedState option"
  acc_insert_one :: "'acc \<Rightarrow> H256 option \<Rightarrow> H256 \<Rightarrow> StakedState \<Rightarrow> 'acc \<times> (unit + H256)"
  acc_insert :: "'acc \<Rightarrow> H256 option \<Rightarrow> H256 list \<Rightarrow> StakedState list \<Rightarrow> 'acc \<times> (unit + H256)"
  bv_from_bytes :: "bytes \<Rightarrow> bool list"
  bv_to_bytes :: "bool list \<Rightarrow> bytes"
  process_request :: "'enc \<Rightarrow> EnclaveRequest \<Rightarrow> panic + 'enc \<times> EnclaveResponse"

definition COL_TX_META :: column where "COL_TX_META = Some 0"
definition COL_WITNESS :: column where "COL_WITNESS = Some 1"
definition COL_BODIES :: column where "COL_BODIES = Some 2"
definition COL_EXTRA :: column where "COL_EXTRA = Some 3"
definition COL_NODE_INFO :: column where "COL_NODE_INFO = Some 4"
definition COL_MERKLE_PROOFS :: column where "COL_MERKLE_PROOFS = Some 5"
definition COL_APP_STATES :: column where "COL_APP_STATES = Some 6"

lemmas columns = COL_TX_META_def COL_WITNESS_def COL_BODIES_def COL_EXTRA_def COL_NODE_INFO_def
  COL_MERKLE_PROOFS_def COL_APP_STATES_def

definition CHAIN_ID_KEY :: bytes where "CHAIN_ID_KEY = ascii ''chain_id''"
definition GENESIS_APP_HASH_KEY :: bytes where "GENESIS_APP_HASH_KEY = ascii ''genesis_app_hash''"
definition LAST_STATE_KEY :: bytes where "LAST_STATE_KEY = ascii ''last_state''"

text \<open>\<open>BitVec::get\<close> and \<open>BitVec::set\<close>.\<close>

definition bv_get :: "bool list \<Rightarrow> nat \<Rightarrow> bool option" where
  "bv_get bv i = (if i < length bv then Some (bv ! i) else None)"

definition bv_set :: "bool list \<Rightarrow> nat \<Rightarrow> bool \<Rightarrow> panic + bool list" where
  "bv_set bv i x = (if i < length bv then Ok (bv[i := x]) else Err (Panic ''index out of bounds''))"

section \<open>Lookups and verification\<close>

definition get_account ::
    "('db, 'acc, 'enc, 'bl) NodeLib \<Rightarrow> StakedStateAddress \<Rightarrow> H256 \<Rightarrow> 'acc \<Rightarrow> Error + StakedState" where
  "get_account L account_address last_root accs =
     (let account_key = to_stake_key (blake2s (nl_ext L)) account_address
      in case acc_get_one L accs last_root account_key of
           Inl _ \<Rightarrow> Err IoError
         | Inr None \<Rightarrow> Err AccountNotFound
         | Inr (Some a) \<Rightarrow> Ok a)"

fun check_spent_loop ::
    "('db, 'acc, 'enc, 'bl) NodeLib \<Rightarrow> 'db \<Rightarrow> TxoPointer list \<Rightarrow> Error + unit" where
  "check_spent_loop L db [] = Ok ()"
| "check_spent_loop L db (txin # rest) = (case kv_get L db COL_TX_META (txo_id txin) of
     Inr (Some v) \<Rightarrow> (case bv_get (bv_from_bytes L v) (unat (txo_index txin)) of
         None \<Rightarrow> Err InvalidInput
       | Some spent \<Rightarrow> if spent then Err InputSpent else check_spent_loop L db rest)
   | Inr None \<Rightarrow> Err InvalidInput
   | Inl _ \<Rightarrow> Err IoError)"

definition check_spent_input_lookup ::
    "('db, 'acc, 'enc, 'bl) NodeLib \<Rightarrow> TxoPointer list \<Rightarrow> 'db \<Rightarrow> Error + unit" where
  "check_spent_input_lookup L inputs db = (if inputs = [] then Err NoInputs else check_spent_loop L db inputs)"

text \<open>One request to the enclave, with every answer but an acceptance turned into a rejection.\<close>

definition ask_enclave ::
    "('db, 'acc, 'enc, 'bl) NodeLib \<Rightarrow> 'enc \<Rightarrow> TxAux \<Rightarrow> StakedState option \<Rightarrow> ChainInfo \<Rightarrow>
     panic + 'enc \<times> (Error + Fee \<times> StakedState option)" where
  "ask_enclave L tx_validator txaux account info =
     try_bind (process_request L tx_validator (VerifyTx txaux account info)) (\<lambda>(tx_validator, response).
     Ok (tx_validator, case response of RespVerifyTx (Inr r) \<Rightarrow> Ok r | _ \<Rightarrow> Err EnclaveRejected))"

definition verify ::
    "('db, 'acc, 'enc, 'bl) NodeLib \<Rightarrow> 'enc \<Rightarrow> TxAux \<Rightarrow> ChainInfo \<Rightarrow> H256 \<Rightarrow> 'db \<Rightarrow> 'acc \<Rightarrow>
     panic + 'enc \<times> (Error + Fee \<times> StakedState option)" where
  "verify L tx_validator txaux extra_info last_account_root_hash db accs = (case txaux of
     TransferTx _ inputs _ _ \<Rightarrow> (case check_spent_input_lookup L inputs db of
         Inl e \<Rightarrow> Ok (tx_validator, Err e)
       | Inr _ \<Rightarrow> ask_enclave L tx_validator txaux None extra_info)
   | DepositStakeTx tx _ \<Rightarrow>
       (case get_account L (dep_to_staked_account tx) last_account_root_hash accs of
          Inl e \<Rightarrow>
            if e = AccountNotFound
            then (case check_spent_input_lookup L (dep_inputs tx) db of
                Inl e \<Rightarrow> Ok (tx_validator, Err e)
              | Inr _ \<Rightarrow> ask_enclave L tx_validator txaux None extra_info)
            else Ok (tx_validator, Err e)
        | Inr a \<Rightarrow> (case check_spent_input_lookup L (dep_inputs tx) db of
              Inl e \<Rightarrow> Ok (tx_validator, Err e)
            | Inr _ \<Rightarrow> ask_enclave L tx_validator txaux (Some a) extra_info))
   | UnbondStakeTx maintx witness \<Rightarrow>
       (case verify_tx_recover_address (nl_ext L) witness (unbond_id (nl_ext L) maintx) of
          Inl _ \<Rightarrow> Ok (tx_validator, Err EcdsaCrypto)
        | Inr account_address \<Rightarrow> (case get_account L account_address last_account_root_hash accs of
            Inl e \<Rightarrow> Ok (tx_validator, Err e)
          | Inr account \<Rightarrow>
              try_bind (verify_unbonding maintx extra_info account) (\<lambda>r. Ok (tx_validator, r))))
   | WithdrawUnbondedStakeTx txid _ witness _ \<Rightarrow>
       (case verify_tx_recover_address (nl_ext L) witness txid of
          Inl _ \<Rightarrow> Ok (tx_validator, Err EcdsaCrypto)
        | Inr account_address \<Rightarrow> (case get_account L account_address last_account_root_hash accs of
            Inl e \<Rightarrow> Ok (tx_validator, Err e)
          | Inr account \<Rightarrow> ask_enclave L tx_validator txaux (Some account) extra_info)))"

section \<open>Spending\<close>

text \<open>The loop that collects the changed bit vectors, keyed and later written in the order of the ids.\<close>

definition load_bits :: "('db, 'acc, 'enc, 'bl) NodeLib \<Rightarrow> 'db \<Rightarrow> TxId \<Rightarrow> panic + bool list" where
  "load_bits L db txid =
     try_bind (expect ''called unwrap on an Err value'' (kv_get L db COL_TX_META txid)) (\<lambda>r.
     try_bind (expect_some ''called unwrap on a None value'' r) (\<lambda>v. Ok (bv_from_bytes L v)))"

fun spend_loop ::
    "('db, 'acc, 'enc, 'bl) NodeLib \<Rightarrow> 'db \<Rightarrow> TxoPointer list \<Rightarrow> (TxId, bool list) btree \<Rightarrow>
     panic + (TxId, bool list) btree" where
  "spend_loop L db [] updated_txs = Ok updated_txs"
| "spend_loop L db (txin # rest) updated_txs =
     try_bind (case bt_get updated_txs (txo_id txin) of Some bv \<Rightarrow> Ok bv | None \<Rightarrow> load_bits L db (txo_id txin))
       (\<lambda>bv. try_bind (bv_set bv (unat (txo_index txin)) True) (\<lambda>bv.
     spend_loop L db rest (bt_insert (txo_id txin) bv updated_txs)))"

definition spend_utxos ::
    "('db, 'acc, 'enc, 'bl) NodeLib \<Rightarrow> TxoPointer list \<Rightarrow> 'db \<Rightarrow> DBTransaction \<Rightarrow> panic + DBTransaction" where
  "spend_utxos L txins db dbtx =
     try_bind (spend_loop L db txins []) (\<lambda>updated_txs.
     Ok (dbtx @ map (\<lambda>(txid, bv). (COL_TX_META, txid, bv_to_bytes L bv)) updated_txs))"

definition update_account ::
    "('db, 'acc, 'enc, 'bl) NodeLib \<Rightarrow> StakedState \<Rightarrow> H256 \<Rightarrow> 'acc \<Rightarrow> panic + 'acc \<times> H256 \<times> StakedState option" where
  "update_account L account account_root_hash accs =
     (case acc_insert_one L accs (Some account_root_hash) (staked_state_key (blake2s (nl_ext L)) account) account of
        (accs, r) \<Rightarrow> try_bind (expect ''update account'' r) (\<lambda>root. Ok (accs, root, Some account)))"

definition update_utxos_commit ::
    "('db, 'acc, 'enc, 'bl) NodeLib \<Rightarrow> TxoPointer list \<Rightarrow> TxoIndex \<Rightarrow> TxId \<Rightarrow> 'db \<Rightarrow> DBTransaction \<Rightarrow>
     panic + DBTransaction" where
  "update_utxos_commit L inputs no_of_outputs txid db dbtx =
     try_bind (spend_utxos L inputs db dbtx) (\<lambda>dbtx.
     Ok (dbtx @ [(COL_TX_META, txid, bv_to_bytes L (replicate (unat no_of_outputs) False))]))"

section \<open>What the libraries promise\<close>

text \<open>The value that the last put of a transaction gives to a key.\<close>

definition last_put :: "DBTransaction \<Rightarrow> column \<Rightarrow> bytes \<Rightarrow> bytes option" where
  "last_put ops c k = map_of (rev (map (\<lambda>(c, k, v). ((c, k), v)) ops)) (c, k)"

definition kv_laws :: "('db, 'acc, 'enc, 'bl) NodeLib \<Rightarrow> bool" where
  "kv_laws L \<longleftrightarrow>
     (\<forall>db ops c k. kv_get L (kv_write_buffered L db ops) c k =
        (case last_put ops c k of Some v \<Rightarrow> Ok (Some v) | None \<Rightarrow> kv_get L db c k)) \<and>
     (\<forall>db ops db' c k. kv_write L db ops = (db', Ok ()) \<longrightarrow> kv_get L db' c k =
        (case last_put ops c k of Some v \<Rightarrow> Ok (Some v) | None \<Rightarrow> kv_get L db c k))"

text \<open>A bit vector is stored in whole bytes; the last one is filled up with zeros.\<close>

definition bits_laws :: "('db, 'acc, 'enc, 'bl) NodeLib \<Rightarrow> bool" where
  "bits_laws L \<longleftrightarrow>
     (\<forall>v. bv_from_bytes L (bv_to_bytes L v) = v @ replicate ((8 - length v mod 8) mod 8) False) \<and>
     (\<forall>b. 8 dvd length (bv_from_bytes L b))"

text \<open>
  The account trie is persistent: an insertion gives a new root under which the key has the new value
  and the other keys are as before, and what could be read under older roots stays readable; a trie built
  from nothing has only the given entries.
\<close>

definition acc_laws :: "('db, 'acc, 'enc, 'bl) NodeLib \<Rightarrow> bool" where
  "acc_laws L \<longleftrightarrow>
     (\<forall>accs r k a accs' r'. acc_insert_one L accs (Some r) k a = (accs', Ok r') \<longrightarrow>
        acc_get_one L accs' r' k = Ok (Some a) \<and>
        (\<forall>k'. k' \<noteq> k \<longrightarrow> acc_get_one L accs' r' k' = acc_get_one L accs r k') \<and>
        (\<forall>r0 k' x. acc_get_one L accs r0 k' = Ok x \<longrightarrow> acc_get_one L accs' r0 k' = Ok x)) \<and>
     (\<forall>accs ks as accs' r' k a. acc_insert L accs None ks as = (accs', Ok r') \<longrightarrow>
        acc_get_one L accs' r' k = Ok (Some a) \<longrightarrow> (k, a) \<in> set (zip ks as))"

lemma last_put_simps [simp]:
  "last_put [] c k = None"
  "last_put (a @ b) c k = (case last_put b c k of Some v \<Rightarrow> Some v | None \<Rightarrow> last_put a c k)"
  "last_put ((c', k', v) # rest) c k =
     (case last_put rest c k of Some w \<Rightarrow> Some w | None \<Rightarrow> if c = c' \<and> k = k' then Some v else None)"
  by (auto simp: last_put_def map_add_def split: option.splits)

lemma last_put_meta:
  assumes "bt_ok m"
  shows "last_put (map (\<lambda>(t, bv). (COL_TX_META, t, f bv)) m) c k =
    (if c = COL_TX_META then map_option f (bt_get m k) else None)"
  using assms
proof (induction m)
  case Nil
  then show ?case by (simp add: bt_get_def)
next
  case (Cons e m)
  obtain t bv where e: "e = (t, bv)" by (cases e)
  have "bt_get m t = None"
    using Cons.prems by (auto simp: e bt_get_def map_of_eq_None_iff)
  then show ?case
    using Cons by (auto simp: e bt_get_def split: option.splits)
qed

section \<open>Which outputs are spent\<close>

definition meta_bits :: "('db, 'acc, 'enc, 'bl) NodeLib \<Rightarrow> 'db \<Rightarrow> TxId \<Rightarrow> bool list option" where
  "meta_bits L db txid = (case kv_get L db COL_TX_META txid of Inr (Some v) \<Rightarrow> Some (bv_from_bytes L v) | _ \<Rightarrow> None)"

text \<open>None for an output that does not exist, otherwise whether it is spent.\<close>

definition output_state :: "('db, 'acc, 'enc, 'bl) NodeLib \<Rightarrow> 'db \<Rightarrow> TxoPointer \<Rightarrow> bool option" where
  "output_state L db x = Option.bind (meta_bits L db (txo_id x)) (\<lambda>bv. bv_get bv (unat (txo_index x)))"

lemma check_spent_loop_Ok_iff:
  "check_spent_loop L db ins = Ok u \<longleftrightarrow> (\<forall>x \<in> set ins. output_state L db x = Some False)"
  by (induction ins) (auto simp: output_state_def meta_bits_def split: option.splits sum.splits)

lemma check_spent_Ok_iff:
  "check_spent_input_lookup L ins db = Ok u \<longleftrightarrow> ins \<noteq> [] \<and> (\<forall>x \<in> set ins. output_state L db x = Some False)"
  by (simp add: check_spent_input_lookup_def check_spent_loop_Ok_iff)

lemma check_spent_loop_first:
  "\<lbrakk> \<forall>x \<in> set pre. output_state L db x = Some False; output_state L db x = Some True \<rbrakk> \<Longrightarrow>
   check_spent_loop L db (pre @ x # post) = Err InputSpent"
  by (induction pre) (auto simp: output_state_def meta_bits_def split: option.splits sum.splits)

text \<open>Marking some inputs in the bits of one transaction.\<close>

definition mark :: "TxoPointer list \<Rightarrow> TxId \<Rightarrow> bool list \<Rightarrow> bool list" where
  "mark ins t bv = map (\<lambda>i. bv ! i \<or> (\<exists>x \<in> set ins. txo_id x = t \<and> unat (txo_index x) = i)) [0..<length bv]"

lemma length_mark [simp]: "length (mark ins t bv) = length bv"
  by (simp add: mark_def)

lemma mark_Nil [simp]: "mark [] t bv = bv"
  by (simp add: mark_def map_nth)

lemma mark_Cons:
  "unat (txo_index x) < length bv \<or> txo_id x \<noteq> t \<Longrightarrow>
   mark (x # ins) t bv = mark ins t (if txo_id x = t then bv[unat (txo_index x) := True] else bv)"
  by (rule nth_equalityI) (auto simp: mark_def nth_list_update)

lemma mark_other: "t \<notin> txo_id ` set ins \<Longrightarrow> mark ins t bv = bv"
  by (rule nth_equalityI) (auto simp: mark_def)

text \<open>The bits of a transaction while the loop runs: collected already or still in the database.\<close>

definition current ::
    "('db, 'acc, 'enc, 'bl) NodeLib \<Rightarrow> 'db \<Rightarrow> (TxId, bool list) btree \<Rightarrow> TxId \<Rightarrow> bool list option" where
  "current L db m t = (case bt_get m t of Some bv \<Rightarrow> Some bv | None \<Rightarrow> meta_bits L db t)"

lemma spend_loop_spec:
  assumes "bt_ok m"
    and "\<forall>x \<in> set ins. \<exists>bv. current L db m (txo_id x) = Some bv \<and> unat (txo_index x) < length bv"
  shows "\<exists>m'. spend_loop L db ins m = Ok m' \<and> bt_ok m' \<and>
    (\<forall>t. current L db m' t = map_option (mark ins t) (current L db m t)) \<and>
    (\<forall>t. bt_get m' t = None \<longleftrightarrow> bt_get m t = None \<and> t \<notin> txo_id ` set ins)"
  using assms
proof (induction ins arbitrary: m)
  case Nil
  then show ?case by (auto intro!: exI [of _ m] simp: option.map_ident)
next
  case (Cons x ins)
  then obtain bv where bv: "current L db m (txo_id x) = Some bv" "unat (txo_index x) < length bv" by auto
  let ?bv = "bv[unat (txo_index x) := True]" and ?m = "bt_insert (txo_id x) (bv[unat (txo_index x) := True]) m"
  have cur: "current L db ?m t = (if t = txo_id x then Some ?bv else current L db m t)" for t
    by (simp add: current_def bt_get_insert [OF Cons.prems(1)])
  have step: "spend_loop L db (x # ins) m = spend_loop L db ins ?m"
    using bv by (auto simp: current_def load_bits_def meta_bits_def bv_set_def split: option.splits sum.splits)
  have "\<forall>y \<in> set ins. \<exists>bv. current L db ?m (txo_id y) = Some bv \<and> unat (txo_index y) < length bv"
    using Cons.prems(2) bv by (fastforce simp: cur)
  from Cons.IH [OF bt_ok_insert [OF Cons.prems(1)] this] obtain m' where
    m': "spend_loop L db ins ?m = Ok m'" "bt_ok m'" "\<And>t. current L db m' t = map_option (mark ins t) (current L db ?m t)"
      "\<And>t. bt_get m' t = None \<longleftrightarrow> bt_get ?m t = None \<and> t \<notin> txo_id ` set ins"
    by blast
  have mk: "current L db m' t = map_option (mark (x # ins) t) (current L db m t)" for t
  proof (cases "t = txo_id x")
    case True
    then show ?thesis using bv mark_Cons [of x bv t ins] by (simp add: m'(3) cur)
  next
    case False
    then show ?thesis using mark_Cons [of x _ t ins] by (auto simp: m'(3) cur intro!: option.map_cong)
  qed
  have "bt_get m' t = None \<longleftrightarrow> bt_get m t = None \<and> t \<notin> txo_id ` set (x # ins)" for t
    by (simp add: m'(4) bt_get_insert [OF Cons.prems(1)])
  with m'(1,2) mk step show ?case by auto
qed

lemma spend_utxos_spec:
  assumes "bits_laws L" "\<forall>x \<in> set ins. output_state L db x \<noteq> None"
  shows "\<exists>puts. spend_utxos L ins db dbtx = Ok (dbtx @ puts) \<and>
    (\<forall>c k. c \<noteq> COL_TX_META \<longrightarrow> last_put puts c k = None) \<and>
    (\<forall>t. map_option (bv_from_bytes L) (last_put puts COL_TX_META t) =
       (if t \<in> txo_id ` set ins then map_option (mark ins t) (meta_bits L db t) else None))"
proof -
  have start: "current L db [] t = meta_bits L db t" for t by (simp add: current_def bt_get_def)
  have "\<forall>x \<in> set ins. \<exists>bv. current L db [] (txo_id x) = Some bv \<and> unat (txo_index x) < length bv"
    using assms(2) unfolding start output_state_def
    by (auto simp: bv_get_def bind_eq_Some_conv split: if_splits)
  from spend_loop_spec [OF _ this] obtain m where m: "spend_loop L db ins [] = Ok m" "bt_ok m"
    "\<And>t. current L db m t = map_option (mark ins t) (meta_bits L db t)"
    "\<And>t. bt_get m t = None \<longleftrightarrow> t \<notin> txo_id ` set ins"
    unfolding start by (auto simp: bt_get_def)
  have put: "last_put (map (\<lambda>(t, bv). (COL_TX_META, t, bv_to_bytes L bv)) m) c k =
      (if c = COL_TX_META then map_option (bv_to_bytes L) (bt_get m k) else None)" for c k
    by (rule last_put_meta [OF m(2)])
  have "map_option (bv_from_bytes L) (map_option (bv_to_bytes L) (bt_get m t)) =
      (if t \<in> txo_id ` set ins then map_option (mark ins t) (meta_bits L db t) else None)" for t
  proof (cases "bt_get m t")
    case None
    then show ?thesis by (simp add: m(4))
  next
    case (Some bv)
    then have bv: "Some bv = map_option (mark ins t) (meta_bits L db t)" using m(3) [of t] by (simp add: current_def)
    then have "8 dvd length bv"
      using assms(1) by (auto simp: meta_bits_def bits_laws_def split: sum.splits option.splits)
    then have "bv_from_bytes L (bv_to_bytes L bv) = bv" using assms(1) by (simp add: bits_laws_def dvd_eq_mod_eq_0)
    then show ?thesis using Some m(4) [of t] by (simp add: bv [symmetric])
  qed
  then show ?thesis by (intro exI) (auto simp: spend_utxos_def m(1,4) put)
qed

text \<open>The database after the puts of one spending, and after a write in general.\<close>

lemma meta_bits_written:
  assumes "kv_laws L"
  shows "meta_bits L (kv_write_buffered L db ops) t =
      (case last_put ops COL_TX_META t of Some v \<Rightarrow> Some (bv_from_bytes L v) | None \<Rightarrow> meta_bits L db t)"
    and "kv_write L db ops = (db', Ok ()) \<Longrightarrow> meta_bits L db' t =
      (case last_put ops COL_TX_META t of Some v \<Rightarrow> Some (bv_from_bytes L v) | None \<Rightarrow> meta_bits L db t)"
  using assms by (simp_all add: meta_bits_def kv_laws_def split: option.splits)

lemma bits_spent:
  "Option.bind (map_option (mark ins (txo_id x)) bits) (\<lambda>bv. bv_get bv (unat (txo_index x))) =
   (case Option.bind bits (\<lambda>bv. bv_get bv (unat (txo_index x))) of
      None \<Rightarrow> None | Some b \<Rightarrow> Some (b \<or> x \<in> set ins))"
proof -
  have "y = x" if "txo_id y = txo_id x" "unat (txo_index y) = unat (txo_index x)" for y :: TxoPointer
    using that by (intro TxoPointer.equality) (simp_all add: word_unat_eq_iff)
  then have "(\<exists>y \<in> set ins. txo_id y = txo_id x \<and> unat (txo_index y) = unat (txo_index x)) \<longleftrightarrow> x \<in> set ins"
    by blast
  then show ?thesis by (cases bits) (auto simp: bv_get_def mark_def)
qed

lemma spend_utxos_effect:
  assumes "kv_laws L" "bits_laws L" "\<forall>x \<in> set ins. output_state L db x \<noteq> None"
    and "spend_utxos L ins db [] = Ok puts"
  shows "output_state L (kv_write_buffered L db puts) x = (if x \<in> set ins then Some True else output_state L db x)"
proof -
  from spend_utxos_spec [OF assms(2,3), of "[]"] assms(4) have
    p: "map_option (bv_from_bytes L) (last_put puts COL_TX_META t) =
       (if t \<in> txo_id ` set ins then map_option (mark ins t) (meta_bits L db t) else None)" for t
    by auto
  have bits: "meta_bits L (kv_write_buffered L db puts) t = map_option (mark ins t) (meta_bits L db t)" for t
    using p [of t] mark_other [of t ins] assms(3)
    by (cases "last_put puts COL_TX_META t")
      (auto simp: meta_bits_written [OF assms(1)] output_state_def option.map_ident_strong split: if_splits)
  show ?thesis
    using assms(3) unfolding output_state_def bits bits_spent by (auto split: option.splits)
qed

text \<open>A spending that does not panic had all its outputs in the database.\<close>

lemma spend_loop_defined:
  assumes "spend_loop L db ins m = Ok m'" "bt_ok m"
  shows "\<forall>x \<in> set ins. \<exists>bv. current L db m (txo_id x) = Some bv \<and> unat (txo_index x) < length bv"
  using assms
proof (induction ins arbitrary: m)
  case (Cons x ins)
  from Cons.prems(1) obtain bv where bv: "current L db m (txo_id x) = Some bv" "unat (txo_index x) < length bv"
    "spend_loop L db ins (bt_insert (txo_id x) (bv[unat (txo_index x) := True]) m) = Ok m'"
    by (cases "bt_get m (txo_id x)")
      (auto simp: current_def load_bits_def meta_bits_def bv_set_def result_simps split: if_splits)
  have cur: "current L db (bt_insert (txo_id x) w m) t = (if t = txo_id x then Some w else current L db m t)" for w t
    by (simp add: current_def bt_get_insert [OF Cons.prems(2)])
  from Cons.IH [OF bv(3) bt_ok_insert [OF Cons.prems(2)]] bv(1,2) show ?case
    unfolding cur by (auto split: if_splits)
qed simp

lemma spend_utxos_defined:
  assumes "spend_utxos L ins db dbtx = Ok puts"
  shows "\<forall>x \<in> set ins. output_state L db x \<noteq> None"
proof -
  from assms obtain m where "spend_loop L db ins [] = Ok m" by (auto simp: spend_utxos_def result_simps)
  from spend_loop_defined [OF this] show ?thesis
    by (fastforce simp: current_def bt_get_def output_state_def bv_get_def)
qed

lemma spend_utxos_puts:
  assumes "bits_laws L" "spend_utxos L ins db dbtx = Ok puts"
  shows "(t \<notin> txo_id ` set ins \<longrightarrow> last_put puts COL_TX_META t = last_put dbtx COL_TX_META t) \<and>
    (t \<in> txo_id ` set ins \<longrightarrow> (\<exists>v bits. last_put puts COL_TX_META t = Some v \<and> meta_bits L db t = Some bits \<and>
       bv_from_bytes L v = mark ins t bits)) \<and>
    (\<forall>c k. c \<noteq> COL_TX_META \<longrightarrow> last_put puts c k = last_put dbtx c k)"
proof -
  note def = spend_utxos_defined [OF assms(2)]
  from spend_utxos_spec [OF assms(1) def, of dbtx] assms(2) obtain new where
    new: "puts = dbtx @ new" "\<And>c k. c \<noteq> COL_TX_META \<Longrightarrow> last_put new c k = None"
      "\<And>t. map_option (bv_from_bytes L) (last_put new COL_TX_META t) =
        (if t \<in> txo_id ` set ins then map_option (mark ins t) (meta_bits L db t) else None)"
    by auto
  have bits: "meta_bits L db t \<noteq> None" if "t \<in> txo_id ` set ins"
    using def that unfolding output_state_def by (metis bind.bind_lzero image_iff)
  show ?thesis
  proof (cases "t \<in> txo_id ` set ins")
    case True
    with bits obtain b where b: "meta_bits L db t = Some b" by blast
    with new(3) [of t] True obtain v where "last_put new COL_TX_META t = Some v" "bv_from_bytes L v = mark ins t b"
      by auto
    with b True new(2) show ?thesis by (auto simp: new(1))
  next
    case False
    with new(2) new(3) [of t] show ?thesis by (auto simp: new(1))
  qed
qed

end
