(* ===== verification/Chain_App.thy ===== *)
theory Chain_App
  imports Node_Storage Genesis Tx_Enclave
begin

text \<open>
  The ABCI application of the node (\<open>chain-abci/src/app\<close>): its state, the start from storage, the
  initialisation of the chain, and the handlers Tendermint calls for transactions and blocks.  A handler
  returns the new application and its response, or a panic.  Requests are their relevant fields.
\<close>

section \<open>State\<close>

record ChainNodeState =
  cns_last_block_height :: BlockHeight
  last_apphash :: H256
  block_time :: Timespec
  last_account_root_hash :: H256
  rewards_pool :: RewardsPoolState
  fee_policy :: LinearFee
  cns_unbonding_period :: u32
  cns_required_council_node_stake :: Coin
  cns_council_nodes :: "CouncilNode list"

definition chain_node_state_genesis ::
    "H256 \<Rightarrow> Timespec \<Rightarrow> H256 \<Rightarrow> RewardsPoolState \<Rightarrow> InitNetworkParameters \<Rightarrow> CouncilNode list \<Rightarrow> ChainNodeState" where
  "chain_node_state_genesis genesis_apphash genesis_time last_root pool params nodes = \<lparr>
     cns_last_block_height = 0,
     last_apphash = genesis_apphash,
     block_time = genesis_time,
     last_account_root_hash = last_root,
     rewards_pool = pool,
     fee_policy = initial_fee_policy params,
     cns_unbonding_period = np_unbonding_period params,
     cns_required_council_node_stake = required_council_node_stake params,
     cns_council_nodes = nodes \<rparr>"

type_synonym PubKey = "string \<times> bytes"

record ('db, 'acc, 'enc, 'bl) ChainNodeApp =
  storage_db :: 'db
  accounts :: 'acc
  delivered_txs :: "TxAux list"
  app_filter :: "'bl BlockFilter"
  uncommitted_account_root_hash :: H256
  app_genesis_app_hash :: H256
  app_chain_hex_id :: u8
  last_state :: "ChainNodeState option"
  validator_voting_power :: "(StakedStateAddress, TendermintVotePower) btree"
  validator_pubkeys :: "(StakedStateAddress, PubKey) btree"
  power_changed_in_block :: "(StakedStateAddress, TendermintVotePower) btree"
  tx_validator :: 'enc

text \<open>Further codecs and text functions the application uses.\<close>

record AppLib =
  app_text :: TextLib
  c_node_state :: "ChainNodeState codec"
  json_node_state :: "ChainNodeState \<Rightarrow> string"
  c_merkle_tree :: "H256 MerkleTree codec"
  enc_proof :: "H256 Proof \<Rightarrow> bytes"
  encode_var_i64 :: "i64 \<Rightarrow> bytes"
  parse_init_config :: "bytes \<Rightarrow> unit + InitConfig"
  enc_encryption_response :: "TxAux \<Rightarrow> bytes"
  enc_decryption_response :: "TxWithOutputs list \<Rightarrow> bytes"
  app_request :: RequestLib
  c_app_staked_state :: "StakedState codec"

section \<open>Starting the application\<close>

definition get_validator_key :: "CouncilNode \<Rightarrow> PubKey" where
  "get_validator_key node = to_validator_update (consensus_pubkey node)"

fun validator_mapping_loop ::
    "('db, 'acc, 'enc, 'bl) NodeLib \<Rightarrow> 'acc \<Rightarrow> ChainNodeState \<Rightarrow> CouncilNode list \<Rightarrow>
     (StakedStateAddress, TendermintVotePower) btree \<Rightarrow> (StakedStateAddress, PubKey) btree \<Rightarrow>
     panic + (StakedStateAddress, TendermintVotePower) btree \<times> (StakedStateAddress, PubKey) btree" where
  "validator_mapping_loop L accs st [] pws keys = Ok (pws, keys)"
| "validator_mapping_loop L accs st (node # rest) pws keys =
     (let addr = staking_account_address node;
          keys = bt_insert addr (get_validator_key node) keys
      in try_bind (expect ''council node staking account should be in the account state''
           (get_account L addr (last_account_root_hash st) accs)) (\<lambda>account.
         try_bind (vote_power_from_coin
             (if bonded account < cns_required_council_node_stake st then coin_zero else bonded account)) (\<lambda>p.
         validator_mapping_loop L accs st rest (bt_insert addr p pws) keys)))"

definition get_validator_mapping ::
    "('db, 'acc, 'enc, 'bl) NodeLib \<Rightarrow> 'acc \<Rightarrow> ChainNodeState \<Rightarrow>
     panic + (StakedStateAddress, TendermintVotePower) btree \<times> (StakedStateAddress, PubKey) btree" where
  "get_validator_mapping L accs last_app_state =
     validator_mapping_loop L accs last_app_state (cns_council_nodes last_app_state) [] []"

text \<open>The last two characters of the chain id, as a byte.\<close>

definition chain_hex_id_of :: "TextLib \<Rightarrow> string \<Rightarrow> panic + u8" where
  "chain_hex_id_of T chain_id =
     (if length chain_id < 2 then Err (Panic ''byte index out of range'')
      else try_bind (expect ''failed to decode two last hex digits in chain ID''
             (hex_decode T (drop (length chain_id - 2) chain_id))) (\<lambda>b.
           if b = [] then Err (Panic ''index out of bounds'') else Ok (hd b)))"

definition copy_hash :: "bytes \<Rightarrow> panic + H256" where
  "copy_hash b = (if length b = 32 then Ok b
     else Err (Panic ''source slice length does not match destination slice length''))"

definition restore_from_storage ::
    "('db, 'acc, 'enc, 'bl) NodeLib \<Rightarrow> AppLib \<Rightarrow> 'enc \<Rightarrow> ChainNodeState \<Rightarrow> H256 \<Rightarrow> string \<Rightarrow> 'db \<Rightarrow> 'acc \<Rightarrow>
     panic + ('db, 'acc, 'enc, 'bl) ChainNodeApp" where
  "restore_from_storage L M validator last_app_state genesis_hash chain_id db accs =
     try_bind (expect ''genesis hash lookup'' (kv_get L db COL_NODE_INFO GENESIS_APP_HASH_KEY)) (\<lambda>r.
     try_bind (expect_some ''last app state found, but genesis app hash not stored'' r) (\<lambda>stored_gah.
     try_bind (copy_hash stored_gah) (\<lambda>stored_genesis.
     if stored_genesis \<noteq> genesis_hash then Err (Panic ''stored genesis app hash does not match'')
     else
     try_bind (expect ''chain id lookup'' (kv_get L db COL_EXTRA CHAIN_ID_KEY)) (\<lambda>r.
     try_bind (expect_some ''last app state found, but no chain id stored'' r) (\<lambda>stored_chain_id.
     if stored_chain_id \<noteq> ascii chain_id then Err (Panic ''stored chain id does not match'')
     else
     try_bind (chain_hex_id_of (app_text M) chain_id) (\<lambda>hex_id.
     try_bind (get_validator_mapping L accs last_app_state) (\<lambda>(pws, keys).
     Ok \<lparr> storage_db = db, accounts = accs, delivered_txs = [], app_filter = filter_default (nl_bloom L),
          uncommitted_account_root_hash = last_account_root_hash last_app_state,
          app_genesis_app_hash = genesis_hash, app_chain_hex_id = hex_id, last_state = Some last_app_state,
          validator_voting_power = pws, validator_pubkeys = keys, power_changed_in_block = [],
          tx_validator = validator \<rparr>)))))))"

text \<open>The sanity check against the enclave: any answer but an acceptance is a panic.\<close>

definition enclave_sanity_check ::
    "('db, 'acc, 'enc, 'bl) NodeLib \<Rightarrow> 'enc \<Rightarrow> u8 \<Rightarrow> H256 option \<Rightarrow> panic + 'enc" where
  "enclave_sanity_check L validator hex_id last_app_hash =
     try_bind (process_request L validator (CheckChain hex_id last_app_hash)) (\<lambda>(validator, r).
     case r of
       RespCheckChain (Inr _) \<Rightarrow> Ok validator
     | RespCheckChain (Inl _) \<Rightarrow> Err (Panic ''enclave sanity check failed'')
     | _ \<Rightarrow> Err (Panic ''unexpected enclave response''))"

definition new_with_storage ::
    "('db, 'acc, 'enc, 'bl) NodeLib \<Rightarrow> AppLib \<Rightarrow> 'enc \<Rightarrow> string \<Rightarrow> string \<Rightarrow> 'db \<Rightarrow> 'acc \<Rightarrow>
     panic + ('db, 'acc, 'enc, 'bl) ChainNodeApp" where
  "new_with_storage L M validator gah chain_id db accs =
     try_bind (expect ''failed to decode genesis app hash'' (hex_decode (app_text M) gah)) (\<lambda>decoded_gah.
     try_bind (copy_hash decoded_gah) (\<lambda>genesis_hash.
     try_bind (chain_hex_id_of (app_text M) chain_id) (\<lambda>hex_id.
     try_bind (expect ''app state lookup'' (kv_get L db COL_NODE_INFO LAST_STATE_KEY)) (\<lambda>found.
     case found of
       Some data \<Rightarrow>
         try_bind (expect ''deserialize app state'' (dec (c_node_state M) data)) (\<lambda>(st, _).
         try_bind (enclave_sanity_check L validator hex_id (Some (last_apphash st))) (\<lambda>validator.
         restore_from_storage L M validator st genesis_hash chain_id db accs))
     | None \<Rightarrow>
         try_bind (enclave_sanity_check L validator hex_id None) (\<lambda>validator.
         case kv_write L db [(COL_NODE_INFO, GENESIS_APP_HASH_KEY, genesis_hash), (COL_EXTRA, CHAIN_ID_KEY, ascii chain_id)] of
           (db, r) \<Rightarrow> try_bind (expect ''genesis app hash should be stored'' r) (\<lambda>_.
         Ok \<lparr> storage_db = db, accounts = accs, delivered_txs = [], app_filter = filter_default (nl_bloom L),
              uncommitted_account_root_hash = replicate 32 0, app_genesis_app_hash = genesis_hash,
              app_chain_hex_id = hex_id, last_state = None, validator_voting_power = [],
              validator_pubkeys = [], power_changed_in_block = [], tx_validator = validator \<rparr>))))))"

section \<open>Initialising the chain\<close>

definition check_and_store_consensus_params :: "(unit + bytes) option \<Rightarrow> DBTransaction \<Rightarrow> panic + DBTransaction" where
  "check_and_store_consensus_params params inittx = (case params of
     Some cp \<Rightarrow> try_bind (expect ''consensus params'' cp) (\<lambda>b.
       Ok (inittx @ [(COL_EXTRA, ascii ''init_chain_consensus_params'', b)]))
   | None \<Rightarrow> Ok inittx)"

definition get_voting_power ::
    "(RedeemAddress, Coin \<times> AccountType) btree \<Rightarrow> StakedStateAddress \<Rightarrow> panic + TendermintVotePower" where
  "get_voting_power dist node_address = (case node_address of BasicRedeem a \<Rightarrow>
     try_bind (expect_some ''no entry found for key'' (bt_get dist a)) (\<lambda>(c, _). vote_power_from_coin c))"

definition store_valid_genesis_state ::
    "AppLib \<Rightarrow> Timespec \<Rightarrow> H256 \<Rightarrow> RewardsPoolState \<Rightarrow> InitNetworkParameters \<Rightarrow> H256 \<Rightarrow> CouncilNode list \<Rightarrow>
     DBTransaction \<Rightarrow> ChainNodeState \<times> DBTransaction" where
  "store_valid_genesis_state M genesis_time genesis_hash pool params root nodes inittx =
     (let st = chain_node_state_genesis genesis_hash genesis_time root pool params nodes;
          encoded = enc (c_node_state M) st
      in (st, inittx @ [(COL_NODE_INFO, LAST_STATE_KEY, encoded), (COL_EXTRA, ascii ''init_chain_state'', encoded)]))"

fun init_validators ::
    "(RedeemAddress, Coin \<times> AccountType) btree \<Rightarrow> CouncilNode list \<Rightarrow> (StakedStateAddress, PubKey) btree \<Rightarrow>
     panic + (i64 \<times> PubKey) list \<times> (StakedStateAddress, PubKey) btree" where
  "init_validators dist [] keys = Ok ([], keys)"
| "init_validators dist (node # rest) keys =
     try_bind (get_voting_power dist (staking_account_address node)) (\<lambda>pws.
     let pk = get_validator_key node
     in try_bind (init_validators dist rest (bt_insert (staking_account_address node) pk keys)) (\<lambda>(vs, keys).
        Ok ((vp_i64 pws, pk) # vs, keys)))"

record RequestInitChain =
  ric_time :: "Timespec option"
  ric_app_state_bytes :: bytes
  ric_chain_id :: string
  ric_consensus_params :: "(unit + bytes) option"

definition init_chain_handler ::
    "('db, 'acc, 'enc, 'bl) NodeLib \<Rightarrow> AppLib \<Rightarrow> ('db, 'acc, 'enc, 'bl) ChainNodeApp \<Rightarrow> RequestInitChain \<Rightarrow>
     panic + ('db, 'acc, 'enc, 'bl) ChainNodeApp \<times> (i64 \<times> PubKey) list" where
  "init_chain_handler L M self req =
     try_bind (expect_some ''genesis time'' (ric_time req)) (\<lambda>genesis_time.
     try_bind (expect ''failed to parse initial config'' (parse_init_config M (ric_app_state_bytes req))) (\<lambda>conf.
     try_bind (validate_config_get_genesis (app_text M) conf genesis_time) (\<lambda>dist_result.
     case dist_result of
       Inl _ \<Rightarrow> Err (Panic ''distribution validation error'')
     | Inr (accs, rp, nodes) \<Rightarrow>
         try_bind (expect ''called unwrap on an Err value'' (kv_get L (storage_db self) COL_EXTRA CHAIN_ID_KEY)) (\<lambda>r.
         try_bind (expect_some ''last app hash found, no but chain id stored'' r) (\<lambda>stored_chain_id.
         if stored_chain_id \<noteq> ascii (ric_chain_id req) then Err (Panic ''stored chain id does not match'')
         else let keys = map (staked_state_key (blake2s (nl_ext L))) accs
              in case acc_insert L (accounts self) None keys accs of (trie, r) \<Rightarrow>
         try_bind (expect ''initial insert'' r) (\<lambda>new_account_root.
         let genesis_hash = compute_app_hash (nl_ext L) merkle_empty new_account_root rp
         in if app_genesis_app_hash self \<noteq> genesis_hash then Err (Panic ''genesis app hash does not match'')
            else
         try_bind (check_and_store_consensus_params (ric_consensus_params req) []) (\<lambda>inittx.
         try_bind (init_validators (distribution conf) nodes (validator_pubkeys self)) (\<lambda>(validators, pubkeys).
         case store_valid_genesis_state M genesis_time genesis_hash rp (network_params conf) new_account_root nodes inittx of
           (st, inittx) \<Rightarrow> (case kv_write L (storage_db self) inittx of
             (db, Inl _) \<Rightarrow> Err (Panic ''db write error'')
           | (db, Inr _) \<Rightarrow> Ok (self\<lparr> storage_db := db, accounts := trie, validator_pubkeys := pubkeys,
               uncommitted_account_root_hash := last_account_root_hash st, last_state := Some st \<rparr>, validators))))))))))"

end
