(* ===== verification/Chain_Handlers.thy ===== *)
theory Chain_Handlers
  imports Chain_App
begin

text \<open>
  The handlers of the ABCI application for transactions, blocks and queries
  (\<open>chain-abci/src/app/mod.rs\<close>, \<open>validate_tx.rs\<close>, \<open>commit.rs\<close>, \<open>query.rs\<close>), each as one function from
  the application and the relevant fields of the request to the new application and the response.
\<close>

section \<open>Transactions\<close>

record TxResponse =
  resp_code :: u32
  resp_log :: string
  resp_events :: "(string \<times> (bytes \<times> bytes) list) list"

definition tx_response_new :: TxResponse where
  "tx_response_new = \<lparr> resp_code = 0, resp_log = [], resp_events = [] \<rparr>"

definition set_code :: "u32 \<Rightarrow> TxResponse \<Rightarrow> TxResponse" where
  "set_code c r = r\<lparr> resp_code := c \<rparr>"

definition add_log :: "string \<Rightarrow> TxResponse \<Rightarrow> TxResponse" where
  "add_log s r = r\<lparr> resp_log := resp_log r @ s \<rparr>"

definition validate_tx_req ::
    "('db, 'acc, 'enc, 'bl) NodeLib \<Rightarrow> ('db, 'acc, 'enc, 'bl) ChainNodeApp \<Rightarrow> bytes \<Rightarrow> TxResponse \<Rightarrow>
     panic + ('db, 'acc, 'enc, 'bl) ChainNodeApp \<times> TxResponse \<times> (TxAux \<times> Fee \<times> StakedState option) option" where
  "validate_tx_req L self tx resp = (case decode_txaux (nl_scale L) tx of
     Inl e \<Rightarrow> Ok (self, add_log (''failed to deserialize tx: '' @ e) (set_code 1 resp), None)
   | Inr (txaux, _) \<Rightarrow>
       try_bind (expect_some ''the app state is expected'' (last_state self)) (\<lambda>state.
       try_bind (expect ''invalid fee policy'' (calculate_fee (fee_policy state) (of_nat (length tx)))) (\<lambda>fee.
       try_bind (verify L (tx_validator self) txaux
           \<lparr> min_fee_computed = fee, ci_chain_hex_id = app_chain_hex_id self,
             previous_block_time = block_time state, unbonding_period = cns_unbonding_period state \<rparr>
           (uncommitted_account_root_hash self) (storage_db self) (accounts self)) (\<lambda>(validator, fee_paid).
       let self = self\<lparr> tx_validator := validator \<rparr>
       in case fee_paid of
            Inr r \<Rightarrow> Ok (self, set_code 0 resp, Some (txaux, r))
          | Inl e \<Rightarrow> Ok (self, add_log (''verification failed: '' @ error_display e) (set_code 1 resp), None)))))"

definition check_tx ::
    "('db, 'acc, 'enc, 'bl) NodeLib \<Rightarrow> ('db, 'acc, 'enc, 'bl) ChainNodeApp \<Rightarrow> bytes \<Rightarrow>
     panic + ('db, 'acc, 'enc, 'bl) ChainNodeApp \<times> TxResponse" where
  "check_tx L self tx =
     try_bind (validate_tx_req L self tx tx_response_new) (\<lambda>(self, resp, _). Ok (self, resp))"

text \<open>The voting power a validator gets at the end of the block, decided by the change of its stake.\<close>

definition note_power_change ::
    "('db, 'acc, 'enc, 'bl) ChainNodeApp \<Rightarrow> StakedState option \<Rightarrow> panic + ('db, 'acc, 'enc, 'bl) ChainNodeApp" where
  "note_power_change self maccount = (case maccount of
     None \<Rightarrow> Ok self
   | Some account \<Rightarrow> (case bt_get (validator_voting_power self) (address account) of
       None \<Rightarrow> Ok self
     | Some old_power \<Rightarrow>
         try_bind (expect_some ''delivertx should have app state'' (last_state self)) (\<lambda>state.
         try_bind (vote_power_from_coin (cns_required_council_node_stake state)) (\<lambda>min_power.
         try_bind (vote_power_from_coin (bonded account)) (\<lambda>new_power.
         Ok (if new_power > old_power \<and> new_power \<ge> min_power
             then self\<lparr> power_changed_in_block :=
               bt_insert (address account) new_power (power_changed_in_block self) \<rparr>
             else if old_power \<ge> min_power \<and> new_power < old_power
             then self\<lparr> power_changed_in_block :=
               bt_insert (address account) vote_power_zero (power_changed_in_block self) \<rparr>
             else self))))))"

text \<open>The change of the accounts and the puts of a validated transaction.\<close>

definition deliver_changes ::
    "('db, 'acc, 'enc, 'bl) NodeLib \<Rightarrow> ('db, 'acc, 'enc, 'bl) ChainNodeApp \<Rightarrow> TxAux \<Rightarrow> StakedState option \<Rightarrow>
     panic + 'acc \<times> H256 \<times> StakedState option \<times> DBTransaction" where
  "deliver_changes L self txaux acc = (case txaux of
     TransferTx _ inputs _ _ \<Rightarrow>
       try_bind (spend_utxos L inputs (storage_db self) []) (\<lambda>inittx.
       Ok (accounts self, uncommitted_account_root_hash self, None, inittx))
   | DepositStakeTx tx _ \<Rightarrow>
       try_bind (spend_utxos L (dep_inputs tx) (storage_db self) []) (\<lambda>inittx.
       try_bind (expect_some ''account returned in deposit stake verification'' acc) (\<lambda>a.
       try_bind (update_account L a (uncommitted_account_root_hash self) (accounts self)) (\<lambda>(accs, root, m).
       Ok (accs, root, m, inittx))))
   | UnbondStakeTx _ _ \<Rightarrow>
       try_bind (expect_some ''account returned in unbond stake verification'' acc) (\<lambda>a.
       try_bind (update_account L a (uncommitted_account_root_hash self) (accounts self)) (\<lambda>(accs, root, m).
       Ok (accs, root, m, [])))
   | WithdrawUnbondedStakeTx _ _ _ _ \<Rightarrow>
       try_bind (expect_some ''account returned in withdraw unbonded stake verification'' acc) (\<lambda>a.
       try_bind (update_account L a (uncommitted_account_root_hash self) (accounts self)) (\<lambda>(accs, root, m).
       Ok (accs, root, m, []))))"

definition deliver_tx ::
    "('db, 'acc, 'enc, 'bl) NodeLib \<Rightarrow> ('db, 'acc, 'enc, 'bl) ChainNodeApp \<Rightarrow> bytes \<Rightarrow>
     panic + ('db, 'acc, 'enc, 'bl) ChainNodeApp \<times> TxResponse" where
  "deliver_tx L self tx =
     try_bind (validate_tx_req L self tx tx_response_new) (\<lambda>(self, resp, mtxaux).
     case mtxaux of
       None \<Rightarrow> Ok (self, resp)
     | Some (txaux, fee, acc) \<Rightarrow>
         if resp_code resp \<noteq> 0 then Ok (self, resp)
         else
         try_bind (deliver_changes L self txaux acc) (\<lambda>(accs, next_account_root, maccount, inittx).
         let self = self\<lparr> accounts := accs,
               app_filter := (case maccount of
                   Some account \<Rightarrow> add_staked_state_address (nl_bloom L) (app_filter self) (address account)
                 | None \<Rightarrow> app_filter self) \<rparr>
         in try_bind (note_power_change self maccount) (\<lambda>self.
         let resp = resp\<lparr> resp_events := resp_events resp @
               [(event_type_display ValidTransactions, [(ascii ''txid'', txaux_id (nl_ext L) txaux)])] \<rparr>;
             self = self\<lparr> uncommitted_account_root_hash := next_account_root,
               delivered_txs := delivered_txs self @ [txaux] \<rparr>
         in try_bind (expect_some ''deliver tx, but last state not initialized'' (last_state self)) (\<lambda>state.
         try_bind (expect ''rewards pool + fee greater than max coin?''
             (coin_add (remaining (rewards_pool state)) (to_coin fee))) (\<lambda>new_remaining.
         Ok (self\<lparr> last_state := Some (state\<lparr> rewards_pool := (rewards_pool state)\<lparr> remaining := new_remaining \<rparr> \<rparr>),
               storage_db := kv_write_buffered L (storage_db self) inittx \<rparr>, resp))))))"

section \<open>Blocks\<close>

definition begin_block ::
    "('db, 'acc, 'enc, 'bl) ChainNodeApp \<Rightarrow> Timespec option option \<Rightarrow> panic + ('db, 'acc, 'enc, 'bl) ChainNodeApp" where
  "begin_block self header_time =
     try_bind (expect_some ''Begin block request does not have header'' header_time) (\<lambda>t.
     try_bind (expect_some ''Header does not have a timestamp'' t) (\<lambda>seconds.
     try_bind (expect_some ''executing begin block, but no app state stored'' (last_state self)) (\<lambda>state.
     Ok (self\<lparr> last_state := Some (state\<lparr> block_time := seconds \<rparr>) \<rparr>))))"

text \<open>The view keys of the plain transactions inside the delivered envelopes.\<close>

definition envelope_view_keys :: "ScaleLib \<Rightarrow> TxAux \<Rightarrow> PublicKey list" where
  "envelope_view_keys S txaux = (case txaux of
     TransferTx _ _ _ payload \<Rightarrow> (case decode_plain_txaux S (txpayload payload) of
         Inr (PlainTransferTx tx _, _) \<Rightarrow> map view_key (allowed_view (tx_attributes tx))
       | _ \<Rightarrow> [])
   | WithdrawUnbondedStakeTx _ _ _ payload \<Rightarrow> (case decode_plain_txaux S (txpayload payload) of
         Inr (PlainWithdrawUnbondedStakeTx tx, _) \<Rightarrow> map view_key (allowed_view (wdr_attributes tx))
       | _ \<Rightarrow> [])
   | _ \<Rightarrow> [])"

fun validator_updates ::
    "(StakedStateAddress, PubKey) btree \<Rightarrow> (StakedStateAddress \<times> TendermintVotePower) list \<Rightarrow>
     (StakedStateAddress, TendermintVotePower) btree \<Rightarrow>
     panic + (i64 \<times> PubKey) list \<times> (StakedStateAddress, TendermintVotePower) btree" where
  "validator_updates pubkeys [] pws = Ok ([], pws)"
| "validator_updates pubkeys ((a, new_power) # rest) pws =
     try_bind (expect_some ''no entry found for key'' (bt_get pws a)) (\<lambda>old_power.
     try_bind (if old_power \<noteq> new_power
               then try_bind (expect_some ''no entry found for key'' (bt_get pubkeys a)) (\<lambda>pk.
                    Ok [(vp_i64 new_power, pk)])
               else Ok []) (\<lambda>u.
     try_bind (validator_updates pubkeys rest (bt_insert a new_power pws)) (\<lambda>(us, pws). Ok (u @ us, pws))))"

record EndBlockResponse =
  eb_events :: "(string \<times> (bytes \<times> bytes) list) list"
  eb_validator_updates :: "(i64 \<times> PubKey) list"

definition end_block ::
    "('db, 'acc, 'enc, 'bl) NodeLib \<Rightarrow> ('db, 'acc, 'enc, 'bl) ChainNodeApp \<Rightarrow> i64 \<Rightarrow>
     panic + ('db, 'acc, 'enc, 'bl) ChainNodeApp \<times> EndBlockResponse" where
  "end_block L self height =
     (let filter = fold (\<lambda>k f. add_view_key (nl_ext L) (nl_bloom L) f k)
            (concat (map (envelope_view_keys (nl_scale L)) (delivered_txs self))) (app_filter self);
          events = (case get_tendermint_kv (nl_bloom L) filter of
              Some kv \<Rightarrow> [(event_type_display BlockFilterEvent, [kv])]
            | None \<Rightarrow> []);
          self = self\<lparr> app_filter := filter_default (nl_bloom L) \<rparr>
      in try_bind (validator_updates (validator_pubkeys self) (power_changed_in_block self)
             (validator_voting_power self)) (\<lambda>(validators, pws).
         let self = self\<lparr> validator_voting_power := pws, power_changed_in_block := [] \<rparr>
         in try_bind (expect_some ''executing end block, but no app state stored'' (last_state self)) (\<lambda>state.
         Ok (self\<lparr> last_state := Some (state\<lparr> cns_last_block_height := height \<rparr>) \<rparr>,
             \<lparr> eb_events = events, eb_validator_updates = validators \<rparr>))))"

definition commit_puts ::
    "('db, 'acc, 'enc, 'bl) NodeLib \<Rightarrow> 'db \<Rightarrow> TxAux \<Rightarrow> DBTransaction \<Rightarrow> panic + DBTransaction" where
  "commit_puts L db txaux inittx =
     (let S = nl_scale L; txid = txaux_id (nl_ext L) txaux
      in case txaux of
           TransferTx _ inputs no_of_outputs payload \<Rightarrow>
             let inittx = (case decode_plain_txaux S (txpayload payload) of
                   Inr (PlainTransferTx tx witness, _) \<Rightarrow>
                     inittx @ [(COL_BODIES, txid, encode_two S (Transfer tx)), (COL_WITNESS, txid, enc (c_in_witnesses S) witness)]
                 | _ \<Rightarrow> inittx)
             in update_utxos_commit L inputs no_of_outputs txid db inittx
         | DepositStakeTx tx _ \<Rightarrow>
             spend_utxos L (dep_inputs tx) db (inittx @ [(COL_BODIES, txid, encode_deposit S tx)])
         | UnbondStakeTx tx witness \<Rightarrow>
             Ok (inittx @ [(COL_BODIES, txid, enc (c_unbond S) tx), (COL_WITNESS, txid, encode_op_witness S witness)])
         | WithdrawUnbondedStakeTx _ no_of_outputs witness payload \<Rightarrow>
             let inittx = (case decode_plain_txaux S (txpayload payload) of
                   Inr (PlainWithdrawUnbondedStakeTx tx, _) \<Rightarrow>
                     inittx @ [(COL_BODIES, txid, encode_two S (StakeWithdraw tx))]
                 | _ \<Rightarrow> inittx)
             in Ok (inittx @ [(COL_WITNESS, txid, encode_op_witness S witness),
                  (COL_TX_META, txid, bv_to_bytes L (replicate (unat no_of_outputs) False))]))"

fun commit_loop ::
    "('db, 'acc, 'enc, 'bl) NodeLib \<Rightarrow> 'db \<Rightarrow> TxAux list \<Rightarrow> DBTransaction \<Rightarrow> panic + DBTransaction" where
  "commit_loop L db [] inittx = Ok inittx"
| "commit_loop L db (txaux # rest) inittx =
     try_bind (commit_puts L db txaux inittx) (\<lambda>inittx. commit_loop L db rest inittx)"

definition commit_handler ::
    "('db, 'acc, 'enc, 'bl) NodeLib \<Rightarrow> AppLib \<Rightarrow> ('db, 'acc, 'enc, 'bl) ChainNodeApp \<Rightarrow>
     panic + ('db, 'acc, 'enc, 'bl) ChainNodeApp \<times> H256" where
  "commit_handler L M self =
     try_bind (expect_some ''executing block commit, but no app state stored'' (last_state self)) (\<lambda>new_state.
     try_bind (if delivered_txs self = [] then Ok (new_state, tx_validator self, [])
       else
         let tree = merkle_new (blake2s (nl_ext L)) (\<lambda>i. i) (map (txaux_id (nl_ext L)) (delivered_txs self))
         in try_bind (commit_loop L (storage_db self) (delivered_txs self) []) (\<lambda>inittx.
         let new_state = new_state\<lparr> rewards_pool := (rewards_pool new_state)\<lparr> last_block_height := cns_last_block_height new_state \<rparr>,
               last_account_root_hash := uncommitted_account_root_hash self \<rparr>;
             app_hash = compute_app_hash (nl_ext L) tree (last_account_root_hash new_state) (rewards_pool new_state);
             inittx = inittx @ [(COL_MERKLE_PROOFS, app_hash, enc (c_merkle_tree M) tree)];
             new_state = new_state\<lparr> last_apphash := app_hash \<rparr>
         in try_bind (process_request L (tx_validator self) (CommitBlock app_hash)) (\<lambda>(validator, r).
         case r of
           RespCommitBlock (Inr _) \<Rightarrow> Ok (new_state, validator, inittx)
         | _ \<Rightarrow> Err (Panic ''persisting enclave storage failed''))))
     (\<lambda>(new_state, validator, inittx).
     let inittx = inittx @ [(COL_APP_STATES, encode_var_i64 M (cns_last_block_height new_state), last_apphash new_state),
           (COL_NODE_INFO, LAST_STATE_KEY, enc (c_node_state M) new_state)]
     in case kv_write L (storage_db self) inittx of
          (db, Inl _) \<Rightarrow> Err (Panic ''db write error'')
        | (db, Inr _) \<Rightarrow> Ok (self\<lparr> storage_db := db, tx_validator := validator, last_state := Some new_state,
            delivered_txs := [] \<rparr>, last_apphash new_state)))"

section \<open>Queries\<close>

record ResponseInfo =
  info_last_block_app_hash :: bytes
  info_last_block_height :: i64
  info_data :: string

definition abci_info :: "AppLib \<Rightarrow> ('db, 'acc, 'enc, 'bl) ChainNodeApp \<Rightarrow> ResponseInfo" where
  "abci_info M self = (case last_state self of
     Some app_state \<Rightarrow> \<lparr> info_last_block_app_hash = last_apphash app_state,
       info_last_block_height = cns_last_block_height app_state, info_data = json_node_state M app_state \<rparr>
   | None \<Rightarrow> \<lparr> info_last_block_app_hash = app_genesis_app_hash self, info_last_block_height = 0, info_data = [] \<rparr>)"

record RequestQuery =
  rq_path :: string
  rq_data :: bytes
  rq_height :: i64
  rq_prove :: bool

record ProofOp =
  op_field_type :: string
  op_key :: bytes
  op_data :: bytes

record ResponseQuery =
  q_code :: u32
  q_log :: string
  q_value :: bytes
  q_proof :: "ProofOp list option"

definition response_query_new :: ResponseQuery where
  "response_query_new = \<lparr> q_code = 0, q_log = [], q_value = [], q_proof = None \<rparr>"

definition q_fail :: "u32 \<Rightarrow> string \<Rightarrow> ResponseQuery \<Rightarrow> ResponseQuery" where
  "q_fail c msg resp = resp\<lparr> q_log := q_log resp @ msg, q_code := c \<rparr>"

definition TXID_HASH_ID :: bytes where "TXID_HASH_ID = ascii ''blake2s''"

definition get_witness_proof_op :: "Ext \<Rightarrow> bytes \<Rightarrow> ProofOp" where
  "get_witness_proof_op E witness =
     \<lparr> op_field_type = ''witness'', op_key = TXID_HASH_ID, op_data = txid_hash E witness \<rparr>"

definition into_proof_op :: "AppLib \<Rightarrow> H256 \<Rightarrow> H256 Proof \<Rightarrow> ProofOp" where
  "into_proof_op M root proof =
     \<lparr> op_field_type = ''transaction'', op_key = root, op_data = enc_proof M proof \<rparr>"

definition mock_obfuscated :: "ScaleLib \<Rightarrow> PlainTxAux \<Rightarrow> TxObfuscated" where
  "mock_obfuscated S plain =
     \<lparr> obf_key_from = 0, obf_nonce = replicate 12 0, txpayload = encode_plain_txaux S plain \<rparr>"

definition mock_encrypt :: "('db, 'acc, 'enc, 'bl) NodeLib \<Rightarrow> EncryptionRequest \<Rightarrow> TxAux" where
  "mock_encrypt L request = (case request of
     EncTransferTx tx witness \<Rightarrow> TransferTx (tx_id (nl_ext L) tx) (tx_inputs tx) (of_nat (length (tx_outputs tx)))
       (mock_obfuscated (nl_scale L) (PlainTransferTx tx witness))
   | EncDepositStake maintx witness \<Rightarrow>
       DepositStakeTx maintx (mock_obfuscated (nl_scale L) (PlainDepositStakeTx witness))
   | EncWithdrawStake tx _ witness \<Rightarrow>
       WithdrawUnbondedStakeTx (withdraw_id (nl_ext L) tx) (of_nat (length (wdr_outputs tx))) witness
         (mock_obfuscated (nl_scale L) (PlainWithdrawUnbondedStakeTx tx)))"

text \<open>The bodies found for some ids; ids that are not found or do not decode are skipped.\<close>

definition mock_decrypt :: "('db, 'acc, 'enc, 'bl) NodeLib \<Rightarrow> 'db \<Rightarrow> TxId list \<Rightarrow> TxWithOutputs list" where
  "mock_decrypt L db txs = List.map_filter (\<lambda>txid. case kv_get L db COL_BODIES txid of
     Inr (Some uv) \<Rightarrow> (case decode_two (nl_scale L) uv of Inr (ttx, _) \<Rightarrow> Some ttx | Inl _ \<Rightarrow> None)
   | _ \<Rightarrow> None) txs"

definition handle_enc_dec ::
    "('db, 'acc, 'enc, 'bl) NodeLib \<Rightarrow> AppLib \<Rightarrow> RequestQuery \<Rightarrow> ResponseQuery \<Rightarrow> 'db \<Rightarrow>
     ResponseQuery" where
  "handle_enc_dec L M req resp db =
     (if rq_path req = ''mockencrypt'' then (case decode_encryption_request (nl_scale L) (c_app_staked_state M) (rq_data req) of
          Inr (request, _) \<Rightarrow> resp\<lparr> q_value := enc_encryption_response M (mock_encrypt L request) \<rparr>
        | Inl _ \<Rightarrow> q_fail 1 ''invalid request'' resp)
      else if rq_path req = ''mockdecrypt'' then (case decode_decryption_request (nl_ext L) (nl_scale L) (app_request M) (rq_data req) of
          Inr (request, _) \<Rightarrow>
            resp\<lparr> q_value := enc_decryption_response M (mock_decrypt L db (body_txs (dr_body request))) \<rparr>
        | Inl _ \<Rightarrow> q_fail 1 ''invalid request'' resp)
      else q_fail 1 ''invalid path'' resp)"

definition query_lookup ::
    "('db, 'acc, 'enc, 'bl) NodeLib \<Rightarrow> 'db \<Rightarrow> ResponseQuery \<Rightarrow> column \<Rightarrow> bytes \<Rightarrow> string \<Rightarrow> ResponseQuery" where
  "query_lookup L db resp c key log_message = (case kv_get L db c key of
     Inr (Some uv) \<Rightarrow> resp\<lparr> q_value := uv \<rparr>
   | _ \<Rightarrow> q_fail 1 log_message resp)"

text \<open>The inclusion proof of a transaction against the block of a height.\<close>

definition query_proof ::
    "('db, 'acc, 'enc, 'bl) NodeLib \<Rightarrow> AppLib \<Rightarrow> ('db, 'acc, 'enc, 'bl) ChainNodeApp \<Rightarrow> RequestQuery \<Rightarrow> bytes \<Rightarrow>
     ResponseQuery \<Rightarrow> panic + ResponseQuery" where
  "query_proof L M self req witness resp =
     (let db = storage_db self;
          last_height = (case last_state self of Some x \<Rightarrow> cns_last_block_height x | None \<Rightarrow> 0);
          height = (if rq_height req = 0 \<or> last_height <s rq_height req then last_height else rq_height req)
      in try_bind (expect ''called unwrap on an Err value'' (kv_get L db COL_APP_STATES (encode_var_i64 M height))) (\<lambda>r.
         try_bind (expect_some ''called unwrap on a None value'' r) (\<lambda>app_hash.
         try_bind (expect ''called unwrap on an Err value'' (kv_get L db COL_MERKLE_PROOFS app_hash)) (\<lambda>r.
         try_bind (expect_some ''called unwrap on a None value'' r) (\<lambda>data.
         try_bind (expect ''merkle tree'' (dec (c_merkle_tree M) data)) (\<lambda>(tree, _).
         try_bind (copy_hash (rq_data req)) (\<lambda>txid.
         Ok (resp\<lparr> q_proof := Some (case generate_proof (blake2s (nl_ext L)) (\<lambda>i. i) tree txid of
             None \<Rightarrow> [get_witness_proof_op (nl_ext L) witness]
           | Some merkle_proof \<Rightarrow> [into_proof_op M (root_hash tree) merkle_proof, get_witness_proof_op (nl_ext L) witness]) \<rparr>))))))))"

definition query_account ::
    "('db, 'acc, 'enc, 'bl) NodeLib \<Rightarrow> AppLib \<Rightarrow> ('db, 'acc, 'enc, 'bl) ChainNodeApp \<Rightarrow> bytes \<Rightarrow> ResponseQuery \<Rightarrow>
     ResponseQuery" where
  "query_account L M self data resp = (case (last_state self, staked_address_try_from data) of
     (Some state, Inr a) \<Rightarrow> (case get_account L a (last_account_root_hash state) (accounts self) of
         Inr acc \<Rightarrow> resp\<lparr> q_value := enc (c_app_staked_state M) acc \<rparr>
       | Inl e \<Rightarrow> q_fail 1 (''account lookup failed: '' @ error_display e) resp)
   | _ \<Rightarrow> q_fail 3 ''account lookup failed (either invalid address or node not correctly restored / initialized)'' resp)"

definition starts_with :: "string \<Rightarrow> string \<Rightarrow> bool" where
  "starts_with s p = (take (length p) s = p)"

definition query_handler ::
    "('db, 'acc, 'enc, 'bl) NodeLib \<Rightarrow> AppLib \<Rightarrow> ('db, 'acc, 'enc, 'bl) ChainNodeApp \<Rightarrow>
     RequestQuery \<Rightarrow> panic + ResponseQuery" where
  "query_handler L M self req =
     (let resp = response_query_new; db = storage_db self; path = rq_path req; data = rq_data req
      in if starts_with path ''/p2p'' \<or> starts_with path ''p2p'' then Ok resp
         else if path = ''mockencrypt'' then Ok (handle_enc_dec L M req resp db)
         else if path = ''mockdecrypt'' then Ok (handle_enc_dec L M req resp db)
         else if path = ''store'' then
           (let resp = query_lookup L db resp COL_BODIES data ''tx not found''
            in if rq_prove req \<and> q_code resp = 0
               then (case kv_get L db COL_WITNESS data of
                   Inr (Some witness) \<Rightarrow> query_proof L M self req witness resp
                 | _ \<Rightarrow> Ok (q_fail 2 ''proof error: witness not found'' resp))
               else Ok resp)
         else if path = ''meta'' then Ok (query_lookup L db resp COL_TX_META data ''tx not found'')
         else if path = ''witness'' then Ok (query_lookup L db resp COL_WITNESS data ''tx not found'')
         else if path = ''merkle'' then Ok (query_lookup L db resp COL_MERKLE_PROOFS data ''app state not found'')
         else if path = ''account'' then Ok (query_account L M self data resp)
         else Ok (q_fail 1 ''invalid path'' resp))"

end
