(* ===== verification/Sample_Node.thy ===== *)
theory Sample_Node
  imports Chain_Handlers Enclave_Refinement
begin

text \<open>
  A small node in memory, on which the theorems about the application are evaluated: the database is a
  map, the account trie the list of all its versions, a bit vector is stored as \<open>bit-vec\<close> does, most
  significant bit first, and the enclave is the in-process client.  The laws assumed of the libraries
  hold for it.
\<close>

section \<open>Bit vectors\<close>

definition bits_of_byte :: "u8 \<Rightarrow> bool list" where
  "bits_of_byte w = map (\<lambda>i. bit w (7 - i)) [0..<8]"

definition byte_of_bits :: "bool list \<Rightarrow> u8" where
  "byte_of_bits bs = horner_sum of_bool 2 (rev (bs @ replicate (8 - length bs) False))"

fun bytes_of_bits :: "bool list \<Rightarrow> bytes" where
  "bytes_of_bits [] = []"
| "bytes_of_bits (b # bs) = byte_of_bits (b # take 7 bs) # bytes_of_bits (drop 7 bs)"

definition bits_of_bytes :: "bytes \<Rightarrow> bool list" where
  "bits_of_bytes bs = concat (map bits_of_byte bs)"

lemma bits_of_byte_of_bits:
  assumes "length bs \<le> 8"
  shows "bits_of_byte (byte_of_bits bs) = bs @ replicate (8 - length bs) False"
  using assms
  by (intro nth_equalityI)
    (auto simp: bits_of_byte_def byte_of_bits_def bit_horner_sum_bit_word_iff rev_nth nth_append)

lemma bits_of_bytes_of_bits:
  "bits_of_bytes (bytes_of_bits v) = v @ replicate ((8 - length v mod 8) mod 8) False"
proof (induction v rule: bytes_of_bits.induct)
  case (2 b bs)
  show ?case
  proof (cases "7 \<le> length bs")
    case True
    then have "Suc (length bs) = length (drop 7 bs) + 8" by simp
    then have m: "Suc (length bs) mod 8 = length (drop 7 bs) mod 8" by (simp only: mod_add_self2)
    have "bits_of_byte (byte_of_bits (b # take 7 bs)) = b # take 7 bs"
      using True by (subst bits_of_byte_of_bits) auto
    with 2 m show ?thesis by (simp add: bits_of_bytes_def)
  next
    case False
    then have "bits_of_byte (byte_of_bits (b # bs)) = b # bs @ replicate (7 - length bs) False"
      by (subst bits_of_byte_of_bits) auto
    moreover have "(8 - Suc (length bs) mod 8) mod 8 = 7 - length bs" using False by auto
    ultimately show ?thesis using False by (simp add: bits_of_bytes_def)
  qed
qed (simp add: bits_of_bytes_def)

lemma bits_of_bytes_whole: "8 dvd length (bits_of_bytes b)"
  by (induction b) (auto simp: bits_of_bytes_def bits_of_byte_def)

section \<open>Libraries\<close>

type_synonym mem_db = "column \<Rightarrow> bytes \<Rightarrow> bytes option"
type_synonym mem_accounts = "(H256 \<Rightarrow> StakedState option) list"

definition mem_write :: "mem_db \<Rightarrow> DBTransaction \<Rightarrow> mem_db" where
  "mem_write db ops = (\<lambda>c k. case last_put ops c k of Some v \<Rightarrow> Some v | None \<Rightarrow> db c k)"

text \<open>The root of a version is its number, in unary.\<close>

definition version :: "mem_accounts \<Rightarrow> H256 \<Rightarrow> (H256 \<Rightarrow> StakedState option) option" where
  "version accs r = (if length r < length accs \<and> r = replicate (length r) 0 then Some (accs ! length r) else None)"

definition mem_get_one :: "mem_accounts \<Rightarrow> H256 \<Rightarrow> H256 \<Rightarrow> unit + StakedState option" where
  "mem_get_one accs r k = (case version accs r of Some m \<Rightarrow> Ok (m k) | None \<Rightarrow> Err ())"

definition mem_insert :: "mem_accounts \<Rightarrow> H256 option \<Rightarrow> H256 list \<Rightarrow> StakedState list \<Rightarrow> mem_accounts \<times> (unit + H256)" where
  "mem_insert accs r ks as = (case (case r of None \<Rightarrow> Some Map.empty | Some r \<Rightarrow> version accs r) of
     Some m \<Rightarrow> (accs @ [m ++ map_of (rev (zip ks as))], Ok (replicate (length accs) 0))
   | None \<Rightarrow> (accs, Err ()))"

definition mem_node_with ::
    "('enc \<Rightarrow> EnclaveRequest \<Rightarrow> panic + 'enc \<times> EnclaveResponse) \<Rightarrow> (mem_db, mem_accounts, 'enc, bool) NodeLib" where
  "mem_node_with process = \<lparr> nl_ext = sample_ext, nl_scale = sample_scale, nl_bloom = sample_bloom,
     kv_get = (\<lambda>db c k. Ok (db c k)), kv_write_buffered = mem_write, kv_write = (\<lambda>db ops. (mem_write db ops, Ok ())),
     acc_get_one = mem_get_one, acc_insert_one = (\<lambda>accs r k a. mem_insert accs r [k] [a]), acc_insert = mem_insert,
     bv_from_bytes = bits_of_bytes, bv_to_bytes = bytes_of_bits, process_request = process \<rparr>"

abbreviation mem_node :: "(mem_db, mem_accounts, MockClient, bool) NodeLib" where
  "mem_node \<equiv> mem_node_with (mock_process_request sample_ext sample_scale)"

lemma mem_node_simps [simp]:
  "nl_ext (mem_node_with P) = sample_ext" "nl_scale (mem_node_with P) = sample_scale" "nl_bloom (mem_node_with P) = sample_bloom"
  "kv_get (mem_node_with P) = (\<lambda>db c k. Ok (db c k))" "kv_write_buffered (mem_node_with P) = mem_write"
  "kv_write (mem_node_with P) = (\<lambda>db ops. (mem_write db ops, Ok ()))" "acc_get_one (mem_node_with P) = mem_get_one"
  "acc_insert_one (mem_node_with P) = (\<lambda>accs r k a. mem_insert accs r [k] [a])" "acc_insert (mem_node_with P) = mem_insert"
  "bv_from_bytes (mem_node_with P) = bits_of_bytes" "bv_to_bytes (mem_node_with P) = bytes_of_bits"
  "process_request (mem_node_with P) = P"
  by (simp_all add: mem_node_with_def)

lemma mem_kv_laws: "kv_laws (mem_node_with P)"
  by (simp add: kv_laws_def mem_write_def split: option.splits)

lemma mem_bits_laws: "bits_laws (mem_node_with P)"
  by (simp add: bits_laws_def bits_of_bytes_of_bits bits_of_bytes_whole)

lemma version_append: "version (accs @ [m]) r = (if r = replicate (length accs) 0 then Some m else version accs r)"
  by (auto simp: version_def nth_append less_Suc_eq)

lemma version_fresh [simp]: "version accs (replicate (length accs) 0) = None"
  by (simp add: version_def)

lemma mem_acc_laws: "acc_laws (mem_node_with P)"
  by (auto simp: acc_laws_def mem_insert_def mem_get_one_def version_append dest: map_of_SomeD split: option.splits if_splits)

lemma mem_proxy: "enclave_proxy (nl_ext mem_node) (process_request mem_node)"
  by (simp add: mock.enclave_proxy_axioms)

section \<open>Codecs of the application\<close>

definition council_node_codec :: "CouncilNode codec" where
  "council_node_codec = map_codec
     (\<lambda>n. (case staking_account_address n of BasicRedeem r \<Rightarrow> redeem_raw r,
        case consensus_pubkey n of Ed25519 k \<Rightarrow> k, council_nonce n))
     (\<lambda>(r, k, n). \<lparr> staking_account_address = BasicRedeem (RedeemAddress r), consensus_pubkey = Ed25519 k, council_nonce = n \<rparr>)
     (pair_codec bytes_codec (pair_codec bytes_codec word_codec))"

definition node_state_codec :: "ChainNodeState codec" where
  "node_state_codec = map_codec
     (\<lambda>s. ((cns_last_block_height s, last_apphash s, block_time s, last_account_root_hash s),
        (coin_u64 (remaining (rewards_pool s)), last_block_height (rewards_pool s)),
        (milli_u64 (fee_constant (fee_policy s)), milli_u64 (fee_coefficient (fee_policy s))),
        cns_unbonding_period s, coin_u64 (cns_required_council_node_stake s), cns_council_nodes s))
     (\<lambda>((h, a, t, r), (c, p), (f, g), u, k, ns). \<lparr> cns_last_block_height = h, last_apphash = a, block_time = t,
        last_account_root_hash = r, rewards_pool = \<lparr> remaining = Coin c, last_block_height = p \<rparr>,
        fee_policy = \<lparr> fee_constant = Milli f, fee_coefficient = Milli g \<rparr>, cns_unbonding_period = u,
        cns_required_council_node_stake = Coin k, cns_council_nodes = ns \<rparr>)
     (pair_codec (pair_codec word_codec (pair_codec bytes_codec (pair_codec word_codec bytes_codec)))
       (pair_codec (pair_codec word_codec word_codec) (pair_codec (pair_codec word_codec word_codec)
         (pair_codec word_codec (pair_codec word_codec (list_codec council_node_codec))))))"

definition staked_state_codec :: "StakedState codec" where
  "staked_state_codec = map_codec
     (\<lambda>s. (nonce s, coin_u64 (bonded s), coin_u64 (unbonded s), unbonded_from s,
        case address s of BasicRedeem r \<Rightarrow> redeem_raw r))
     (\<lambda>(n, b, u, f, r). staked_state_new n (Coin b) (Coin u) f (BasicRedeem (RedeemAddress r)))
     (pair_codec word_codec (pair_codec word_codec (pair_codec word_codec (pair_codec word_codec bytes_codec))))"

definition mem_app :: AppLib where
  "mem_app = \<lparr> app_text = sample_text, c_node_state = node_state_codec, json_node_state = (\<lambda>s. ''{}''),
     c_merkle_tree = merkle_tree_codec bytes_codec, enc_proof = (\<lambda>p. enc proof_codec
       \<lparr> proof_root_hash = proof_root_hash p, proof_path = proof_path p, proof_value = RawPubkey (proof_value p) \<rparr>),
     encode_var_i64 = enc word_codec, parse_init_config = (\<lambda>b. if b = [] then Err () else Ok sample_config),
     enc_encryption_response = encode_txaux sample_scale,
     enc_decryption_response = (\<lambda>ts. concat (map (encode_two sample_scale) ts)),
     app_request = sample_request_lib, c_app_staked_state = staked_state_codec \<rparr>"

lemma app_codecs_ok: "reads_back (merkle_tree_codec bytes_codec :: H256 MerkleTree codec)" "reads_back node_state_codec" "reads_back staked_state_codec"
proof -
  show "reads_back (merkle_tree_codec bytes_codec :: H256 MerkleTree codec)"
    by (intro merkle_tree_codec_ok codec_oks)
  have "reads_back council_node_codec"
    unfolding council_node_codec_def
    by (intro map_codec_ok codec_oks) (simp split: StakedStateAddress.splits TendermintValidatorPubKey.splits)
  then show "reads_back node_state_codec"
    unfolding node_state_codec_def by (intro map_codec_ok codec_oks) simp_all
  show "reads_back staked_state_codec"
    unfolding staked_state_codec_def
    by (intro map_codec_ok codec_oks) (simp add: staked_state_new_def split: StakedStateAddress.splits)
qed

section \<open>A deposit\<close>

definition sample_deposit_aux :: TxAux where
  "sample_deposit_aux = DepositStakeTx sample_deposit \<lparr> obf_key_from = 0, obf_nonce = [],
     txpayload = encode_plain_txaux sample_scale (PlainDepositStakeTx [sample_in_witness]) \<rparr>"

definition sample_state :: ChainNodeState where
  "sample_state = \<lparr> cns_last_block_height = 0, last_apphash = replicate 32 1, block_time = 100,
     last_account_root_hash = [], rewards_pool = \<lparr> remaining = Coin 1000, last_block_height = 0 \<rparr>,
     fee_policy = linear_fee_new (milli_integral 2) (milli_integral 0), cns_unbonding_period = 60,
     cns_required_council_node_stake = Coin 100, cns_council_nodes = [] \<rparr>"

definition sample_app :: "(mem_db, mem_accounts, MockClient, bool) ChainNodeApp" where
  "sample_app = \<lparr>
     storage_db = (\<lambda>c k. if c = COL_TX_META \<and> k = txo_id sample_pointer then Some (bytes_of_bits [False]) else None),
     accounts = [[to_stake_key sample_digest (address sample_owner) \<mapsto> sample_owner]], delivered_txs = [],
     app_filter = filter_default sample_bloom, uncommitted_account_root_hash = [],
     app_genesis_app_hash = replicate 32 1, app_chain_hex_id = 0, last_state = Some sample_state,
     validator_voting_power = [], validator_pubkeys = [], power_changed_in_block = [],
     tx_validator = \<lparr> mock_chain_hex_id = 0, local_tx_store = [txo_id sample_pointer \<mapsto> sample_prev] \<rparr> \<rparr>"

lemma sample_root_eval: "sample_root = 0 # 9 # replicate 28 0 @ [2, 9]"
  by (simp add: sample_root_def sample_digest_def)

lemma enc_simps:
  "enc (map_codec f g c) x = enc c (f x)" "enc (pair_codec c d) (x1, y) = enc c x1 @ enc d y"
  "enc (list_codec e) [] = [0]" "enc (list_codec e) [z] = 1 # 0 # enc e z"
  "enc word_codec w = replicate (unat w) 1 @ [0]"
  by (simp_all add: word_codec_def map_codec_def pair_codec_def list_codec_def nat_codec_def)

text \<open>The sizes of unary bytes and of the bytes that code them.\<close>

lemma bytes_codec_size:
  "length (enc bytes_codec b) = 2 * length b + 1 + sum_list (map unat b)"
  "sum_list (map unat (enc bytes_codec b)) = length b + sum_list (map unat b)"
proof -
  have "length (concat (map (enc word_codec) b)) = length b + sum_list (map unat b)"
    "sum_list (map unat (concat (map (enc word_codec) b))) = sum_list (map unat b)"
    by (induction b) (simp_all add: word_codec_def map_codec_def nat_codec_def sum_list_replicate map_replicate_const)
  then show "length (enc bytes_codec b) = 2 * length b + 1 + sum_list (map unat b)"
    "sum_list (map unat (enc bytes_codec b)) = length b + sum_list (map unat b)"
    by (simp_all add: list_codec_def nat_codec_def sum_list_replicate map_replicate_const)
qed

lemma sample_root_size: "length sample_root = 32" "sum_list (map unat sample_root) = 20"
  by (simp_all add: sample_root_eval sum_list_replicate map_replicate_const)

lemma sample_pointer_size: "length (txo_id sample_pointer) = 32" "sum_list (map unat (txo_id sample_pointer)) = 25"
proof -
  have "txo_id sample_pointer = 10 # 0 # 1 # replicate 27 0 @ [3, 11]"
    by (simp add: sample_pointer_def two_id_def sample_prev_def tx_id_def txid_hash_def hash256_def sample_ext_def
        tx_new_with_def sample_digest_def)
  then show "length (txo_id sample_pointer) = 32" "sum_list (map unat (txo_id sample_pointer)) = 25"
    by (simp_all add: sum_list_replicate map_replicate_const)
qed

lemma sample_payload_size:
  "length (enc (c_in_witnesses sample_scale) [sample_in_witness]) \<le> 300"
  "length (encode_plain_txaux sample_scale (PlainDepositStakeTx [sample_in_witness])) \<le> 300"
  "sum_list (map unat (encode_plain_txaux sample_scale (PlainDepositStakeTx [sample_in_witness]))) \<le> 200"
  by (simp_all add: encode_plain_txaux_def sample_scale_def c_in_witnesses_def encode_in_witness_def
      sample_in_witness_def proof_codec_def option_codec_def enc_simps bytes_codec_size sample_root_size sum_list_replicate map_replicate_const)

lemma sample_deposit_size: "length (encode_txaux sample_scale sample_deposit_aux) \<le> 2000"
proof -
  define p where "p = encode_plain_txaux sample_scale (PlainDepositStakeTx [sample_in_witness])"
  have aux: "sample_deposit_aux = DepositStakeTx sample_deposit \<lparr> obf_key_from = 0, obf_nonce = [], txpayload = p \<rparr>"
    by (simp add: sample_deposit_aux_def p_def)
  have "length (encode_txaux sample_scale sample_deposit_aux) \<le> 300 + (2 * length p + sum_list (map unat p))"
    unfolding aux sample_scale_def
    by (simp add: encode_txaux_def encode_deposit_def sample_deposit_def deposit_bond_tx_new_def
        op_attributes_new_def redeem_default_def REDEEM_ADDRESS_BYTES_def obfuscated_codec_def pointer_codec_def
        op_attributes_codec_def enc_simps bytes_codec_size sample_pointer_size sum_list_replicate map_replicate_const)
      (simp add: sample_pointer_def)
  with sample_payload_size(2,3) show ?thesis by (simp add: p_def)
qed

definition sample_staker :: StakedState where
  "sample_staker = sample_owner\<lparr> nonce := 4, bonded := Coin 58 \<rparr>"

lemma sample_owner_simps:
  "nonce sample_owner = 3" "bonded sample_owner = Coin 50" "unbonded sample_owner = Coin 20" "unbonded_from sample_owner = 90"
  by (simp_all add: sample_owner_def sample_account_def staked_state_new_def)

lemma sample_owner_address: "address sample_owner = BasicRedeem redeem_default"
proof -
  have "replicate 18 0 @ [0, 0] = (replicate 20 0 :: bytes)" by (simp add: numeral_eq_Suc)
  then show ?thesis
    by (simp add: sample_owner_def redeem_default_def redeem_from_pk_def sample_ext_def hash256_def
        sample_digest_def REDEEM_ADDRESS_BYTES_def)
qed

lemma sample_deposit_verified:
  "verify_bonded_deposit sample_ext sample_deposit [sample_in_witness] sample_info [sample_prev] (Some sample_owner) =
   Ok (Ok (Fee (Coin 2), Some sample_staker))"
proof -
  have core: "verify_bonded_deposit_core sample_ext sample_deposit [sample_in_witness] sample_info [sample_prev] = Ok (Coin 10)"
    by (simp add: verify_bonded_deposit_core_Ok_iff sample_deposit_def deposit_bond_tx_new_def op_attributes_new_def
        sample_spendable sample_input_value) (simp add: sample_info_def amount_def)
  show ?thesis
    by (simp add: verify_bonded_deposit_def core)
      (simp add: sample_info_def coin_sub_def checked_sub_u64_def coin_new_def MAX_COIN_def sample_staker_def
        deposit_def coin_add_def checked_add_u64_def sample_owner_simps)
qed

lemma sample_bytes_decode:
  "decode_txaux sample_scale (encode_txaux sample_scale sample_deposit_aux) = Ok (sample_deposit_aux, [])"
  "decode_plain_txaux sample_scale (encode_plain_txaux sample_scale (PlainDepositStakeTx [sample_in_witness])) =
   Ok (PlainDepositStakeTx [sample_in_witness], [])"
  using sample_deposit_size sample_payload_size(1) txaux_reads_back [OF sample_scale_laws, of sample_deposit_aux]
    plain_txaux_reads_back [OF sample_scale_laws, of "PlainDepositStakeTx [sample_in_witness]"]
  by (simp_all add: TX_AUX_SIZE_def MAX_DEPOSIT_TX_SIZE_def MAX_WITNESS_SIZE_def plain_wf_def sample_deposit_aux_def)

lemma sample_fee: "calculate_fee (fee_policy sample_state) n = Ok (Fee (Coin 2))"
  by (simp add: calculate_fee_def estimate_def sample_state_def linear_fee_new_def milli_integral_def milli_add_def
      milli_mul_def to_integral_def coin_new_def MAX_COIN_def)

lemma sample_verify:
  "verify mem_node (tx_validator sample_app) sample_deposit_aux sample_info [] (storage_db sample_app) (accounts sample_app) =
   Ok (tx_validator sample_app, Ok (Fee (Coin 2), Some sample_staker))"
proof -
  have "get_account mem_node (BasicRedeem redeem_default) [] (accounts sample_app) = Ok sample_owner"
    using sample_owner_address by (simp add: get_account_def sample_app_def mem_get_one_def version_def sample_ext_def)
  moreover have "check_spent_input_lookup mem_node [sample_pointer] (storage_db sample_app) = Ok ()"
    using bits_of_bytes_of_bits [of "[False]"]
    by (simp add: check_spent_input_lookup_def sample_app_def bv_get_def del: bytes_of_bits.simps) (simp add: sample_pointer_def)
  moreover have "mock_inputs (tx_validator sample_app) [sample_pointer] = Ok [sample_prev]"
    by (simp add: mock_inputs_def mock_lookup_def sample_app_def)
  moreover have "dep_inputs sample_deposit = [sample_pointer]" "dep_to_staked_account sample_deposit = BasicRedeem redeem_default"
    by (simp_all add: sample_deposit_def deposit_bond_tx_new_def)
  ultimately show ?thesis
    by (simp add: verify_def sample_deposit_aux_def ask_enclave_def mock_process_request_def mock_verify_def
        sample_bytes_decode(2) sample_deposit_verified)
qed

lemma sample_spend:
  "spend_utxos mem_node [sample_pointer] (storage_db sample_app) [] =
   Ok [(COL_TX_META, txo_id sample_pointer, bytes_of_bits (True # replicate 7 False))]"
  using bits_of_bytes_of_bits [of "[False]"]
  by (simp add: spend_utxos_def load_bits_def bt_get_def bv_set_def sample_app_def del: bytes_of_bits.simps)
    (simp add: sample_pointer_def numeral_eq_Suc del: bytes_of_bits.simps)

definition sample_delivered :: "(mem_db, mem_accounts, MockClient, bool) ChainNodeApp" where
  "sample_delivered = sample_app\<lparr>
     accounts := accounts sample_app @ [[to_stake_key sample_digest (address sample_owner) \<mapsto> sample_staker]],
     app_filter := add_staked_state_address sample_bloom (filter_default sample_bloom) (address sample_owner),
     uncommitted_account_root_hash := [0], delivered_txs := [sample_deposit_aux],
     last_state := Some (sample_state\<lparr> rewards_pool := \<lparr> remaining = Coin 1002, last_block_height = 0 \<rparr> \<rparr>),
     storage_db := mem_write (storage_db sample_app)
       [(COL_TX_META, txo_id sample_pointer, bytes_of_bits (True # replicate 7 False))] \<rparr>"

lemma sample_deliver:
  "\<exists>resp. deliver_tx mem_node sample_app (encode_txaux sample_scale sample_deposit_aux) = Ok (sample_delivered, resp) \<and>
   resp_code resp = 0"
proof -
  have info: "\<lparr> min_fee_computed = Fee (Coin 2), ci_chain_hex_id = app_chain_hex_id sample_app,
      previous_block_time = block_time sample_state, unbonding_period = cns_unbonding_period sample_state \<rparr> = sample_info"
    by (simp add: sample_app_def sample_state_def sample_info_def)
  have app: "last_state sample_app = Some sample_state" "uncommitted_account_root_hash sample_app = []"
    "validator_voting_power sample_app = []" "sample_app\<lparr> tx_validator := tx_validator sample_app \<rparr> = sample_app"
    by (simp_all add: sample_app_def)
  have v: "validate_tx_req mem_node sample_app (encode_txaux sample_scale sample_deposit_aux) tx_response_new =
      Ok (sample_app, tx_response_new, Some (sample_deposit_aux, Fee (Coin 2), Some sample_staker))"
    by (simp add: validate_tx_req_def sample_bytes_decode(1) app sample_fee info sample_verify)
      (simp add: set_code_def tx_response_new_def)
  have u: "update_account mem_node sample_staker [] (accounts sample_app) =
      Ok (accounts sample_app @ [[to_stake_key sample_digest (address sample_owner) \<mapsto> sample_staker]], [0], Some sample_staker)"
    by (simp add: update_account_def mem_insert_def version_def sample_app_def staked_state_key_def sample_staker_def sample_ext_def)
  have ch: "deliver_changes mem_node sample_app sample_deposit_aux (Some sample_staker) =
      Ok (accounts sample_app @ [[to_stake_key sample_digest (address sample_owner) \<mapsto> sample_staker]], [0], Some sample_staker,
        [(COL_TX_META, txo_id sample_pointer, bytes_of_bits (True # replicate 7 False))])"
    using sample_spend
    by (simp add: deliver_changes_def sample_deposit_aux_def app u sample_deposit_def deposit_bond_tx_new_def)
  show ?thesis
    by (simp add: deliver_tx_def v ch del: bytes_of_bits.simps)
      (simp add: note_power_change_def sample_delivered_def sample_app_def sample_state_def bt_get_def coin_add_def checked_add_u64_def
        coin_new_def MAX_COIN_def tx_response_new_def sample_staker_def del: bytes_of_bits.simps)
qed

section \<open>An unbonding\<close>

definition sample_unbond :: UnbondTx where
  "sample_unbond = unbond_tx_new (Coin 5) 3 (op_attributes_new 0)"

definition sample_unbond_aux :: TxAux where
  "sample_unbond_aux = UnbondStakeTx sample_unbond (BasicRedeemWitness [5])"

definition sample_unbonded :: StakedState where
  "sample_unbonded = sample_owner\<lparr> nonce := 4, unbonded_from := 160, bonded := Coin 43, unbonded := Coin 25 \<rparr>"

lemma sample_recover: "verify_tx_recover_address sample_ext (BasicRedeemWitness [5]) i = Ok (address sample_owner)"
  by (simp add: verify_tx_recover_address_def sample_owner_def) (simp add: sample_ext_def)

lemma sample_unbond_decode:
  "decode_txaux sample_scale (encode_txaux sample_scale sample_unbond_aux) = Ok (sample_unbond_aux, [])"
proof -
  have "length (encode_txaux sample_scale sample_unbond_aux) \<le> TX_AUX_SIZE"
    by (simp add: encode_txaux_def sample_scale_defs encode_op_witness_def sample_unbond_aux_def
        op_attributes_codec_def sample_unbond_def unbond_tx_new_def op_attributes_new_def TX_AUX_SIZE_def)
  moreover have "coin_wf (unb_value sample_unbond)"
    by (simp add: sample_unbond_def unbond_tx_new_def coin_wf_def MAX_COIN_def)
  ultimately show ?thesis
    using txaux_reads_back [OF sample_scale_laws, of sample_unbond_aux] by (simp add: sample_unbond_aux_def)
qed

lemma sample_unbond_verify:
  "verify mem_node e sample_unbond_aux sample_info [] db (accounts sample_app) = Ok (e, Ok (Fee (Coin 2), Some sample_unbonded))"
proof -
  have "verify_unbonding sample_unbond sample_info sample_owner = Ok (Ok (Fee (Coin 2), Some sample_unbonded))"
    by (simp add: verify_unbonding_def check_attributes_def check_input_output_sums_def unbond_def Let_def sample_unbonded_def
        sample_info_def sample_owner_def sample_account_def sample_unbond_def unbond_tx_new_def op_attributes_new_def
        staked_state_new_def coin_zero_def coin_add_def coin_sub_def coin_new_def checked_add_u64_def checked_sub_u64_def
        MAX_COIN_def less_Coin_def)
  moreover have "get_account mem_node (address sample_owner) [] (accounts sample_app) = Ok sample_owner"
    by (simp add: get_account_def sample_app_def mem_get_one_def version_def sample_ext_def)
  ultimately show ?thesis by (simp add: verify_def sample_unbond_aux_def sample_recover)
qed

lemma sample_unbond_deliver:
  "\<exists>app resp. deliver_tx mem_node sample_app (encode_txaux sample_scale sample_unbond_aux) = Ok (app, resp) \<and>
   delivered_txs app = [sample_unbond_aux]"
proof -
  have info: "\<lparr> min_fee_computed = Fee (Coin 2), ci_chain_hex_id = app_chain_hex_id sample_app,
      previous_block_time = block_time sample_state, unbonding_period = cns_unbonding_period sample_state \<rparr> = sample_info"
    by (simp add: sample_app_def sample_state_def sample_info_def)
  have app: "last_state sample_app = Some sample_state" "uncommitted_account_root_hash sample_app = []"
    "validator_voting_power sample_app = []" "delivered_txs sample_app = []"
    "sample_app\<lparr> tx_validator := tx_validator sample_app \<rparr> = sample_app"
    by (simp_all add: sample_app_def)
  have v: "validate_tx_req mem_node sample_app (encode_txaux sample_scale sample_unbond_aux) tx_response_new =
      Ok (sample_app, tx_response_new, Some (sample_unbond_aux, Fee (Coin 2), Some sample_unbonded))"
    by (simp add: validate_tx_req_def sample_unbond_decode app sample_fee info sample_unbond_verify)
      (simp add: set_code_def tx_response_new_def)
  obtain accs where ch: "deliver_changes mem_node sample_app sample_unbond_aux (Some sample_unbonded) =
      Ok (accs, [0], Some sample_unbonded, [])"
    by (simp add: deliver_changes_def sample_unbond_aux_def app update_account_def mem_insert_def version_def)
      (simp add: sample_app_def)
  have "coin_add (remaining (rewards_pool sample_state)) (Coin 2) = Ok (Coin 1002)" "resp_code tx_response_new = 0"
    by (simp_all add: sample_state_def coin_add_def checked_add_u64_def coin_new_def MAX_COIN_def tx_response_new_def)
  then show ?thesis by (simp add: deliver_tx_def v ch note_power_change_def bt_get_def app)
qed

section \<open>A genesis\<close>

definition sample_pool :: RewardsPoolState where
  "sample_pool = rewards_pool_new (Coin 9000000000000000005) 0"

definition sample_genesis_hash :: H256 where
  "sample_genesis_hash = compute_app_hash sample_ext merkle_empty [] sample_pool"

definition sample_chain_id :: string where
  "sample_chain_id = ''test-'' @ hex_encode sample_text [0]"

definition sample_fresh :: "'enc \<Rightarrow> (mem_db, mem_accounts, 'enc, bool) ChainNodeApp" where
  "sample_fresh v = \<lparr>
     storage_db = mem_write (\<lambda>_ _. None)
       [(COL_NODE_INFO, GENESIS_APP_HASH_KEY, sample_genesis_hash), (COL_EXTRA, CHAIN_ID_KEY, ascii sample_chain_id)],
     accounts = [], delivered_txs = [], app_filter = filter_default sample_bloom,
     uncommitted_account_root_hash = replicate 32 0, app_genesis_app_hash = sample_genesis_hash, app_chain_hex_id = 0,
     last_state = None, validator_voting_power = [], validator_pubkeys = [], power_changed_in_block = [],
     tx_validator = v \<rparr>"

lemma sample_start:
  assumes "P v (CheckChain 0 None) = Ok (v, RespCheckChain (Ok ()))"
  shows "new_with_storage (mem_node_with P) mem_app v (hex_encode sample_text sample_genesis_hash) sample_chain_id (\<lambda>_ _. None) [] =
   Ok (sample_fresh v)"
proof -
  have "hex_decode sample_text (hex_encode sample_text b) = Ok b" for b
    using sample_text_hex by (simp add: hex_laws_def)
  moreover have "length (hex_encode sample_text [0]) = 2" by (simp add: sample_text_def pairs_encode_def)
  ultimately have hex: "hex_decode (app_text mem_app) (hex_encode sample_text sample_genesis_hash) = Ok sample_genesis_hash"
    "chain_hex_id_of (app_text mem_app) sample_chain_id = Ok 0"
    by (simp_all add: mem_app_def chain_hex_id_of_def sample_chain_id_def)
  have "copy_hash sample_genesis_hash = Ok sample_genesis_hash"
    using sample_digest_laws(2)
    by (simp add: copy_hash_def sample_genesis_hash_def compute_app_hash_def hash256_def sample_ext_def HASH_SIZE_256_def)
  with hex assms show ?thesis by (simp add: new_with_storage_def enclave_sanity_check_def sample_fresh_def)
qed

definition sample_init :: RequestInitChain where
  "sample_init = \<lparr> ric_time = Some 7, ric_app_state_bytes = [1], ric_chain_id = sample_chain_id, ric_consensus_params = None \<rparr>"

abbreviation sample_node_account :: StakedState where
  "sample_node_account \<equiv> new_init (Coin 900000000000000000) 7 (BasicRedeem (RedeemAddress [4])) True"

abbreviation sample_other_account :: StakedState where
  "sample_other_account \<equiv> new_init (Coin 99999999999999995) 7 (BasicRedeem (RedeemAddress [5])) False"

definition sample_council_node :: CouncilNode where
  "sample_council_node = council_node_new (BasicRedeem (RedeemAddress [4])) (Ed25519 (replicate 32 107))"

definition sample_genesis_state :: ChainNodeState where
  "sample_genesis_state = chain_node_state_genesis sample_genesis_hash 7 [] sample_pool (network_params sample_config) [sample_council_node]"

definition sample_genesis :: "'enc \<Rightarrow> (mem_db, mem_accounts, 'enc, bool) ChainNodeApp" where
  "sample_genesis v = (sample_fresh v)\<lparr>
     storage_db := mem_write (storage_db (sample_fresh v))
       [(COL_NODE_INFO, LAST_STATE_KEY, enc node_state_codec sample_genesis_state),
        (COL_EXTRA, ascii ''init_chain_state'', enc node_state_codec sample_genesis_state)],
     accounts := [[staked_state_key sample_digest sample_other_account \<mapsto> sample_other_account,
       staked_state_key sample_digest sample_node_account \<mapsto> sample_node_account]],
     validator_pubkeys := [(BasicRedeem (RedeemAddress [4]), get_validator_key sample_council_node)],
     uncommitted_account_root_hash := [], last_state := Some sample_genesis_state \<rparr>"

lemma sample_node_key:
  "staked_state_key sample_digest sample_node_account = to_stake_key sample_digest (BasicRedeem (RedeemAddress [4]))"
  "staked_state_key sample_digest sample_node_account \<noteq> staked_state_key sample_digest sample_other_account"
  by (simp_all add: staked_state_key_def new_init_def to_stake_key_def hash256_def sample_digest_def)

lemma sample_vote_power: "\<exists>p. vote_power_from_coin (Coin 900000000000000000) = Ok p"
  using vote_power_from_coin_ok [of "Coin 900000000000000000"] by (auto simp: coin_wf_def MAX_COIN_def)

lemma sample_init_chain:
  "\<exists>vs. init_chain_handler (mem_node_with P) mem_app (sample_fresh v) sample_init = Ok (sample_genesis v, vs)"
proof -
  let ?key = "staked_state_key sample_digest"
  have ins: "mem_insert [] None [?key sample_node_account, ?key sample_other_account] [sample_node_account, sample_other_account] =
      ([[?key sample_other_account \<mapsto> sample_other_account, ?key sample_node_account \<mapsto> sample_node_account]], Ok [])"
    using sample_node_key(2) by (simp add: mem_insert_def fun_upd_twist)
  from sample_vote_power obtain vs where val: "init_validators (distribution sample_config) [sample_council_node] [] =
      Ok (vs, [(BasicRedeem (RedeemAddress [4]), get_validator_key sample_council_node)])"
    by (auto simp: get_voting_power_def sample_config_def bt_get_def sample_council_node_def council_node_new_def Let_def)
  have db: "storage_db (sample_fresh v) COL_EXTRA CHAIN_ID_KEY = Some (ascii sample_chain_id)"
    by (simp add: sample_fresh_def mem_write_def)
  have fresh: "accounts (sample_fresh v) = []" "app_genesis_app_hash (sample_fresh v) = sample_genesis_hash"
    "validator_pubkeys (sample_fresh v) = []"
    by (simp_all add: sample_fresh_def)
  have "blake2s sample_ext = sample_digest" by (simp add: sample_ext_def)
  then show ?thesis
    by (simp add: init_chain_handler_def sample_init_def mem_app_def sample_config_validates db fresh ins
        sample_genesis_hash_def [symmetric] sample_pool_def [symmetric] sample_council_node_def [symmetric] val Let_def
        check_and_store_consensus_params_def store_valid_genesis_state_def sample_genesis_state_def [symmetric]
        sample_genesis_def chain_node_state_genesis_def del: init_validators.simps)
      (simp add: sample_genesis_state_def chain_node_state_genesis_def)
qed

end
