(* ===== verification/Chain_Proofs.thy ===== *)
theory Chain_Proofs
  imports Sample_Node
begin

text \<open>
  What the handlers of the application keep and change.  A rejected transaction changes nothing but the
  enclave's own state; an accepted one spends exactly its public inputs, replaces at most one account and
  adds its fee to the rewards pool.  These one-step facts are lifted to runs of the application, with
  Tendermint's calls as the events of an inductive relation.
\<close>

section \<open>One transaction\<close>

abbreviation chain_info_of :: "('db, 'acc, 'enc, 'bl) ChainNodeApp \<Rightarrow> ChainNodeState \<Rightarrow> Fee \<Rightarrow> ChainInfo" where
  "chain_info_of app st fee \<equiv> \<lparr> min_fee_computed = fee, ci_chain_hex_id = app_chain_hex_id app,
     previous_block_time = block_time st, unbonding_period = cns_unbonding_period st \<rparr>"

abbreviation verify_now ::
    "('db, 'acc, 'enc, 'bl) NodeLib \<Rightarrow> ('db, 'acc, 'enc, 'bl) ChainNodeApp \<Rightarrow> TxAux \<Rightarrow> ChainInfo \<Rightarrow>
     panic + 'enc \<times> (Error + Fee \<times> StakedState option)" where
  "verify_now L app txaux info \<equiv>
     verify L (tx_validator app) txaux info (uncommitted_account_root_hash app) (storage_db app) (accounts app)"

text \<open>The transaction was decoded and accepted with this fee and account.\<close>

definition accepts ::
    "('db, 'acc, 'enc, 'bl) NodeLib \<Rightarrow> ('db, 'acc, 'enc, 'bl) ChainNodeApp \<Rightarrow> bytes \<Rightarrow> TxAux \<Rightarrow> ChainNodeState \<Rightarrow>
     ChainInfo \<Rightarrow> Fee \<Rightarrow> StakedState option \<Rightarrow> 'enc \<Rightarrow> bool" where
  "accepts L app tx txaux st info fee acc v \<longleftrightarrow>
     (\<exists>rest min. decode_txaux (nl_scale L) tx = Ok (txaux, rest) \<and> last_state app = Some st \<and>
        calculate_fee (fee_policy st) (of_nat (length tx)) = Ok min \<and> info = chain_info_of app st min) \<and>
     verify_now L app txaux info = Ok (v, Ok (fee, acc))"

lemma validate_tx_req_cases:
  assumes "validate_tx_req L app tx tx_response_new = Ok (app', resp, m)"
  obtains (rejected) v where "m = None" "resp_code resp = 1" "app' = app\<lparr> tx_validator := v \<rparr>"
  | (accepted) txaux fee acc st info v where "m = Some (txaux, fee, acc)" "resp = tx_response_new"
      "accepts L app tx txaux st info fee acc v" "app' = app\<lparr> tx_validator := v \<rparr>"
proof (cases "decode_txaux (nl_scale L) tx")
  case (Inl e)
  with assms show thesis
    by (intro rejected [of "tx_validator app"]) (auto simp: validate_tx_req_def add_log_def set_code_def)
next
  case (Inr p)
  then obtain txaux rest where d: "decode_txaux (nl_scale L) tx = Ok (txaux, rest)" by (cases p) auto
  with assms obtain st min v r where s: "last_state app = Some st"
    "calculate_fee (fee_policy st) (of_nat (length tx)) = Ok min"
    "verify_now L app txaux (chain_info_of app st min) = Ok (v, r)"
    by (auto simp: validate_tx_req_def result_simps)
  show thesis
  proof (cases r)
    case (Inl e)
    with assms d s show thesis
      by (intro rejected [of v]) (auto simp: validate_tx_req_def add_log_def set_code_def)
  next
    case (Inr fa)
    obtain fee acc where "fa = (fee, acc)" by (cases fa)
    with Inr assms d s show thesis
      by (intro accepted [of txaux fee acc st "chain_info_of app st min" v])
        (auto simp: validate_tx_req_def accepts_def set_code_def tx_response_new_def)
  qed
qed

text \<open>The pending power changes depend on three fields only.\<close>

definition power_change ::
    "(StakedStateAddress, TendermintVotePower) btree \<Rightarrow> ChainNodeState option \<Rightarrow> StakedState option \<Rightarrow>
     (StakedStateAddress, TendermintVotePower) btree \<Rightarrow> panic + (StakedStateAddress, TendermintVotePower) btree" where
  "power_change vps mst maccount pending = (case maccount of
     None \<Rightarrow> Ok pending
   | Some account \<Rightarrow> (case bt_get vps (address account) of
       None \<Rightarrow> Ok pending
     | Some old_power \<Rightarrow>
         try_bind (expect_some ''delivertx should have app state'' mst) (\<lambda>state.
         try_bind (vote_power_from_coin (cns_required_council_node_stake state)) (\<lambda>min_power.
         try_bind (vote_power_from_coin (bonded account)) (\<lambda>new_power.
         Ok (if new_power > old_power \<and> new_power \<ge> min_power then bt_insert (address account) new_power pending
             else if old_power \<ge> min_power \<and> new_power < old_power
             then bt_insert (address account) vote_power_zero pending else pending))))))"

declare try_bind_assoc [simp]

lemma try_bind_return [simp]: "try_bind r Ok = r"
  by (cases r) simp_all

lemma note_power_change_eq:
  "note_power_change app macc =
   try_bind (power_change (validator_voting_power app) (last_state app) macc (power_changed_in_block app))
     (\<lambda>p. Ok (app\<lparr> power_changed_in_block := p \<rparr>))"
proof (cases macc)
  case (Some a)
  then show ?thesis
    by (cases "bt_get (validator_voting_power app) (address a)"; cases "last_state app";
        cases "vote_power_from_coin (cns_required_council_node_stake (the (last_state app)))";
        cases "vote_power_from_coin (bonded a)")
      (simp_all add: note_power_change_def power_change_def)
qed (simp add: note_power_change_def power_change_def)

text \<open>The filter of the block after a transaction.\<close>

definition next_filter ::
    "('db, 'acc, 'enc, 'bl) NodeLib \<Rightarrow> ('db, 'acc, 'enc, 'bl) ChainNodeApp \<Rightarrow> StakedState option \<Rightarrow> 'bl BlockFilter" where
  "next_filter L app maccount = (case maccount of
     Some account \<Rightarrow> add_staked_state_address (nl_bloom L) (app_filter app) (address account)
   | None \<Rightarrow> app_filter app)"

lemma deliver_tx_cases:
  assumes "deliver_tx L app tx = Ok (app', resp)"
  obtains (rejected) v where "resp_code resp = 1" "app' = app\<lparr> tx_validator := v \<rparr>"
  | (accepted) txaux fee acc st info v accs root macc inittx pool fltr pending where
      "accepts L app tx txaux st info fee acc v"
      "deliver_changes L app txaux acc = Ok (accs, root, macc, inittx)"
      "coin_add (remaining (rewards_pool st)) (to_coin fee) = Ok pool"
      "resp_code resp = 0"
      "power_change (validator_voting_power app) (last_state app) macc (power_changed_in_block app) = Ok pending"
      "app' = app\<lparr> tx_validator := v, accounts := accs, app_filter := fltr,
         power_changed_in_block := pending, uncommitted_account_root_hash := root,
         delivered_txs := delivered_txs app @ [txaux],
         last_state := Some (st\<lparr> rewards_pool := (rewards_pool st)\<lparr> remaining := pool \<rparr> \<rparr>),
         storage_db := kv_write_buffered L (storage_db app) inittx \<rparr>"
      "fltr = next_filter L app macc"
proof -
  from assms obtain app1 resp1 m where v: "validate_tx_req L app tx tx_response_new = Ok (app1, resp1, m)"
    by (auto simp: deliver_tx_def result_simps)
  from v show thesis
  proof (cases rule: validate_tx_req_cases)
    case (rejected v)
    with assms v show thesis by (intro that(1) [of v]) (auto simp: deliver_tx_def)
  next
    case (accepted txaux fee acc st info v)
    have st: "last_state app = Some st" using accepted(3) by (auto simp: accepts_def)
    have ch: "deliver_changes L (app\<lparr> tx_validator := v \<rparr>) txaux acc = deliver_changes L app txaux acc"
      by (simp add: deliver_changes_def split: TxAux.split)
    have fl: "(case m of Some a \<Rightarrow> add_staked_state_address (nl_bloom L) (app_filter (app\<lparr> tx_validator := v \<rparr>)) (address a)
        | None \<Rightarrow> app_filter (app\<lparr> tx_validator := v \<rparr>)) = next_filter L app m" for m
      by (simp add: next_filter_def split: option.split)
    from assms v accepted st obtain accs root macc inittx pending pool fltr where
      "deliver_changes L app txaux acc = Ok (accs, root, macc, inittx)"
      "power_change (validator_voting_power app) (last_state app) macc (power_changed_in_block app) = Ok pending"
      "coin_add (remaining (rewards_pool st)) (to_coin fee) = Ok pool" "resp_code resp = 0"
      "app' = app\<lparr> tx_validator := v, accounts := accs,
         app_filter := fltr,
         power_changed_in_block := pending, uncommitted_account_root_hash := root,
         delivered_txs := delivered_txs app @ [txaux],
         last_state := Some (st\<lparr> rewards_pool := (rewards_pool st)\<lparr> remaining := pool \<rparr> \<rparr>),
         storage_db := kv_write_buffered L (storage_db app) inittx \<rparr>" "fltr = next_filter L app macc"
      by (auto simp: deliver_tx_def ch note_power_change_eq result_simps tx_response_new_def Let_def fl)
    with accepted(3) show thesis by (intro that(2))
  qed
qed

section \<open>Spending\<close>

definition public_inputs :: "TxAux \<Rightarrow> TxoPointer list" where
  "public_inputs txaux = (case txaux of
     TransferTx _ ins _ _ \<Rightarrow> ins | DepositStakeTx tx _ \<Rightarrow> dep_inputs tx | _ \<Rightarrow> [])"

lemma spend_utxos_Nil: "spend_utxos L [] db dbtx = Ok dbtx"
  by (simp add: spend_utxos_def)

lemma deliver_changes_spends:
  "deliver_changes L app txaux acc = Ok (accs, root, macc, inittx) \<Longrightarrow>
   spend_utxos L (public_inputs txaux) (storage_db app) [] = Ok inittx"
  by (cases txaux) (auto simp: deliver_changes_def public_inputs_def result_simps spend_utxos_Nil)

lemma verify_spends:
  assumes "verify_now L app txaux info = Ok (v, Ok r)"
  shows "\<forall>x \<in> set (public_inputs txaux). output_state L (storage_db app) x = Some False"
  using assms check_spent_Ok_iff [of L _ "storage_db app" "()"]
  by (cases txaux) (auto simp: verify_def public_inputs_def split: sum.splits if_splits)

lemma accepts_spends:
  "accepts L app tx txaux st info fee acc v \<Longrightarrow>
   \<forall>x \<in> set (public_inputs txaux). output_state L (storage_db app) x = Some False"
  by (auto simp: accepts_def dest: verify_spends)

lemma deliver_output_state:
  assumes "kv_laws L" "bits_laws L" "accepts L app tx txaux st info fee acc v"
    and "deliver_changes L app txaux acc = Ok (accs, root, macc, inittx)"
  shows "output_state L (kv_write_buffered L (storage_db app) inittx) x =
    (if x \<in> set (public_inputs txaux) then Some True else output_state L (storage_db app) x)"
  using accepts_spends [OF assms(3)]
  by (intro spend_utxos_effect [OF assms(1,2) _ deliver_changes_spends [OF assms(4)]]) auto

lemma spent_input_rejected:
  assumes "output_state L (storage_db app) x = Some True" "decode_txaux (nl_scale L) tx = Ok (txaux, rest)"
    and "x \<in> set (public_inputs txaux)" "deliver_tx L app tx = Ok (app', resp)"
  shows "resp_code resp = 1 \<and> app' = app\<lparr> tx_validator := tx_validator app' \<rparr>"
  using assms(4)
proof (cases rule: deliver_tx_cases)
  case (accepted txaux' fee acc st info v accs root macc inittx pool fltr pending)
  then have "txaux' = txaux" using assms(2) by (auto simp: accepts_def)
  with accepts_spends [OF accepted(1)] assms(1,3) show ?thesis by auto
qed simp

section \<open>Commit\<close>

text \<open>The id under which a transaction gets a fresh vector of unspent outputs, and their number.\<close>

definition new_outputs :: "Ext \<Rightarrow> TxAux \<Rightarrow> (TxId \<times> TxoIndex) option" where
  "new_outputs E txaux = (case txaux of
     TransferTx _ _ n _ \<Rightarrow> Some (txaux_id E txaux, n)
   | WithdrawUnbondedStakeTx _ n _ _ \<Rightarrow> Some (txaux_id E txaux, n)
   | _ \<Rightarrow> None)"

text \<open>The number of outputs under an id that a block ends with, if the last transaction of the block
  that touches the id creates them anew.\<close>

definition touch :: "Ext \<Rightarrow> TxId \<Rightarrow> TxAux \<Rightarrow> TxoIndex option \<Rightarrow> TxoIndex option" where
  "touch E t txaux b = (case new_outputs E txaux of
     Some (i, n) \<Rightarrow> if i = t then Some n else if t \<in> txo_id ` set (public_inputs txaux) then None else b
   | None \<Rightarrow> if t \<in> txo_id ` set (public_inputs txaux) then None else b)"

definition recreated :: "Ext \<Rightarrow> TxId \<Rightarrow> TxAux list \<Rightarrow> TxoIndex option" where
  "recreated E t txs = fold (touch E t) txs None"

lemma recreated_simps [simp]:
  "recreated E t [] = None" "recreated E t (txs @ [tx]) = touch E t tx (recreated E t txs)"
  by (simp_all add: recreated_def)

text \<open>What one delivered transaction does to the puts on the column of spent bits.\<close>

lemma commit_puts_meta:
  assumes "bits_laws L" "commit_puts L db txaux dbtx = Ok puts"
  shows "(case new_outputs (nl_ext L) txaux of
      Some (i, n) \<Rightarrow> last_put puts COL_TX_META i = Some (bv_to_bytes L (replicate (unat n) False)) | None \<Rightarrow> True) \<and>
    (\<forall>t. (\<forall>n. new_outputs (nl_ext L) txaux \<noteq> Some (t, n)) \<longrightarrow>
       (if t \<in> txo_id ` set (public_inputs txaux)
        then \<exists>v bits. last_put puts COL_TX_META t = Some v \<and> meta_bits L db t = Some bits \<and>
          bv_from_bytes L v = mark (public_inputs txaux) t bits
        else last_put puts COL_TX_META t = last_put dbtx COL_TX_META t))"
proof -
  have other: "last_put (dbtx @ [(COL_BODIES, i, b)]) COL_TX_META t = last_put dbtx COL_TX_META t"
    "last_put (dbtx @ [(COL_BODIES, i, b), (COL_WITNESS, i, w)]) COL_TX_META t = last_put dbtx COL_TX_META t" for i b w t
    by (simp_all add: columns)
  show ?thesis
  proof (cases txaux)
    case (TransferTx i ins n pl)
    then obtain dbtx' mid where "spend_utxos L ins db dbtx' = Ok mid"
      "puts = mid @ [(COL_TX_META, txaux_id (nl_ext L) txaux, bv_to_bytes L (replicate (unat n) False))]"
      "\<And>t. last_put dbtx' COL_TX_META t = last_put dbtx COL_TX_META t"
      using assms(2) other
      by (auto simp: commit_puts_def update_utxos_commit_def Let_def result_simps
          split: sum.splits PlainTxAux.splits)
    with spend_utxos_puts [OF assms(1)] TransferTx show ?thesis
      by (fastforce simp: new_outputs_def public_inputs_def)
  next
    case (DepositStakeTx tx pl)
    then have "spend_utxos L (dep_inputs tx) db (dbtx @ [(COL_BODIES, txaux_id (nl_ext L) txaux, encode_deposit (nl_scale L) tx)]) = Ok puts"
      using assms(2) by (simp add: commit_puts_def Let_def)
    from spend_utxos_puts [OF assms(1) this] DepositStakeTx other(1) show ?thesis
      by (simp add: new_outputs_def public_inputs_def)
  next
    case (UnbondStakeTx tx w)
    with assms(2) show ?thesis by (auto simp: commit_puts_def Let_def new_outputs_def public_inputs_def columns)
  next
    case (WithdrawUnbondedStakeTx i n w pl)
    with assms(2) show ?thesis
      by (auto simp: commit_puts_def Let_def new_outputs_def public_inputs_def columns
          split: sum.splits PlainTxAux.splits)
  qed
qed

lemma commit_loop_snoc:
  "commit_loop L db (txs @ [tx]) dbtx = try_bind (commit_loop L db txs dbtx) (commit_puts L db tx)"
proof (induction txs arbitrary: dbtx)
  case Nil
  then show ?case by (cases "commit_puts L db tx dbtx") simp_all
next
  case (Cons a txs)
  then show ?case by (cases "commit_puts L db a dbtx") simp_all
qed

lemma commit_loop_meta:
  assumes "bits_laws L" "commit_loop L db txs [] = Ok puts"
  shows "(case recreated (nl_ext L) t txs of
      Some n \<Rightarrow> last_put puts COL_TX_META t = Some (bv_to_bytes L (replicate (unat n) False))
    | None \<Rightarrow> last_put puts COL_TX_META t = None \<or>
        (\<exists>v bits tx. tx \<in> set txs \<and> last_put puts COL_TX_META t = Some v \<and> meta_bits L db t = Some bits \<and>
          bv_from_bytes L v = mark (public_inputs tx) t bits))"
  using assms(2)
proof (induction txs arbitrary: puts rule: rev_induct)
  case (snoc tx txs)
  then obtain mid where mid: "commit_loop L db txs [] = Ok mid" "commit_puts L db tx mid = Ok puts"
    by (auto simp: commit_loop_snoc result_simps)
  note c = commit_puts_meta [OF assms(1) mid(2)]
  consider (new) n where "new_outputs (nl_ext L) tx = Some (t, n)"
    | (other) "\<forall>n. new_outputs (nl_ext L) tx \<noteq> Some (t, n)" by blast
  then show ?case
  proof cases
    case new
    with c show ?thesis by (simp add: touch_def)
  next
    case other
    then have "touch (nl_ext L) t tx b = (if t \<in> txo_id ` set (public_inputs tx) then None else b)" for b
      by (auto simp: touch_def split: option.splits)
    with other conjunct2 [OF c] snoc.IH [OF mid(1)] show ?thesis
      by (fastforce split: option.splits if_splits)
  qed
qed simp

lemma write_case_Ok:
  "(case w of (db, Inl _) \<Rightarrow> Err e | (db, Inr _) \<Rightarrow> Ok (f db)) = Ok y \<longleftrightarrow> (\<exists>db. w = (db, Ok ()) \<and> y = f db)"
  by (cases w; cases "snd w") auto

lemma commit_response_Ok:
  "(case r of RespCommitBlock (Inr _) \<Rightarrow> Ok x | _ \<Rightarrow> Err e) = Ok y \<longleftrightarrow> r = RespCommitBlock (Ok ()) \<and> y = x"
  by (auto split: EnclaveResponse.splits sum.splits)

text \<open>The tree of the transactions of the block, and the puts after those of the transactions.\<close>

definition block_tree :: "('db, 'acc, 'enc, 'bl) NodeLib \<Rightarrow> ('db, 'acc, 'enc, 'bl) ChainNodeApp \<Rightarrow> H256 MerkleTree" where
  "block_tree L app = merkle_new (blake2s (nl_ext L)) (\<lambda>i. i) (map (txaux_id (nl_ext L)) (delivered_txs app))"

definition closing_puts ::
    "('db, 'acc, 'enc, 'bl) NodeLib \<Rightarrow> AppLib \<Rightarrow> ('db, 'acc, 'enc, 'bl) ChainNodeApp \<Rightarrow> ChainNodeState \<Rightarrow> DBTransaction" where
  "closing_puts L M app st =
     (if delivered_txs app = [] then [] else [(COL_MERKLE_PROOFS, last_apphash st, enc (c_merkle_tree M) (block_tree L app))]) @
     [(COL_APP_STATES, encode_var_i64 M (cns_last_block_height st), last_apphash st),
      (COL_NODE_INFO, LAST_STATE_KEY, enc (c_node_state M) st)]"

text \<open>The state of the chain after the commit.\<close>

definition committed_state :: "('db, 'acc, 'enc, 'bl) NodeLib \<Rightarrow> ('db, 'acc, 'enc, 'bl) ChainNodeApp \<Rightarrow> ChainNodeState \<Rightarrow> ChainNodeState" where
  "committed_state L app st =
     (if delivered_txs app = [] then st
      else let pool = (rewards_pool st)\<lparr> last_block_height := cns_last_block_height st \<rparr>; root = uncommitted_account_root_hash app
           in st\<lparr> rewards_pool := pool, last_account_root_hash := root,
                last_apphash := compute_app_hash (nl_ext L) (block_tree L app) root pool \<rparr>)"

lemma commit_handler_cases:
  assumes "commit_handler L M app = Ok (app', h)"
  obtains st puts db v where "last_state app = Some st" "commit_loop L (storage_db app) (delivered_txs app) [] = Ok puts"
    "kv_write L (storage_db app) (puts @ closing_puts L M app (committed_state L app st)) = (db, Ok ())"
    "h = last_apphash (committed_state L app st)"
    "if delivered_txs app = [] then v = tx_validator app
     else process_request L (tx_validator app) (CommitBlock h) = Ok (v, RespCommitBlock (Ok ()))"
    "app' = app\<lparr> storage_db := db, tx_validator := v, last_state := Some (committed_state L app st), delivered_txs := [] \<rparr>"
proof -
  from assms obtain st where st: "last_state app = Some st"
    by (auto simp: commit_handler_def result_simps)
  show thesis
  proof (cases "delivered_txs app = []")
    case True
    with assms st obtain db where
      "kv_write L (storage_db app) [(COL_APP_STATES, encode_var_i64 M (cns_last_block_height st), last_apphash st),
             (COL_NODE_INFO, LAST_STATE_KEY, enc (c_node_state M) st)] = (db, Ok ())" "h = last_apphash st"
      "app' = app\<lparr> storage_db := db, tx_validator := tx_validator app, last_state := Some st, delivered_txs := [] \<rparr>"
      by (auto simp: commit_handler_def result_simps write_case_Ok)
    with True st show thesis
      by (intro that [of st "[]" db "tx_validator app"]) (simp_all add: closing_puts_def committed_state_def)
  next
    case False
    define st' where "st' = committed_state L app st"
    have st': "st' = st\<lparr> rewards_pool := (rewards_pool st)\<lparr> last_block_height := cns_last_block_height st \<rparr>,
        last_account_root_hash := uncommitted_account_root_hash app,
        last_apphash := compute_app_hash (nl_ext L) (block_tree L app) (uncommitted_account_root_hash app)
          ((rewards_pool st)\<lparr> last_block_height := cns_last_block_height st \<rparr>) \<rparr>"
      using False by (simp add: st'_def committed_state_def Let_def)
    from assms False obtain puts v db where
      "commit_loop L (storage_db app) (delivered_txs app) [] = Ok puts"
      "process_request L (tx_validator app) (CommitBlock (last_apphash st')) = Ok (v, RespCommitBlock (Ok ()))"
      "kv_write L (storage_db app) (puts @ closing_puts L M app st') = (db, Ok ())"
      "h = last_apphash st'"
      "app' = app\<lparr> storage_db := db, tx_validator := v, last_state := Some st', delivered_txs := [] \<rparr>"
      by (auto simp: commit_handler_def result_simps st block_tree_def Let_def st' closing_puts_def write_case_Ok commit_response_Ok)
    with False st show thesis
      by (intro that [of st puts db v]) (simp_all add: st'_def)
  qed
qed

lemma closing_puts_other:
  "c \<notin> {COL_MERKLE_PROOFS, COL_APP_STATES, COL_NODE_INFO} \<Longrightarrow> last_put (closing_puts L M app st) c k = None"
  "last_put (closing_puts L M app st) COL_NODE_INFO k = (if k = LAST_STATE_KEY then Some (enc (c_node_state M) st) else None)"
  "last_put (closing_puts L M app st) COL_APP_STATES (encode_var_i64 M (cns_last_block_height st)) = Some (last_apphash st)"
  "delivered_txs app \<noteq> [] \<Longrightarrow>
   last_put (closing_puts L M app st) COL_MERKLE_PROOFS (last_apphash st) = Some (enc (c_merkle_tree M) (block_tree L app))"
  by (auto simp: closing_puts_def columns)

section \<open>Runs\<close>

text \<open>
  One call of Tendermint that the application answers, labelled with the transactions it accepts for the
  block.  The calls come in any order; CheckTx is the call of another connection between the others.
\<close>

inductive node_step ::
    "('db, 'acc, 'enc, 'bl) NodeLib \<Rightarrow> AppLib \<Rightarrow> ('db, 'acc, 'enc, 'bl) ChainNodeApp \<Rightarrow> TxAux list \<Rightarrow>
     ('db, 'acc, 'enc, 'bl) ChainNodeApp \<Rightarrow> bool" for L M where
  step_begin: "begin_block app t = Ok app' \<Longrightarrow> node_step L M app [] app'"
| step_check: "check_tx L app tx = Ok (app', resp) \<Longrightarrow> node_step L M app [] app'"
| step_deliver: "deliver_tx L app tx = Ok (app', resp) \<Longrightarrow>
    node_step L M app (drop (length (delivered_txs app)) (delivered_txs app')) app'"
| step_end: "end_block L app height = Ok (app', ebr) \<Longrightarrow> node_step L M app [] app'"
| step_commit: "commit_handler L M app = Ok (app', h) \<Longrightarrow> node_step L M app [] app'"

inductive node_run ::
    "('db, 'acc, 'enc, 'bl) NodeLib \<Rightarrow> AppLib \<Rightarrow> ('db, 'acc, 'enc, 'bl) ChainNodeApp \<Rightarrow> TxAux list \<Rightarrow>
     ('db, 'acc, 'enc, 'bl) ChainNodeApp \<Rightarrow> bool" for L M where
  run_stop: "node_run L M app [] app"
| run_step: "\<lbrakk> node_run L M app txs app1; node_step L M app1 txs' app2 \<rbrakk> \<Longrightarrow> node_run L M app (txs @ txs') app2"

lemma node_run_append: "\<lbrakk> node_run L M app1 ys app2; node_run L M app xs app1 \<rbrakk> \<Longrightarrow> node_run L M app (xs @ ys) app2"
  by (induction rule: node_run.induct) (auto simp: append_assoc [symmetric] simp del: append_assoc intro: node_run.intros)

lemma node_run_Cons: "\<lbrakk> node_step L M app xs app1; node_run L M app1 ys app2 \<rbrakk> \<Longrightarrow> node_run L M app (xs @ ys) app2"
  using node_run_append [OF _ run_step [OF run_stop]] by fastforce

inductive_cases node_stepE [consumes 1, case_names step_begin step_check step_deliver step_end step_commit]: "node_step L M app txs app'"

lemma check_tx_app:
  assumes "check_tx L app tx = Ok (app', resp)"
  obtains v where "app' = app\<lparr> tx_validator := v \<rparr>"
proof -
  from assms obtain m where "validate_tx_req L app tx tx_response_new = Ok (app', resp, m)"
    by (auto simp: check_tx_def result_simps)
  then show thesis by (cases rule: validate_tx_req_cases) (auto intro: that)
qed

lemma end_block_app:
  assumes "end_block L app height = Ok (app', ebr)"
  obtains st us pws where "last_state app = Some st"
    "validator_updates (validator_pubkeys app) (power_changed_in_block app) (validator_voting_power app) = Ok (us, pws)"
    "app' = app\<lparr> app_filter := filter_default (nl_bloom L), validator_voting_power := pws, power_changed_in_block := [],
       last_state := Some (st\<lparr> cns_last_block_height := height \<rparr>) \<rparr>"
    "eb_validator_updates ebr = us"
  using assms by (auto simp: end_block_def result_simps Let_def intro: that)

text \<open>The steps seen from the outputs: nothing, one accepted transaction, or a commit.\<close>

lemma node_step_cases:
  assumes "node_step L M app txs app'"
  obtains (quiet) "txs = []" "storage_db app' = storage_db app" "delivered_txs app' = delivered_txs app"
  | (deliver) tx txaux st info fee acc v accs root macc inittx where "txs = [txaux]"
      "accepts L app tx txaux st info fee acc v" "deliver_changes L app txaux acc = Ok (accs, root, macc, inittx)"
      "storage_db app' = kv_write_buffered L (storage_db app) inittx"
      "delivered_txs app' = delivered_txs app @ [txaux]"
  | (commit) h where "txs = []" "commit_handler L M app = Ok (app', h)" "delivered_txs app' = []"
  using assms
proof (cases rule: node_stepE)
  case (step_begin t)
  then show thesis by (intro quiet) (auto simp: begin_block_def result_simps)
next
  case (step_check tx resp)
  from step_check(2) obtain v where "app' = app\<lparr> tx_validator := v \<rparr>" by (rule check_tx_app)
  with step_check(1) show thesis by (intro quiet) simp_all
next
  case (step_deliver tx resp)
  from step_deliver(2) show thesis
  proof (cases rule: deliver_tx_cases)
    case (rejected v)
    with step_deliver(1) show thesis by (intro quiet) simp_all
  next
    case (accepted txaux fee acc st info v accs root macc inittx pool fltr pending)
    show thesis
    proof (rule deliver)
      show "txs = [txaux]" using step_deliver(1) accepted(6) by simp
      show "accepts L app tx txaux st info fee acc v" by (rule accepted(1))
      show "deliver_changes L app txaux acc = Ok (accs, root, macc, inittx)" by (rule accepted(2))
    qed (simp_all add: accepted(6))
  qed
next
  case (step_end height ebr)
  from step_end(2) obtain st us pws where
    "app' = app\<lparr> app_filter := filter_default (nl_bloom L), validator_voting_power := pws, power_changed_in_block := [],
       last_state := Some (st\<lparr> cns_last_block_height := height \<rparr>) \<rparr>" by (rule end_block_app)
  with step_end(1) show thesis by (intro quiet) simp_all
next
  case (step_commit h)
  from step_commit(2) have "delivered_txs app' = []" by (rule commit_handler_cases) simp
  with step_commit show thesis by (intro commit)
qed

text \<open>The inputs of the transactions of the current block are spent in the buffered database.\<close>

definition pending_spent :: "('db, 'acc, 'enc, 'bl) NodeLib \<Rightarrow> ('db, 'acc, 'enc, 'bl) ChainNodeApp \<Rightarrow> bool" where
  "pending_spent L app \<longleftrightarrow>
     (\<forall>tx \<in> set (delivered_txs app). \<forall>x \<in> set (public_inputs tx). output_state L (storage_db app) x = Some True)"

lemma round_up_8: "(k::nat) + (8 - k mod 8) mod 8 = (k + 7) div 8 * 8"
proof -
  define q r where "q = k div 8" and "r = k mod 8"
  have k: "k = 8 * q + r" and r: "r < 8" by (simp_all add: q_def r_def)
  show ?thesis
  proof (cases "r = 0")
    case True
    then show ?thesis by (simp add: k)
  next
    case False
    with r have "(8 * q + r + 7) div 8 = q + 1" by (intro div_nat_eqI) auto
    with False r show ?thesis by (simp add: k)
  qed
qed
text \<open>A commit changes nothing but the outputs that are created anew.\<close>

lemma commit_output_state:
  assumes "kv_laws L" "bits_laws L" "pending_spent L app" "commit_handler L M app = Ok (app', h)"
  shows "output_state L (storage_db app') x =
    (case recreated (nl_ext L) (txo_id x) (delivered_txs app) of
       None \<Rightarrow> output_state L (storage_db app) x
     | Some n \<Rightarrow> if unat (txo_index x) < (unat n + 7) div 8 * 8 then Some False else None)"
proof -
  from assms(4) obtain st puts db v where c: "commit_loop L (storage_db app) (delivered_txs app) [] = Ok puts"
    and w: "kv_write L (storage_db app) (puts @ closing_puts L M app (committed_state L app st)) = (db, Ok ())"
    and app': "app' = app\<lparr> storage_db := db, tx_validator := v, last_state := Some (committed_state L app st), delivered_txs := [] \<rparr>"
    by (rule commit_handler_cases)
  have "COL_TX_META \<notin> {COL_MERKLE_PROOFS, COL_APP_STATES, COL_NODE_INFO}" by (simp add: columns)
  then have db: "meta_bits L db t = (case last_put puts COL_TX_META t of Some v \<Rightarrow> Some (bv_from_bytes L v)
      | None \<Rightarrow> meta_bits L (storage_db app) t)" for t
    by (simp add: meta_bits_written(2) [OF assms(1) w] closing_puts_other(1))
  note m = commit_loop_meta [OF assms(2) c, of "txo_id x"]
  show ?thesis
  proof (cases "recreated (nl_ext L) (txo_id x) (delivered_txs app)")
    case None
    with m consider "last_put puts COL_TX_META (txo_id x) = None"
      | v bits tx where "tx \<in> set (delivered_txs app)" "last_put puts COL_TX_META (txo_id x) = Some v"
        "meta_bits L (storage_db app) (txo_id x) = Some bits" "bv_from_bytes L v = mark (public_inputs tx) (txo_id x) bits"
      by auto
    then show ?thesis
    proof cases
      case 1
      with None show ?thesis by (simp add: app' output_state_def db)
    next
      case 2
      then have "meta_bits L db (txo_id x) = map_option (mark (public_inputs tx) (txo_id x)) (meta_bits L (storage_db app) (txo_id x))"
        by (simp add: db)
      then have "output_state L db x = (case output_state L (storage_db app) x of
          None \<Rightarrow> None | Some b \<Rightarrow> Some (b \<or> x \<in> set (public_inputs tx)))"
        unfolding output_state_def by (simp only: bits_spent)
      with None 2(1) assms(3) show ?thesis by (auto simp: app' pending_spent_def split: option.splits)
    qed
  next
    case (Some n)
    with m assms(2) have "meta_bits L db (txo_id x) = Some (replicate (unat n + (8 - unat n mod 8) mod 8) False)"
      by (simp add: db bits_laws_def replicate_add)
    moreover have "unat n + (8 - unat n mod 8) mod 8 = (unat n + 7) div 8 * 8" by (rule round_up_8)
    ultimately show ?thesis using Some by (auto simp: app' output_state_def bv_get_def)
  qed
qed

lemma node_step_pending:
  assumes "kv_laws L" "bits_laws L" "node_step L M app txs app'" "pending_spent L app"
  shows "pending_spent L app'"
  using assms(3)
proof (cases rule: node_step_cases)
  case (deliver tx txaux st info fee acc v accs root macc inittx)
  then show ?thesis
    using assms(4) by (auto simp: pending_spent_def deliver_output_state [OF assms(1,2) deliver(2,3)])
qed (use assms(4) in \<open>simp_all add: pending_spent_def\<close>)

lemma node_run_pending:
  assumes "kv_laws L" "bits_laws L" "node_run L M app txs app'" "pending_spent L app"
  shows "pending_spent L app'"
  using assms(3,4) by (induction rule: node_run.induct) (auto intro: node_step_pending [OF assms(1,2)])

text \<open>An output is spent for good: the database says so and the next commit will not create it anew.\<close>

definition spent_for_good ::
    "('db, 'acc, 'enc, 'bl) NodeLib \<Rightarrow> ('db, 'acc, 'enc, 'bl) ChainNodeApp \<Rightarrow> TxoPointer \<Rightarrow> bool" where
  "spent_for_good L app x \<longleftrightarrow> output_state L (storage_db app) x = Some True \<and>
     recreated (nl_ext L) (txo_id x) (delivered_txs app) = None"

definition creates :: "Ext \<Rightarrow> TxId \<Rightarrow> TxAux \<Rightarrow> bool" where
  "creates E t txaux \<longleftrightarrow> (\<exists>n. new_outputs E txaux = Some (t, n))"

lemma touch_not_creates: "\<not> creates E t tx \<Longrightarrow> touch E t tx None = None"
  by (auto simp: touch_def creates_def split: option.splits)

lemma touch_spent: "\<lbrakk> \<not> creates E t tx; t \<in> txo_id ` set (public_inputs tx) \<rbrakk> \<Longrightarrow> touch E t tx b = None"
  by (auto simp: touch_def creates_def split: option.splits)

lemma node_step_spent:
  assumes "kv_laws L" "bits_laws L" "node_step L M app txs app'" "pending_spent L app"
    and "spent_for_good L app x" "\<forall>tx \<in> set txs. \<not> creates (nl_ext L) (txo_id x) tx"
  shows "spent_for_good L app' x"
  using assms(3)
proof (cases rule: node_step_cases)
  case (deliver tx txaux st info fee acc v accs root macc inittx)
  then show ?thesis
    using assms(5,6)
    by (simp add: spent_for_good_def deliver_output_state [OF assms(1,2) deliver(2,3)] touch_not_creates)
next
  case (commit h)
  then show ?thesis
    using assms(5) by (simp add: spent_for_good_def commit_output_state [OF assms(1,2,4) commit(2)])
qed (use assms(5) in \<open>simp add: spent_for_good_def\<close>)

lemma node_run_spent:
  assumes "kv_laws L" "bits_laws L" "node_run L M app txs app'" "pending_spent L app"
    and "spent_for_good L app x" "\<forall>tx \<in> set txs. \<not> creates (nl_ext L) (txo_id x) tx"
  shows "spent_for_good L app' x"
  using assms(3,4,5,6)
proof (induction rule: node_run.induct)
  case (run_step app txs app1 txs' app2)
  then have "pending_spent L app1" "spent_for_good L app1 x"
    using node_run_pending [OF assms(1,2) run_step.hyps(1)] by simp_all
  with run_step node_step_spent [OF assms(1,2) run_step.hyps(2)] show ?case by simp
qed

lemma delivered_spent:
  assumes "kv_laws L" "bits_laws L" "node_step L M app [tx] app'" "x \<in> set (public_inputs tx)"
    and "\<not> creates (nl_ext L) (txo_id x) tx"
  shows "output_state L (storage_db app) x = Some False \<and> spent_for_good L app' x"
  using assms(3)
proof (cases rule: node_step_cases)
  case (deliver t txaux st info fee acc v accs root macc inittx)
  then show ?thesis
    using assms(4,5) accepts_spends [OF deliver(2)]
    by (auto simp: spent_for_good_def deliver_output_state [OF assms(1,2) deliver(2,3)] touch_spent)
qed simp_all

section \<open>Properties of runs\<close>

text \<open>
  C1: no double spending: when the application has accepted a transaction after a start with nothing
  pending, it never again accepts one with the same public input, whatever calls come in between,
  unless one of the transactions accepted since creates anew the outputs the input refers to.
\<close>

theorem no_double_spend:
  assumes "kv_laws L" "bits_laws L" "delivered_txs app = []"
    and "node_run L M app before app1" "node_step L M app1 [tx] app2" "x \<in> set (public_inputs tx)"
    and "node_run L M app2 after app3" "\<forall>t \<in> set (tx # after). \<not> creates (nl_ext L) (txo_id x) t"
  shows "output_state L (storage_db app3) x = Some True \<and>
    (\<forall>txs app4 t. node_step L M app3 txs app4 \<and> t \<in> set txs \<longrightarrow> x \<notin> set (public_inputs t))"
proof -
  have "pending_spent L app" using assms(3) by (simp add: pending_spent_def)
  then have "pending_spent L app2"
    using node_step_pending [OF assms(1,2,5)] node_run_pending [OF assms(1,2,4)] by blast
  moreover have "spent_for_good L app2 x" using delivered_spent [OF assms(1,2,5,6)] assms(8) by simp
  ultimately have spent: "output_state L (storage_db app3) x = Some True"
    using node_run_spent [OF assms(1,2,7)] assms(8) by (simp add: spent_for_good_def)
  have "x \<notin> set (public_inputs t)" if "node_step L M app3 txs app4" "t \<in> set txs" for txs app4 t
    using that(1)
  proof (cases rule: node_step_cases)
    case (deliver u txaux st info fee acc v accs root macc inittx)
    with accepts_spends [OF deliver(2)] spent that(2) show ?thesis by auto
  qed (use that(2) in simp_all)
  with spent show ?thesis by blast
qed

theorem no_double_spend_witness:
  "output_state mem_node (storage_db sample_delivered) sample_pointer = Some True \<and>
   \<not> (\<exists>app. node_step mem_node mem_app sample_delivered [sample_deposit_aux] app)"
proof -
  have step: "node_step mem_node mem_app sample_app [sample_deposit_aux] sample_delivered"
    using sample_deliver step_deliver [of mem_node sample_app _ sample_delivered _ mem_app]
    by (auto simp: sample_delivered_def sample_app_def)
  have x: "sample_pointer \<in> set (public_inputs sample_deposit_aux)" "delivered_txs sample_app = []"
    "\<forall>t \<in> set [sample_deposit_aux]. \<not> creates (nl_ext mem_node) (txo_id sample_pointer) t"
    by (simp_all add: public_inputs_def sample_deposit_aux_def sample_deposit_def deposit_bond_tx_new_def sample_app_def
        creates_def new_outputs_def)
  from no_double_spend [OF mem_kv_laws mem_bits_laws x(2) run_stop step x(1) run_stop x(3)]
  show ?thesis using x(1) by fastforce
qed

end
