(* ===== verification/Chain_Accounts.thy ===== *)
theory Chain_Accounts
  imports Chain_Proofs
begin

text \<open>
  The staked accounts and the validators over runs of the application.  Whatever the enclave, as long as
  it accepts only what the pure verifiers accept, every account stays well formed under the key of its
  address, its nonce counts the accepted transactions that touch it, and the pending changes of voting
  power always concern known validators, so the end of a block fails only before the initialisation.
\<close>

section \<open>Accounts\<close>

abbreviation account_at ::
    "('db, 'acc, 'enc, 'bl) NodeLib \<Rightarrow> ('db, 'acc, 'enc, 'bl) ChainNodeApp \<Rightarrow> H256 \<Rightarrow> unit + StakedState option" where
  "account_at L app k \<equiv> acc_get_one L (accounts app) (uncommitted_account_root_hash app) k"

text \<open>The key of the account a transaction touches.\<close>

definition tx_key :: "Ext \<Rightarrow> TxAux \<Rightarrow> H256 option" where
  "tx_key E txaux = (case txaux of
     TransferTx _ _ _ _ \<Rightarrow> None
   | DepositStakeTx tx _ \<Rightarrow> Some (to_stake_key (blake2s E) (dep_to_staked_account tx))
   | UnbondStakeTx tx w \<Rightarrow> (case verify_tx_recover_address E w (unbond_id E tx) of
       Inr a \<Rightarrow> Some (to_stake_key (blake2s E) a) | Inl _ \<Rightarrow> None)
   | WithdrawUnbondedStakeTx txid _ w _ \<Rightarrow> (case verify_tx_recover_address E w txid of
       Inr a \<Rightarrow> Some (to_stake_key (blake2s E) a) | Inl _ \<Rightarrow> None))"

text \<open>Accounts are stored under the key of their address and are well formed.\<close>

definition accounts_ok :: "('db, 'acc, 'enc, 'bl) NodeLib \<Rightarrow> 'acc \<Rightarrow> H256 \<Rightarrow> bool" where
  "accounts_ok L accs root \<longleftrightarrow>
     (\<forall>k a. acc_get_one L accs root k = Ok (Some a) \<longrightarrow> staked_state_key (blake2s (nl_ext L)) a = k \<and> staked_wf a)"

lemma get_account_Ok_iff:
  "get_account L a root accs = Ok s \<longleftrightarrow> acc_get_one L accs root (to_stake_key (blake2s (nl_ext L)) a) = Ok (Some s)"
  "get_account L a root accs = Err AccountNotFound \<longleftrightarrow> acc_get_one L accs root (to_stake_key (blake2s (nl_ext L)) a) = Ok None"
  by (auto simp: get_account_def split: sum.splits option.splits)

lemma verified_case_Ok:
  "(case resp of RespVerifyTx (Inr r) \<Rightarrow> Ok r | _ \<Rightarrow> Err e) = Ok r \<longleftrightarrow> resp = RespVerifyTx (Ok r)"
proof (cases resp)
  case (RespVerifyTx x)
  then show ?thesis by (cases x) auto
qed simp_all

lemma ask_enclave_Ok:
  "ask_enclave L e txaux macc info = Ok (e', Ok r) \<Longrightarrow>
   process_request L e (VerifyTx txaux macc info) = Ok (e', RespVerifyTx (Ok r))"
  by (auto simp: ask_enclave_def result_simps verified_case_Ok)

text \<open>What an accepted transaction that returns an account was verified against.\<close>

lemma verify_account:
  assumes "enclave_proxy (nl_ext L) (process_request L)" "accounts_ok L accs root"
    and "verify L e txaux info root db accs = Ok (e', Ok (fee, Some s))" "\<forall>i ins n p. txaux \<noteq> TransferTx i ins n p"
  shows "\<exists>k old. tx_key (nl_ext L) txaux = Some k \<and> acc_get_one L accs root k = Ok old \<and> next_account old s \<and>
    staked_state_key (blake2s (nl_ext L)) s = k"
proof -
  have ask: "next_account macc s \<and> (macc = None \<longrightarrow> (\<exists>tx payload. txaux = DepositStakeTx tx payload \<and> address s = dep_to_staked_account tx))"
    if "ask_enclave L e txaux macc info = Ok (e', Ok (fee, Some s))" "\<forall>a. macc = Some a \<longrightarrow> staked_wf a" for macc
    using purely_verified_account [OF enclave_proxy.verified [OF assms(1) ask_enclave_Ok [OF that(1)]] that(2)] .
  show ?thesis
  proof (cases txaux)
    case (TransferTx i ins n p)
    with assms(4) show ?thesis by simp
  next
    case (DepositStakeTx tx p)
    let ?k = "to_stake_key (blake2s (nl_ext L)) (dep_to_staked_account tx)"
    from assms(3) consider (new) "acc_get_one L accs root ?k = Ok None" "ask_enclave L e txaux None info = Ok (e', Ok (fee, Some s))"
      | (old) a where "acc_get_one L accs root ?k = Ok (Some a)" "ask_enclave L e txaux (Some a) info = Ok (e', Ok (fee, Some s))"
      by (auto simp: DepositStakeTx verify_def get_account_Ok_iff split: sum.split_asm if_split_asm)
    then show ?thesis
    proof cases
      case new
      with ask [OF new(2)] show ?thesis by (auto simp: DepositStakeTx tx_key_def staked_state_key_def)
    next
      case old
      with assms(2) have "staked_wf a" "staked_state_key (blake2s (nl_ext L)) a = ?k" by (auto simp: accounts_ok_def)
      with old ask [OF old(2)] show ?thesis
        by (simp add: DepositStakeTx tx_key_def staked_state_key_def next_account_def)
    qed
  next
    case (UnbondStakeTx tx w)
    then obtain addr a where a: "verify_tx_recover_address (nl_ext L) w (unbond_id (nl_ext L) tx) = Ok addr"
      "acc_get_one L accs root (to_stake_key (blake2s (nl_ext L)) addr) = Ok (Some a)" "verify_unbonding tx info a = Ok (Ok (fee, Some s))"
      using assms(3) by (auto simp: verify_def get_account_Ok_iff result_simps split: sum.split_asm)
    with assms(2) have "staked_wf a" "staked_state_key (blake2s (nl_ext L)) a = to_stake_key (blake2s (nl_ext L)) addr"
      by (auto simp: accounts_ok_def)
    moreover from this a(3) have "next_account (Some a) s"
      by (auto simp: verify_unbonding_Ok_iff unbond_Ok_iff next_account_def staked_wf_def coin_wf_amount)
    ultimately show ?thesis using a by (simp add: UnbondStakeTx tx_key_def staked_state_key_def next_account_def)
  next
    case (WithdrawUnbondedStakeTx i n w p)
    then obtain addr a where a: "verify_tx_recover_address (nl_ext L) w i = Ok addr"
      "acc_get_one L accs root (to_stake_key (blake2s (nl_ext L)) addr) = Ok (Some a)"
      "ask_enclave L e txaux (Some a) info = Ok (e', Ok (fee, Some s))"
      using assms(3) by (auto simp: verify_def get_account_Ok_iff split: sum.split_asm)
    with assms(2) have "staked_wf a" "staked_state_key (blake2s (nl_ext L)) a = to_stake_key (blake2s (nl_ext L)) addr"
      by (auto simp: accounts_ok_def)
    with a ask [OF a(3)] show ?thesis
      by (simp add: WithdrawUnbondedStakeTx tx_key_def staked_state_key_def next_account_def)
  qed
qed

text \<open>The accounts after an accepted transaction.\<close>

lemma update_account_Ok_iff:
  "update_account L a r accs = Ok (accs', r', m) \<longleftrightarrow> m = Some a \<and>
   acc_insert_one L accs (Some r) (staked_state_key (blake2s (nl_ext L)) a) a = (accs', Ok r')"
  by (cases "acc_insert_one L accs (Some r) (staked_state_key (blake2s (nl_ext L)) a) a")
    (auto simp: update_account_def result_simps)

text \<open>Only the touched account changes, by one more operation.\<close>

definition account_step :: "Ext \<Rightarrow> TxAux \<Rightarrow> (H256 \<Rightarrow> unit + StakedState option) \<Rightarrow> (H256 \<Rightarrow> unit + StakedState option) \<Rightarrow> bool" where
  "account_step E txaux before after \<longleftrightarrow> (\<forall>k. if tx_key E txaux = Some k
     then \<exists>old s. before k = Ok old \<and> after k = Ok (Some s) \<and> next_account old s
     else after k = before k)"

lemma deliver_account:
  assumes "acc_laws L" "enclave_proxy (nl_ext L) (process_request L)"
    and "accounts_ok L (accounts app) (uncommitted_account_root_hash app)"
    and "accepts L app tx txaux st info fee acc v" "deliver_changes L app txaux acc = Ok (accs, root, macc, inittx)"
  obtains (none) "tx_key (nl_ext L) txaux = None" "macc = None" "accs = accounts app" "root = uncommitted_account_root_hash app"
  | (update) k old s where "tx_key (nl_ext L) txaux = Some k" "macc = Some s" "account_at L app k = Ok old" "next_account old s"
      "staked_state_key (blake2s (nl_ext L)) s = k" "acc_get_one L accs root k = Ok (Some s)"
      "\<And>k'. k' \<noteq> k \<Longrightarrow> acc_get_one L accs root k' = account_at L app k'"
proof (cases "\<exists>i ins n p. txaux = TransferTx i ins n p")
  case True
  with assms(5) show thesis by (intro none) (auto simp: deliver_changes_def tx_key_def result_simps)
next
  case False
  then obtain s where s: "acc = Some s" "macc = Some s"
    "acc_insert_one L (accounts app) (Some (uncommitted_account_root_hash app)) (staked_state_key (blake2s (nl_ext L)) s) s =
      (accs, Ok root)"
    using assms(5) by (cases txaux) (auto simp: deliver_changes_def update_account_Ok_iff result_simps)
  from assms(4) s(1) have "verify_now L app txaux info = Ok (v, Ok (fee, Some s))" by (simp add: accepts_def)
  from verify_account [OF assms(2,3) this] False obtain k old where
    k: "tx_key (nl_ext L) txaux = Some k" "account_at L app k = Ok old" "next_account old s"
      "staked_state_key (blake2s (nl_ext L)) s = k" by blast
  from assms(1) s(3) have "acc_get_one L accs root k = Ok (Some s)"
    "\<And>k'. k' \<noteq> k \<Longrightarrow> acc_get_one L accs root k' = account_at L app k'"
    unfolding acc_laws_def k(4) by blast+
  with k s(2) show thesis by (intro update)
qed

text \<open>The steps seen from the accounts.\<close>

lemma node_step_accounts:
  assumes "acc_laws L" "enclave_proxy (nl_ext L) (process_request L)"
    and "accounts_ok L (accounts app) (uncommitted_account_root_hash app)" "node_step L M app txs app'"
  obtains (same) "\<forall>tx \<in> set txs. tx_key (nl_ext L) tx = None" "accounts app' = accounts app"
      "uncommitted_account_root_hash app' = uncommitted_account_root_hash app"
  | (update) txaux k old s where "txs = [txaux]" "tx_key (nl_ext L) txaux = Some k" "account_at L app k = Ok old"
      "next_account old s" "staked_state_key (blake2s (nl_ext L)) s = k" "account_at L app' k = Ok (Some s)"
      "\<And>k'. k' \<noteq> k \<Longrightarrow> account_at L app' k' = account_at L app k'"
  using assms(4)
proof (cases rule: node_stepE)
  case (step_begin t)
  then show thesis by (intro same) (auto simp: begin_block_def result_simps)
next
  case (step_check tx resp)
  from step_check(2) obtain v where "app' = app\<lparr> tx_validator := v \<rparr>" by (rule check_tx_app)
  with step_check(1) show thesis by (intro same) simp_all
next
  case (step_deliver tx resp)
  from step_deliver(2) show thesis
  proof (cases rule: deliver_tx_cases)
    case (rejected v)
    with step_deliver(1) show thesis by (intro same) simp_all
  next
    case (accepted txaux fee acc st info v accs root macc inittx pool fltr pending)
    then have app': "txs = [txaux]" "accounts app' = accs" "uncommitted_account_root_hash app' = root"
      using step_deliver(1) by simp_all
    from assms(1-3) accepted(1,2) show thesis
    proof (cases rule: deliver_account)
      case none
      with app' show thesis by (intro same) simp_all
    next
      case (update k old s)
      with app' show thesis by (intro that(2)) simp_all
    qed
  qed
next
  case (step_end height ebr)
  from step_end(2) obtain st us pws where
    "app' = app\<lparr> app_filter := filter_default (nl_bloom L), validator_voting_power := pws, power_changed_in_block := [],
       last_state := Some (st\<lparr> cns_last_block_height := height \<rparr>) \<rparr>" by (rule end_block_app)
  with step_end(1) show thesis by (intro same) simp_all
next
  case (step_commit h)
  from step_commit(2) obtain st db v where
    "app' = app\<lparr> storage_db := db, tx_validator := v, last_state := Some (committed_state L app st), delivered_txs := [] \<rparr>"
    by (rule commit_handler_cases)
  with step_commit(1) show thesis by (intro same) simp_all
qed

lemma node_step_accounts_ok:
  assumes "acc_laws L" "enclave_proxy (nl_ext L) (process_request L)" "node_step L M app txs app'"
    and "accounts_ok L (accounts app) (uncommitted_account_root_hash app)"
  shows "accounts_ok L (accounts app') (uncommitted_account_root_hash app')"
proof (rule node_step_accounts [OF assms(1,2,4,3)])
  assume "accounts app' = accounts app" "uncommitted_account_root_hash app' = uncommitted_account_root_hash app"
  with assms(4) show ?thesis by simp
next
  fix txaux k old s
  assume new: "account_at L app' k = Ok (Some s)" "next_account old s" "staked_state_key (blake2s (nl_ext L)) s = k"
    and other: "\<And>k'. k' \<noteq> k \<Longrightarrow> account_at L app' k' = account_at L app k'"
  show ?thesis
    unfolding accounts_ok_def
  proof (intro allI impI)
    fix k' a
    assume "account_at L app' k' = Ok (Some a)"
    with new other [of k'] assms(4) show "staked_state_key (blake2s (nl_ext L)) a = k' \<and> staked_wf a"
      by (cases "k' = k") (auto simp: accounts_ok_def next_account_def)
  qed
qed

lemma node_run_accounts_ok:
  assumes "acc_laws L" "enclave_proxy (nl_ext L) (process_request L)" "node_run L M app txs app'"
    and "accounts_ok L (accounts app) (uncommitted_account_root_hash app)"
  shows "accounts_ok L (accounts app') (uncommitted_account_root_hash app')"
  using assms(3,4) by (induction rule: node_run.induct) (auto intro: node_step_accounts_ok [OF assms(1,2)])

section \<open>Nonces\<close>

definition touches :: "Ext \<Rightarrow> H256 \<Rightarrow> TxAux list \<Rightarrow> nat" where
  "touches E k txs = length (filter (\<lambda>tx. tx_key E tx = Some k) txs)"

lemma touches_simps [simp]:
  "touches E k [] = 0" "touches E k (xs @ ys) = touches E k xs + touches E k ys"
  "touches E k (x # xs) = (if tx_key E x = Some k then 1 else 0) + touches E k xs"
  by (simp_all add: touches_def)

lemma touches_none: "\<forall>tx \<in> set txs. tx_key E tx = None \<Longrightarrow> touches E k txs = 0"
  by (simp add: touches_def)

lemma node_step_nonce:
  assumes "acc_laws L" "enclave_proxy (nl_ext L) (process_request L)"
    and "accounts_ok L (accounts app) (uncommitted_account_root_hash app)" "node_step L M app txs app'"
    and "account_at L app k = Ok (Some a)"
  shows "\<exists>a'. account_at L app' k = Ok (Some a') \<and> nonce a' = nonce a + of_nat (touches (nl_ext L) k txs) \<and> address a' = address a"
proof (rule node_step_accounts [OF assms(1-4)])
  assume "\<forall>tx \<in> set txs. tx_key (nl_ext L) tx = None" "accounts app' = accounts app"
    "uncommitted_account_root_hash app' = uncommitted_account_root_hash app"
  with assms(5) show ?thesis by (simp add: touches_none)
next
  fix txaux k' old s
  assume "txs = [txaux]" "tx_key (nl_ext L) txaux = Some k'" "account_at L app k' = Ok old" "next_account old s"
    "account_at L app' k' = Ok (Some s)" "\<And>k. k \<noteq> k' \<Longrightarrow> account_at L app' k = account_at L app k"
  with assms(5) show ?thesis by (cases "k = k'") (auto simp: next_account_def)
qed

lemma node_run_nonce:
  assumes "acc_laws L" "enclave_proxy (nl_ext L) (process_request L)" "node_run L M app txs app'"
    and "accounts_ok L (accounts app) (uncommitted_account_root_hash app)" "account_at L app k = Ok (Some a)"
  shows "\<exists>a'. account_at L app' k = Ok (Some a') \<and> nonce a' = nonce a + of_nat (touches (nl_ext L) k txs) \<and> address a' = address a"
  using assms(3-5)
proof (induction rule: node_run.induct)
  case (run_step app txs app1 txs' app2)
  then obtain a1 where a1: "account_at L app1 k = Ok (Some a1)" "nonce a1 = nonce a + of_nat (touches (nl_ext L) k txs)"
    "address a1 = address a" by blast
  have "accounts_ok L (accounts app1) (uncommitted_account_root_hash app1)"
    using node_run_accounts_ok [OF assms(1,2) run_step.hyps(1) run_step.prems(1)] .
  from node_step_nonce [OF assms(1,2) this run_step.hyps(2) a1(1)] a1(2,3) show ?case
    by (auto simp: add.assoc)
qed simp

text \<open>An accepted unbonding carries the nonce of its account.\<close>

lemma unbond_step_nonce:
  assumes "node_step L M app [UnbondStakeTx tx w] app'"
  obtains k a where "tx_key (nl_ext L) (UnbondStakeTx tx w) = Some k" "account_at L app k = Ok (Some a)" "nonce a = unb_nonce tx"
  using assms
proof (cases rule: node_step_cases)
  case (deliver t txaux st info fee acc v accs root macc inittx)
  then have "verify_now L app (UnbondStakeTx tx w) info = Ok (v, Ok (fee, acc))" by (simp add: accepts_def)
  then show thesis
    by (auto simp: verify_def tx_key_def get_account_Ok_iff verify_unbonding_Ok_iff result_simps
        split: sum.split_asm intro: that)
qed simp_all

section \<open>Validators\<close>

definition validators_ok :: "('db, 'acc, 'enc, 'bl) ChainNodeApp \<Rightarrow> bool" where
  "validators_ok app \<longleftrightarrow>
     bt_ok (validator_voting_power app) \<and> bt_ok (validator_pubkeys app) \<and> bt_ok (power_changed_in_block app) \<and>
     (\<forall>a. bt_get (power_changed_in_block app) a \<noteq> None \<longrightarrow> bt_get (validator_voting_power app) a \<noteq> None) \<and>
     (\<forall>a. bt_get (validator_voting_power app) a \<noteq> None \<longrightarrow> bt_get (validator_pubkeys app) a \<noteq> None)"

lemma validator_updates_spec:
  assumes "bt_ok pws" "distinct (map fst pend)"
    and "\<forall>(a, p) \<in> set pend. bt_get pws a \<noteq> None \<and> bt_get keys a \<noteq> None"
  shows "\<exists>us pws'. validator_updates keys pend pws = Ok (us, pws') \<and> bt_ok pws' \<and>
    (\<forall>a. bt_get pws' a = (case map_of pend a of Some p \<Rightarrow> Some p | None \<Rightarrow> bt_get pws a)) \<and>
    (\<forall>p pk. (p, pk) \<in> set us \<longleftrightarrow> (\<exists>a new. map_of pend a = Some new \<and> bt_get pws a \<noteq> Some new \<and>
       p = vp_i64 new \<and> bt_get keys a = Some pk))"
  using assms
proof (induction pend arbitrary: pws)
  case (Cons e pend)
  obtain a new where e: "e = (a, new)" by (cases e)
  from Cons.prems obtain old pk where o: "bt_get pws a = Some old" "bt_get keys a = Some pk"
    by (auto simp: e)
  let ?pws = "bt_insert a new pws"
  have get: "bt_get ?pws b = (if b = a then Some new else bt_get pws b)" for b
    by (simp add: bt_get_insert [OF Cons.prems(1)])
  have fresh: "a \<notin> fst ` set pend" "map_of pend a = None" using Cons.prems(2) by (auto simp: e map_of_eq_None_iff)
  have "\<forall>(b, p) \<in> set pend. bt_get ?pws b \<noteq> None \<and> bt_get keys b \<noteq> None"
    using Cons.prems(3) by (auto simp: get)
  from Cons.IH [OF bt_ok_insert [OF Cons.prems(1)] _ this] Cons.prems(2) obtain us pws' where
    ih: "validator_updates keys pend ?pws = Ok (us, pws')" "bt_ok pws'"
      "\<And>b. bt_get pws' b = (case map_of pend b of Some p \<Rightarrow> Some p | None \<Rightarrow> bt_get ?pws b)"
      "\<And>p pk. (p, pk) \<in> set us \<longleftrightarrow> (\<exists>b new. map_of pend b = Some new \<and> bt_get ?pws b \<noteq> Some new \<and>
         p = vp_i64 new \<and> bt_get keys b = Some pk)"
    by auto
  let ?u = "if old \<noteq> new then [(vp_i64 new, pk)] else []"
  have "validator_updates keys (e # pend) pws = Ok (?u @ us, pws')"
    by (simp add: e o ih(1))
  moreover have "bt_get pws' b = (case map_of (e # pend) b of Some p \<Rightarrow> Some p | None \<Rightarrow> bt_get pws b)" for b
    using fresh by (auto simp: ih(3) get e split: option.split)
  moreover have "(p, q) \<in> set (?u @ us) \<longleftrightarrow> (\<exists>b n. map_of (e # pend) b = Some n \<and> bt_get pws b \<noteq> Some n \<and>
       p = vp_i64 n \<and> bt_get keys b = Some q)" for p q
  proof -
    have "(p, q) \<in> set us \<longleftrightarrow> (\<exists>b n. b \<noteq> a \<and> map_of pend b = Some n \<and> bt_get pws b \<noteq> Some n \<and> p = vp_i64 n \<and> bt_get keys b = Some q)"
      unfolding ih(4) get using fresh(2) by (metis option.distinct(1))
    then show ?thesis using o by (auto simp: e)
  qed
  ultimately show ?case using ih(2) by blast
qed simp

lemma end_block_ok:
  assumes "validators_ok app" "last_state app = Some st"
  shows "\<exists>app' r. end_block L app h = Ok (app', r) \<and> power_changed_in_block app' = [] \<and>
    validator_pubkeys app' = validator_pubkeys app \<and> bt_ok (validator_voting_power app') \<and>
    (\<forall>a. bt_get (validator_voting_power app') a = (case bt_get (power_changed_in_block app) a of
       Some p \<Rightarrow> Some p | None \<Rightarrow> bt_get (validator_voting_power app) a)) \<and>
    (\<forall>p pk. (p, pk) \<in> set (eb_validator_updates r) \<longleftrightarrow> (\<exists>a new. bt_get (power_changed_in_block app) a = Some new \<and>
       bt_get (validator_voting_power app) a \<noteq> Some new \<and> p = vp_i64 new \<and> bt_get (validator_pubkeys app) a = Some pk))"
proof -
  have d: "distinct (map fst (power_changed_in_block app))"
    by (rule bt_ok_distinct) (use assms(1) in \<open>simp add: validators_ok_def\<close>)
  have "bt_get (validator_voting_power app) a \<noteq> None \<and> bt_get (validator_pubkeys app) a \<noteq> None"
    if "(a, p) \<in> set (power_changed_in_block app)" for a p
  proof -
    from that d have "bt_get (power_changed_in_block app) a = Some p" by (simp add: bt_get_def)
    then show ?thesis using assms(1) by (simp add: validators_ok_def)
  qed
  then have all: "\<forall>(a, p) \<in> set (power_changed_in_block app).
      bt_get (validator_voting_power app) a \<noteq> None \<and> bt_get (validator_pubkeys app) a \<noteq> None" by blast
  have "bt_ok (validator_voting_power app)" using assms(1) by (simp add: validators_ok_def)
  from validator_updates_spec [OF this d all] obtain us pws where
    u: "validator_updates (validator_pubkeys app) (power_changed_in_block app) (validator_voting_power app) = Ok (us, pws)"
      "bt_ok pws"
      "\<forall>a. bt_get pws a = (case bt_get (power_changed_in_block app) a of Some p \<Rightarrow> Some p | None \<Rightarrow> bt_get (validator_voting_power app) a)"
      "\<forall>p pk. (p, pk) \<in> set us \<longleftrightarrow> (\<exists>a new. bt_get (power_changed_in_block app) a = Some new \<and>
         bt_get (validator_voting_power app) a \<noteq> Some new \<and> p = vp_i64 new \<and> bt_get (validator_pubkeys app) a = Some pk)"
    unfolding bt_get_def by blast
  then show ?thesis by (simp add: end_block_def Let_def assms(2))
qed

lemma power_change_ok:
  assumes "power_change pws st m pend = Ok pend'" "bt_ok pend"
    and "\<forall>a. bt_get pend a \<noteq> None \<longrightarrow> bt_get pws a \<noteq> None"
  shows "bt_ok pend' \<and> (\<forall>a. bt_get pend' a \<noteq> None \<longrightarrow> bt_get pws a \<noteq> None)"
proof (cases m)
  case (Some s)
  have ins: "bt_ok (bt_insert (address s) p pend) \<and>
      (\<forall>a. bt_get (bt_insert (address s) p pend) a \<noteq> None \<longrightarrow> bt_get pws a \<noteq> None)"
    if "bt_get pws (address s) \<noteq> None" for p
    using that assms(2,3) by (simp add: bt_get_insert [OF assms(2)] bt_ok_insert)
  show ?thesis
  proof (cases "bt_get pws (address s)")
    case None
    with assms Some show ?thesis by (simp add: power_change_def)
  next
    case (Some old)
    from assms(1) \<open>m = Some s\<close> Some have "pend' = pend \<or> (\<exists>p. pend' = bt_insert (address s) p pend)"
      by (auto simp: power_change_def result_simps split: if_split_asm)
    with ins Some assms(2,3) show ?thesis by auto
  qed
qed (use assms in \<open>simp add: power_change_def\<close>)

lemma node_step_validators:
  assumes "node_step L M app txs app'" "validators_ok app"
  shows "validators_ok app'"
  using assms(1)
proof (cases rule: node_stepE)
  case (step_begin t)
  then show ?thesis using assms(2) by (auto simp: begin_block_def result_simps validators_ok_def)
next
  case (step_check tx resp)
  from step_check(2) obtain v where "app' = app\<lparr> tx_validator := v \<rparr>" by (rule check_tx_app)
  with assms(2) show ?thesis by (simp add: validators_ok_def)
next
  case (step_deliver tx resp)
  from step_deliver(2) show ?thesis
  proof (cases rule: deliver_tx_cases)
    case (rejected v)
    with assms(2) show ?thesis by (simp add: validators_ok_def)
  next
    case (accepted txaux fee acc st info v accs root macc inittx pool fltr pending)
    with power_change_ok [OF accepted(5)] assms(2) show ?thesis by (simp add: validators_ok_def)
  qed
next
  case (step_end height ebr)
  from step_end(2) obtain st where "last_state app = Some st" by (rule end_block_app)
  from end_block_ok [OF assms(2) this, of L height] step_end(2) assms(2) show ?thesis
    by (auto simp: validators_ok_def bt_get_def split: option.split_asm)
next
  case (step_commit h)
  from step_commit(2) obtain st db v where
    "app' = app\<lparr> storage_db := db, tx_validator := v, last_state := Some (committed_state L app st), delivered_txs := [] \<rparr>"
    by (rule commit_handler_cases)
  with assms(2) show ?thesis by (simp add: validators_ok_def)
qed

lemma node_run_validators:
  assumes "node_run L M app txs app'" "validators_ok app"
  shows "validators_ok app'"
  using assms by (induction rule: node_run.induct) (auto intro: node_step_validators)

text \<open>The state of the chain, once there, stays there; without it a block cannot end.\<close>

lemma node_step_state:
  assumes "node_step L M app txs app'" "last_state app \<noteq> None"
  shows "last_state app' \<noteq> None"
  using assms(1)
proof (cases rule: node_stepE)
  case (step_begin t)
  then show ?thesis using assms(2) by (auto simp: begin_block_def result_simps)
next
  case (step_check tx resp)
  from step_check(2) obtain v where "app' = app\<lparr> tx_validator := v \<rparr>" by (rule check_tx_app)
  with assms(2) show ?thesis by simp
next
  case (step_deliver tx resp)
  from step_deliver(2) show ?thesis by (cases rule: deliver_tx_cases) (use assms(2) in simp_all)
next
  case (step_end height ebr)
  from step_end(2) show ?thesis by (rule end_block_app) simp
next
  case (step_commit h)
  from step_commit(2) show ?thesis by (rule commit_handler_cases) simp
qed

lemma node_run_state: "\<lbrakk> node_run L M app txs app'; last_state app \<noteq> None \<rbrakk> \<Longrightarrow> last_state app' \<noteq> None"
  by (induction rule: node_run.induct) (auto dest: node_step_state)

lemma end_block_no_state:
  assumes "validators_ok app" "last_state app = None"
  shows "end_block L app h = Err (Panic ''executing end block, but no app state stored'')"
proof -
  from end_block_ok [of "app\<lparr> last_state := Some undefined \<rparr>" undefined L h] assms(1) obtain us pws where
    "validator_updates (validator_pubkeys app) (power_changed_in_block app) (validator_voting_power app) = Ok (us, pws)"
    by (auto simp: validators_ok_def elim!: end_block_app)
  then show ?thesis by (simp add: end_block_def Let_def assms(2))
qed

section \<open>Starting\<close>

text \<open>The application as it is after a start, and possibly after the initialisation of the chain.\<close>

inductive node_start ::
    "('db, 'acc, 'enc, 'bl) NodeLib \<Rightarrow> AppLib \<Rightarrow> string \<Rightarrow> string \<Rightarrow> ('db, 'acc, 'enc, 'bl) ChainNodeApp \<Rightarrow> bool"
    for L M gah chain_id where
  start_new: "new_with_storage L M v gah chain_id db accs = Ok app \<Longrightarrow> node_start L M gah chain_id app"
| start_init: "\<lbrakk> node_start L M gah chain_id app; init_chain_handler L M app req = Ok (app', vs) \<rbrakk> \<Longrightarrow>
    node_start L M gah chain_id app'"

lemma validator_mapping_ok:
  assumes "validator_mapping_loop L accs st nodes pws keys = Ok (pws', keys')" "bt_ok pws" "bt_ok keys"
    and "\<forall>a. bt_get pws a \<noteq> None \<longrightarrow> bt_get keys a \<noteq> None"
  shows "bt_ok pws' \<and> bt_ok keys' \<and> (\<forall>a. bt_get pws' a \<noteq> None \<longrightarrow> bt_get keys' a \<noteq> None)"
  using assms
proof (induction nodes arbitrary: pws keys)
  case (Cons node nodes)
  let ?a = "staking_account_address node"
  from Cons.prems(1) obtain p where
    "validator_mapping_loop L accs st nodes (bt_insert ?a p pws) (bt_insert ?a (get_validator_key node) keys) = Ok (pws', keys')"
    by (auto simp: Let_def result_simps)
  from Cons.IH [OF this] Cons.prems(2-4) show ?case
    by (simp add: bt_ok_insert bt_get_insert)
qed simp

lemma init_validators_ok:
  assumes "init_validators dist nodes keys = Ok (vs, keys')" "bt_ok keys"
  shows "bt_ok keys' \<and> (\<forall>a. bt_get keys a \<noteq> None \<longrightarrow> bt_get keys' a \<noteq> None)"
  using assms
proof (induction nodes arbitrary: keys vs)
  case (Cons node nodes)
  let ?a = "staking_account_address node"
  from Cons.prems(1) obtain ws where
    "init_validators dist nodes (bt_insert ?a (get_validator_key node) keys) = Ok (ws, keys')"
    by (auto simp: Let_def result_simps)
  from Cons.IH [OF this] Cons.prems(2) show ?case
    by (simp add: bt_ok_insert bt_get_insert)
qed simp

lemma init_chain_cases:
  assumes "init_chain_handler L M app req = Ok (app', vs)"
  obtains conf t accs rp nodes trie root keys db st where
    "ric_time req = Some t" "parse_init_config M (ric_app_state_bytes req) = Ok conf"
    "validate_config_get_genesis (app_text M) conf t = Ok (Ok (accs, rp, nodes))"
    "acc_insert L (accounts app) None (map (staked_state_key (blake2s (nl_ext L))) accs) accs = (trie, Ok root)"
    "app_genesis_app_hash app = compute_app_hash (nl_ext L) merkle_empty root rp"
    "init_validators (distribution conf) nodes (validator_pubkeys app) = Ok (vs, keys)"
    "st = chain_node_state_genesis (app_genesis_app_hash app) t root rp (network_params conf) nodes"
    "\<exists>more. (more = [] \<or> (\<exists>b. more = [(COL_EXTRA, ascii ''init_chain_consensus_params'', b)])) \<and>
       kv_write L (storage_db app) (more @ [(COL_NODE_INFO, LAST_STATE_KEY, enc (c_node_state M) st),
         (COL_EXTRA, ascii ''init_chain_state'', enc (c_node_state M) st)]) = (db, Ok ())"
    "app' = app\<lparr> storage_db := db, accounts := trie, validator_pubkeys := keys,
       uncommitted_account_root_hash := root, last_state := Some st \<rparr>"
proof -
  from assms obtain t conf res where c0: "ric_time req = Some t"
    "parse_init_config M (ric_app_state_bytes req) = Ok conf" "validate_config_get_genesis (app_text M) conf t = Ok res"
    by (auto simp: init_chain_handler_def result_simps)
  with assms obtain accs rp nodes where "res = Ok (accs, rp, nodes)"
    by (cases res) (auto simp: init_chain_handler_def)
  with c0 have c: "ric_time req = Some t" "parse_init_config M (ric_app_state_bytes req) = Ok conf"
    "validate_config_get_genesis (app_text M) conf t = Ok (Ok (accs, rp, nodes))" by simp_all
  obtain trie r where i: "acc_insert L (accounts app) None (map (staked_state_key (blake2s (nl_ext L))) accs) accs = (trie, r)"
    by (cases "acc_insert L (accounts app) None (map (staked_state_key (blake2s (nl_ext L))) accs) accs")
  from assms c i obtain root where root: "r = Ok root" "app_genesis_app_hash app = compute_app_hash (nl_ext L) merkle_empty root rp"
    by (auto simp: init_chain_handler_def Let_def result_simps split: if_split_asm)
  define st where "st = chain_node_state_genesis (compute_app_hash (nl_ext L) merkle_empty root rp) t root rp (network_params conf) nodes"
  have r: "last_account_root_hash st = root" by (simp add: st_def chain_node_state_genesis_def)
  from assms c i root obtain more keys db where
    "init_validators (distribution conf) nodes (validator_pubkeys app) = Ok (vs, keys)"
    "check_and_store_consensus_params (ric_consensus_params req) [] = Ok more"
    "kv_write L (storage_db app) (more @ [(COL_NODE_INFO, LAST_STATE_KEY, enc (c_node_state M) st),
       (COL_EXTRA, ascii ''init_chain_state'', enc (c_node_state M) st)]) = (db, Ok ())"
    "app' = app\<lparr> storage_db := db, accounts := trie, validator_pubkeys := keys,
       uncommitted_account_root_hash := root, last_state := Some st \<rparr>"
    by (auto simp: init_chain_handler_def Let_def result_simps store_valid_genesis_state_def write_case_Ok
        st_def [symmetric] r split: if_split_asm)
  moreover from this(2) have "more = [] \<or> (\<exists>b. more = [(COL_EXTRA, ascii ''init_chain_consensus_params'', b)])"
    by (auto simp: check_and_store_consensus_params_def result_simps split: option.split_asm)
  ultimately show thesis using c i root st_def by (intro that) auto
qed

lemma init_chain_state: "init_chain_handler L M app req = Ok (app', vs) \<Longrightarrow> last_state app' \<noteq> None"
  by (erule init_chain_cases) simp

lemma new_with_storage_cases:
  assumes "new_with_storage L M v gah chain_id db accs = Ok app"
  obtains (fresh) h hex v' db' where "kv_get L db COL_NODE_INFO LAST_STATE_KEY = Ok None"
      "hex_decode (app_text M) gah = Ok h" "length h = 32" "chain_hex_id_of (app_text M) chain_id = Ok hex"
      "kv_write L db [(COL_NODE_INFO, GENESIS_APP_HASH_KEY, h), (COL_EXTRA, CHAIN_ID_KEY, ascii chain_id)] = (db', Ok ())"
      "app = \<lparr> storage_db = db', accounts = accs, delivered_txs = [], app_filter = filter_default (nl_bloom L),
         uncommitted_account_root_hash = replicate 32 0, app_genesis_app_hash = h, app_chain_hex_id = hex, last_state = None,
         validator_voting_power = [], validator_pubkeys = [], power_changed_in_block = [], tx_validator = v' \<rparr>"
  | (restored) data st rest v' h where "kv_get L db COL_NODE_INFO LAST_STATE_KEY = Ok (Some data)"
      "hex_decode (app_text M) gah = Ok h" "length h = 32"
      "dec (c_node_state M) data = Ok (st, rest)" "restore_from_storage L M v' st h chain_id db accs = Ok app"
proof -
  from assms obtain h hex found where c: "hex_decode (app_text M) gah = Ok h" "copy_hash h = Ok h" "length h = 32"
    "chain_hex_id_of (app_text M) chain_id = Ok hex" "kv_get L db COL_NODE_INFO LAST_STATE_KEY = Ok found"
    by (auto simp: new_with_storage_def copy_hash_def result_simps split: if_split_asm)
  show thesis
  proof (cases found)
    case None
    let ?w = "kv_write L db [(COL_NODE_INFO, GENESIS_APP_HASH_KEY, h), (COL_EXTRA, CHAIN_ID_KEY, ascii chain_id)]"
    obtain db' r where "?w = (db', r)" by (cases ?w)
    with assms c None show thesis by (auto simp: new_with_storage_def result_simps intro: fresh)
  next
    case (Some data)
    with assms c show thesis by (auto simp: new_with_storage_def result_simps intro: restored)
  qed
qed

lemma node_start_ok: "node_start L M gah chain_id app \<Longrightarrow> validators_ok app \<and> delivered_txs app = []"
proof (induction rule: node_start.induct)
  case (start_new v db accs app)
  then show ?case
  proof (cases rule: new_with_storage_cases)
    case fresh
    then show ?thesis by (simp add: validators_ok_def bt_get_def)
  next
    case (restored data st rest v' h)
    then obtain pws keys where m: "validator_mapping_loop L accs st (cns_council_nodes st) [] [] = Ok (pws, keys)"
      "validator_voting_power app = pws" "validator_pubkeys app = keys" "power_changed_in_block app = []" "delivered_txs app = []"
      by (auto simp: restore_from_storage_def get_validator_mapping_def result_simps split: if_split_asm)
    from validator_mapping_ok [OF m(1)] m(2-) show ?thesis by (simp add: validators_ok_def bt_get_def)
  qed
next
  case (start_init app req app' vs)
  from start_init.hyps(2) obtain conf :: InitConfig and nodes keys db trie root st where
    k: "init_validators (distribution conf) nodes (validator_pubkeys app) = Ok (vs, keys)"
    and app': "app' = app\<lparr> storage_db := db, accounts := trie, validator_pubkeys := keys,
       uncommitted_account_root_hash := root, last_state := Some st \<rparr>" by (rule init_chain_cases)
  from init_validators_ok [OF k] start_init.IH show ?case by (simp add: app' validators_ok_def)
qed

lemma init_chain_accounts_ok:
  assumes "acc_laws L" "init_chain_handler L M app req = Ok (app', vs)"
  shows "accounts_ok L (accounts app') (uncommitted_account_root_hash app')"
proof -
  from assms(2) obtain conf t accs rp nodes trie root keys db st where
    v: "validate_config_get_genesis (app_text M) conf t = Ok (Ok (accs, rp, nodes))"
    and i: "acc_insert L (accounts app) None (map (staked_state_key (blake2s (nl_ext L))) accs) accs = (trie, Ok root)"
    and app': "app' = app\<lparr> storage_db := db, accounts := trie, validator_pubkeys := keys,
       uncommitted_account_root_hash := root, last_state := Some st \<rparr>" by (rule init_chain_cases)
  have "staked_wf a" if "a \<in> set accs" for a
    using genesis_accounts_wf [OF v] that by blast
  moreover have "a \<in> set accs \<and> k = staked_state_key (blake2s (nl_ext L)) a"
    if "(k, a) \<in> set (zip (map (staked_state_key (blake2s (nl_ext L))) accs) accs)" for k a
    using that by (auto simp: set_zip)
  moreover have "(k, a) \<in> set (zip (map (staked_state_key (blake2s (nl_ext L))) accs) accs)"
    if "acc_get_one L trie root k = Ok (Some a)" for k a
    using assms(1) i that unfolding acc_laws_def by blast
  ultimately have "staked_state_key (blake2s (nl_ext L)) a = k \<and> staked_wf a" if "acc_get_one L trie root k = Ok (Some a)" for k a
    using that by blast
  then show ?thesis by (simp add: app' accounts_ok_def)
qed

lemma sample_mock_genesis:
  "node_start mem_node mem_app (hex_encode sample_text sample_genesis_hash) sample_chain_id (sample_genesis (mock_new 0))"
proof -
  have "mock_process_request sample_ext sample_scale (mock_new 0) (CheckChain 0 None) = Ok (mock_new 0, RespCheckChain (Ok ()))"
    by (simp add: mock_process_request_def mock_new_def)
  from start_new [OF sample_start [of "mock_process_request sample_ext sample_scale" "mock_new 0", OF this]]
    sample_init_chain [of "mock_process_request sample_ext sample_scale" "mock_new 0"]
  show ?thesis by (blast intro: start_init)
qed

lemma sample_accounts_ok: "accounts_ok mem_node (accounts sample_app) (uncommitted_account_root_hash sample_app)"
  using sample_account_wf(1)
  by (auto simp: accounts_ok_def sample_app_def mem_get_one_def version_def staked_state_key_def sample_owner_def staked_wf_def
      sample_ext_def split: if_split_asm)

section \<open>Fees\<close>

lemma accepts_fee:
  assumes "enclave_proxy (nl_ext L) (process_request L)" "accepts L app tx txaux st info fee acc v"
  shows "min_fee info \<le> amount (to_coin fee)"
proof -
  have ask: "min_fee info \<le> amount (to_coin fee)" if "ask_enclave L e txaux macc info = Ok (v, Ok (fee, acc))" for e macc
    using enclave_proxy.accepted_fee [OF assms(1) ask_enclave_Ok [OF that]] .
  from assms(2) have "verify_now L app txaux info = Ok (v, Ok (fee, acc))" by (simp add: accepts_def)
  then show ?thesis
    by (cases txaux)
      (auto simp: verify_def result_simps verify_unbonding_Ok_iff intro: ask split: sum.split_asm if_split_asm)
qed

text \<open>No validator has a known power.\<close>

definition no_powers :: "('db, 'acc, 'enc, 'bl) ChainNodeApp \<Rightarrow> bool" where
  "no_powers app \<longleftrightarrow> validator_voting_power app = [] \<and> power_changed_in_block app = []"

lemma node_step_no_powers:
  assumes "node_step L M app txs app'" "no_powers app"
  shows "no_powers app'"
  using assms(1)
proof (cases rule: node_stepE)
  case (step_begin t)
  then show ?thesis using assms(2) by (auto simp: begin_block_def result_simps no_powers_def)
next
  case (step_check tx resp)
  from step_check(2) obtain v where "app' = app\<lparr> tx_validator := v \<rparr>" by (rule check_tx_app)
  with assms(2) show ?thesis by (simp add: no_powers_def)
next
  case (step_deliver tx resp)
  from step_deliver(2) show ?thesis
  proof (cases rule: deliver_tx_cases)
    case (accepted txaux fee acc st info v accs root macc inittx pool fltr pending)
    then show ?thesis
      using assms(2) by (simp add: no_powers_def power_change_def bt_get_def split: option.split_asm)
  qed (use assms(2) in \<open>simp add: no_powers_def\<close>)
next
  case (step_end height ebr)
  from step_end(2) obtain st us pws where
    "validator_updates (validator_pubkeys app) (power_changed_in_block app) (validator_voting_power app) = Ok (us, pws)"
    "app' = app\<lparr> app_filter := filter_default (nl_bloom L), validator_voting_power := pws, power_changed_in_block := [],
       last_state := Some (st\<lparr> cns_last_block_height := height \<rparr>) \<rparr>" by (rule end_block_app)
  with assms(2) show ?thesis by (simp add: no_powers_def)
next
  case (step_commit h)
  from step_commit(2) obtain st db v where
    "app' = app\<lparr> storage_db := db, tx_validator := v, last_state := Some (committed_state L app st), delivered_txs := [] \<rparr>"
    by (rule commit_handler_cases)
  with assms(2) show ?thesis by (simp add: no_powers_def)
qed

lemma node_run_no_powers: "\<lbrakk> node_run L M app txs app'; no_powers app \<rbrakk> \<Longrightarrow> no_powers app'"
  by (induction rule: node_run.induct) (auto intro: node_step_no_powers)

section \<open>Properties\<close>

text \<open>
  C2: what \<open>deliver_tx\<close> does to outputs, accounts, fees and the block.  A rejected transaction leaves
  everything but the enclave as it was.  An accepted one had only unspent public inputs; it spends exactly these, replaces at most the
  one account it touches by the account after one more operation, pays at least the fee the policy asks
  for its size, all of it into the rewards pool, and is recorded for the block.
\<close>

theorem deliver_tx_effect:
  assumes "kv_laws L" "bits_laws L" "acc_laws L" "enclave_proxy (nl_ext L) (process_request L)"
    and "accounts_ok L (accounts app) (uncommitted_account_root_hash app)" "deliver_tx L app tx = Ok (app', resp)"
  shows "resp_code resp = 1 \<and> app' = app\<lparr> tx_validator := tx_validator app' \<rparr> \<or>
    resp_code resp = 0 \<and> (\<exists>txaux rest st fee min pool.
      decode_txaux (nl_scale L) tx = Ok (txaux, rest) \<and> delivered_txs app' = delivered_txs app @ [txaux] \<and>
      last_state app = Some st \<and> calculate_fee (fee_policy st) (of_nat (length tx)) = Ok min \<and>
      amount (to_coin min) \<le> amount (to_coin fee) \<and> amount pool = amount (remaining (rewards_pool st)) + amount (to_coin fee) \<and>
      last_state app' = Some (st\<lparr> rewards_pool := (rewards_pool st)\<lparr> remaining := pool \<rparr> \<rparr>) \<and>
      (\<forall>x \<in> set (public_inputs txaux). output_state L (storage_db app) x = Some False) \<and>
      (\<forall>x. output_state L (storage_db app') x =
         (if x \<in> set (public_inputs txaux) then Some True else output_state L (storage_db app) x)) \<and>
      account_step (nl_ext L) txaux (account_at L app) (account_at L app'))"
  using assms(6)
proof (cases rule: deliver_tx_cases)
  case (rejected v)
  then show ?thesis by simp
next
  case (accepted txaux fee acc st info v accs root macc inittx pool fltr pending)
  from accepted(1) obtain rest min where d: "decode_txaux (nl_scale L) tx = Ok (txaux, rest)" "last_state app = Some st"
    "calculate_fee (fee_policy st) (of_nat (length tx)) = Ok min" "info = chain_info_of app st min"
    by (auto simp: accepts_def)
  have fee: "amount (to_coin min) \<le> amount (to_coin fee)"
    using accepts_fee [OF assms(4) accepted(1)] by (simp add: d(4))
  have acc: "account_step (nl_ext L) txaux (account_at L app) (acc_get_one L accs root)"
    using assms(3-5) accepted(1,2)
  proof (cases rule: deliver_account)
    case (update k old s)
    then show ?thesis by (auto simp: account_step_def)
  qed (simp add: account_step_def)
  have "amount pool = amount (remaining (rewards_pool st)) + amount (to_coin fee)"
    using accepted(3) by (simp add: coin_add_Ok_iff)
  with d fee acc accepted(4,6) accepts_spends [OF accepted(1)] deliver_output_state [OF assms(1,2) accepted(1,2)]
  show ?thesis by auto
qed

theorem deliver_tx_effect_witness:
  "\<exists>resp. deliver_tx mem_node sample_app (encode_txaux sample_scale sample_deposit_aux) = Ok (sample_delivered, resp) \<and>
     resp_code resp = 0 \<and> output_state mem_node (storage_db sample_delivered) sample_pointer = Some True"
proof -
  from sample_deliver obtain resp where
    d: "deliver_tx mem_node sample_app (encode_txaux sample_scale sample_deposit_aux) = Ok (sample_delivered, resp)"
      "resp_code resp = 0" by blast
  have p: "public_inputs sample_deposit_aux = [sample_pointer]"
    by (simp add: public_inputs_def sample_deposit_aux_def sample_deposit_def deposit_bond_tx_new_def)
  from deliver_tx_effect [OF mem_kv_laws mem_bits_laws mem_acc_laws mem_proxy sample_accounts_ok d(1)] d sample_bytes_decode(1) p
  show ?thesis by (auto split: if_split_asm)
qed

text \<open>
  C9: in every state that calls of Tendermint reach from a start, the end of a block returns whenever
  there is a state of the chain; an initialisation creates one, and once there it stays.  The
  validator updates are exactly the pending changes that differ from the current voting power, with
  the public key known for the validator; the changes become the current powers and nothing stays
  pending.  Without a state of the chain the call panics, for that reason.
\<close>

theorem end_block_returns:
  assumes "node_start L M gah chain_id app0" "node_run L M app0 txs app"
  shows "(last_state app0 \<noteq> None \<longrightarrow> last_state app \<noteq> None) \<and>
   (\<forall>req app1 vs. init_chain_handler L M app req = Ok (app1, vs) \<longrightarrow> last_state app1 \<noteq> None) \<and> (case last_state app of
     None \<Rightarrow> end_block L app h = Err (Panic ''executing end block, but no app state stored'')
   | Some st \<Rightarrow> \<exists>app' r. end_block L app h = Ok (app', r) \<and> power_changed_in_block app' = [] \<and>
       last_state app' = Some (st\<lparr> cns_last_block_height := h \<rparr>) \<and>
       (\<forall>a. bt_get (validator_voting_power app') a = (case bt_get (power_changed_in_block app) a of
          Some p \<Rightarrow> Some p | None \<Rightarrow> bt_get (validator_voting_power app) a)) \<and>
       (\<forall>p pk. (p, pk) \<in> set (eb_validator_updates r) \<longleftrightarrow> (\<exists>a new. bt_get (power_changed_in_block app) a = Some new \<and>
          bt_get (validator_voting_power app) a \<noteq> Some new \<and> p = vp_i64 new \<and> bt_get (validator_pubkeys app) a = Some pk)))"
proof (cases "last_state app")
  case None
  with end_block_no_state [OF node_run_validators [OF assms(2)]] node_start_ok [OF assms(1)] node_run_state [OF assms(2)]
    init_chain_state
  show ?thesis by (cases "last_state app0") auto
next
  case (Some st)
  then have "end_block L app h = Ok (app', r) \<Longrightarrow> last_state app' = Some (st\<lparr> cns_last_block_height := h \<rparr>)" for app' r
    by (auto elim!: end_block_app)
  with Some end_block_ok [OF node_run_validators [OF assms(2)] Some, of L h] node_start_ok [OF assms(1)] init_chain_state
  show ?thesis by (simp only: option.case option.distinct simp_thms) blast
qed

theorem end_block_returns_witness:
  "\<exists>app' r. end_block mem_node (sample_genesis (mock_new 0)) 1 = Ok (app', r) \<and> power_changed_in_block app' = []"
proof -
  have st: "last_state (sample_genesis (mock_new 0)) = Some sample_genesis_state" by (simp add: sample_genesis_def)
  from sample_mock_genesis [THEN end_block_returns, OF run_stop, of 1] show ?thesis unfolding st option.case by blast
qed

text \<open>
  C7: from the initialisation of the chain on, every account that can be read is stored under the key
  of its address and holds valid amounts, and its nonce counts the accepted transactions that touch it,
  modulo the width of the nonce.
\<close>

theorem accounts_invariant:
  assumes "acc_laws L" "enclave_proxy (nl_ext L) (process_request L)" "init_chain_handler L M app0 req = Ok (app1, vs)"
    and "node_run L M app1 before app2" "account_at L app2 k = Ok (Some a)" "node_run L M app2 txs app3"
  shows "staked_wf a \<and> staked_state_key (blake2s (nl_ext L)) a = k \<and>
    (\<exists>a'. account_at L app3 k = Ok (Some a') \<and> address a' = address a \<and>
      nonce a' = nonce a + of_nat (touches (nl_ext L) k txs))"
proof -
  have ok: "accounts_ok L (accounts app2) (uncommitted_account_root_hash app2)"
    using node_run_accounts_ok [OF assms(1,2,4)] init_chain_accounts_ok [OF assms(1,3)] by blast
  then show ?thesis
    using assms(5) node_run_nonce [OF assms(1,2,6) ok assms(5)] unfolding accounts_ok_def by blast
qed

theorem accounts_invariant_witness:
  "staked_wf sample_node_account \<and>
   account_at mem_node (sample_genesis (mock_new 0)) (to_stake_key sample_digest (BasicRedeem (RedeemAddress [4]))) =
     Ok (Some sample_node_account)"
proof -
  obtain vs where i: "init_chain_handler mem_node mem_app (sample_fresh (mock_new 0)) sample_init = Ok (sample_genesis (mock_new 0), vs)"
    using sample_init_chain [of "mock_process_request sample_ext sample_scale" "mock_new 0"] by blast
  have k: "account_at mem_node (sample_genesis (mock_new 0)) (to_stake_key sample_digest (BasicRedeem (RedeemAddress [4]))) =
      Ok (Some sample_node_account)"
    by (simp add: sample_genesis_def mem_get_one_def version_def sample_node_key(1) [symmetric])
  from accounts_invariant [OF mem_acc_laws mem_proxy i run_stop k run_stop] k show ?thesis by blast
qed

text \<open>
  C10: an unbonding that was accepted is never accepted again: neither in the same block nor later,
  until the nonce of its account has gone once around.
\<close>

theorem unbond_not_replayed:
  assumes "acc_laws L" "enclave_proxy (nl_ext L) (process_request L)"
    and "accounts_ok L (accounts app1) (uncommitted_account_root_hash app1)"
    and "node_step L M app1 [UnbondStakeTx tx w] app2" "tx_key (nl_ext L) (UnbondStakeTx tx w) = Some k"
    and "node_run L M app2 txs app3" "touches (nl_ext L) k txs < 2 ^ 64 - 1"
  shows "\<not> node_step L M app3 [UnbondStakeTx tx w] app4"
proof
  assume again: "node_step L M app3 [UnbondStakeTx tx w] app4"
  from assms(4) obtain a where a: "account_at L app1 k = Ok (Some a)" "nonce a = unb_nonce tx"
    by (rule unbond_step_nonce) (use assms(5) in auto)
  from again obtain b where b: "account_at L app3 k = Ok (Some b)" "nonce b = unb_nonce tx"
    by (rule unbond_step_nonce) (use assms(5) in auto)
  have run: "node_run L M app1 ([UnbondStakeTx tx w] @ txs) app3"
    using node_run_Cons [OF assms(4,6)] .
  from node_run_nonce [OF assms(1,2) run assms(3) a(1)] a b assms(5)
  have "(of_nat (1 + touches (nl_ext L) k txs) :: 64 word) = 0" by simp
  then have "unat (of_nat (1 + touches (nl_ext L) k txs) :: 64 word) = 0" by simp
  moreover have "(1 + touches (nl_ext L) k txs) mod 2 ^ 64 = 1 + touches (nl_ext L) k txs"
    using assms(7) by (intro mod_less) simp
  ultimately show False by (simp add: unat_of_nat del: of_nat_add of_nat_Suc)
qed

theorem unbond_not_replayed_witness:
  "\<exists>app. node_step mem_node mem_app sample_app [sample_unbond_aux] app \<and>
     \<not> node_step mem_node mem_app app [sample_unbond_aux] app"
proof -
  from sample_unbond_deliver obtain app resp where
    d: "deliver_tx mem_node sample_app (encode_txaux sample_scale sample_unbond_aux) = Ok (app, resp)"
      "delivered_txs app = [sample_unbond_aux]" by blast
  have "delivered_txs sample_app = []" by (simp add: sample_app_def)
  with step_deliver [OF d(1), of mem_app] d(2) have step: "node_step mem_node mem_app sample_app [sample_unbond_aux] app" by simp
  have key: "tx_key (nl_ext mem_node) (UnbondStakeTx sample_unbond (BasicRedeemWitness [5])) =
      Some (to_stake_key sample_digest (address sample_owner))"
    by (simp add: tx_key_def sample_recover) (simp add: sample_ext_def)
  from unbond_not_replayed [OF mem_acc_laws mem_proxy sample_accounts_ok step [unfolded sample_unbond_aux_def] key run_stop] step
  show ?thesis by (auto simp: sample_unbond_aux_def)
qed

text \<open>
  C40: a node that initialised the chain reports no change of voting power until it is restarted: the
  initialisation records the keys of the validators but not their powers, and only accounts with a known
  power can change it, so whatever is bonded or unbonded, no block ends with a validator update.
\<close>

theorem no_updates_before_restart:
  assumes "new_with_storage L M v gah chain_id db accs = Ok app0" "kv_get L db COL_NODE_INFO LAST_STATE_KEY = Ok None"
    and "init_chain_handler L M app0 req = Ok (app1, vs)" "node_run L M app1 txs app2" "end_block L app2 h = Ok (app3, r)"
  shows "eb_validator_updates r = []"
proof -
  have "no_powers app0" using assms(1,2) by (cases rule: new_with_storage_cases) (simp_all add: no_powers_def)
  moreover from assms(3) have "validator_voting_power app1 = validator_voting_power app0 \<and> power_changed_in_block app1 = power_changed_in_block app0"
    by (rule init_chain_cases) simp
  ultimately have "no_powers app2" using node_run_no_powers [OF assms(4)] by (simp add: no_powers_def)
  with assms(5) show ?thesis by (auto simp: end_block_def Let_def result_simps no_powers_def)
qed

theorem no_updates_before_restart_witness:
  "\<exists>app r. end_block mem_node (sample_genesis (mock_new 0)) 1 = Ok (app, r) \<and> eb_validator_updates r = []"
proof -
  let ?P = "mock_process_request sample_ext sample_scale"
  have "?P (mock_new 0) (CheckChain 0 None) = Ok (mock_new 0, RespCheckChain (Ok ()))"
    by (simp add: mock_process_request_def mock_new_def)
  note start = sample_start [of ?P "mock_new 0", OF this]
  obtain vs where i: "init_chain_handler mem_node mem_app (sample_fresh (mock_new 0)) sample_init = Ok (sample_genesis (mock_new 0), vs)"
    using sample_init_chain [of ?P "mock_new 0"] by blast
  obtain app r where e: "end_block mem_node (sample_genesis (mock_new 0)) 1 = Ok (app, r)"
    by (simp add: end_block_def sample_genesis_def sample_fresh_def Let_def)
  from no_updates_before_restart [OF start _ i run_stop e] e show ?thesis by auto
qed

end
