(* ===== verification/Chain_Storage.thy ===== *)
theory Chain_Storage
  imports Chain_Accounts
begin

text \<open>
  What the node keeps in its database: the identity of the chain, the state after each commit, the block
  filter and the proofs of inclusion.  A node restarted after a commit comes back with the state it had,
  and one with the validation server cannot be restarted before its first accepted transaction; a query
  for a committed transaction, unless it is a deposit, is answered with a proof that verifies; everything a light client
  may look for in a block is found by its filter.
\<close>

section \<open>The identity of the chain\<close>

text \<open>The database knows the genesis hash and the chain id the application was started with.\<close>

definition identity_stored ::
    "('db, 'acc, 'enc, 'bl) NodeLib \<Rightarrow> AppLib \<Rightarrow> string \<Rightarrow> string \<Rightarrow> ('db, 'acc, 'enc, 'bl) ChainNodeApp \<Rightarrow> bool" where
  "identity_stored L M gah chain_id app \<longleftrightarrow>
     kv_get L (storage_db app) COL_NODE_INFO GENESIS_APP_HASH_KEY = Ok (Some (app_genesis_app_hash app)) \<and>
     kv_get L (storage_db app) COL_EXTRA CHAIN_ID_KEY = Ok (Some (ascii chain_id)) \<and>
     hex_decode (app_text M) gah = Ok (app_genesis_app_hash app) \<and> length (app_genesis_app_hash app) = 32 \<and>
     chain_hex_id_of (app_text M) chain_id = Ok (app_chain_hex_id app)"

lemmas keys = CHAIN_ID_KEY_def GENESIS_APP_HASH_KEY_def LAST_STATE_KEY_def ascii_def

lemma kv_written:
  assumes "kv_laws L"
  shows "kv_get L (kv_write_buffered L db ops) c k = (case last_put ops c k of Some v \<Rightarrow> Ok (Some v) | None \<Rightarrow> kv_get L db c k)"
    and "kv_write L db ops = (db', Ok ()) \<Longrightarrow>
      kv_get L db' c k = (case last_put ops c k of Some v \<Rightarrow> Ok (Some v) | None \<Rightarrow> kv_get L db c k)"
  using assms by (simp_all add: kv_laws_def)

text \<open>The puts of a commit and of a delivery stay in their columns.\<close>

lemma spend_utxos_columns:
  assumes "spend_utxos L ins db dbtx = Ok puts" "c \<noteq> COL_TX_META"
  shows "last_put puts c k = last_put dbtx c k"
proof -
  from assms(1) obtain m where "puts = dbtx @ map (\<lambda>(t, bv). (COL_TX_META, t, bv_to_bytes L bv)) m"
    by (auto simp: spend_utxos_def result_simps)
  moreover have "last_put (map (\<lambda>(t, bv). (COL_TX_META, t, bv_to_bytes L bv)) m) c k = None"
    using assms(2) by (induction m) (auto split: option.splits)
  ultimately show ?thesis by simp
qed

lemma commit_puts_columns:
  assumes "commit_puts L db tx dbtx = Ok puts" "c \<notin> {COL_TX_META, COL_BODIES, COL_WITNESS}"
  shows "last_put puts c k = last_put dbtx c k"
proof (cases tx)
  case (TransferTx i ins n pl)
  with assms(1) obtain dbtx' mid where "spend_utxos L ins db dbtx' = Ok mid"
    "puts = mid @ [(COL_TX_META, txaux_id (nl_ext L) tx, bv_to_bytes L (replicate (unat n) False))]"
    "last_put dbtx' c k = last_put dbtx c k"
    using assms(2)
    by (auto simp: commit_puts_def update_utxos_commit_def Let_def result_simps split: sum.splits PlainTxAux.splits)
  with spend_utxos_columns assms(2) show ?thesis by fastforce
next
  case (DepositStakeTx t pl)
  with assms show ?thesis by (auto simp: commit_puts_def Let_def dest: spend_utxos_columns)
next
  case (UnbondStakeTx t w)
  with assms show ?thesis by (auto simp: commit_puts_def Let_def)
next
  case (WithdrawUnbondedStakeTx i n w pl)
  with assms show ?thesis
    by (auto simp: commit_puts_def Let_def split: sum.splits PlainTxAux.splits)
qed

lemma commit_loop_columns:
  "\<lbrakk> commit_loop L db txs dbtx = Ok puts; c \<notin> {COL_TX_META, COL_BODIES, COL_WITNESS} \<rbrakk> \<Longrightarrow>
   last_put puts c k = last_put dbtx c k"
  by (induction txs arbitrary: dbtx) (auto simp: result_simps commit_puts_columns)

lemma new_with_storage_identity:
  assumes "kv_laws L" "new_with_storage L M v gah chain_id db accs = Ok app"
  shows "identity_stored L M gah chain_id app"
  using assms(2)
proof (cases rule: new_with_storage_cases)
  case (fresh h hex v' db')
  then show ?thesis by (simp add: identity_stored_def kv_written(2) [OF assms(1) fresh(5)] columns)
next
  case (restored data st rest v' h)
  then show ?thesis
    by (auto simp: identity_stored_def restore_from_storage_def result_simps copy_hash_def split: if_split_asm)
qed

lemma init_chain_identity:
  assumes "kv_laws L" "init_chain_handler L M app req = Ok (app', vs)" "identity_stored L M gah chain_id app"
  shows "identity_stored L M gah chain_id app'"
proof -
  from assms(2) obtain more db trie keys root st where
    w: "kv_write L (storage_db app) (more @ [(COL_NODE_INFO, LAST_STATE_KEY, enc (c_node_state M) st),
       (COL_EXTRA, ascii ''init_chain_state'', enc (c_node_state M) st)]) = (db, Ok ())"
    "more = [] \<or> (\<exists>b. more = [(COL_EXTRA, ascii ''init_chain_consensus_params'', b)])"
    and app': "app' = app\<lparr> storage_db := db, accounts := trie, validator_pubkeys := keys,
       uncommitted_account_root_hash := root, last_state := Some st \<rparr>"
    by (rule init_chain_cases) blast
  from w(2) have "last_put (more @ [(COL_NODE_INFO, LAST_STATE_KEY, enc (c_node_state M) st),
       (COL_EXTRA, ascii ''init_chain_state'', enc (c_node_state M) st)]) COL_NODE_INFO GENESIS_APP_HASH_KEY = None"
    "last_put (more @ [(COL_NODE_INFO, LAST_STATE_KEY, enc (c_node_state M) st),
       (COL_EXTRA, ascii ''init_chain_state'', enc (c_node_state M) st)]) COL_EXTRA CHAIN_ID_KEY = None"
    by (auto simp: columns keys)
  with assms(3) show ?thesis by (simp add: identity_stored_def app' kv_written(2) [OF assms(1) w(1)])
qed

lemma commit_identity:
  assumes "kv_laws L" "commit_handler L M app = Ok (app', h)" "identity_stored L M gah chain_id app"
  shows "identity_stored L M gah chain_id app'"
proof -
  from assms(2) obtain st puts db v where c: "commit_loop L (storage_db app) (delivered_txs app) [] = Ok puts"
    and w: "kv_write L (storage_db app) (puts @ closing_puts L M app (committed_state L app st)) = (db, Ok ())"
    and app': "app' = app\<lparr> storage_db := db, tx_validator := v, last_state := Some (committed_state L app st), delivered_txs := [] \<rparr>"
    by (rule commit_handler_cases)
  have "last_put puts COL_NODE_INFO k = None" "last_put puts COL_EXTRA k = None" for k
    using commit_loop_columns [OF c] by (simp_all add: columns)
  moreover have "COL_EXTRA \<notin> {COL_MERKLE_PROOFS, COL_APP_STATES, COL_NODE_INFO}" by (simp add: columns)
  moreover have "GENESIS_APP_HASH_KEY \<noteq> LAST_STATE_KEY" by (simp add: keys)
  ultimately show ?thesis
    using assms(3) by (simp add: identity_stored_def app' kv_written(2) [OF assms(1) w] closing_puts_other)
qed

lemma deliver_identity:
  assumes "kv_laws L" "spend_utxos L ins db [] = Ok puts" "c \<noteq> COL_TX_META"
  shows "kv_get L (kv_write_buffered L db puts) c k = kv_get L db c k"
  using spend_utxos_columns [OF assms(2,3)] by (simp add: kv_written(1) [OF assms(1)])

lemma node_step_identity:
  assumes "kv_laws L" "node_step L M app txs app'" "identity_stored L M gah chain_id app"
  shows "identity_stored L M gah chain_id app'"
  using assms(2)
proof (cases rule: node_stepE)
  case (step_begin t)
  then show ?thesis using assms(3) by (auto simp: begin_block_def result_simps identity_stored_def)
next
  case (step_check tx resp)
  from step_check(2) obtain v where "app' = app\<lparr> tx_validator := v \<rparr>" by (rule check_tx_app)
  with assms(3) show ?thesis by (simp add: identity_stored_def)
next
  case (step_deliver tx resp)
  from step_deliver(2) show ?thesis
  proof (cases rule: deliver_tx_cases)
    case (rejected v)
    with assms(3) show ?thesis by (simp add: identity_stored_def)
  next
    case (accepted txaux fee acc st info v accs root macc inittx pool fltr pending)
    have "COL_NODE_INFO \<noteq> COL_TX_META" "COL_EXTRA \<noteq> COL_TX_META" by (simp_all add: columns)
    with deliver_identity [OF assms(1) deliver_changes_spends [OF accepted(2)]] accepted(6) assms(3)
    show ?thesis by (simp add: identity_stored_def)
  qed
next
  case (step_end height ebr)
  from step_end(2) obtain st us pws where
    "app' = app\<lparr> app_filter := filter_default (nl_bloom L), validator_voting_power := pws, power_changed_in_block := [],
       last_state := Some (st\<lparr> cns_last_block_height := height \<rparr>) \<rparr>" by (rule end_block_app)
  with assms(3) show ?thesis by (simp add: identity_stored_def)
next
  case (step_commit h)
  with commit_identity [OF assms(1)] assms(3) show ?thesis by blast
qed

lemma node_run_identity:
  assumes "kv_laws L" "node_run L M app txs app'" "identity_stored L M gah chain_id app"
  shows "identity_stored L M gah chain_id app'"
  using assms(2,3) by (induction rule: node_run.induct) (auto intro: node_step_identity [OF assms(1)])

text \<open>Between blocks the accounts are those of the last committed state.\<close>

definition root_agrees :: "('db, 'acc, 'enc, 'bl) ChainNodeApp \<Rightarrow> bool" where
  "root_agrees app \<longleftrightarrow> (delivered_txs app = [] \<longrightarrow>
     (\<forall>st. last_state app = Some st \<longrightarrow> uncommitted_account_root_hash app = last_account_root_hash st))"

lemma node_step_root:
  assumes "node_step L M app txs app'" "root_agrees app"
  shows "root_agrees app'"
  using assms(1)
proof (cases rule: node_stepE)
  case (step_begin t)
  then show ?thesis using assms(2) by (auto simp: begin_block_def result_simps root_agrees_def)
next
  case (step_check tx resp)
  from step_check(2) obtain v where "app' = app\<lparr> tx_validator := v \<rparr>" by (rule check_tx_app)
  with assms(2) show ?thesis by (simp add: root_agrees_def)
next
  case (step_deliver tx resp)
  from step_deliver(2) show ?thesis
    by (cases rule: deliver_tx_cases) (use assms(2) in \<open>simp_all add: root_agrees_def\<close>)
next
  case (step_end height ebr)
  from step_end(2) obtain st us pws where "last_state app = Some st"
    "app' = app\<lparr> app_filter := filter_default (nl_bloom L), validator_voting_power := pws, power_changed_in_block := [],
       last_state := Some (st\<lparr> cns_last_block_height := height \<rparr>) \<rparr>" by (rule end_block_app)
  with assms(2) show ?thesis by (simp add: root_agrees_def)
next
  case (step_commit h)
  from step_commit(2) obtain st db v where "last_state app = Some st"
    "app' = app\<lparr> storage_db := db, tx_validator := v, last_state := Some (committed_state L app st), delivered_txs := [] \<rparr>"
    by (rule commit_handler_cases)
  with assms(2) show ?thesis by (simp add: root_agrees_def committed_state_def Let_def)
qed

lemma node_run_root: "\<lbrakk> node_run L M app txs app'; root_agrees app \<rbrakk> \<Longrightarrow> root_agrees app'"
  by (induction rule: node_run.induct) (auto intro: node_step_root)

lemma node_start_stored:
  assumes "kv_laws L" "node_start L M gah chain_id app"
  shows "identity_stored L M gah chain_id app \<and> root_agrees app"
  using assms(2)
proof (induction rule: node_start.induct)
  case (start_new v db accs app)
  have "root_agrees app"
    using start_new
    by (cases rule: new_with_storage_cases)
      (auto simp: root_agrees_def restore_from_storage_def result_simps split: if_split_asm)
  with new_with_storage_identity [OF assms(1) start_new] show ?case by simp
next
  case (start_init app req app' vs)
  from start_init.hyps(2) obtain conf :: InitConfig and db trie keys root st t rp nodes where
    "st = chain_node_state_genesis (app_genesis_app_hash app) t root rp (network_params conf) nodes"
    "app' = app\<lparr> storage_db := db, accounts := trie, validator_pubkeys := keys,
       uncommitted_account_root_hash := root, last_state := Some st \<rparr>" by (rule init_chain_cases)
  then have "root_agrees app'" by (simp add: root_agrees_def chain_node_state_genesis_def)
  with init_chain_identity [OF assms(1) start_init.hyps(2)] start_init.IH show ?case by simp
qed

section \<open>Restart\<close>

lemma restart:
  assumes "kv_laws L" "reads_back (c_node_state M)" "identity_stored L M gah chain_id app" "root_agrees app"
    and "commit_handler L M app = Ok (app', h)"
    and "process_request L v (CheckChain (app_chain_hex_id app') (Some h)) = Ok (v', RespCheckChain (Ok ()))"
    and "get_validator_mapping L (accounts app') (the (last_state app')) = Ok (pws, pubkeys)"
  shows "new_with_storage L M v gah chain_id (storage_db app') (accounts app') =
    Ok (app'\<lparr> app_filter := filter_default (nl_bloom L), validator_voting_power := pws, validator_pubkeys := pubkeys,
      power_changed_in_block := [], tx_validator := v' \<rparr>)"
proof -
  from assms(5) obtain st puts db w where c: "last_state app = Some st"
    "commit_loop L (storage_db app) (delivered_txs app) [] = Ok puts"
    "kv_write L (storage_db app) (puts @ closing_puts L M app (committed_state L app st)) = (db, Ok ())"
    "h = last_apphash (committed_state L app st)"
    "app' = app\<lparr> storage_db := db, tx_validator := w, last_state := Some (committed_state L app st), delivered_txs := [] \<rparr>"
    by (rule commit_handler_cases)
  have root: "uncommitted_account_root_hash app' = last_account_root_hash (committed_state L app st)"
    using node_step_root [OF step_commit [OF assms(5)] assms(4)] by (simp add: c(5) root_agrees_def)
  have id: "identity_stored L M gah chain_id app'" using commit_identity [OF assms(1,5,3)] .
  have "kv_get L db COL_NODE_INFO LAST_STATE_KEY = Ok (Some (enc (c_node_state M) (committed_state L app st)))"
    by (simp add: kv_written(2) [OF assms(1) c(3)] closing_puts_other)
  moreover have "dec (c_node_state M) (enc (c_node_state M) s) = Ok (s, [])" for s
    using reads_backD [OF assms(2), of s "[]"] by simp
  moreover have "enclave_sanity_check L v (app_chain_hex_id app') (Some h) = Ok v'"
    using assms(6) by (simp add: enclave_sanity_check_def)
  ultimately show ?thesis
    using id assms(7) root
    by (simp add: new_with_storage_def restore_from_storage_def identity_stored_def copy_hash_def c(4,5))
qed

text \<open>With the validation server as the enclave, a commit of transactions makes the restart possible.\<close>

lemma server_restart:
  assumes "kv_laws L" "reads_back (c_node_state M)" "identity_stored L M gah chain_id app" "root_agrees app"
    and "commit_handler L M app = Ok (app', h)" "delivered_txs app \<noteq> []"
    and "process_request L = server_handle E S G K" "sled_laws K" "ecall_result G = SGX_SUCCESS"
    and "digest_size (nl_ext L)" "app_chain_hex_id app = network_hex_id G"
    and "get_validator_mapping L (accounts app') (the (last_state app')) = Ok (pws, pubkeys)"
  shows "new_with_storage L M (tx_validator app') gah chain_id (storage_db app') (accounts app') =
    Ok (app'\<lparr> app_filter := filter_default (nl_bloom L), validator_voting_power := pws, validator_pubkeys := pubkeys,
      power_changed_in_block := [] \<rparr>)"
proof -
  from assms(5) obtain st db v where h: "h = last_apphash (committed_state L app st)"
    "if delivered_txs app = [] then v = tx_validator app
     else process_request L (tx_validator app) (CommitBlock h) = Ok (v, RespCommitBlock (Ok ()))"
    and app': "app' = app\<lparr> storage_db := db, tx_validator := v, last_state := Some (committed_state L app st), delivered_txs := [] \<rparr>"
    by (rule commit_handler_cases)
  have "length h = 32"
    using assms(6,10) by (simp add: h(1) committed_state_def Let_def compute_app_hash_def hash256_def digest_size_def)
  moreover have "server_handle E S G K (tx_validator app) (CommitBlock h) = Ok (v, RespCommitBlock (Ok ()))"
    using h(2) assms(6,7) by simp
  ultimately have "process_request L (tx_validator app') (CheckChain (app_chain_hex_id app') (Some h)) =
      Ok (tx_validator app', RespCheckChain (Ok ()))"
    using commit_recorded [OF assms(8) _ assms(9)] assms(7,11) by (simp add: app')
  from restart [OF assms(1-5) this assms(12)] show ?thesis by simp
qed

section \<open>The filter of a block\<close>

text \<open>The calls between two ends of a block that may come after a transaction.\<close>

inductive block_run ::
    "('db, 'acc, 'enc, 'bl) NodeLib \<Rightarrow> ('db, 'acc, 'enc, 'bl) ChainNodeApp \<Rightarrow> ('db, 'acc, 'enc, 'bl) ChainNodeApp \<Rightarrow> bool"
    for L app where
  block_here: "block_run L app app"
| block_check: "\<lbrakk> block_run L app app1; check_tx L app1 tx = Ok (app2, resp) \<rbrakk> \<Longrightarrow> block_run L app app2"
| block_deliver: "\<lbrakk> block_run L app app1; deliver_tx L app1 tx = Ok (app2, resp) \<rbrakk> \<Longrightarrow> block_run L app app2"

definition published ::
    "('db, 'acc, 'enc, 'bl) NodeLib \<Rightarrow> EndBlockResponse \<Rightarrow> ('bl BlockFilter \<Rightarrow> bool) \<Rightarrow> bool" where
  "published L r P \<longleftrightarrow> (\<exists>key v f. (event_type_display BlockFilterEvent, [(key, v)]) \<in> set (eb_events r) \<and>
     filter_try_from (nl_bloom L) v = Ok f \<and> P f)"

lemma next_filter_kept:
  assumes "bloom_laws (nl_bloom L)"
  shows "check_staked_state_address (nl_bloom L) (app_filter app) a \<Longrightarrow>
      check_staked_state_address (nl_bloom L) (next_filter L app m) a"
    and "modified (app_filter app) \<Longrightarrow> modified (next_filter L app m)"
  using filter_kept(4) [OF assms]
  by (auto simp: next_filter_def split: option.split) (simp add: add_staked_state_address_def)

lemma block_run_kept:
  assumes "bloom_laws (nl_bloom L)" "block_run L app app'"
  shows "(check_staked_state_address (nl_bloom L) (app_filter app) a \<longrightarrow> check_staked_state_address (nl_bloom L) (app_filter app') a) \<and>
    (modified (app_filter app) \<longrightarrow> modified (app_filter app')) \<and> set (delivered_txs app) \<subseteq> set (delivered_txs app')"
  using assms(2)
proof (induction rule: block_run.induct)
  case (block_check app1 tx app2 resp)
  from block_check.hyps(2) obtain v where "app2 = app1\<lparr> tx_validator := v \<rparr>" by (rule check_tx_app)
  with block_check.IH show ?case by simp
next
  case (block_deliver app1 tx app2 resp)
  from block_deliver.hyps(2) show ?case
  proof (cases rule: deliver_tx_cases)
    case (rejected v)
    with block_deliver.IH show ?thesis by simp
  next
    case (accepted txaux fee acc st info v accs root macc inittx pool fltr pending)
    with block_deliver.IH next_filter_kept [OF assms(1), of app1] show ?thesis by auto
  qed
qed simp

lemma fold_add_view_key_modified:
  "modified (fold (\<lambda>k f. add_view_key E B f k) ks f) \<longleftrightarrow> modified f \<or> ks \<noteq> []"
  by (induction ks arbitrary: f) (auto simp: add_view_key_def)

lemma end_block_published:
  assumes "bloom_laws (nl_bloom L)" "end_block L app h = Ok (app', r)"
  shows "\<lbrakk> modified (app_filter app); check_staked_state_address (nl_bloom L) (app_filter app) a \<rbrakk> \<Longrightarrow>
      published L r (\<lambda>f. check_staked_state_address (nl_bloom L) f a)"
    and "\<lbrakk> tx \<in> set (delivered_txs app); k \<in> set (envelope_view_keys (nl_scale L) tx) \<rbrakk> \<Longrightarrow>
      published L r (\<lambda>f. check_view_key (nl_ext L) (nl_bloom L) f k)"
proof -
  let ?ks = "concat (map (envelope_view_keys (nl_scale L)) (delivered_txs app))"
  define f where "f = fold (\<lambda>k f. add_view_key (nl_ext L) (nl_bloom L) f k) ?ks (app_filter app)"
  have ev: "\<exists>key v. (event_type_display BlockFilterEvent, [(key, v)]) \<in> set (eb_events r) \<and>
      get_tendermint_kv (nl_bloom L) f = Some (key, v)" if "modified f"
    using assms(2) that by (auto simp: end_block_def f_def [symmetric] Let_def result_simps get_tendermint_kv_def)
  have pub: "published L r (\<lambda>f. P (check_view_key (nl_ext L) (nl_bloom L) f) (check_staked_state_address (nl_bloom L) f))"
    if "modified f" "P (check_view_key (nl_ext L) (nl_bloom L) f) (check_staked_state_address (nl_bloom L) f)" for P
  proof -
    from ev [OF that(1)] obtain key v where
      e: "(event_type_display BlockFilterEvent, [(key, v)]) \<in> set (eb_events r)" "get_tendermint_kv (nl_bloom L) f = Some (key, v)"
      by blast
    from filter_event [OF assms(1) e(2), of "nl_ext L"] that(2) e(1) show ?thesis unfolding published_def by metis
  qed
  show "published L r (\<lambda>f. check_staked_state_address (nl_bloom L) f a)"
    if "modified (app_filter app)" "check_staked_state_address (nl_bloom L) (app_filter app) a"
    using pub [of "\<lambda>v s. s a"] that fold_add_view_key_kept(2) [OF assms(1)]
    by (simp add: f_def fold_add_view_key_modified)
  show "published L r (\<lambda>f. check_view_key (nl_ext L) (nl_bloom L) f k)"
    if "tx \<in> set (delivered_txs app)" "k \<in> set (envelope_view_keys (nl_scale L) tx)"
  proof -
    have "k \<in> set ?ks" using that by auto
    then have "modified f" "check_view_key (nl_ext L) (nl_bloom L) f k"
      using fold_add_view_key_added [OF assms(1)] by (auto simp: f_def fold_add_view_key_modified)
    then show ?thesis using pub [of "\<lambda>v s. v k"] by simp
  qed
qed

section \<open>The hash the validation server knows\<close>

text \<open>Ids have 32 bytes, the key of the hash has 12: validating transactions leaves the hash alone.\<close>

lemma insert_case:
  "(case r of (d, Inl _) \<Rightarrow> Ok (d, Err e) | (d, Inr _) \<Rightarrow> Ok (d, Ok v)) = Ok (db, q) \<longleftrightarrow>
   db = fst r \<and> q = (case snd r of Inl _ \<Rightarrow> Err e | Inr _ \<Rightarrow> Ok v)"
  by (cases r; cases "snd r") auto

lemma server_keeps_hash:
  assumes laws: "digest_size E" "sgx_laws G" "scale_laws S" "sled_laws K"
    and ok: "server_handle E S G K srv (VerifyTx txaux macc info) = Ok (srv', r)"
  shows "sl_get K (txdb srv') LAST_APPHASH_KEY = sl_get K (txdb srv) LAST_APPHASH_KEY"
proof -
  have ins: "sl_get K (fst (sl_insert K db i raw)) LAST_APPHASH_KEY = sl_get K db LAST_APPHASH_KEY"
    if "i = txid_hash E b" for db i raw b
  proof -
    have "length i \<noteq> length LAST_APPHASH_KEY"
      using laws(1) by (simp add: that txid_hash_def hash256_def digest_size_def LAST_APPHASH_KEY_def)
    then show ?thesis using laws(4) unfolding sled_laws_def by metis
  qed
  show ?thesis
  proof (cases txaux)
    case (TransferTx i ins n p)
    show ?thesis
    proof (cases "server_lookup K srv txaux")
      case None
      with ok TransferTx show ?thesis by (auto simp: server_handle_def)
    next
      case (Some logs)
      with ok TransferTx obtain db q where c: "check_transfertx E S G K txaux logs info (txdb srv) = Ok (db, q)"
        "srv' = srv\<lparr> txdb := db \<rparr>" by (auto simp: server_handle_def result_simps)
      from c(1) consider "db = txdb srv" | n0 out0 result retval out where
        "enter_enclave G out0 (ecall_check_transfer_tx E S G n0 (enc (c_chain_info G) info)
          (encode_txaux S txaux) (enc (c_byte_vecs G) logs) out0) = Ok (result, retval, out)"
        "ecall_ok result retval" "db = fst (sl_insert K (txdb srv) (txaux_id E txaux) (out_sealed out))"
        by (auto simp: check_transfertx_def Let_def result_simps insert_case split: if_split_asm)
      then show ?thesis
      proof cases
        case 2
        from ecall_transfer_success [OF laws(2) enter_enclave_success [OF 2(1,2)]] obtain tx ins' m' p' q where
          "decode_txaux S (encode_txaux S txaux) = Ok (TransferTx (tx_id E tx) ins' m' p', q)" by blast
        from envelope_same [OF laws(3) this] have "txaux_id E txaux = tx_id E tx"
          by (auto simp: txaux_id_def)
        with c(2) 2(3) show ?thesis by (simp add: ins tx_id_def)
      qed (simp add: c(2))
    qed
  next
    case (WithdrawUnbondedStakeTx i n w p)
    show ?thesis
    proof (cases macc)
      case None
      with ok WithdrawUnbondedStakeTx show ?thesis by (auto simp: server_handle_def)
    next
      case (Some a)
      with ok WithdrawUnbondedStakeTx obtain db q where c: "check_withdraw_tx E S G K txaux a info (txdb srv) = Ok (db, q)"
        "srv' = srv\<lparr> txdb := db \<rparr>" by (auto simp: server_handle_def result_simps)
      from c(1) consider "db = txdb srv" | n0 out0 result retval out where
        "enter_enclave G out0 (ecall_check_withdraw_tx E S G n0 (enc (c_chain_info G) info)
          (encode_txaux S txaux) (enc (c_staked_state G) a) out0) = Ok (result, retval, out)"
        "ecall_ok result retval" "db = fst (sl_insert K (txdb srv) (txaux_id E txaux) (out_sealed out))"
        by (auto simp: check_withdraw_tx_def Let_def result_simps insert_case split: if_split_asm)
      then show ?thesis
      proof cases
        case 2
        from ecall_withdraw_success [OF laws(2) enter_enclave_success [OF 2(1,2)]] obtain tx m' w' p' q where
          "decode_txaux S (encode_txaux S txaux) = Ok (WithdrawUnbondedStakeTx (withdraw_id E tx) m' w' p', q)" by blast
        from envelope_same [OF laws(3) this] have "txaux_id E txaux = withdraw_id E tx"
          by (auto simp: txaux_id_def)
        with c(2) 2(3) show ?thesis by (simp add: ins withdraw_id_def)
      qed (simp add: c(2))
    qed
  qed (use ok in \<open>auto simp: server_handle_def result_simps split: option.split_asm\<close>)
qed

lemma ask_enclave_asks:
  assumes "ask_enclave L v txaux macc info = Ok (v', r)"
  shows "\<exists>q. process_request L v (VerifyTx txaux macc info) = Ok (v', q)"
proof (cases "process_request L v (VerifyTx txaux macc info)")
  case (Inr p)
  obtain w q where "p = (w, q)" by (cases p)
  with Inr assms show ?thesis by (cases q) (auto simp: ask_enclave_def)
qed (use assms in \<open>simp add: ask_enclave_def\<close>)

lemma verify_asks:
  assumes "verify L v txaux info root db accs = Ok (v', r)"
  shows "v' = v \<or> (\<exists>macc q. process_request L v (VerifyTx txaux macc info) = Ok (v', q))"
proof -
  have "v' = v \<or> (\<exists>macc. ask_enclave L v txaux macc info = Ok (v', r))"
  proof (cases txaux)
    case (TransferTx i ins n p)
    with assms show ?thesis by (cases "check_spent_input_lookup L ins db") (auto simp: verify_def)
  next
    case (DepositStakeTx tx p)
    with assms show ?thesis
      by (cases "get_account L (dep_to_staked_account tx) root accs"; cases "check_spent_input_lookup L (dep_inputs tx) db")
        (auto simp: verify_def split: if_split_asm)
  next
    case (UnbondStakeTx tx w)
    with assms show ?thesis
      by (cases "verify_tx_recover_address (nl_ext L) w (unbond_id (nl_ext L) tx)"; 
          cases "get_account L (projr (verify_tx_recover_address (nl_ext L) w (unbond_id (nl_ext L) tx))) root accs")
        (auto simp: verify_def result_simps)
  next
    case (WithdrawUnbondedStakeTx i n w p)
    with assms show ?thesis
      by (cases "verify_tx_recover_address (nl_ext L) w i"; 
          cases "get_account L (projr (verify_tx_recover_address (nl_ext L) w i)) root accs")
        (auto simp: verify_def)
  qed
  then show ?thesis using ask_enclave_asks by metis
qed

lemma validate_tx_req_asks:
  assumes "validate_tx_req L app tx resp = Ok (app', resp', m)"
  shows "tx_validator app' = tx_validator app \<or>
    (\<exists>txaux macc info q. process_request L (tx_validator app) (VerifyTx txaux macc info) = Ok (tx_validator app', q))"
proof (cases "decode_txaux (nl_scale L) tx")
  case (Inl e)
  with assms show ?thesis by (simp add: validate_tx_req_def)
next
  case (Inr p)
  obtain txaux rest where p: "p = (txaux, rest)" by (cases p)
  with Inr assms obtain st min v r where s: "last_state app = Some st"
    "calculate_fee (fee_policy st) (of_nat (length tx)) = Ok min"
    "verify_now L app txaux (chain_info_of app st min) = Ok (v, r)"
    by (auto simp: validate_tx_req_def result_simps)
  with Inr p assms have v: "verify_now L app txaux (chain_info_of app st min) = Ok (v, r)" "tx_validator app' = v"
    by (cases r; auto simp: validate_tx_req_def)+
  from verify_asks [OF v(1)] v(2) show ?thesis by metis
qed

text \<open>A node before its first accepted transaction: the state is stored, the server knows no hash.\<close>

definition untouched ::
    "('db, 'acc, 'sl TxValidationServer, 'bl) NodeLib \<Rightarrow> AppLib \<Rightarrow> 'sl SledLib \<Rightarrow>
     ('db, 'acc, 'sl TxValidationServer, 'bl) ChainNodeApp \<Rightarrow> bool" where
  "untouched L M K app \<longleftrightarrow> delivered_txs app = [] \<and>
     sl_get K (txdb (tx_validator app)) LAST_APPHASH_KEY = Ok None \<and>
     (\<exists>st. kv_get L (storage_db app) COL_NODE_INFO LAST_STATE_KEY = Ok (Some (enc (c_node_state M) st)))"

lemma node_step_untouched:
  assumes laws: "digest_size E" "sgx_laws G" "scale_laws S" "sled_laws K" "kv_laws L"
    and p: "process_request L = server_handle E S G K" and step: "node_step L M app [] app'" and u: "untouched L M K app"
  shows "untouched L M K app'"
proof -
  have keeps: "sl_get K (txdb (tx_validator app'')) LAST_APPHASH_KEY = Ok None"
    if "validate_tx_req L app tx resp = Ok (app'', resp', m)" for tx resp app'' resp' m
    using validate_tx_req_asks [OF that] server_keeps_hash [OF laws(1-4)] u unfolding p untouched_def by metis
  from step show ?thesis
  proof (cases rule: node_stepE)
    case (step_begin t)
    then show ?thesis using u by (auto simp: begin_block_def result_simps untouched_def)
  next
    case (step_check tx resp)
    from step_check(2) obtain m where "validate_tx_req L app tx tx_response_new = Ok (app', resp, m)"
      by (auto simp: check_tx_def result_simps)
    from keeps [OF this] step_check(2) u show ?thesis by (auto simp: untouched_def elim!: check_tx_app)
  next
    case (step_deliver tx resp)
    from step_deliver(2) obtain app1 resp1 m where v: "validate_tx_req L app tx tx_response_new = Ok (app1, resp1, m)"
      by (auto simp: deliver_tx_def result_simps)
    from step_deliver(2) show ?thesis
    proof (cases rule: deliver_tx_cases)
      case (rejected v')
      have "m = None" using v
      proof (cases rule: validate_tx_req_cases)
        case (accepted txaux fee acc st info w)
        with v step_deliver(2) rejected(1) show ?thesis
          by (auto simp: deliver_tx_def tx_response_new_def result_simps Let_def)
      qed
      with v step_deliver(2) have "app' = app1" by (simp add: deliver_tx_def)
      with keeps [OF v] rejected(2) u show ?thesis by (auto simp: untouched_def)
    next
      case (accepted txaux fee acc st info v accs root macc inittx pool fltr pending)
      with step_deliver(1) show ?thesis by simp
    qed
  next
    case (step_end height ebr)
    from step_end(2) obtain st us pws where
      "app' = app\<lparr> app_filter := filter_default (nl_bloom L), validator_voting_power := pws, power_changed_in_block := [],
         last_state := Some (st\<lparr> cns_last_block_height := height \<rparr>) \<rparr>" by (rule end_block_app)
    with u show ?thesis by (simp add: untouched_def)
  next
    case (step_commit h)
    from step_commit(2) obtain st puts db v where c: "commit_loop L (storage_db app) (delivered_txs app) [] = Ok puts"
      "kv_write L (storage_db app) (puts @ closing_puts L M app (committed_state L app st)) = (db, Ok ())"
      "if delivered_txs app = [] then v = tx_validator app
       else process_request L (tx_validator app) (CommitBlock h) = Ok (v, RespCommitBlock (Ok ()))"
      "app' = app\<lparr> storage_db := db, tx_validator := v, last_state := Some (committed_state L app st), delivered_txs := [] \<rparr>"
      by (rule commit_handler_cases)
    have "kv_get L db COL_NODE_INFO LAST_STATE_KEY = Ok (Some (enc (c_node_state M) (committed_state L app st)))"
      by (simp add: kv_written(2) [OF laws(5) c(2)] closing_puts_other)
    with u c(3,4) show ?thesis by (auto simp: untouched_def)
  qed
qed

lemma node_run_untouched:
  assumes "digest_size E" "sgx_laws G" "scale_laws S" "sled_laws K" "kv_laws L" "process_request L = server_handle E S G K"
  shows "\<lbrakk> node_run L M app txs app'; txs = []; untouched L M K app \<rbrakk> \<Longrightarrow> untouched L M K app'"
  by (induction rule: node_run.induct) (auto intro: node_step_untouched [OF assms])

lemma fresh_server:
  assumes "process_request L = server_handle E S G K" "new_with_storage L M srv gah chain_id db accs = Ok app"
    and "last_state app = None"
  shows "tx_validator app = srv \<and> sl_get K (txdb srv) LAST_APPHASH_KEY = Ok None \<and> delivered_txs app = []"
proof -
  from assms(2) obtain h hex found where c: "kv_get L db COL_NODE_INFO LAST_STATE_KEY = Ok found"
    "hex_decode (app_text M) gah = Ok h" "copy_hash h = Ok h" "chain_hex_id_of (app_text M) chain_id = Ok hex"
    by (auto simp: new_with_storage_def copy_hash_def result_simps split: if_split_asm)
  have "found = None"
  proof (cases found)
    case (Some data)
    with assms(2) c obtain st v' where "restore_from_storage L M v' st h chain_id db accs = Ok app"
      by (auto simp: new_with_storage_def result_simps)
    then have "last_state app = Some st" by (auto simp: restore_from_storage_def result_simps copy_hash_def Let_def split: if_split_asm)
    with assms(3) show ?thesis by simp
  qed
  let ?w = "kv_write L db [(COL_NODE_INFO, GENESIS_APP_HASH_KEY, h), (COL_EXTRA, CHAIN_ID_KEY, ascii chain_id)]"
  from \<open>found = None\<close> assms(2) c obtain v where v: "enclave_sanity_check L srv hex None = Ok v"
    "tx_validator app = v" "delivered_txs app = []"
    by (cases ?w) (auto simp: new_with_storage_def result_simps)
  from v(1) show ?thesis
    unfolding enclave_sanity_check_def assms(1)
    by (auto simp: server_handle_def server_check_chain_def result_simps v(2,3) split: sum.split_asm if_split_asm)
qed

section \<open>Queries\<close>

lemma commit_queries:
  assumes "kv_laws L" "commit_handler L M app = Ok (app', h)" "delivered_txs app \<noteq> []"
  obtains st where "last_state app' = Some st" "h = last_apphash st"
    "h = compute_app_hash (nl_ext L) (block_tree L app) (last_account_root_hash st) (rewards_pool st)"
    "kv_get L (storage_db app') COL_APP_STATES (encode_var_i64 M (cns_last_block_height st)) = Ok (Some h)"
    "kv_get L (storage_db app') COL_MERKLE_PROOFS h = Ok (Some (enc (c_merkle_tree M) (block_tree L app)))"
proof -
  from assms(2) obtain st puts db v where c: "commit_loop L (storage_db app) (delivered_txs app) [] = Ok puts"
    and w: "kv_write L (storage_db app) (puts @ closing_puts L M app (committed_state L app st)) = (db, Ok ())"
    and h: "h = last_apphash (committed_state L app st)"
    and app': "app' = app\<lparr> storage_db := db, tx_validator := v, last_state := Some (committed_state L app st), delivered_txs := [] \<rparr>"
    by (rule commit_handler_cases)
  show thesis
  proof (rule that)
    show "last_state app' = Some (committed_state L app st)" by (simp add: app')
    show "h = compute_app_hash (nl_ext L) (block_tree L app) (last_account_root_hash (committed_state L app st))
        (rewards_pool (committed_state L app st))"
      using assms(3) by (simp add: h committed_state_def Let_def)
    show "kv_get L (storage_db app') COL_APP_STATES (encode_var_i64 M (cns_last_block_height (committed_state L app st))) = Ok (Some h)"
      by (simp add: app' kv_written(2) [OF assms(1) w] closing_puts_other(3) h)
    show "kv_get L (storage_db app') COL_MERKLE_PROOFS h = Ok (Some (enc (c_merkle_tree M) (block_tree L app)))"
      by (simp add: app' kv_written(2) [OF assms(1) w] closing_puts_other(4) [OF assms(3)] h)
  qed (rule h)
qed

lemma query_store:
  assumes "rq_path req = ''store''" "rq_prove req"
    and "kv_get L (storage_db app) COL_BODIES (rq_data req) = Ok (Some body)"
    and "kv_get L (storage_db app) COL_WITNESS (rq_data req) = Ok (Some witness)"
  shows "query_handler L M app req = query_proof L M app req witness (response_query_new\<lparr> q_value := body \<rparr>)"
  using assms by (simp add: query_handler_def starts_with_def query_lookup_def response_query_new_def Let_def)

text \<open>What a commit stores of a transaction, if it can read the payload; no witness is stored for a deposit.\<close>

definition stored_body :: "ScaleLib \<Rightarrow> TxAux \<Rightarrow> bytes option" where
  "stored_body S txaux = (case txaux of
     TransferTx _ _ _ payload \<Rightarrow> (case decode_plain_txaux S (txpayload payload) of
         Inr (PlainTransferTx tx _, _) \<Rightarrow> Some (encode_two S (Transfer tx)) | _ \<Rightarrow> None)
   | DepositStakeTx tx _ \<Rightarrow> Some (encode_deposit S tx)
   | UnbondStakeTx tx _ \<Rightarrow> Some (enc (c_unbond S) tx)
   | WithdrawUnbondedStakeTx _ _ _ payload \<Rightarrow> (case decode_plain_txaux S (txpayload payload) of
         Inr (PlainWithdrawUnbondedStakeTx tx, _) \<Rightarrow> Some (encode_two S (StakeWithdraw tx)) | _ \<Rightarrow> None))"

definition stored_witness :: "ScaleLib \<Rightarrow> TxAux \<Rightarrow> bytes option" where
  "stored_witness S txaux = (case txaux of
     TransferTx _ _ _ payload \<Rightarrow> (case decode_plain_txaux S (txpayload payload) of
         Inr (PlainTransferTx _ witness, _) \<Rightarrow> Some (enc (c_in_witnesses S) witness) | _ \<Rightarrow> None)
   | DepositStakeTx _ _ \<Rightarrow> None
   | UnbondStakeTx _ witness \<Rightarrow> Some (encode_op_witness S witness)
   | WithdrawUnbondedStakeTx _ _ witness _ \<Rightarrow> Some (encode_op_witness S witness))"

lemma commit_puts_stored:
  assumes "commit_puts L db tx dbtx = Ok puts" "stored = (if c = COL_BODIES then stored_body else stored_witness)"
    and "c = COL_BODIES \<or> c = COL_WITNESS"
  shows "last_put puts c k = (if k = txaux_id (nl_ext L) tx \<and> stored (nl_scale L) tx \<noteq> None then stored (nl_scale L) tx
     else last_put dbtx c k)"
proof -
  have other: "c \<noteq> COL_TX_META" "COL_BODIES \<noteq> COL_WITNESS" "COL_BODIES \<noteq> COL_TX_META" "COL_WITNESS \<noteq> COL_TX_META"
    using assms(3) by (auto simp: columns)
  show ?thesis
  proof (cases tx)
    case (TransferTx i ins n pl)
    with assms(1) obtain dbtx' mid where "spend_utxos L ins db dbtx' = Ok mid"
      "puts = mid @ [(COL_TX_META, txaux_id (nl_ext L) tx, bv_to_bytes L (replicate (unat n) False))]"
      "dbtx' = (case decode_plain_txaux (nl_scale L) (txpayload pl) of
         Inr (PlainTransferTx t witness, _) \<Rightarrow> dbtx @ [(COL_BODIES, txaux_id (nl_ext L) tx, encode_two (nl_scale L) (Transfer t)),
           (COL_WITNESS, txaux_id (nl_ext L) tx, enc (c_in_witnesses (nl_scale L)) witness)]
       | _ \<Rightarrow> dbtx)"
      by (auto simp: commit_puts_def update_utxos_commit_def Let_def result_simps)
    with spend_utxos_columns [of L ins db dbtx' mid c k] other show ?thesis
      using assms(3) by (auto simp: assms(2) TransferTx stored_body_def stored_witness_def split: sum.split PlainTxAux.split)
  next
    case (DepositStakeTx t pl)
    with assms(1) have "spend_utxos L (dep_inputs t) db (dbtx @ [(COL_BODIES, txaux_id (nl_ext L) tx, encode_deposit (nl_scale L) t)]) = Ok puts"
      by (simp add: commit_puts_def Let_def)
    from spend_utxos_columns [OF this other(1), of k] other(2) assms(3) show ?thesis
      by (auto simp: assms(2) DepositStakeTx stored_body_def stored_witness_def)
  next
    case (UnbondStakeTx t w)
    with assms(1,3) other show ?thesis
      by (auto simp: commit_puts_def Let_def assms(2) stored_body_def stored_witness_def)
  next
    case (WithdrawUnbondedStakeTx i n w pl)
    with assms(1,3) other show ?thesis
      by (auto simp: commit_puts_def Let_def assms(2) stored_body_def stored_witness_def split: sum.splits PlainTxAux.splits)
  qed
qed

lemma commit_loop_stored:
  assumes "commit_loop L db txs dbtx = Ok puts" "stored = (if c = COL_BODIES then stored_body else stored_witness)"
    and "c = COL_BODIES \<or> c = COL_WITNESS"
    and "\<forall>t \<in> set txs. txaux_id (nl_ext L) t = txaux_id (nl_ext L) tx \<longrightarrow> t = tx"
  shows "last_put puts c (txaux_id (nl_ext L) tx) =
    (if tx \<in> set txs \<and> stored (nl_scale L) tx \<noteq> None then stored (nl_scale L) tx else last_put dbtx c (txaux_id (nl_ext L) tx))"
  using assms(1,4)
proof (induction txs arbitrary: dbtx)
  case (Cons t txs)
  from Cons.prems(1) obtain mid where m: "commit_puts L db t dbtx = Ok mid" "commit_loop L db txs mid = Ok puts"
    by (auto simp: result_simps)
  from Cons.IH [OF m(2)] Cons.prems(2) commit_puts_stored [OF m(1) assms(2,3), of "txaux_id (nl_ext L) tx"] show ?case
    by auto
qed simp

lemma commit_stored:
  assumes "kv_laws L" "commit_handler L M app = Ok (app', h)" "tx \<in> set (delivered_txs app)"
    and "\<forall>t \<in> set (delivered_txs app). txaux_id (nl_ext L) t = txaux_id (nl_ext L) tx \<longrightarrow> t = tx"
  shows "stored_body (nl_scale L) tx = Some body \<Longrightarrow>
      kv_get L (storage_db app') COL_BODIES (txaux_id (nl_ext L) tx) = Ok (Some body)"
    and "kv_get L (storage_db app') COL_WITNESS (txaux_id (nl_ext L) tx) = (case stored_witness (nl_scale L) tx of
      Some w \<Rightarrow> Ok (Some w) | None \<Rightarrow> kv_get L (storage_db app) COL_WITNESS (txaux_id (nl_ext L) tx))"
proof -
  from assms(2) obtain st puts db v where c: "commit_loop L (storage_db app) (delivered_txs app) [] = Ok puts"
    and w: "kv_write L (storage_db app) (puts @ closing_puts L M app (committed_state L app st)) = (db, Ok ())"
    and app': "app' = app\<lparr> storage_db := db, tx_validator := v, last_state := Some (committed_state L app st), delivered_txs := [] \<rparr>"
    by (rule commit_handler_cases)
  have col: "COL_BODIES \<notin> {COL_MERKLE_PROOFS, COL_APP_STATES, COL_NODE_INFO}"
    "COL_WITNESS \<notin> {COL_MERKLE_PROOFS, COL_APP_STATES, COL_NODE_INFO}" "COL_WITNESS \<noteq> COL_BODIES" by (simp_all add: columns)
  note s = commit_loop_stored [OF c refl _ assms(4)]
  show "kv_get L (storage_db app') COL_BODIES (txaux_id (nl_ext L) tx) = Ok (Some body)"
    if "stored_body (nl_scale L) tx = Some body"
    using s [of COL_BODIES] assms(3) that col by (simp add: app' kv_written(2) [OF assms(1) w] closing_puts_other(1))
  show "kv_get L (storage_db app') COL_WITNESS (txaux_id (nl_ext L) tx) = (case stored_witness (nl_scale L) tx of
      Some w \<Rightarrow> Ok (Some w) | None \<Rightarrow> kv_get L (storage_db app) COL_WITNESS (txaux_id (nl_ext L) tx))"
    using s [of COL_WITNESS] assms(3) col
    by (simp add: app' kv_written(2) [OF assms(1) w] closing_puts_other(1) split: option.split)
qed

text \<open>The commit of a block with one unbonding.\<close>

definition sample_block :: "(mem_db, mem_accounts, MockClient, bool) ChainNodeApp" where
  "sample_block = sample_app\<lparr> delivered_txs := [sample_unbond_aux] \<rparr>"

lemma sample_commit:
  "\<exists>app' h st. commit_handler mem_node mem_app sample_block = Ok (app', h) \<and>
     storage_db app' COL_BODIES (txaux_id sample_ext sample_unbond_aux) = Some (enc (c_unbond sample_scale) sample_unbond) \<and>
     storage_db app' COL_WITNESS (txaux_id sample_ext sample_unbond_aux) = Some (encode_op_witness sample_scale (BasicRedeemWitness [5])) \<and>
     storage_db app' COL_APP_STATES (enc word_codec (- 1 :: i64)) = None \<and>
     last_state app' = Some st \<and> cns_last_block_height st = 0"
proof -
  have st: "last_state sample_block = Some sample_state" by (simp add: sample_block_def sample_app_def)
  have loop: "commit_loop mem_node (storage_db sample_block) (delivered_txs sample_block) [] =
      Ok [(COL_BODIES, txaux_id sample_ext sample_unbond_aux, enc (c_unbond sample_scale) sample_unbond),
          (COL_WITNESS, txaux_id sample_ext sample_unbond_aux, encode_op_witness sample_scale (BasicRedeemWitness [5]))]"
    by (simp add: sample_block_def commit_puts_def Let_def sample_unbond_aux_def)
  have ok: "\<exists>app' h. commit_handler mem_node mem_app sample_block = Ok (app', h)"
    by (simp add: commit_handler_def st loop Let_def mock_process_request_def del: commit_loop.simps)
  then obtain app' h where c: "commit_handler mem_node mem_app sample_block = Ok (app', h)" by blast
  have key: "enc word_codec (- 1 :: i64) \<noteq> enc word_codec (0 :: i64)"
    using reads_backD [OF word_codec_ok, of "- 1 :: i64" "[]"] reads_backD [OF word_codec_ok, of "0 :: i64" "[]"] by auto
  from c obtain s puts db v where s: "last_state sample_block = Some s"
    "commit_loop mem_node (storage_db sample_block) (delivered_txs sample_block) [] = Ok puts"
    "kv_write mem_node (storage_db sample_block) (puts @ closing_puts mem_node mem_app sample_block (committed_state mem_node sample_block s)) =
      (db, Ok ())"
    "app' = sample_block\<lparr> storage_db := db, tx_validator := v, last_state := Some (committed_state mem_node sample_block s), delivered_txs := [] \<rparr>"
    by (rule commit_handler_cases)
  have h0: "cns_last_block_height (committed_state mem_node sample_block s) = 0"
    using s(1) st by (auto simp: committed_state_def Let_def sample_state_def)
  have db: "db = mem_write (storage_db sample_block) (puts @ closing_puts mem_node mem_app sample_block (committed_state mem_node sample_block s))"
    using s(3) by simp
  have puts: "puts = [(COL_BODIES, txaux_id sample_ext sample_unbond_aux, enc (c_unbond sample_scale) sample_unbond),
      (COL_WITNESS, txaux_id sample_ext sample_unbond_aux, encode_op_witness sample_scale (BasicRedeemWitness [5]))]"
    using s(2) loop by simp
  have "storage_db sample_block COL_APP_STATES k = None" for k by (simp add: sample_block_def sample_app_def columns)
  then have "storage_db app' COL_APP_STATES (enc word_codec (- 1 :: i64)) = None"
    using key h0 by (simp add: s(4) db puts mem_write_def closing_puts_def mem_app_def columns)
  moreover have "storage_db app' COL_BODIES (txaux_id sample_ext sample_unbond_aux) = Some (enc (c_unbond sample_scale) sample_unbond)"
    "storage_db app' COL_WITNESS (txaux_id sample_ext sample_unbond_aux) = Some (encode_op_witness sample_scale (BasicRedeemWitness [5]))"
    by (simp_all add: s(4) db puts mem_write_def closing_puts_def columns)
  ultimately show ?thesis using c h0 by (auto simp: s(4))
qed

lemma sample_mapping:
  "\<exists>m. get_validator_mapping (mem_node_with P) (accounts (sample_genesis v)) sample_genesis_state = Ok m"
proof -
  have a: "get_account (mem_node_with P) (BasicRedeem (RedeemAddress [4])) [] (accounts (sample_genesis v)) = Ok sample_node_account"
    using sample_node_key(1)
    by (simp add: get_account_def mem_get_one_def version_def sample_genesis_def sample_ext_def)
  have s: "cns_required_council_node_stake sample_genesis_state = Coin 900000000000000000"
    "last_account_root_hash sample_genesis_state = []" "bonded sample_node_account = Coin 900000000000000000"
    "cns_council_nodes sample_genesis_state = [sample_council_node]"
    "staking_account_address sample_council_node = BasicRedeem (RedeemAddress [4])"
    by (simp_all add: sample_genesis_state_def chain_node_state_genesis_def sample_config_def new_init_def
        sample_council_node_def council_node_new_def)
  from sample_vote_power obtain p where "vote_power_from_coin (Coin 900000000000000000) = Ok p" by blast
  then show ?thesis by (simp add: get_validator_mapping_def s a Let_def)
qed

section \<open>Properties\<close>

text \<open>
  C8: a node that stops after a commit comes back as it was.  Started again with the same genesis hash
  and chain id, on the database and the accounts the commit left, it has the same state of the chain, the
  same root of the accounts and the same outputs, provided the enclave recognises the committed hash; what
  it loses is the filter, and the voting powers are read from the accounts again.
\<close>

theorem restart_after_commit:
  assumes "kv_laws L" "reads_back (c_node_state M)" "node_start L M gah chain_id app0" "node_run L M app0 txs app"
    and "commit_handler L M app = Ok (app', h)"
    and "process_request L v (CheckChain (app_chain_hex_id app') (Some h)) = Ok (v', RespCheckChain (Ok ()))"
    and "get_validator_mapping L (accounts app') (the (last_state app')) = Ok (pws, pubkeys)"
  shows "new_with_storage L M v gah chain_id (storage_db app') (accounts app') =
    Ok (app'\<lparr> app_filter := filter_default (nl_bloom L), validator_voting_power := pws, validator_pubkeys := pubkeys,
      power_changed_in_block := [], tx_validator := v' \<rparr>)"
proof -
  have "identity_stored L M gah chain_id app" "root_agrees app"
    using node_start_stored [OF assms(1,3)] node_run_identity [OF assms(1,4)] node_run_root [OF assms(4)] by simp_all
  from restart [OF assms(1,2) this assms(5-7)] show ?thesis .
qed

theorem restart_after_commit_witness:
  "\<exists>app' h app2. commit_handler mem_node mem_app (sample_genesis (mock_new 0)) = Ok (app', h) \<and>
     new_with_storage mem_node mem_app (mock_new 0) (hex_encode sample_text sample_genesis_hash) sample_chain_id
       (storage_db app') (accounts app') = Ok app2 \<and> last_state app2 = Some sample_genesis_state"
proof -
  let ?app = "sample_genesis (mock_new 0)"
  obtain app' h where c: "commit_handler mem_node mem_app ?app = Ok (app', h)" "last_state app' = Some sample_genesis_state"
    "accounts app' = accounts ?app" "app_chain_hex_id app' = 0"
    by (simp add: commit_handler_def sample_genesis_def sample_fresh_def)
  have p: "mock_process_request sample_ext sample_scale (mock_new 0) (CheckChain (app_chain_hex_id app') (Some h)) =
      Ok (mock_new 0, RespCheckChain (Ok ()))"
    by (simp add: mock_process_request_def mock_new_def c(4))
  obtain pws pubkeys where m: "get_validator_mapping mem_node (accounts app') (the (last_state app')) = Ok (pws, pubkeys)"
    using sample_mapping [of "mock_process_request sample_ext sample_scale" "mock_new 0"] c(2,3) by auto
  from restart_after_commit [OF mem_kv_laws _ sample_mock_genesis run_stop c(1), where v = "mock_new 0" and v' = "mock_new 0"]
  show ?thesis using p m c app_codecs_ok(2) by (auto simp: mem_app_def)
qed

text \<open>
  C39: a node with the validation server cannot be restarted before its first accepted transaction.  From
  a first start, through the initialisation of the chain and any calls of Tendermint in which no
  transaction is accepted, empty blocks included, the state with the genesis hash is stored, but the
  server, which is told a hash only by the commit of a block with transactions, knows none; the check at
  the next start compares the two and the node panics.
\<close>

theorem restart_after_init_panics:
  assumes "enclave_laws E S G K" "kv_laws L" "reads_back (c_node_state M)" "process_request L = server_handle E S G K"
    and "new_with_storage L M srv gah chain_id db accs = Ok app0" "last_state app0 = None"
    and "init_chain_handler L M app0 req = Ok (app1, vs)" "node_run L M app1 [] app2"
  shows "new_with_storage L M (tx_validator app2) gah chain_id (storage_db app2) accs' =
    Err (Panic ''enclave sanity check failed'')"
proof -
  have l: "digest_size E" "sgx_laws G" "scale_laws S" "sled_laws K" using assms(1) by (simp_all add: enclave_laws_def)
  note f = fresh_server [OF assms(4,5,6)]
  from assms(7) obtain more db' trie keys root st where
    w: "kv_write L (storage_db app0) (more @ [(COL_NODE_INFO, LAST_STATE_KEY, enc (c_node_state M) st),
         (COL_EXTRA, ascii ''init_chain_state'', enc (c_node_state M) st)]) = (db', Ok ())"
    and app1: "app1 = app0\<lparr> storage_db := db', accounts := trie, validator_pubkeys := keys,
       uncommitted_account_root_hash := root, last_state := Some st \<rparr>"
    by (rule init_chain_cases) blast
  have "kv_get L db' COL_NODE_INFO LAST_STATE_KEY = Ok (Some (enc (c_node_state M) st))"
    by (simp add: kv_written(2) [OF assms(2) w] columns)
  with f have "untouched L M K app1" by (auto simp: untouched_def app1)
  from node_run_untouched [OF l assms(2,4,8) refl this] obtain st' where
    u: "sl_get K (txdb (tx_validator app2)) LAST_APPHASH_KEY = Ok None"
      "kv_get L (storage_db app2) COL_NODE_INFO LAST_STATE_KEY = Ok (Some (enc (c_node_state M) st'))"
    by (auto simp: untouched_def)
  have "dec (c_node_state M) (enc (c_node_state M) s) = Ok (s, [])" for s
    using reads_backD [OF assms(3), of s "[]"] by simp
  moreover have "enclave_sanity_check L (tx_validator app2) hex (Some a) = Err (Panic ''enclave sanity check failed'')" for hex a
    using u(1) by (simp add: enclave_sanity_check_def assms(4) server_handle_def server_check_chain_def)
  moreover have "identity_stored L M gah chain_id app2"
    using node_run_identity [OF assms(2,8)] init_chain_identity [OF assms(2,7)] new_with_storage_identity [OF assms(2,5)] by blast
  ultimately show ?thesis using u(2) by (simp add: new_with_storage_def copy_hash_def identity_stored_def)
qed

theorem restart_after_init_panics_witness:
  "let node = mem_node_with (server_handle sample_ext sample_scale sample_sgx sample_sled) in
   new_with_storage node mem_app sample_server (hex_encode sample_text sample_genesis_hash) sample_chain_id (\<lambda>_ _. None) [] =
     Ok (sample_fresh sample_server) \<and>
   (\<exists>vs app' h. init_chain_handler node mem_app (sample_fresh sample_server) sample_init = Ok (sample_genesis sample_server, vs) \<and>
      commit_handler node mem_app (sample_genesis sample_server) = Ok (app', h) \<and>
      new_with_storage node mem_app (tx_validator app') (hex_encode sample_text sample_genesis_hash) sample_chain_id
        (storage_db app') (accounts app') = Err (Panic ''enclave sanity check failed''))"
proof -
  let ?P = "server_handle sample_ext sample_scale sample_sgx sample_sled"
  have k: "sl_get sample_sled (txdb sample_server) LAST_APPHASH_KEY = Ok None"
    by (simp add: sample_sled_def sample_server_def)
  then have s: "?P sample_server (CheckChain 0 None) = Ok (sample_server, RespCheckChain (Ok ()))"
    by (simp add: server_handle_def server_check_chain_def check_initchain_def ecall_initchain_def ecall_ok_def sample_sgx_def)
  obtain vs where i: "init_chain_handler (mem_node_with ?P) mem_app (sample_fresh sample_server) sample_init = Ok (sample_genesis sample_server, vs)"
    using sample_init_chain [of ?P sample_server] by blast
  obtain app' h where c: "commit_handler (mem_node_with ?P) mem_app (sample_genesis sample_server) = Ok (app', h)"
    by (simp add: commit_handler_def sample_genesis_def sample_fresh_def)
  have r: "reads_back (c_node_state mem_app)" using app_codecs_ok(2) by (simp add: mem_app_def)
  note start = sample_start [of ?P, OF s]
  have run: "node_run (mem_node_with ?P) mem_app (sample_genesis sample_server) [] app'"
    using run_step [OF run_stop step_commit [OF c]] by simp
  from restart_after_init_panics [OF sample_enclave_laws mem_kv_laws r _ start _ i run] start i c
  show ?thesis by (auto simp: Let_def sample_fresh_def)
qed

text \<open>
  C11: what the proof query answers for a transaction of the last committed block, its id unique in the
  block and its payload readable.  A transfer, an unbonding or a withdrawal is answered with its body, an
  inclusion proof for exactly this id that verifies against the root of the tree of the block, and the
  hash of the witness stored with it; the root is the one that went into the application hash.  For a
  deposit the commit stores no witness, so, with none in the database before, the query is refused with
  code 2, although the block contains the deposit.
\<close>

theorem query_proof_verifies:
  assumes "kv_laws L" "reads_back (c_merkle_tree M)" "commit_handler L M app = Ok (app', h)"
    and "tx \<in> set (delivered_txs app)" "length (txaux_id (nl_ext L) tx) = 32"
    and "\<forall>t \<in> set (delivered_txs app). txaux_id (nl_ext L) t = txaux_id (nl_ext L) tx \<longrightarrow> t = tx"
    and "stored_body (nl_scale L) tx = Some body"
    and "req = \<lparr> rq_path = ''store'', rq_data = txaux_id (nl_ext L) tx, rq_height = 0, rq_prove = True \<rparr>"
  shows "case stored_witness (nl_scale L) tx of
      Some witness \<Rightarrow> (\<exists>root p st. query_handler L M app' req =
          Ok \<lparr> q_code = 0, q_log = [], q_value = body,
            q_proof = Some [into_proof_op M root p, get_witness_proof_op (nl_ext L) witness] \<rparr> \<and>
        proof_verify (blake2s (nl_ext L)) p root \<and> proof_value p = txaux_id (nl_ext L) tx \<and>
        last_state app' = Some st \<and>
        h = hash256 (blake2s (nl_ext L)) (root @ last_account_root_hash st @ rewards_pool_hash (nl_ext L) (rewards_pool st)))
    | None \<Rightarrow> (\<exists>dtx payload. tx = DepositStakeTx dtx payload) \<and>
        (kv_get L (storage_db app) COL_WITNESS (txaux_id (nl_ext L) tx) = Ok None \<longrightarrow> query_handler L M app' req =
          Ok \<lparr> q_code = 2, q_log = ''proof error: witness not found'', q_value = body, q_proof = None \<rparr>)"
proof (cases "stored_witness (nl_scale L) tx")
  case None
  with assms(7) have "\<exists>dtx payload. tx = DepositStakeTx dtx payload"
    by (auto simp: stored_body_def stored_witness_def split: TxAux.split_asm sum.split_asm PlainTxAux.split_asm)
  with None assms(8) commit_stored(1) [OF assms(1,3,4,6,7)] commit_stored(2) [OF assms(1,3,4,6)] show ?thesis
    by (auto simp: query_handler_def starts_with_def query_lookup_def response_query_new_def Let_def q_fail_def)
next
  case (Some witness)
  from assms(4) have "delivered_txs app \<noteq> []" by auto
  with assms(1,3) obtain st where st: "last_state app' = Some st"
    "h = compute_app_hash (nl_ext L) (block_tree L app) (last_account_root_hash st) (rewards_pool st)"
    "kv_get L (storage_db app') COL_APP_STATES (encode_var_i64 M (cns_last_block_height st)) = Ok (Some h)"
    "kv_get L (storage_db app') COL_MERKLE_PROOFS h = Ok (Some (enc (c_merkle_tree M) (block_tree L app)))"
    by (rule commit_queries)
  let ?id = "txaux_id (nl_ext L) tx" and ?D = "blake2s (nl_ext L)"
  obtain p where p: "generate_proof ?D (\<lambda>i. i) (block_tree L app) ?id = Some p"
    using assms(4) generate_path_None_iff [of ?D "\<lambda>i. i" "mt_tree (block_tree L app)" ?id]
    by (cases "generate_proof ?D (\<lambda>i. i) (block_tree L app) ?id") (auto simp: generate_proof_def block_tree_def)
  then have ver: "proof_verify ?D p (root_hash (block_tree L app)) \<and> proof_value p = ?id"
    unfolding block_tree_def by (rule generate_proof_verifies)
  have "dec (c_merkle_tree M) (enc (c_merkle_tree M) (block_tree L app)) = Ok (block_tree L app, [])"
    using reads_backD [OF assms(2), of "block_tree L app" "[]"] by simp
  moreover have "kv_get L (storage_db app') COL_WITNESS ?id = Ok (Some witness)"
    using commit_stored(2) [OF assms(1,3,4,6)] Some by simp
  ultimately have "query_handler L M app' req =
      Ok \<lparr> q_code = 0, q_log = [], q_value = body,
        q_proof = Some [into_proof_op M (root_hash (block_tree L app)) p, get_witness_proof_op (nl_ext L) witness] \<rparr>"
    using query_store [of req L app' body witness M] assms(5,8) commit_stored(1) [OF assms(1,3,4,6,7)] st p
    by (simp add: query_proof_def Let_def copy_hash_def response_query_new_def)
  with ver st(1,2) Some show ?thesis by (auto simp: compute_app_hash_def Let_def)
qed

theorem query_proof_verifies_witness:
  "\<exists>app' h root p. commit_handler mem_node mem_app sample_block = Ok (app', h) \<and>
     query_handler mem_node mem_app app' \<lparr> rq_path = ''store'', rq_data = txaux_id sample_ext sample_unbond_aux, rq_height = 0, rq_prove = True \<rparr> =
       Ok \<lparr> q_code = 0, q_log = [], q_value = enc (c_unbond sample_scale) sample_unbond,
         q_proof = Some [into_proof_op mem_app root p,
           get_witness_proof_op sample_ext (encode_op_witness sample_scale (BasicRedeemWitness [5]))] \<rparr> \<and>
     proof_verify sample_digest p root \<and> proof_value p = txaux_id sample_ext sample_unbond_aux"
proof -
  from sample_commit obtain app' h where c: "commit_handler mem_node mem_app sample_block = Ok (app', h)" by blast
  have l: "length (txaux_id (nl_ext mem_node) sample_unbond_aux) = 32" "blake2s sample_ext = sample_digest"
    using sample_digest_laws(2)
    by (simp_all add: txaux_id_def sample_unbond_aux_def unbond_id_def txid_hash_def hash256_def sample_ext_def HASH_SIZE_256_def)
  have t: "sample_unbond_aux \<in> set (delivered_txs sample_block)"
    "\<forall>t \<in> set (delivered_txs sample_block). txaux_id (nl_ext mem_node) t = txaux_id (nl_ext mem_node) sample_unbond_aux \<longrightarrow> t = sample_unbond_aux"
    by (simp_all add: sample_block_def)
  have b: "stored_body (nl_scale mem_node) sample_unbond_aux = Some (enc (c_unbond sample_scale) sample_unbond)"
    "stored_witness (nl_scale mem_node) sample_unbond_aux = Some (encode_op_witness sample_scale (BasicRedeemWitness [5]))"
    by (simp_all add: stored_body_def stored_witness_def sample_unbond_aux_def)
  have r: "reads_back (c_merkle_tree mem_app)" using app_codecs_ok(1) by (simp add: mem_app_def)
  from query_proof_verifies [OF mem_kv_laws r c t(1) l(1) t(2) b(1) refl] show ?thesis
    unfolding b(2) option.case using c l(2) by fastforce
qed

text \<open>
  Asking for a proof at a height the node knows nothing of stops the node.  The handler unwraps both
  lookups, so any stored transaction together with, for instance, a negative height is enough; a height
  of a block before the first transaction does the same, since the genesis hash has no tree.
\<close>

theorem query_unknown_height_panics:
  assumes "rq_path req = ''store''" "rq_prove req"
    and "kv_get L (storage_db app) COL_BODIES (rq_data req) = Ok (Some body)"
    and "kv_get L (storage_db app) COL_WITNESS (rq_data req) = Ok (Some witness)"
    and "last_state app = Some st" "rq_height req \<noteq> 0" "\<not> cns_last_block_height st <s rq_height req"
    and "kv_get L (storage_db app) COL_APP_STATES (encode_var_i64 M (rq_height req)) = Ok r"
    and "\<forall>a. r = Some a \<longrightarrow> kv_get L (storage_db app) COL_MERKLE_PROOFS a = Ok None"
  shows "query_handler L M app req = Err (Panic ''called unwrap on a None value'')"
  using query_store [OF assms(1-4), of M] assms(5-9)
  by (cases r) (simp_all add: query_proof_def Let_def)

theorem query_unknown_height_panics_witness:
  "\<exists>app' h. commit_handler mem_node mem_app sample_block = Ok (app', h) \<and>
     query_handler mem_node mem_app app' \<lparr> rq_path = ''store'', rq_data = txaux_id sample_ext sample_unbond_aux, rq_height = - 1, rq_prove = True \<rparr> =
       Err (Panic ''called unwrap on a None value'')"
proof -
  from sample_commit obtain app' h st where c: "commit_handler mem_node mem_app sample_block = Ok (app', h)"
    "storage_db app' COL_BODIES (txaux_id sample_ext sample_unbond_aux) = Some (enc (c_unbond sample_scale) sample_unbond)"
    "storage_db app' COL_WITNESS (txaux_id sample_ext sample_unbond_aux) = Some (encode_op_witness sample_scale (BasicRedeemWitness [5]))"
    "storage_db app' COL_APP_STATES (enc word_codec (- 1 :: i64)) = None" "last_state app' = Some st" "cns_last_block_height st = 0"
    by blast
  have "query_handler mem_node mem_app app' \<lparr> rq_path = ''store'', rq_data = txaux_id sample_ext sample_unbond_aux, rq_height = - 1, rq_prove = True \<rparr> =
      Err (Panic ''called unwrap on a None value'')"
    by (rule query_unknown_height_panics [where st = st and r = None]) (simp_all add: c mem_app_def word_sless_alt)
  with c(1) show ?thesis by blast
qed

text \<open>
  C12: the filter of a block has no false negatives: whatever is accepted in a block, the account it
  touches and every view key of its plain transaction are found in the filter that the end of the block
  publishes, whatever other calls come in between.
\<close>

theorem block_filter_complete:
  assumes "bloom_laws (nl_bloom L)" "acc_laws L" "enclave_proxy (nl_ext L) (process_request L)"
    and "accounts_ok L (accounts app) (uncommitted_account_root_hash app)"
    and "deliver_tx L app tx = Ok (app1, resp)" "delivered_txs app1 = delivered_txs app @ [txaux]"
    and "block_run L app1 app2" "end_block L app2 h = Ok (app3, r)"
  shows "(\<forall>k. tx_key (nl_ext L) txaux = Some k \<longrightarrow> (\<exists>s. account_at L app1 k = Ok (Some s) \<and>
       published L r (\<lambda>f. check_staked_state_address (nl_bloom L) f (address s)))) \<and>
    (\<forall>vk \<in> set (envelope_view_keys (nl_scale L) txaux). published L r (\<lambda>f. check_view_key (nl_ext L) (nl_bloom L) f vk))"
  using assms(5)
proof (cases rule: deliver_tx_cases)
  case (rejected v)
  with assms(6) show ?thesis by simp
next
  case (accepted t fee acc st info v accs root macc inittx pool fltr pending)
  then have t: "t = txaux" "txaux \<in> set (delivered_txs app1)" using assms(6) by simp_all
  note kept = block_run_kept [OF assms(1,7)] and pub = end_block_published [OF assms(1,8)]
  have acc: "\<exists>s. account_at L app1 k = Ok (Some s) \<and> published L r (\<lambda>f. check_staked_state_address (nl_bloom L) f (address s))"
    if "tx_key (nl_ext L) txaux = Some k" for k
    using assms(2-4) accepted(1,2)
  proof (cases rule: deliver_account)
    case none
    with that t(1) show ?thesis by simp
  next
    case (update k' old s)
    with that t(1) accepted(6) have a: "account_at L app1 k = Ok (Some s)" by simp
    have "check_staked_state_address (nl_bloom L) (app_filter app1) (address s)" "modified (app_filter app1)"
      using filter_added(2) [OF assms(1)]
      by (simp_all add: accepted(6,7) next_filter_def update(2)) (simp add: add_staked_state_address_def)
    with kept pub(1) a show ?thesis by blast
  qed
  moreover have "published L r (\<lambda>f. check_view_key (nl_ext L) (nl_bloom L) f vk)"
    if "vk \<in> set (envelope_view_keys (nl_scale L) txaux)" for vk
    using kept t(2) pub(2) [OF _ that] by blast
  ultimately show ?thesis by blast
qed

theorem block_filter_complete_witness:
  "\<exists>app r. end_block mem_node sample_delivered 1 = Ok (app, r) \<and>
     published mem_node r (\<lambda>f. check_staked_state_address sample_bloom f (address sample_owner))"
proof -
  from sample_deliver obtain resp where
    d: "deliver_tx mem_node sample_app (encode_txaux sample_scale sample_deposit_aux) = Ok (sample_delivered, resp)" by blast
  obtain app r where e: "end_block mem_node sample_delivered 1 = Ok (app, r)"
    by (simp add: end_block_def sample_delivered_def sample_app_def Let_def)
  have t: "delivered_txs sample_delivered = delivered_txs sample_app @ [sample_deposit_aux]"
    by (simp add: sample_delivered_def sample_app_def)
  have k: "tx_key (nl_ext mem_node) sample_deposit_aux = Some (to_stake_key sample_digest (address sample_owner))"
    "account_at mem_node sample_delivered (to_stake_key sample_digest (address sample_owner)) = Ok (Some sample_staker)"
    "address sample_staker = address sample_owner"
    using sample_owner_address
    by (simp_all add: tx_key_def sample_deposit_aux_def sample_deposit_def deposit_bond_tx_new_def sample_ext_def
        sample_delivered_def sample_app_def mem_get_one_def version_def sample_staker_def)
  have b: "bloom_laws (nl_bloom mem_node)" using sample_bloom_laws by simp
  from block_filter_complete [OF b mem_acc_laws mem_proxy sample_accounts_ok d t block_here e] k e show ?thesis by auto
qed

end
