(* ===== verification/Client_Storage.thy ===== *)
theory Client_Storage
  imports Codec "HOL-Library.AList"
begin

text \<open>
  The storage layer of the client (\<open>client-common/src/storage.rs\<close>, \<open>storage/memory_storage.rs\<close>,
  \<open>storage/unauthorized_storage.rs\<close>) and its errors (\<open>client-common/src/error.rs\<close>).  The trait
  \<open>Storage\<close> is a record of operations, its contract the locale \<open>client_storage\<close>; the in-memory
  storage satisfies it.  On top of the trait the encrypted operations seal every value under the
  passphrase.  The authenticated cipher and the random generator are libraries, the fields of \<open>AeadLib\<close>.
\<close>

section \<open>Errors and actions\<close>

datatype ErrorKind =
    StorageInitializationError | StorageError | KeyGenerationError | RngError | DecryptionError
  | AlreadyExists | SerializationError | DeserializationError | WalletNotFound | AddressNotFound
  | LockError | BalanceAdditionError | BalanceNotFound | RpcError | InvalidTransaction
  | TransactionNotFound | OutputNotFound | PrivateKeyNotFound | InsufficientBalance | IoError
  | InvalidInput | PermissionDenied | SessionNotFound | SignerNotFound | SessionCreationError
  | MissingNonceCommitment | MissingNonce | MissingPartialSignature | NonceCombiningError
  | PartialSignError | SigningError | InvalidCertFormat | BadAttnReport | WebpkiFailure
  | TDQEConnectionError | MultiSigInvalidSelfPubKey | TransactionValidationFailed

text \<open>
  A client function ends with a value, with an error of which only the kind is ever inspected
  (\<open>Error::kind\<close>), or with a panic.
\<close>

datatype failure = Failed ErrorKind | Panicked string

type_synonym 'a outcome = "failure + 'a"

text \<open>\<open>.context(kind)?\<close> replaces an error by the given kind, \<open>ok_or_else\<close> gives one to a missing value.\<close>

definition with_context :: "ErrorKind \<Rightarrow> 'e + 'a \<Rightarrow> 'a outcome" where
  "with_context k r = map_err (\<lambda>_. Failed k) r"

definition or_kind :: "ErrorKind \<Rightarrow> 'a option \<Rightarrow> 'a outcome" where
  "or_kind k r = ok_or (Failed k) r"

lemma with_context_iff [result_simps]:
  "with_context k r = Inr x \<longleftrightarrow> r = Inr x" "with_context k r = Inl e \<longleftrightarrow> (\<exists>d. r = Inl d) \<and> e = Failed k"
  by (cases r; auto simp: with_context_def)+

lemma or_kind_iff [result_simps]:
  "or_kind k r = Inr x \<longleftrightarrow> r = Some x" "or_kind k r = Inl e \<longleftrightarrow> r = None \<and> e = Failed k"
  by (cases r; auto simp: or_kind_def)+

lemma with_context_simps [simp]:
  "with_context k (Inr x) = Inr x" "with_context k (Inl d) = Inl (Failed k)"
  by (simp_all add: with_context_def)

lemma or_kind_simps [simp]: "or_kind k (Some x) = Inr x" "or_kind k None = Inl (Failed k)"
  by (simp_all add: or_kind_def)

text \<open>
  The services share one storage behind interior mutability, draw random bytes from the operating
  system and talk to remote servers.  A world holds the storage and counts the interactions with the
  outside; the libraries are functions of this count, so that every sequence of answers is covered.
  An action maps a world to the world it leaves behind, also when it fails, and to its outcome.
\<close>

record 's World =
  store :: 's
  tick :: nat

type_synonym ('s, 'a) action = "'s World \<Rightarrow> 's World \<times> 'a outcome"

definition act_pure :: "'a outcome \<Rightarrow> ('s, 'a) action" where
  "act_pure r w = (w, r)"

fun act_bind :: "('s, 'a) action \<Rightarrow> ('a \<Rightarrow> ('s, 'b) action) \<Rightarrow> ('s, 'b) action" where
  "act_bind m f w = (case m w of (w', Inl e) \<Rightarrow> (w', Inl e) | (w', Inr x) \<Rightarrow> f x w')"

definition act_read :: "('s \<Rightarrow> 'a outcome) \<Rightarrow> ('s, 'a) action" where
  "act_read f w = (w, f (store w))"

definition act_write :: "('s \<Rightarrow> 's \<times> 'a outcome) \<Rightarrow> ('s, 'a) action" where
  "act_write f w = (case f (store w) of (s, r) \<Rightarrow> (w\<lparr> store := s \<rparr>, r))"

definition act_ask :: "(nat \<Rightarrow> 'a outcome) \<Rightarrow> ('s, 'a) action" where
  "act_ask f w = (w\<lparr> tick := tick w + 1 \<rparr>, f (tick w))"

text \<open>A loop over a list, left at the first failure.\<close>

fun act_each :: "('a \<Rightarrow> ('s, 'b) action) \<Rightarrow> 'a list \<Rightarrow> ('s, 'b list) action" where
  "act_each f [] = act_pure (Ok [])"
| "act_each f (x # xs) = act_bind (f x) (\<lambda>y. act_bind (act_each f xs) (\<lambda>ys. act_pure (Ok (y # ys))))"

lemma act_simps [simp]:
  "act_pure r w = (w, r)" "act_read g w = (w, g (store w))"
  "act_ask h w = (w\<lparr> tick := tick w + 1 \<rparr>, h (tick w))"
  by (simp_all add: act_pure_def act_read_def act_ask_def)

lemma act_bind_Ok_iff [result_simps]:
  "act_bind m f w = (w'', Inr y) \<longleftrightarrow> (\<exists>w' x. m w = (w', Inr x) \<and> f x w' = (w'', Inr y))"
  by (auto split: prod.splits sum.splits)

lemma act_bind_Err_iff [result_simps]:
  "act_bind m f w = (w'', Inl e) \<longleftrightarrow>
     m w = (w'', Inl e) \<or> (\<exists>w' x. m w = (w', Inr x) \<and> f x w' = (w'', Inl e))"
  by (auto split: prod.splits sum.splits)

lemma act_bind_eq: "m w = (w', Inr x) \<Longrightarrow> act_bind m f w = f x w'"
  by simp

lemma act_bind_fail: "m w = (w', Inl e) \<Longrightarrow> act_bind m f w = (w', Inl e)"
  by simp

declare act_bind.simps [simp del]

lemma act_bind_pure [simp]:
  "act_bind (act_pure (Inr x)) f w = f x w" "act_bind (act_pure (Inl e)) f w = (w, Inl e)"
  by (simp_all add: act_bind.simps)

section \<open>The storage trait\<close>

record 's Storage =
  st_clear :: "bytes \<Rightarrow> 's \<Rightarrow> 's \<times> unit outcome"
  st_get :: "bytes \<Rightarrow> bytes \<Rightarrow> 's \<Rightarrow> bytes option outcome"
  st_set :: "bytes \<Rightarrow> bytes \<Rightarrow> bytes \<Rightarrow> 's \<Rightarrow> 's \<times> bytes option outcome"
  st_fetch_and_update ::
    "bytes \<Rightarrow> bytes \<Rightarrow> (bytes option \<Rightarrow> bytes option outcome) \<Rightarrow> 's \<Rightarrow> 's \<times> bytes option outcome"
  st_keys :: "bytes \<Rightarrow> 's \<Rightarrow> bytes list outcome"
  st_contains_key :: "bytes \<Rightarrow> bytes \<Rightarrow> 's \<Rightarrow> bool outcome"
  st_keyspaces :: "'s \<Rightarrow> bytes list outcome"

text \<open>
  The in-memory storage: a hash map of hash maps behind a lock.  The maps are association lists with
  distinct keys (their iteration order is not relied on).  A panic of the closure of
  \<open>fetch_and_update\<close> happens while the lock is held for writing and poisons it; from then on every
  operation gives \<open>StorageError\<close>.
\<close>

record MemoryStorage =
  spaces :: "(bytes \<times> (bytes \<times> bytes) list) list"
  poisoned :: bool

definition memory_default :: MemoryStorage where
  "memory_default = \<lparr> spaces = [], poisoned = False \<rparr>"

definition space_of :: "MemoryStorage \<Rightarrow> bytes \<Rightarrow> (bytes \<times> bytes) list" where
  "space_of m ks = (case map_of (spaces m) ks of None \<Rightarrow> [] | Some space \<Rightarrow> space)"

definition put_space :: "bytes \<Rightarrow> (bytes \<times> bytes) list \<Rightarrow> MemoryStorage \<Rightarrow> MemoryStorage" where
  "put_space ks space m = m\<lparr> spaces := AList.update ks space (spaces m) \<rparr>"

definition memory_clear :: "bytes \<Rightarrow> MemoryStorage \<Rightarrow> MemoryStorage \<times> unit outcome" where
  "memory_clear ks m =
     (if poisoned m then (m, Err (Failed StorageError))
      else case map_of (spaces m) ks of
        None \<Rightarrow> (m, Ok ())
      | Some _ \<Rightarrow> (put_space ks [] m, Ok ()))"

definition memory_get :: "bytes \<Rightarrow> bytes \<Rightarrow> MemoryStorage \<Rightarrow> bytes option outcome" where
  "memory_get ks key m =
     (if poisoned m then Err (Failed StorageError)
      else Ok (Option.bind (map_of (spaces m) ks) (\<lambda>space. map_of space key)))"

definition memory_set :: "bytes \<Rightarrow> bytes \<Rightarrow> bytes \<Rightarrow> MemoryStorage \<Rightarrow> MemoryStorage \<times> bytes option outcome" where
  "memory_set ks key value m =
     (if poisoned m then (m, Err (Failed StorageError))
      else let space = space_of m ks
           in (put_space ks (AList.update key value space) m, Ok (map_of space key)))"

definition memory_fetch_and_update ::
    "bytes \<Rightarrow> bytes \<Rightarrow> (bytes option \<Rightarrow> bytes option outcome) \<Rightarrow> MemoryStorage \<Rightarrow> MemoryStorage \<times> bytes option outcome" where
  "memory_fetch_and_update ks key f m =
     (if poisoned m then (m, Err (Failed StorageError))
      else let space = space_of m ks; m = put_space ks space m
           in case f (map_of space key) of
             Inl (Failed k) \<Rightarrow> (m, Err (Failed k))
           | Inl (Panicked msg) \<Rightarrow> (m\<lparr> poisoned := True \<rparr>, Err (Panicked msg))
           | Inr None \<Rightarrow> (put_space ks (AList.delete key space) m, Ok (map_of space key))
           | Inr (Some v) \<Rightarrow> (put_space ks (AList.update key v space) m, Ok (map_of space key)))"

definition memory_keys :: "bytes \<Rightarrow> MemoryStorage \<Rightarrow> bytes list outcome" where
  "memory_keys ks m =
     (if poisoned m then Err (Failed StorageError)
      else Ok (case map_of (spaces m) ks of None \<Rightarrow> [] | Some space \<Rightarrow> map fst space))"

definition memory_contains_key :: "bytes \<Rightarrow> bytes \<Rightarrow> MemoryStorage \<Rightarrow> bool outcome" where
  "memory_contains_key ks key m =
     (if poisoned m then Err (Failed StorageError)
      else Ok (case map_of (spaces m) ks of None \<Rightarrow> False | Some space \<Rightarrow> map_of space key \<noteq> None))"

definition memory_keyspaces :: "MemoryStorage \<Rightarrow> bytes list outcome" where
  "memory_keyspaces m =
     (if poisoned m then Err (Failed StorageError) else Ok (map fst (spaces m)))"

definition memory_storage :: "MemoryStorage Storage" where
  "memory_storage = \<lparr> st_clear = memory_clear, st_get = memory_get, st_set = memory_set,
     st_fetch_and_update = memory_fetch_and_update, st_keys = memory_keys,
     st_contains_key = memory_contains_key, st_keyspaces = memory_keyspaces \<rparr>"

text \<open>\<open>UnauthorizedStorage\<close> denies everything.\<close>

definition unauthorized_storage :: "unit Storage" where
  "unauthorized_storage = \<lparr> st_clear = (\<lambda>_ s. (s, Err (Failed PermissionDenied))),
     st_get = (\<lambda>_ _ _. Err (Failed PermissionDenied)),
     st_set = (\<lambda>_ _ _ s. (s, Err (Failed PermissionDenied))),
     st_fetch_and_update = (\<lambda>_ _ _ s. (s, Err (Failed PermissionDenied))),
     st_keys = (\<lambda>_ _. Err (Failed PermissionDenied)),
     st_contains_key = (\<lambda>_ _ _. Err (Failed PermissionDenied)),
     st_keyspaces = (\<lambda>_. Err (Failed PermissionDenied)) \<rparr>"

section \<open>Encrypted operations\<close>

record AeadLib =
  blake2s_passphrase :: "bytes \<Rightarrow> bytes"
  aead_open :: "bytes \<Rightarrow> bytes \<Rightarrow> bytes \<Rightarrow> bytes \<Rightarrow> bytes option"
  aead_seal :: "bytes \<Rightarrow> bytes \<Rightarrow> bytes \<Rightarrow> bytes \<Rightarrow> bytes"
  os_random :: "nat \<Rightarrow> nat \<Rightarrow> bytes"

definition NONCE_SIZE :: nat where "NONCE_SIZE = 8"

definition get_algo :: "AeadLib \<Rightarrow> bytes \<Rightarrow> bytes" where
  "get_algo C passphrase = blake2s_passphrase C passphrase"

definition open_value :: "AeadLib \<Rightarrow> bytes \<Rightarrow> bytes \<Rightarrow> bytes \<Rightarrow> bytes outcome" where
  "open_value C passphrase key value =
     (if length value < NONCE_SIZE then Err (Panicked ''range start out of range'')
      else let nonce_index = length value - NONCE_SIZE
           in or_kind DecryptionError
                (aead_open C (get_algo C passphrase) (drop nonce_index value) key (take nonce_index value)))"

definition seal_value :: "AeadLib \<Rightarrow> bytes \<Rightarrow> bytes \<Rightarrow> bytes \<Rightarrow> bytes \<Rightarrow> bytes" where
  "seal_value C passphrase key iv value = aead_seal C (get_algo C passphrase) iv key value @ iv"

text \<open>\<open>Option::map(..).transpose()\<close>.\<close>

fun transposed :: "('a \<Rightarrow> 'e + 'b) \<Rightarrow> 'a option \<Rightarrow> 'e + 'b option" where
  "transposed f None = Ok None"
| "transposed f (Some x) = try_bind (f x) (\<lambda>y. Ok (Some y))"

definition get_secure :: "AeadLib \<Rightarrow> 's Storage \<Rightarrow> bytes \<Rightarrow> bytes \<Rightarrow> bytes \<Rightarrow> 's \<Rightarrow> bytes option outcome" where
  "get_secure C S ks key passphrase s =
     try_bind (st_get S ks key s) (\<lambda>value. transposed (open_value C passphrase key) value)"

definition set_secure ::
    "AeadLib \<Rightarrow> 's Storage \<Rightarrow> bytes \<Rightarrow> bytes \<Rightarrow> bytes \<Rightarrow> bytes \<Rightarrow> ('s, bytes option) action" where
  "set_secure C S ks key value passphrase =
     act_bind (act_read (get_secure C S ks key passphrase)) (\<lambda>old_value.
     act_bind (act_ask (\<lambda>t. Ok (os_random C t NONCE_SIZE))) (\<lambda>nonce.
     act_bind (act_write (st_set S ks key (seal_value C passphrase key nonce value))) (\<lambda>_.
     act_pure (Ok old_value))))"

definition fetch_and_update_secure ::
    "AeadLib \<Rightarrow> 's Storage \<Rightarrow> bytes \<Rightarrow> bytes \<Rightarrow> bytes \<Rightarrow> (bytes option \<Rightarrow> bytes option outcome) \<Rightarrow>
       ('s, bytes option) action" where
  "fetch_and_update_secure C S ks key passphrase f =
     act_bind (act_ask (\<lambda>t. Ok (os_random C t NONCE_SIZE))) (\<lambda>nonce.
     act_write (st_fetch_and_update S ks key (\<lambda>current.
       try_bind (transposed (open_value C passphrase key) current) (\<lambda>opened.
       try_bind (f opened) (\<lambda>next. Ok (map_option (seal_value C passphrase key nonce) next))))))"


section \<open>The contract of a storage\<close>

locale client_storage =
  fixes S :: "'s Storage" and healthy :: "'s \<Rightarrow> bool" and view :: "'s \<Rightarrow> bytes \<Rightarrow> bytes \<Rightarrow> bytes option"
  assumes get_view: "healthy s \<Longrightarrow> st_get S ks key s = Ok (view s ks key)"
    and contains_view: "healthy s \<Longrightarrow> st_contains_key S ks key s = Ok (view s ks key \<noteq> None)"
    and keys_view: "healthy s \<Longrightarrow> \<exists>l. st_keys S ks s = Ok l \<and> set l = dom (view s ks)"
    and set_view: "healthy s \<Longrightarrow> \<exists>s'. st_set S ks key v s = (s', Ok (view s ks key)) \<and> healthy s' \<and>
      view s' = (view s)(ks := (view s ks)(key \<mapsto> v))"
    and update_view: "\<lbrakk> healthy s; f (view s ks key) = Ok r \<rbrakk> \<Longrightarrow>
      \<exists>s'. st_fetch_and_update S ks key f s = (s', Ok (view s ks key)) \<and> healthy s' \<and>
        view s' = (view s)(ks := (view s ks)(key := r))"
    and update_fails: "\<lbrakk> healthy s; f (view s ks key) = Err (Failed k) \<rbrakk> \<Longrightarrow>
      \<exists>s'. st_fetch_and_update S ks key f s = (s', Err (Failed k)) \<and> healthy s' \<and> view s' = view s"
    and update_panics: "\<lbrakk> healthy s; f (view s ks key) = Err (Panicked msg) \<rbrakk> \<Longrightarrow>
      \<exists>s'. st_fetch_and_update S ks key f s = (s', Err (Panicked msg))"
    and clear_view: "healthy s \<Longrightarrow> \<exists>s'. st_clear S ks s = (s', Ok ()) \<and> healthy s' \<and>
      view s' = (view s)(ks := Map.empty)"
begin

text \<open>What is stored under a key, opened with a passphrase.\<close>

lemma get_secure_view:
  "healthy s \<Longrightarrow> get_secure C S ks key p s = transposed (open_value C p key) (view s ks key)"
  by (simp add: get_secure_def get_view)

lemma get_secure_absent: "\<lbrakk> healthy s; view s ks key = None \<rbrakk> \<Longrightarrow> get_secure C S ks key p s = Ok None"
  by (simp add: get_secure_view)

end

text \<open>What the cipher documents: it opens what it sealed, and the generator fills the buffer.\<close>

definition aead_laws :: "AeadLib \<Rightarrow> bool" where
  "aead_laws C \<longleftrightarrow>
     (\<forall>k n ad v. aead_open C k n ad (aead_seal C k n ad v) = Some v) \<and> (\<forall>t n. length (os_random C t n) = n)"

text \<open>Authentication: what was sealed opens under no other passphrase.\<close>

definition aead_authentic :: "AeadLib \<Rightarrow> bool" where
  "aead_authentic C \<longleftrightarrow> (\<forall>p q n ad v. p \<noteq> q \<longrightarrow>
     aead_open C (get_algo C q) n ad (aead_seal C (get_algo C p) n ad v) = None)"

lemma length_os_random: "aead_laws C \<Longrightarrow> length (os_random C t n) = n"
  by (simp add: aead_laws_def)

lemma open_sealed:
  "\<lbrakk> aead_laws C; length iv = NONCE_SIZE \<rbrakk> \<Longrightarrow> open_value C p key (seal_value C p key iv v) = Ok v"
  by (simp add: open_value_def seal_value_def aead_laws_def Let_def)

lemma open_sealed_other:
  "\<lbrakk> aead_authentic C; length iv = NONCE_SIZE; p \<noteq> q \<rbrakk> \<Longrightarrow>
   open_value C q key (seal_value C p key iv v) = Err (Failed DecryptionError)"
  by (simp add: open_value_def seal_value_def aead_authentic_def Let_def)

text \<open>The value kept under a key, as a reader with the passphrase sees it.\<close>

definition sealed :: "AeadLib \<Rightarrow> bytes \<Rightarrow> bytes \<Rightarrow> bytes \<Rightarrow> bytes option \<Rightarrow> bool" where
  "sealed C p key v c \<longleftrightarrow> (\<exists>iv. length iv = NONCE_SIZE \<and> c = Some (seal_value C p key iv v))"

lemma sealed_random [simp]:
  "aead_laws C \<Longrightarrow> sealed C p key v (Some (seal_value C p key (os_random C t NONCE_SIZE) v))"
  unfolding sealed_def using length_os_random [of C t NONCE_SIZE] by blast

lemma sealed_opens:
  "\<lbrakk> aead_laws C; sealed C p key v c \<rbrakk> \<Longrightarrow> transposed (open_value C p key) c = Ok (Some v)"
  unfolding sealed_def by (auto simp: open_sealed)

lemma sealed_refuses:
  "\<lbrakk> aead_authentic C; sealed C p key v c; p \<noteq> q \<rbrakk> \<Longrightarrow>
   transposed (open_value C q key) c = Err (Failed DecryptionError)"
  unfolding sealed_def by (auto simp: open_sealed_other)

context client_storage
begin

lemma get_sealed:
  "\<lbrakk> aead_laws C; healthy s; sealed C p key v (view s ks key) \<rbrakk> \<Longrightarrow> get_secure C S ks key p s = Ok (Some v)"
  by (simp add: get_secure_view sealed_opens)

lemma get_sealed_other:
  "\<lbrakk> aead_authentic C; healthy s; sealed C p key v (view s ks key); p \<noteq> q \<rbrakk> \<Longrightarrow>
   get_secure C S ks key q s = Err (Failed DecryptionError)"
  by (simp add: get_secure_view sealed_refuses)

text \<open>
  The effect of one encrypted write: the key holds the new value under the passphrase, every other
  key of every keyspace is untouched.
\<close>

definition stored_now :: "AeadLib \<Rightarrow> bytes \<Rightarrow> bytes \<Rightarrow> bytes \<Rightarrow> bytes \<Rightarrow> 's World \<Rightarrow> 's World \<Rightarrow> bool" where
  "stored_now C ks key p v w w' \<longleftrightarrow> healthy (store w') \<and> sealed C p key v (view (store w') ks key) \<and>
     (\<exists>c. view (store w') = (view (store w))(ks := (view (store w) ks)(key := c)))"

lemma set_secure_new:
  assumes "aead_laws C" "healthy (store w)" "get_secure C S ks key p (store w) = Ok old"
  shows "\<exists>w'. set_secure C S ks key v p w = (w', Ok old) \<and> stored_now C ks key p v w w'"
proof -
  let ?c = "seal_value C p key (os_random C (tick w) NONCE_SIZE) v"
  obtain s' where "st_set S ks key ?c (store w) = (s', Ok (view (store w) ks key))" "healthy s'"
    "view s' = (view (store w))(ks := (view (store w) ks)(key \<mapsto> ?c))"
    using set_view [OF assms(2)] by blast
  then show ?thesis
    using assms unfolding stored_now_def
    by (auto simp: set_secure_def act_bind.simps act_write_def)
qed

lemma set_secure_refused:
  "get_secure C S ks key p (store w) = Err e \<Longrightarrow> set_secure C S ks key v p w = (w, Err e)"
  by (simp add: set_secure_def act_bind.simps)

lemma fetch_and_update_secure_Ok:
  assumes "aead_laws C" "healthy (store w)"
    and "transposed (open_value C p key) (view (store w) ks key) = Ok cur" "f cur = Ok (Some v)"
  shows "\<exists>w'. fetch_and_update_secure C S ks key p f w = (w', Ok (view (store w) ks key)) \<and>
    stored_now C ks key p v w w'"
proof -
  let ?c = "seal_value C p key (os_random C (tick w) NONCE_SIZE) v"
  let ?f = "\<lambda>current. try_bind (transposed (open_value C p key) current) (\<lambda>opened.
    try_bind (f opened) (\<lambda>next. Ok (map_option (seal_value C p key (os_random C (tick w) NONCE_SIZE)) next)))"
  have "?f (view (store w) ks key) = Ok (Some ?c)" using assms by simp
  then obtain s' where "st_fetch_and_update S ks key ?f (store w) = (s', Ok (view (store w) ks key))" "healthy s'"
    "view s' = (view (store w))(ks := (view (store w) ks)(key \<mapsto> ?c))"
    using update_view [OF assms(2), of ?f ks key "Some ?c"] by blast
  then show ?thesis
    using assms(1) unfolding stored_now_def
    by (auto simp: fetch_and_update_secure_def act_bind.simps act_write_def)
qed

lemma fetch_and_update_secure_fails:
  assumes "healthy (store w)"
    and "try_bind (transposed (open_value C p key) (view (store w) ks key)) f = Err (Failed k)"
  shows "\<exists>w'. fetch_and_update_secure C S ks key p f w = (w', Err (Failed k)) \<and>
    healthy (store w') \<and> view (store w') = view (store w)"
proof -
  let ?f = "\<lambda>current. try_bind (transposed (open_value C p key) current) (\<lambda>opened.
    try_bind (f opened) (\<lambda>next. Ok (map_option (seal_value C p key (os_random C (tick w) NONCE_SIZE)) next)))"
  have "?f (view (store w) ks key) = Err (Failed k)"
    using assms(2) by (auto simp: result_simps)
  then obtain s' where "st_fetch_and_update S ks key ?f (store w) = (s', Err (Failed k))" "healthy s'" "view s' = view (store w)"
    using update_fails [OF assms(1), of ?f ks key k] by blast
  then show ?thesis
    by (auto simp: fetch_and_update_secure_def act_bind.simps act_write_def)
qed

lemma fetch_and_update_secure_panics:
  assumes "healthy (store w)"
    and "try_bind (transposed (open_value C p key) (view (store w) ks key)) f = Err (Panicked msg)"
  shows "\<exists>w'. fetch_and_update_secure C S ks key p f w = (w', Err (Panicked msg))"
proof -
  let ?f = "\<lambda>current. try_bind (transposed (open_value C p key) current) (\<lambda>opened.
    try_bind (f opened) (\<lambda>next. Ok (map_option (seal_value C p key (os_random C (tick w) NONCE_SIZE)) next)))"
  have "?f (view (store w) ks key) = Err (Panicked msg)"
    using assms(2) by (auto simp: result_simps)
  then obtain s' where "st_fetch_and_update S ks key ?f (store w) = (s', Err (Panicked msg))"
    using update_panics [OF assms(1), of ?f ks key msg] by blast
  then show ?thesis by (auto simp: fetch_and_update_secure_def act_bind.simps act_write_def)
qed

end

section \<open>The in-memory storage keeps the contract\<close>

definition memory_view :: "MemoryStorage \<Rightarrow> bytes \<Rightarrow> bytes \<Rightarrow> bytes option" where
  "memory_view m ks = map_of (space_of m ks)"

lemma space_of_put [simp]: "space_of (put_space ks sp m) ks' = (if ks' = ks then sp else space_of m ks')"
  by (simp add: space_of_def put_space_def update_conv')

lemma put_space_frame [simp]: "poisoned (put_space ks sp m) = poisoned m"
  by (simp add: put_space_def)

lemma memory_view_put [simp]: "memory_view (put_space ks sp m) = (memory_view m)(ks := map_of sp)"
  by (auto simp: memory_view_def)

lemma map_of_spaces: "map_of (spaces m) ks = Some sp \<Longrightarrow> memory_view m ks = map_of sp"
  "map_of (spaces m) ks = None \<Longrightarrow> memory_view m ks = Map.empty"
  by (simp_all add: memory_view_def space_of_def)

interpretation memory: client_storage memory_storage "\<lambda>m. \<not> poisoned m" memory_view
proof unfold_locales
  fix s :: MemoryStorage and ks key v :: bytes and f :: "bytes option \<Rightarrow> bytes option outcome" and r k
  assume ok: "\<not> poisoned s"
  show "st_get memory_storage ks key s = Ok (memory_view s ks key)"
    using ok by (cases "map_of (spaces s) ks") (simp_all add: memory_storage_def memory_get_def map_of_spaces)
  show "st_contains_key memory_storage ks key s = Ok (memory_view s ks key \<noteq> None)"
    using ok by (cases "map_of (spaces s) ks") (simp_all add: memory_storage_def memory_contains_key_def map_of_spaces)
  show "\<exists>l. st_keys memory_storage ks s = Ok l \<and> set l = dom (memory_view s ks)"
    using ok by (cases "map_of (spaces s) ks")
      (simp_all add: memory_storage_def memory_keys_def map_of_spaces dom_map_of_conv_image_fst)
  show "\<exists>s'. st_set memory_storage ks key v s = (s', Ok (memory_view s ks key)) \<and> \<not> poisoned s' \<and>
      memory_view s' = (memory_view s)(ks := (memory_view s ks)(key \<mapsto> v))"
    using ok by (simp add: memory_storage_def memory_set_def Let_def update_conv') (simp add: memory_view_def)
  show "\<exists>s'. st_clear memory_storage ks s = (s', Ok ()) \<and> \<not> poisoned s' \<and>
      memory_view s' = (memory_view s)(ks := Map.empty)"
    using ok by (cases "map_of (spaces s) ks")
      (simp_all add: memory_storage_def memory_clear_def map_of_spaces fun_upd_idem)
  show "\<exists>s'. st_fetch_and_update memory_storage ks key f s = (s', Ok (memory_view s ks key)) \<and>
      \<not> poisoned s' \<and> memory_view s' = (memory_view s)(ks := (memory_view s ks)(key := r))"
    if "f (memory_view s ks key) = Ok r"
    using ok that by (cases r)
      (simp_all add: memory_storage_def memory_fetch_and_update_def Let_def memory_view_def update_conv' delete_conv')
  show "\<exists>s'. st_fetch_and_update memory_storage ks key f s = (s', Err (Failed k)) \<and>
      \<not> poisoned s' \<and> memory_view s' = memory_view s"
    if "f (memory_view s ks key) = Err (Failed k)"
    using ok that by (simp add: memory_storage_def memory_fetch_and_update_def Let_def memory_view_def)
      (simp add: memory_view_def [abs_def] fun_upd_idem)
  show "\<exists>s'. st_fetch_and_update memory_storage ks key f s = (s', Err (Panicked msg))"
    if "f (memory_view s ks key) = Err (Panicked msg)" for msg
    using ok that by (simp add: memory_storage_def memory_fetch_and_update_def Let_def memory_view_def)
qed

end
