(* ===== verification/Client_Keys.thy ===== *)
theory Client_Keys
  imports Client_Storage Enclave_Protocol
begin

text \<open>
  Keys of the client and the two services that keep them: \<open>client-common/src/key/public_key.rs\<close>,
  \<open>key/private_key.rs\<close>, \<open>client-core/src/service/key_service.rs\<close> and \<open>wallet_service.rs\<close>.  Structures
  with derived codecs are written field by field.  The signature library, the length-prefixed codecs
  and the iterator adaptors are fields of \<open>ClientLib\<close>.  The theory shows what the services return after
  an update, which entries an update leaves alone, and what a wrong passphrase gives.
\<close>

section \<open>Libraries\<close>

record ClientLib =
  cl_aead :: AeadLib
  cl_ext :: Ext
  cl_scale :: ScaleLib
  cl_request :: RequestLib
  sk_new :: "nat \<Rightarrow> SecretKey"
  sk_from_slice :: "bytes \<Rightarrow> SecpError + SecretKey"
  schnorr_sign :: "Message \<Rightarrow> SecretKey \<Rightarrow> SchnorrSignature"
  sign_recoverable :: "Message \<Rightarrow> SecretKey \<Rightarrow> RecoverableSignature"
  pubkey_combine :: "PublicKey list \<Rightarrow> SecpError + PublicKey \<times> H256"
  it_combinations :: "nat \<Rightarrow> PublicKey list \<Rightarrow> PublicKey list list"
  c_bytes :: "bytes codec"
  c_vec_public_key :: "PublicKey codec \<Rightarrow> PublicKey list codec"
  c_u64 :: "u64 codec"
  c_raw_merkle_tree :: "RawPubkey MerkleTree codec"

text \<open>Text is kept as its UTF-8 bytes.\<close>

type_synonym str = bytes

text \<open>\<open>String::from_utf8\<close>: the well-formed sequences of one to four bytes.\<close>

definition between :: "nat \<Rightarrow> u8 \<Rightarrow> nat \<Rightarrow> bool" where
  "between lo b hi \<longleftrightarrow> lo \<le> unat b \<and> unat b \<le> hi"

fun utf8_ok :: "bytes \<Rightarrow> bool" where
  "utf8_ok [] = True"
| "utf8_ok (a # rest) =
     (if between 0 a 127 then utf8_ok rest
      else case rest of [] \<Rightarrow> False
      | b # rest2 \<Rightarrow>
        if between 194 a 223 then between 128 b 191 \<and> utf8_ok rest2
        else case rest2 of [] \<Rightarrow> False
        | c # rest3 \<Rightarrow>
          if between 224 a 239
          then (if unat a = 224 then between 160 b 191 else if unat a = 237 then between 128 b 159 else between 128 b 191) \<and>
               between 128 c 191 \<and> utf8_ok rest3
          else case rest3 of [] \<Rightarrow> False
          | d # rest4 \<Rightarrow>
            between 240 a 244 \<and>
            (if unat a = 240 then between 144 b 191 else if unat a = 244 then between 128 b 143 else between 128 b 191) \<and>
            between 128 c 191 \<and> between 128 d 191 \<and> utf8_ok rest4)"

definition from_utf8 :: "bytes \<Rightarrow> str option" where
  "from_utf8 b = (if utf8_ok b then Some b else None)"

section \<open>Keys\<close>

type_synonym PrivateKey = SecretKey

definition public_key_serialize :: "ClientLib \<Rightarrow> PublicKey \<Rightarrow> bytes" where
  "public_key_serialize L k = serialize_uncompressed (cl_ext L) k"

definition public_key_deserialize_from :: "ClientLib \<Rightarrow> bytes \<Rightarrow> PublicKey outcome" where
  "public_key_deserialize_from L b = with_context DeserializationError (pk_from_slice (cl_ext L) b)"

definition public_key_combine :: "ClientLib \<Rightarrow> PublicKey list \<Rightarrow> (PublicKey \<times> H256) outcome" where
  "public_key_combine L ks = with_context ErrorKind.InvalidInput (pubkey_combine L ks)"

definition redeem_of_public_key :: "ClientLib \<Rightarrow> PublicKey \<Rightarrow> RedeemAddress" where
  "redeem_of_public_key L k = redeem_from_pk (keccak256 (cl_ext L)) (serialize_uncompressed (cl_ext L)) k"

definition raw_of_public_key :: "ClientLib \<Rightarrow> PublicKey \<Rightarrow> RawPubkey" where
  "raw_of_public_key L k = RawPubkey (pk_serialize (cl_ext L) k)"

text \<open>\<open>Encode\<close> and \<open>Decode\<close> of a public key: the uncompressed form with its length in front.\<close>

definition public_key_codec :: "ClientLib \<Rightarrow> PublicKey codec" where
  "public_key_codec L = \<lparr> enc = (\<lambda>k. enc (c_bytes L) (public_key_serialize L k)),
     dec = (\<lambda>input. try_bind (dec (c_bytes L) input) (\<lambda>(serialized, input).
       try_bind (map_err (\<lambda>_. ''Unable to decode public key'') (public_key_deserialize_from L serialized)) (\<lambda>k.
       Ok (k, input)))) \<rparr>"

definition private_key_deserialize_from :: "ClientLib \<Rightarrow> bytes \<Rightarrow> PrivateKey outcome" where
  "private_key_deserialize_from L b = with_context DeserializationError (sk_from_slice L b)"

definition private_key_codec :: "ClientLib \<Rightarrow> PrivateKey codec" where
  "private_key_codec L = \<lparr> enc = enc (c_bytes L),
     dec = (\<lambda>input. try_bind (dec (c_bytes L) input) (\<lambda>(serialized, input).
       try_bind (map_err (\<lambda>_. ''Unable to decode private key'') (private_key_deserialize_from L serialized)) (\<lambda>k.
       Ok (k, input)))) \<rparr>"

definition public_of_private :: "ClientLib \<Rightarrow> PrivateKey \<Rightarrow> PublicKey" where
  "public_of_private L sk = pk_from_secret_key (cl_request L) sk"

definition private_key_sign :: "ClientLib \<Rightarrow> PrivateKey \<Rightarrow> bytes \<Rightarrow> RecoverableSignature outcome" where
  "private_key_sign L sk b =
     try_bind (with_context DeserializationError (message_from_slice (cl_ext L) b)) (\<lambda>message.
     Ok (sign_recoverable L message sk))"

definition private_key_schnorr_sign :: "ClientLib \<Rightarrow> PrivateKey \<Rightarrow> bytes \<Rightarrow> SchnorrSignature outcome" where
  "private_key_schnorr_sign L sk b =
     try_bind (with_context DeserializationError (message_from_slice (cl_ext L) b)) (\<lambda>message.
     Ok (schnorr_sign L message sk))"

section \<open>Key service\<close>

definition KEY_KEYSPACE :: str where "KEY_KEYSPACE = ascii ''core_key''"

definition generate_keypair :: "ClientLib \<Rightarrow> 's Storage \<Rightarrow> bytes \<Rightarrow> ('s, PublicKey \<times> PrivateKey) action" where
  "generate_keypair L S passphrase =
     act_bind (act_ask (\<lambda>t. Ok (sk_new L t))) (\<lambda>private_key.
     let public_key = public_of_private L private_key
     in act_bind (set_secure (cl_aead L) S KEY_KEYSPACE (public_key_serialize L public_key) private_key passphrase) (\<lambda>_.
        act_pure (Ok (public_key, private_key))))"

definition key_private_key :: "ClientLib \<Rightarrow> 's Storage \<Rightarrow> PublicKey \<Rightarrow> bytes \<Rightarrow> 's \<Rightarrow> PrivateKey option outcome" where
  "key_private_key L S public_key passphrase s =
     try_bind (get_secure (cl_aead L) S KEY_KEYSPACE (public_key_serialize L public_key) passphrase s)
       (\<lambda>private_key_bytes. transposed (private_key_deserialize_from L) private_key_bytes)"

definition key_clear :: "'s Storage \<Rightarrow> ('s, unit) action" where
  "key_clear S = act_write (st_clear S KEY_KEYSPACE)"

section \<open>Wallet service\<close>

definition WALLET_KEYSPACE :: str where "WALLET_KEYSPACE = ascii ''core_wallet''"

record Wallet =
  wallet_view_key :: PublicKey
  wallet_public_keys :: "PublicKey list"
  wallet_root_hashes :: "H256 list"

definition wallet_new :: "PublicKey \<Rightarrow> Wallet" where
  "wallet_new vk = \<lparr> wallet_view_key = vk, wallet_public_keys = [], wallet_root_hashes = [] \<rparr>"

definition wallet_codec :: "ClientLib \<Rightarrow> Wallet codec" where
  "wallet_codec L = map_codec (\<lambda>w. (wallet_view_key w, wallet_public_keys w, wallet_root_hashes w))
     (\<lambda>(k, ks, hs). \<lparr> wallet_view_key = k, wallet_public_keys = ks, wallet_root_hashes = hs \<rparr>)
     (pair_codec (public_key_codec L)
        (pair_codec (c_vec_public_key L (public_key_codec L)) (c_txids (cl_request L))))"

text \<open>\<open>T::decode(&mut bytes.as_slice()).context(DeserializationError)\<close>: what follows the value is not looked at.\<close>

definition decode_all :: "'a codec \<Rightarrow> bytes \<Rightarrow> 'a outcome" where
  "decode_all c b = with_context DeserializationError (try_bind (dec c b) (\<lambda>(x, _). Ok x))"

definition get_wallet :: "ClientLib \<Rightarrow> 's Storage \<Rightarrow> str \<Rightarrow> bytes \<Rightarrow> 's \<Rightarrow> Wallet outcome" where
  "get_wallet L S name passphrase s =
     try_bind (get_secure (cl_aead L) S WALLET_KEYSPACE name passphrase s) (\<lambda>value.
     try_bind (or_kind WalletNotFound value) (\<lambda>wallet_bytes.
     decode_all (wallet_codec L) wallet_bytes))"

definition set_wallet :: "ClientLib \<Rightarrow> 's Storage \<Rightarrow> str \<Rightarrow> bytes \<Rightarrow> Wallet \<Rightarrow> ('s, unit) action" where
  "set_wallet L S name passphrase wallet =
     act_bind (set_secure (cl_aead L) S WALLET_KEYSPACE name (enc (wallet_codec L) wallet) passphrase) (\<lambda>_.
     act_pure (Ok ()))"

definition ws_public_keys :: "ClientLib \<Rightarrow> 's Storage \<Rightarrow> str \<Rightarrow> bytes \<Rightarrow> 's \<Rightarrow> PublicKey list outcome" where
  "ws_public_keys L S name passphrase s =
     try_bind (get_wallet L S name passphrase s) (\<lambda>wallet. Ok (wallet_public_keys wallet))"

definition ws_root_hashes :: "ClientLib \<Rightarrow> 's Storage \<Rightarrow> str \<Rightarrow> bytes \<Rightarrow> 's \<Rightarrow> H256 list outcome" where
  "ws_root_hashes L S name passphrase s =
     try_bind (get_wallet L S name passphrase s) (\<lambda>wallet. Ok (wallet_root_hashes wallet))"

definition ws_view_key :: "ClientLib \<Rightarrow> 's Storage \<Rightarrow> str \<Rightarrow> bytes \<Rightarrow> 's \<Rightarrow> PublicKey outcome" where
  "ws_view_key L S name passphrase s =
     try_bind (get_wallet L S name passphrase s) (\<lambda>wallet. Ok (wallet_view_key wallet))"

definition ws_find_public_key ::
    "ClientLib \<Rightarrow> 's Storage \<Rightarrow> str \<Rightarrow> bytes \<Rightarrow> RedeemAddress \<Rightarrow> 's \<Rightarrow> PublicKey option outcome" where
  "ws_find_public_key L S name passphrase redeem_address s =
     try_bind (ws_public_keys L S name passphrase s) (\<lambda>public_keys.
     Ok (find (\<lambda>public_key. redeem_of_public_key L public_key = redeem_address) public_keys))"

definition ws_find_root_hash ::
    "ClientLib \<Rightarrow> 's Storage \<Rightarrow> str \<Rightarrow> bytes \<Rightarrow> ExtendedAddr \<Rightarrow> 's \<Rightarrow> H256 option outcome" where
  "ws_find_root_hash L S name passphrase addr s =
     try_bind (ws_root_hashes L S name passphrase s) (\<lambda>root_hashes.
     case addr of OrTree h \<Rightarrow> Ok (find (\<lambda>known_hash. known_hash = h) root_hashes))"

definition ws_create :: "ClientLib \<Rightarrow> 's Storage \<Rightarrow> str \<Rightarrow> bytes \<Rightarrow> PublicKey \<Rightarrow> ('s, unit) action" where
  "ws_create L S name passphrase vk =
     act_bind (act_read (st_contains_key S WALLET_KEYSPACE name)) (\<lambda>exists.
     if exists then act_pure (Err (Failed AlreadyExists))
     else set_wallet L S name passphrase (wallet_new vk))"

definition ws_staking_addresses :: "ClientLib \<Rightarrow> 's Storage \<Rightarrow> str \<Rightarrow> bytes \<Rightarrow> 's \<Rightarrow> StakedStateAddress list outcome" where
  "ws_staking_addresses L S name passphrase s =
     try_bind (ws_public_keys L S name passphrase s) (\<lambda>public_keys.
     Ok (map (\<lambda>public_key. BasicRedeem (redeem_of_public_key L public_key)) public_keys))"

definition ws_transfer_addresses :: "ClientLib \<Rightarrow> 's Storage \<Rightarrow> str \<Rightarrow> bytes \<Rightarrow> 's \<Rightarrow> ExtendedAddr list outcome" where
  "ws_transfer_addresses L S name passphrase s =
     try_bind (ws_root_hashes L S name passphrase s) (\<lambda>root_hashes. Ok (map OrTree root_hashes))"

text \<open>The closures of the two updates: the stored wallet with one more entry.\<close>

definition edit_wallet :: "ClientLib \<Rightarrow> (Wallet \<Rightarrow> Wallet) \<Rightarrow> bytes option \<Rightarrow> bytes option outcome" where
  "edit_wallet L f value =
     try_bind (or_kind WalletNotFound value) (\<lambda>wallet_bytes.
     try_bind (decode_all (wallet_codec L) wallet_bytes) (\<lambda>wallet.
     Ok (Some (enc (wallet_codec L) (f wallet)))))"

definition ws_add_public_key :: "ClientLib \<Rightarrow> 's Storage \<Rightarrow> str \<Rightarrow> bytes \<Rightarrow> PublicKey \<Rightarrow> ('s, unit) action" where
  "ws_add_public_key L S name passphrase public_key =
     act_bind (fetch_and_update_secure (cl_aead L) S WALLET_KEYSPACE name passphrase
       (edit_wallet L (\<lambda>wallet. wallet\<lparr> wallet_public_keys := wallet_public_keys wallet @ [public_key] \<rparr>))) (\<lambda>_.
     act_pure (Ok ()))"

definition ws_add_root_hash :: "ClientLib \<Rightarrow> 's Storage \<Rightarrow> str \<Rightarrow> bytes \<Rightarrow> H256 \<Rightarrow> ('s, unit) action" where
  "ws_add_root_hash L S name passphrase h =
     act_bind (fetch_and_update_secure (cl_aead L) S WALLET_KEYSPACE name passphrase
       (edit_wallet L (\<lambda>wallet. wallet\<lparr> wallet_root_hashes := wallet_root_hashes wallet @ [h] \<rparr>))) (\<lambda>_.
     act_pure (Ok ()))"

definition ws_names :: "'s Storage \<Rightarrow> 's \<Rightarrow> str list outcome" where
  "ws_names S s =
     try_bind (st_keys S WALLET_KEYSPACE s) (\<lambda>keys.
     collect_result (\<lambda>b. or_kind DeserializationError (from_utf8 b)) keys)"

definition ws_clear :: "'s Storage \<Rightarrow> ('s, unit) action" where
  "ws_clear S = act_write (st_clear S WALLET_KEYSPACE)"


section \<open>What the libraries document\<close>

definition client_laws :: "ClientLib \<Rightarrow> bool" where
  "client_laws L \<longleftrightarrow> aead_laws (cl_aead L) \<and> reads_back (c_bytes L) \<and> reads_back (c_u64 L) \<and>
     (\<forall>c. reads_back c \<longrightarrow> reads_back (c_vec_public_key L c)) \<and>
     reads_back (c_txids (cl_request L)) \<and> reads_back (c_h256 (cl_request L)) \<and> reads_back (c_raw_merkle_tree L) \<and>
     (\<forall>k. pk_from_slice (cl_ext L) (serialize_uncompressed (cl_ext L) k) = Ok k) \<and>
     (\<forall>k. pk_from_slice (cl_ext L) (pk_serialize (cl_ext L) k) = Ok k) \<and>
     (\<forall>t. sk_from_slice L (sk_new L t) = Ok (sk_new L t))"

lemma client_lawsD:
  assumes "client_laws L"
  shows "aead_laws (cl_aead L)" "reads_back (c_bytes L)" "reads_back (c_u64 L)"
    "reads_back c \<Longrightarrow> reads_back (c_vec_public_key L c)" "reads_back (c_txids (cl_request L))"
    "reads_back (c_h256 (cl_request L))" "reads_back (c_raw_merkle_tree L)"
    "pk_from_slice (cl_ext L) (serialize_uncompressed (cl_ext L) k) = Ok k"
    "pk_from_slice (cl_ext L) (pk_serialize (cl_ext L) k) = Ok k"
    "sk_from_slice L (sk_new L t) = Ok (sk_new L t)"
  using assms by (simp_all add: client_laws_def)

lemma serialize_inj: "client_laws L \<Longrightarrow> public_key_serialize L k = public_key_serialize L k' \<longleftrightarrow> k = k'"
  by (metis client_lawsD(8) public_key_serialize_def sum.inject(2))

lemma public_key_codec_ok: "client_laws L \<Longrightarrow> reads_back (public_key_codec L)"
proof -
  assume L: "client_laws L"
  have "dec (c_bytes L) (enc (c_bytes L) b @ rest) = Ok (b, rest)" for b rest
    using client_lawsD(2) [OF L] by (rule reads_backD)
  then show ?thesis
    by (simp add: reads_back_def public_key_codec_def client_lawsD(8) [OF L] public_key_serialize_def
        public_key_deserialize_from_def)
qed

lemma wallet_codec_ok: "client_laws L \<Longrightarrow> reads_back (wallet_codec L)"
  unfolding wallet_codec_def by (intro map_codec_ok pair_codec_ok public_key_codec_ok client_lawsD) simp_all

lemma decode_all_enc: "reads_back c \<Longrightarrow> decode_all c (enc c x) = Ok x"
  by (simp add: decode_all_def reads_back_nil)

lemma keyspaces_distinct: "KEY_KEYSPACE \<noteq> WALLET_KEYSPACE"
  by (simp add: KEY_KEYSPACE_def WALLET_KEYSPACE_def ascii_def)

section \<open>The services on any storage\<close>

context client_storage
begin

definition wallet_at :: "ClientLib \<Rightarrow> str \<Rightarrow> bytes \<Rightarrow> Wallet \<Rightarrow> 's \<Rightarrow> bool" where
  "wallet_at L name p W s \<longleftrightarrow> healthy s \<and>
     sealed (cl_aead L) p name (enc (wallet_codec L) W) (view s WALLET_KEYSPACE name)"

definition key_at :: "ClientLib \<Rightarrow> PublicKey \<Rightarrow> bytes \<Rightarrow> PrivateKey \<Rightarrow> 's \<Rightarrow> bool" where
  "key_at L k p sk s \<longleftrightarrow> healthy s \<and> sk_from_slice L sk = Ok sk \<and>
     sealed (cl_aead L) p (public_key_serialize L k) sk (view s KEY_KEYSPACE (public_key_serialize L k))"

text \<open>Two worlds whose storages differ at one key only.\<close>

definition only_key :: "bytes \<Rightarrow> bytes \<Rightarrow> 's World \<Rightarrow> 's World \<Rightarrow> bool" where
  "only_key ks key w w' \<longleftrightarrow> (\<forall>ks' key'. (ks', key') \<noteq> (ks, key) \<longrightarrow> view (store w') ks' key' = view (store w) ks' key')"

lemma stored_now_only: "stored_now C ks key p v w w' \<Longrightarrow> only_key ks key w w'"
  unfolding stored_now_def only_key_def by (auto split: if_splits)

lemma get_wallet_at: "\<lbrakk> client_laws L; wallet_at L name p W s \<rbrakk> \<Longrightarrow> get_wallet L S name p s = Ok W"
  using get_sealed [OF client_lawsD(1), of L s p name "enc (wallet_codec L) W" WALLET_KEYSPACE]
  by (simp add: get_wallet_def wallet_at_def decode_all_enc wallet_codec_ok)

lemma get_wallet_wrong_passphrase:
  "\<lbrakk> aead_authentic (cl_aead L); wallet_at L name p W s; p \<noteq> q \<rbrakk> \<Longrightarrow>
   get_wallet L S name q s = Err (Failed DecryptionError)"
  using get_sealed_other [of "cl_aead L" s p name "enc (wallet_codec L) W" WALLET_KEYSPACE q]
  by (simp add: get_wallet_def wallet_at_def)

lemma ws_create_fresh:
  assumes "client_laws L" "healthy (store w)" "view (store w) WALLET_KEYSPACE name = None"
  shows "\<exists>w'. ws_create L S name p vk w = (w', Ok ()) \<and> wallet_at L name p (wallet_new vk) (store w') \<and>
    only_key WALLET_KEYSPACE name w w'"
proof -
  obtain w' where "set_secure (cl_aead L) S WALLET_KEYSPACE name (enc (wallet_codec L) (wallet_new vk)) p w = (w', Ok None)"
    "stored_now (cl_aead L) WALLET_KEYSPACE name p (enc (wallet_codec L) (wallet_new vk)) w w'"
    using set_secure_new [OF client_lawsD(1) [OF assms(1)] assms(2) get_secure_absent [OF assms(2,3)]] by blast
  moreover from this(2) have "only_key WALLET_KEYSPACE name w w'" by (rule stored_now_only)
  ultimately show ?thesis
    using assms by (auto simp: ws_create_def act_bind.simps contains_view set_wallet_def wallet_at_def stored_now_def)
qed

lemma ws_create_exists:
  assumes "wallet_at L name p W (store w)"
  shows "ws_create L S name q vk w = (w, Err (Failed AlreadyExists))"
  using assms by (auto simp: ws_create_def act_bind.simps wallet_at_def contains_view sealed_def)

lemma edit_wallet_at:
  assumes "client_laws L" "wallet_at L name p W (store w)"
  shows "\<exists>w' c. fetch_and_update_secure (cl_aead L) S WALLET_KEYSPACE name p (edit_wallet L f) w = (w', Ok c) \<and>
    wallet_at L name p (f W) (store w') \<and> only_key WALLET_KEYSPACE name w w'"
proof -
  have h: "healthy (store w)" and
    o: "transposed (open_value (cl_aead L) p name) (view (store w) WALLET_KEYSPACE name) = Ok (Some (enc (wallet_codec L) W))"
    using assms by (simp_all add: wallet_at_def sealed_opens client_lawsD)
  have "edit_wallet L f (Some (enc (wallet_codec L) W)) = Ok (Some (enc (wallet_codec L) (f W)))"
    using assms(1) by (simp add: edit_wallet_def decode_all_enc wallet_codec_ok)
  from fetch_and_update_secure_Ok [where f = "edit_wallet L f", OF client_lawsD(1) [OF assms(1)] h o this]
  obtain w' where "fetch_and_update_secure (cl_aead L) S WALLET_KEYSPACE name p (edit_wallet L f) w =
      (w', Ok (view (store w) WALLET_KEYSPACE name))"
    and n: "stored_now (cl_aead L) WALLET_KEYSPACE name p (enc (wallet_codec L) (f W)) w w'" by blast
  moreover from n have "wallet_at L name p (f W) (store w')" by (simp add: wallet_at_def stored_now_def)
  ultimately show ?thesis using stored_now_only [OF n] by blast
qed

lemma ws_add_public_key_at:
  assumes "client_laws L" "wallet_at L name p W (store w)"
  shows "\<exists>w'. ws_add_public_key L S name p k w = (w', Ok ()) \<and>
    wallet_at L name p (W\<lparr> wallet_public_keys := wallet_public_keys W @ [k] \<rparr>) (store w') \<and>
    only_key WALLET_KEYSPACE name w w'"
  using edit_wallet_at [OF assms] by (force simp: ws_add_public_key_def act_bind.simps)

lemma ws_add_root_hash_at:
  assumes "client_laws L" "wallet_at L name p W (store w)"
  shows "\<exists>w'. ws_add_root_hash L S name p h w = (w', Ok ()) \<and>
    wallet_at L name p (W\<lparr> wallet_root_hashes := wallet_root_hashes W @ [h] \<rparr>) (store w') \<and>
    only_key WALLET_KEYSPACE name w w'"
  using edit_wallet_at [OF assms] by (force simp: ws_add_root_hash_def act_bind.simps)

lemma wallet_at_frame:
  "\<lbrakk> wallet_at L name p W (store w); only_key ks key w w'; healthy (store w'); (ks, key) \<noteq> (WALLET_KEYSPACE, name) \<rbrakk> \<Longrightarrow>
   wallet_at L name p W (store w')"
  by (auto simp: wallet_at_def only_key_def)

lemma private_key_at: "\<lbrakk> client_laws L; key_at L k p sk s \<rbrakk> \<Longrightarrow> key_private_key L S k p s = Ok (Some sk)"
  using get_sealed [OF client_lawsD(1), of L s p "public_key_serialize L k" sk KEY_KEYSPACE]
  by (simp add: key_private_key_def key_at_def private_key_deserialize_from_def)

lemma private_key_wrong_passphrase:
  "\<lbrakk> aead_authentic (cl_aead L); key_at L k p sk s; p \<noteq> q \<rbrakk> \<Longrightarrow>
   key_private_key L S k q s = Err (Failed DecryptionError)"
  using get_sealed_other [of "cl_aead L" s p "public_key_serialize L k" sk KEY_KEYSPACE q]
  by (simp add: key_private_key_def key_at_def)

text \<open>A freshly drawn key pair is kept; only the entry of its public key changes.\<close>

lemma generate_keypair_new:
  assumes "client_laws L" "healthy (store w)"
    and pk: "pk = public_of_private L (sk_new L (tick w))"
    and new: "view (store w) KEY_KEYSPACE (public_key_serialize L pk) = None"
  shows "\<exists>w'. generate_keypair L S p w = (w', Ok (pk, sk_new L (tick w))) \<and>
    key_at L pk p (sk_new L (tick w)) (store w') \<and> only_key KEY_KEYSPACE (public_key_serialize L pk) w w'"
proof -
  let ?w = "w\<lparr> tick := tick w + 1 \<rparr>"
  obtain w' where "set_secure (cl_aead L) S KEY_KEYSPACE (public_key_serialize L pk) (sk_new L (tick w)) p ?w = (w', Ok None)"
    "stored_now (cl_aead L) KEY_KEYSPACE (public_key_serialize L pk) p (sk_new L (tick w)) ?w w'"
    using set_secure_new [OF client_lawsD(1) [OF assms(1)], of ?w] get_secure_absent [OF assms(2) new] assms(2) by force
  moreover from this(2) have "only_key KEY_KEYSPACE (public_key_serialize L pk) w w'"
    using stored_now_only by (fastforce simp: only_key_def)
  ultimately show ?thesis
    using assms by (auto simp: generate_keypair_def act_bind.simps Let_def key_at_def stored_now_def client_lawsD)
qed

end

end
