(* ===== verification/Root_Hash.thy ===== *)
theory Root_Hash
  imports Client_Keys Validation "HOL-Library.Multiset"
begin

text \<open>
  Transfer addresses of the client: \<open>client-core/src/service/root_hash_service.rs\<close> keeps, for the root
  of a Merkle tree over the combinations of public keys, what is needed to spend from it, and
  \<open>client-core/src/signer/default_signer.rs\<close> signs with it.  The theory shows that every combination of
  the required number of keys has a proof for the address and that the witnesses of the signer are
  those the validation of the chain accepts.
\<close>

section \<open>Root hash service\<close>

definition ROOT_HASH_KEYSPACE :: str where "ROOT_HASH_KEYSPACE = ascii ''core_root_hash''"

record MultiSigAddress =
  msa_m :: u64
  msa_n :: u64
  msa_self_public_key :: PublicKey
  msa_merkle_tree :: "RawPubkey MerkleTree"

definition multi_sig_address_codec :: "ClientLib \<Rightarrow> MultiSigAddress codec" where
  "multi_sig_address_codec L =
     map_codec (\<lambda>a. (msa_m a, msa_n a, msa_self_public_key a, msa_merkle_tree a))
       (\<lambda>(m, n, k, t). \<lparr> msa_m = m, msa_n = n, msa_self_public_key = k, msa_merkle_tree = t \<rparr>)
       (pair_codec (c_u64 L) (pair_codec (c_u64 L) (pair_codec (public_key_codec L) (c_raw_merkle_tree L))))"

definition raw_public_key :: "ClientLib \<Rightarrow> PublicKey list \<Rightarrow> RawPubkey outcome" where
  "raw_public_key L public_keys =
     (if length public_keys = 1 then Ok (raw_of_public_key L (public_keys ! 0))
      else try_bind (public_key_combine L public_keys) (\<lambda>(k, _). Ok (raw_of_public_key L k)))"

definition combinations :: "ClientLib \<Rightarrow> PublicKey list \<Rightarrow> u64 \<Rightarrow> RawPubkey list outcome" where
  "combinations L public_keys n =
     (if public_keys = [] \<or> length public_keys < unat n \<or> n = 0 then Err (Failed ErrorKind.InvalidInput)
      else try_bind (collect_result (\<lambda>combination. raw_public_key L (sort combination))
                      (it_combinations L (unat n) public_keys)) (\<lambda>cs.
           Ok (sort_key raw_pubkey_bytes cs)))"

definition new_root_hash ::
    "ClientLib \<Rightarrow> 's Storage \<Rightarrow> PublicKey list \<Rightarrow> PublicKey \<Rightarrow> u64 \<Rightarrow> u64 \<Rightarrow> bytes \<Rightarrow> ('s, H256) action" where
  "new_root_hash L S public_keys self_public_key m n passphrase =
     (if n < m \<or> public_keys = [] \<or> length public_keys \<noteq> unat n \<or> m = 0 \<or> self_public_key \<notin> set public_keys
      then act_pure (Err (Failed ErrorKind.InvalidInput))
      else act_bind (act_pure (combinations L public_keys m)) (\<lambda>cs.
        let tree = merkle_new (blake2s (cl_ext L)) raw_pubkey_bytes cs;
            h = root_hash tree;
            addr = \<lparr> msa_m = m, msa_n = n, msa_self_public_key = self_public_key, msa_merkle_tree = tree \<rparr>
        in act_bind (set_secure (cl_aead L) S ROOT_HASH_KEYSPACE h (enc (multi_sig_address_codec L) addr) passphrase) (\<lambda>_.
           act_pure (Ok h))))"

definition read_address :: "ClientLib \<Rightarrow> 's Storage \<Rightarrow> H256 \<Rightarrow> bytes \<Rightarrow> 's \<Rightarrow> MultiSigAddress outcome" where
  "read_address L S h passphrase s =
     try_bind (get_secure (cl_aead L) S ROOT_HASH_KEYSPACE h passphrase s) (\<lambda>value.
     try_bind (or_kind AddressNotFound value) (\<lambda>address_bytes.
     decode_all (multi_sig_address_codec L) address_bytes))"

definition rh_generate_proof ::
    "ClientLib \<Rightarrow> 's Storage \<Rightarrow> H256 \<Rightarrow> PublicKey list \<Rightarrow> bytes \<Rightarrow> 's \<Rightarrow> RawPubkey Proof outcome" where
  "rh_generate_proof L S h public_keys passphrase s =
     try_bind (read_address L S h passphrase s) (\<lambda>addr.
     if length public_keys \<noteq> unat (msa_m addr) then Err (Failed ErrorKind.InvalidInput)
     else try_bind (raw_public_key L (sort public_keys)) (\<lambda>raw.
          or_kind ErrorKind.InvalidInput
            (generate_proof (blake2s (cl_ext L)) raw_pubkey_bytes (msa_merkle_tree addr) raw)))"

definition rh_required_signers :: "ClientLib \<Rightarrow> 's Storage \<Rightarrow> H256 \<Rightarrow> bytes \<Rightarrow> 's \<Rightarrow> u64 outcome" where
  "rh_required_signers L S h passphrase s =
     try_bind (read_address L S h passphrase s) (\<lambda>addr. Ok (msa_m addr))"

definition rh_public_key :: "ClientLib \<Rightarrow> 's Storage \<Rightarrow> H256 \<Rightarrow> bytes \<Rightarrow> 's \<Rightarrow> PublicKey outcome" where
  "rh_public_key L S h passphrase s =
     try_bind (read_address L S h passphrase s) (\<lambda>addr. Ok (msa_self_public_key addr))"

definition rh_clear :: "'s Storage \<Rightarrow> ('s, unit) action" where
  "rh_clear S = act_write (st_clear S ROOT_HASH_KEYSPACE)"

section \<open>Signer\<close>

definition sign_with_root_hash :: "ClientLib \<Rightarrow> 's Storage \<Rightarrow> bytes \<Rightarrow> bytes \<Rightarrow> H256 \<Rightarrow> 's \<Rightarrow> TxInWitness outcome" where
  "sign_with_root_hash L S passphrase message h s =
     try_bind (rh_required_signers L S h passphrase s) (\<lambda>required.
     if required \<noteq> 1 then Err (Failed InvalidTransaction)
     else try_bind (rh_public_key L S h passphrase s) (\<lambda>public_key.
          try_bind (key_private_key L S public_key passphrase s) (\<lambda>found.
          try_bind (or_kind PrivateKeyNotFound found) (\<lambda>private_key.
          try_bind (rh_generate_proof L S h [public_key] passphrase s) (\<lambda>proof.
          try_bind (private_key_schnorr_sign L private_key message) (\<lambda>sig.
          Ok (TreeSig sig proof)))))))"

definition sign_with_output ::
    "ClientLib \<Rightarrow> 's Storage \<Rightarrow> str \<Rightarrow> bytes \<Rightarrow> bytes \<Rightarrow> TxOut \<Rightarrow> 's \<Rightarrow> TxInWitness outcome" where
  "sign_with_output L S name passphrase message out s =
     try_bind (ws_find_root_hash L S name passphrase (out_address out) s) (\<lambda>found.
     try_bind (or_kind AddressNotFound found) (\<lambda>h.
     sign_with_root_hash L S passphrase message h s))"

definition signer_sign ::
    "ClientLib \<Rightarrow> 's Storage \<Rightarrow> str \<Rightarrow> bytes \<Rightarrow> bytes \<Rightarrow> (TxoPointer \<times> TxOut) list \<Rightarrow> 's \<Rightarrow> TxWitness outcome" where
  "signer_sign L S name passphrase message selected s =
     collect_result (\<lambda>(_, out). sign_with_output L S name passphrase message out s) selected"

section \<open>Proofs for the combinations\<close>

text \<open>What the iterator adaptor documents, and what the signature scheme documents.\<close>

definition combination_laws :: "ClientLib \<Rightarrow> bool" where
  "combination_laws L \<longleftrightarrow> (\<forall>k xs. set (it_combinations L k xs) = {ys \<in> set (subseqs xs). length ys = k})"

definition schnorr_laws :: "ClientLib \<Rightarrow> bool" where
  "schnorr_laws L \<longleftrightarrow> (\<forall>m sk.
     schnorr_verify (cl_ext L) m (schnorr_sign L m sk) (pk_from_secret_key (cl_request L) sk) = Ok ())"

lemma multi_sig_address_codec_ok: "client_laws L \<Longrightarrow> reads_back (multi_sig_address_codec L)"
  unfolding multi_sig_address_codec_def
  by (intro map_codec_ok pair_codec_ok public_key_codec_ok client_lawsD) simp_all

lemma collect_result_mem:
  "\<lbrakk> collect_result f xs = Ok ys; x \<in> set xs \<rbrakk> \<Longrightarrow> \<exists>y \<in> set ys. f x = Ok y"
  unfolding collect_result_Ok_iff by (auto simp: list_all2_conv_all_nth in_set_conv_nth)

lemma singleton_subseq: "x \<in> set xs \<Longrightarrow> [x] \<in> set (subseqs xs)"
proof (induction xs)
  case (Cons y ys)
  have "[] \<in> set (subseqs ys)" by (induction ys) (auto simp: Let_def)
  with Cons show ?case by (auto simp: Let_def)
qed simp

lemma find_equal: "x \<in> set xs \<Longrightarrow> find (\<lambda>y. y = x) xs = Some x"
  by (induction xs) auto

lemma combinations_mem:
  assumes "combination_laws L" "combinations L pks m = Ok cs" "ys \<in> set (subseqs pks)" "length ys = unat m"
  shows "\<exists>raw \<in> set cs. raw_public_key L (sort ys) = Ok raw"
proof -
  obtain rs where "collect_result (\<lambda>c. raw_public_key L (sort c)) (it_combinations L (unat m) pks) = Ok rs"
    and cs: "cs = sort_key raw_pubkey_bytes rs"
    using assms(2) by (auto simp: combinations_def result_simps split: if_splits)
  moreover have "ys \<in> set (it_combinations L (unat m) pks)"
    using assms by (simp add: combination_laws_def)
  ultimately show ?thesis using collect_result_mem by fastforce
qed

lemma generate_proof_mem:
  assumes "v \<in> set vs"
  shows "\<exists>p. generate_proof D as_ref (merkle_new D as_ref vs) v = Some p \<and>
    proof_verify D p (root_hash (merkle_new D as_ref vs)) \<and> proof_value p = v"
proof -
  have "generate_path D as_ref (mt_tree (merkle_new D as_ref vs)) v \<noteq> None"
    using assms by (simp add: generate_path_None_iff)
  then obtain p where p: "generate_proof D as_ref (merkle_new D as_ref vs) v = Some p"
    by (auto simp: generate_proof_def)
  with generate_proof_verifies [OF p] show ?thesis by blast
qed


text \<open>The address as the service keeps it: the tree over the combinations, found under its own root.\<close>

definition address_ok :: "ClientLib \<Rightarrow> PublicKey list \<Rightarrow> H256 \<Rightarrow> MultiSigAddress \<Rightarrow> bool" where
  "address_ok L pks h a \<longleftrightarrow> (\<exists>cs. combinations L pks (msa_m a) = Ok cs \<and>
     msa_merkle_tree a = merkle_new (blake2s (cl_ext L)) raw_pubkey_bytes cs \<and> h = root_hash (msa_merkle_tree a)) \<and>
     msa_self_public_key a \<in> set pks"

context client_storage
begin

definition address_at :: "ClientLib \<Rightarrow> H256 \<Rightarrow> bytes \<Rightarrow> MultiSigAddress \<Rightarrow> 's \<Rightarrow> bool" where
  "address_at L h p a s \<longleftrightarrow> healthy s \<and>
     sealed (cl_aead L) p h (enc (multi_sig_address_codec L) a) (view s ROOT_HASH_KEYSPACE h)"

lemma read_address_at: "\<lbrakk> client_laws L; address_at L h p a s \<rbrakk> \<Longrightarrow> read_address L S h p s = Ok a"
  using get_sealed [OF client_lawsD(1), of L s p h "enc (multi_sig_address_codec L) a" ROOT_HASH_KEYSPACE]
  by (simp add: read_address_def address_at_def decode_all_enc multi_sig_address_codec_ok)

lemma rh_generate_proof_at:
  assumes "client_laws L" "combination_laws L" "address_at L h p a s" "address_ok L pks h a"
    and ys: "ys \<in> set (subseqs pks)" "length ys = unat (msa_m a)" and zs: "mset zs = mset ys"
  shows "\<exists>pr raw. rh_generate_proof L S h zs p s = Ok pr \<and> raw_public_key L (sort zs) = Ok raw \<and>
    proof_verify (blake2s (cl_ext L)) pr h \<and> proof_value pr = raw"
proof -
  obtain cs where cs: "combinations L pks (msa_m a) = Ok cs"
    "msa_merkle_tree a = merkle_new (blake2s (cl_ext L)) raw_pubkey_bytes cs" "h = root_hash (msa_merkle_tree a)"
    using assms(4) by (auto simp: address_ok_def)
  have sorted: "sort zs = sort ys" using zs by (intro properties_for_sort) simp_all
  obtain raw where raw: "raw \<in> set cs" "raw_public_key L (sort ys) = Ok raw"
    using combinations_mem [OF assms(2) cs(1) ys] by blast
  obtain pr where "generate_proof (blake2s (cl_ext L)) raw_pubkey_bytes (msa_merkle_tree a) raw = Some pr"
    "proof_verify (blake2s (cl_ext L)) pr h" "proof_value pr = raw"
    using generate_proof_mem [OF raw(1)] cs(2,3) by metis
  moreover have "length zs = unat (msa_m a)" using ys(2) zs by (metis size_mset)
  ultimately show ?thesis
    using raw(2) read_address_at [OF assms(1,3)] by (auto simp: rh_generate_proof_def sorted)
qed

lemma new_root_hash_at:
  assumes "client_laws L" "healthy (store w)" "new_root_hash L S pks self m n p w = (w', Ok h)"
  shows "\<exists>a. address_at L h p a (store w') \<and> address_ok L pks h a \<and> msa_m a = m \<and>
    msa_self_public_key a = self \<and> only_key ROOT_HASH_KEYSPACE h w w'"
proof -
  obtain cs a where cs: "combinations L pks m = Ok cs" and self: "self \<in> set pks"
    and a: "a = \<lparr> msa_m = m, msa_n = n, msa_self_public_key = self,
      msa_merkle_tree = merkle_new (blake2s (cl_ext L)) raw_pubkey_bytes cs \<rparr>"
    and h: "h = root_hash (msa_merkle_tree a)"
    and "\<exists>old. set_secure (cl_aead L) S ROOT_HASH_KEYSPACE h (enc (multi_sig_address_codec L) a) p w = (w', Ok old)"
    using assms(3) by (auto simp: new_root_hash_def result_simps Let_def split: if_splits)
  then obtain old where set: "set_secure (cl_aead L) S ROOT_HASH_KEYSPACE h (enc (multi_sig_address_codec L) a) p w = (w', Ok old)"
    by blast
  then have "get_secure (cl_aead L) S ROOT_HASH_KEYSPACE h p (store w) = Ok old"
    by (auto simp: set_secure_def result_simps)
  from set_secure_new [OF client_lawsD(1) [OF assms(1)] assms(2) this, of "enc (multi_sig_address_codec L) a"] set
  have "stored_now (cl_aead L) ROOT_HASH_KEYSPACE h p (enc (multi_sig_address_codec L) a) w w'" by auto
  moreover from this have "only_key ROOT_HASH_KEYSPACE h w w'" by (rule stored_now_only)
  ultimately show ?thesis
    using cs self h a by (intro exI [of _ a]) (auto simp: address_at_def address_ok_def stored_now_def)
qed

text \<open>A witness of the signer for an output of the wallet is accepted by the validation of the chain.\<close>

lemma sign_with_output_valid:
  assumes "client_laws L" "combination_laws L" "schnorr_laws L"
    and wallet: "wallet_at L name p W s" "h \<in> set (wallet_root_hashes W)" "out_address out = OrTree h"
    and addr: "address_at L h p a s" "address_ok L pks h a" "msa_m a = 1"
    and key: "key_at L (msa_self_public_key a) p sk s" "public_of_private L sk = msa_self_public_key a"
    and msg: "message_from_slice (cl_ext L) txid = Ok m"
  shows "\<exists>wit. sign_with_output L S name p txid out s = Ok wit \<and>
    verify_tx_address (cl_ext L) wit txid (out_address out) = Ok ()"
proof -
  let ?k = "msa_self_public_key a"
  have "?k \<in> set pks" using addr(2) by (simp add: address_ok_def)
  then have "[?k] \<in> set (subseqs pks)" by (rule singleton_subseq)
  from rh_generate_proof_at [OF assms(1,2) addr(1,2) this, of "[?k]"] addr(3)
  obtain pr where pr: "rh_generate_proof L S h [?k] p s = Ok pr" "proof_verify (blake2s (cl_ext L)) pr h"
    "proof_value pr = raw_of_public_key L ?k"
    by (auto simp: raw_public_key_def)
  have found: "find (\<lambda>known. known = h) (wallet_root_hashes W) = Some h"
    by (rule find_equal [OF wallet(2)])
  have "sign_with_output L S name p txid out s = Ok (TreeSig (schnorr_sign L m sk) pr)"
    using read_address_at [OF assms(1) addr(1)] get_wallet_at [OF assms(1) wallet(1)] private_key_at [OF assms(1) key(1)]
      found wallet(3) addr(3) pr(1) msg
    by (simp add: sign_with_output_def sign_with_root_hash_def ws_find_root_hash_def ws_root_hashes_def
        rh_required_signers_def rh_public_key_def private_key_schnorr_sign_def)
  moreover have "schnorr_verify (cl_ext L) m (schnorr_sign L m sk) ?k = Ok ()"
    using assms(3) key(2) by (metis schnorr_laws_def public_of_private_def)
  ultimately show ?thesis
    using pr(2,3) msg wallet(3) client_lawsD(9) [OF assms(1)]
    by (simp add: verify_tx_address_def raw_of_public_key_def)
qed

end

section \<open>A concrete client library\<close>

definition sample_aead :: AeadLib where
  "sample_aead = \<lparr> blake2s_passphrase = id,
     aead_open = (\<lambda>k n ad c. case dec bytes_codec c of Inl _ \<Rightarrow> None | Inr (k', v) \<Rightarrow> if k' = k then Some v else None),
     aead_seal = (\<lambda>k n ad v. enc bytes_codec k @ v), os_random = (\<lambda>t n. replicate n (of_nat t)) \<rparr>"

lemma sample_aead_laws: "aead_laws sample_aead" "aead_authentic sample_aead"
proof -
  have "dec bytes_codec (enc bytes_codec b @ r) = Ok (b, r)" for b r :: bytes
    by (rule reads_backD [OF list_codec_ok [OF word_codec_ok]])
  then show "aead_laws sample_aead" "aead_authentic sample_aead"
    by (simp_all add: aead_laws_def aead_authentic_def sample_aead_def get_algo_def)
qed

definition sample_client :: ClientLib where
  "sample_client = \<lparr> cl_aead = sample_aead, cl_ext = sample_ext, cl_scale = sample_scale, cl_request = sample_request_lib,
     sk_new = enc nat_codec, sk_from_slice = Ok, schnorr_sign = (\<lambda>m sk. sk), sign_recoverable = (\<lambda>m sk. sk),
     pubkey_combine = (\<lambda>ks. Ok (concat ks, [])), it_combinations = (\<lambda>k xs. filter (\<lambda>ys. length ys = k) (subseqs xs)),
     c_bytes = bytes_codec, c_vec_public_key = list_codec, c_u64 = word_codec,
     c_raw_merkle_tree = merkle_tree_codec (map_codec raw_pubkey_bytes RawPubkey bytes_codec) \<rparr>"

lemma sample_client_laws:
  "client_laws sample_client" "combination_laws sample_client" "schnorr_laws sample_client"
  "aead_authentic (cl_aead sample_client)"
proof -
  have "reads_back (map_codec raw_pubkey_bytes RawPubkey bytes_codec)"
    by (intro map_codec_ok codec_oks) simp
  then have "reads_back (merkle_tree_codec (map_codec raw_pubkey_bytes RawPubkey bytes_codec))"
    by (rule merkle_tree_codec_ok)
  then show "client_laws sample_client"
    by (simp add: client_laws_def sample_client_def sample_aead_laws sample_request_lib_def sample_ext_def codec_oks)
  show "combination_laws sample_client" by (simp add: combination_laws_def sample_client_def)
  show "schnorr_laws sample_client"
    by (simp add: schnorr_laws_def sample_client_def sample_ext_def sample_request_lib_def)
  show "aead_authentic (cl_aead sample_client)" by (simp add: sample_client_def sample_aead_laws)
qed


section \<open>Properties\<close>

text \<open>
  C20: spending from a transfer address, with the in-memory storage.  After \<open>new_root_hash\<close> stored an address for m of n keys, any
  m of these keys, in any order, have an inclusion proof: the service finds it under the returned hash,
  it verifies against this hash and it is for the single or combined key of the chosen ones.  Nothing
  else in the storage changed.
\<close>

theorem every_combination_has_proof:
  assumes "client_laws L" "combination_laws L" "\<not> poisoned (store w)"
    and "new_root_hash L memory_storage pks self m n p w = (w', Ok h)"
    and "ys \<in> set (subseqs pks)" "length ys = unat m" "mset zs = mset ys"
  shows "(\<exists>pr raw. rh_generate_proof L memory_storage h zs p (store w') = Ok pr \<and>
      raw_public_key L (sort zs) = Ok raw \<and> proof_verify (blake2s (cl_ext L)) pr h \<and> proof_value pr = raw) \<and>
    (\<forall>ks key. (ks, key) \<noteq> (ROOT_HASH_KEYSPACE, h) \<longrightarrow>
      memory_view (store w') ks key = memory_view (store w) ks key)"
proof -
  obtain a where a: "memory.address_at L h p a (store w')" "address_ok L pks h a" "msa_m a = m"
    and o: "memory.only_key ROOT_HASH_KEYSPACE h w w'"
    using memory.new_root_hash_at [OF assms(1) _ assms(4)] assms(3) by blast
  show ?thesis
    using memory.rh_generate_proof_at [OF assms(1,2) a(1,2) assms(5) _ assms(7)] assms(6) a(3) o
    by (auto simp: memory.only_key_def)
qed

definition fresh_world :: "MemoryStorage World" where
  "fresh_world = \<lparr> store = memory_default, tick = 0 \<rparr>"

lemma fresh_world_simps [simp]: "store fresh_world = memory_default" "tick fresh_world = 0" "\<not> poisoned memory_default"
  "memory_view memory_default ks key = None"
  by (simp_all add: fresh_world_def memory_default_def memory_view_def space_of_def)

lemma memory_set_new:
  assumes "\<not> poisoned (store w)" "memory_view (store w) ks key = None" "aead_laws C"
  shows "\<exists>w'. set_secure C memory_storage ks key v p w = (w', Ok None)"
  using memory.set_secure_new [OF assms(3) assms(1) memory.get_secure_absent [OF assms(1,2)]] by blast

lemma sample_new_root_hash:
  "\<exists>w' h. new_root_hash sample_client memory_storage [[1], [2], [3]] [2] 2 3 [7] fresh_world = (w', Ok h)"
proof -
  have "it_combinations sample_client 2 [[1], [2], [3]] = [[[1], [2]], [[1], [3]], [[2], [3]]]"
    by (simp add: sample_client_def)
  then obtain cs where cs: "combinations sample_client [[1], [2], [3]] 2 = Ok cs"
    by (simp add: combinations_def raw_public_key_def public_key_combine_def) (simp add: sample_client_def)
  obtain w' where "set_secure (cl_aead sample_client) memory_storage ROOT_HASH_KEYSPACE
      (root_hash (merkle_new (blake2s (cl_ext sample_client)) raw_pubkey_bytes cs))
      (enc (multi_sig_address_codec sample_client) \<lparr> msa_m = 2, msa_n = 3, msa_self_public_key = [2],
         msa_merkle_tree = merkle_new (blake2s (cl_ext sample_client)) raw_pubkey_bytes cs \<rparr>) [7] fresh_world = (w', Ok None)"
    using memory_set_new [OF _ _ client_lawsD(1) [OF sample_client_laws(1)], of fresh_world]
    by (simp add: fresh_world_simps) blast
  with cs show ?thesis by (simp add: new_root_hash_def act_bind.simps Let_def)
qed

theorem every_combination_has_proof_witness:
  "\<exists>w' h pr. new_root_hash sample_client memory_storage [[1], [2], [3]] [2] 2 3 [7] fresh_world = (w', Ok h) \<and>
     rh_generate_proof sample_client memory_storage h [[3], [1]] [7] (store w') = Ok pr \<and>
     proof_verify (blake2s (cl_ext sample_client)) pr h"
proof -
  obtain w' h where h: "new_root_hash sample_client memory_storage [[1], [2], [3]] [2] 2 3 [7] fresh_world = (w', Ok h)"
    using sample_new_root_hash by blast
  have s: "[[1], [3]] \<in> set (subseqs [[1], [2], [3 :: u8]])" by simp
  have "mset [[3], [1 :: u8]] = mset [[1], [3]]" by simp
  from every_combination_has_proof [OF sample_client_laws(1,2) _ h s _ this] h show ?thesis by auto
qed

end
