(* ===== verification/Multi_Sig.thy ===== *)
theory Multi_Sig
  imports Root_Hash
begin

text \<open>
  Multi-signature sessions (\<open>client-core/src/service/multi_sig_session_service.rs\<close>).  A session collects
  nonce commitments, nonces and partial signatures of all signers; the MuSig library, the fields of
  \<open>MuSigLib\<close>, is set up again from the stored session for every answer.  The theory shows that what was
  recorded is never replaced, in which order the rounds can happen, and that a session gives out at most
  one partial signature.
\<close>

section \<open>Binary search\<close>

text \<open>\<open>slice::binary_search_by\<close> of the standard library.\<close>

datatype Ordering = Less | Equal | Greater

definition compare :: "'a::linorder \<Rightarrow> 'a \<Rightarrow> Ordering" where
  "compare x y = (if x < y then Less else if x = y then Equal else Greater)"

function bs_loop :: "('a \<Rightarrow> Ordering) \<Rightarrow> 'a list \<Rightarrow> nat \<Rightarrow> nat \<Rightarrow> nat" where
  "bs_loop f s base sz =
     (if sz \<le> 1 then base
      else let half = sz div 2; mid = base + half
           in bs_loop f s (if f (s ! mid) = Greater then base else mid) (sz - half))"
  by pat_completeness auto
termination by (relation "measure (\<lambda>(f, s, base, sz). sz)") auto

declare bs_loop.simps [simp del]

definition binary_search_by :: "('a \<Rightarrow> Ordering) \<Rightarrow> 'a list \<Rightarrow> nat + nat" where
  "binary_search_by f s =
     (if s = [] then Err 0
      else let base = bs_loop f s 0 (length s); cmp = f (s ! base)
           in if cmp = Equal then Ok base else Err (base + (if cmp = Less then 1 else 0)))"

section \<open>Sessions\<close>

record Signer =
  sg_public_key :: PublicKey
  sg_nonce_commitment :: "H256 option"
  sg_nonce :: "PublicKey option"
  sg_partial_signature :: "H256 option"

record MultiSigSession =
  ms_id :: H256
  ms_message :: H256
  ms_signers :: "Signer list"
  ms_public_key :: PublicKey
  ms_private_key :: PrivateKey
  ms_combined_public_key :: PublicKey
  ms_combined_public_key_hash :: H256

record 'm MuSigLib =
  session_id_new :: "nat \<Rightarrow> bytes"
  session_id_from_slice :: "bytes \<Rightarrow> SecpError + bytes"
  musig_new :: "bytes \<Rightarrow> Message \<Rightarrow> PublicKey \<Rightarrow> H256 \<Rightarrow> nat \<Rightarrow> nat \<Rightarrow> SecretKey \<Rightarrow> SecpError + 'm"
  get_my_nonce_commitment :: "'m \<Rightarrow> H256"
  set_nonce_commitment :: "'m \<Rightarrow> H256 \<Rightarrow> nat \<Rightarrow> 'm"
  get_public_nonce :: "'m \<Rightarrow> SecpError + 'm \<times> PublicKey"
  musig_set_nonce :: "'m \<Rightarrow> nat \<Rightarrow> PublicKey \<Rightarrow> SecpError + 'm"
  combine_nonces :: "'m \<Rightarrow> SecpError + 'm"
  partial_sign :: "'m \<Rightarrow> SecpError + 'm \<times> H256"
  partial_signature_from :: "H256 \<Rightarrow> SecpError + H256"
  partial_sig_combine :: "'m \<Rightarrow> H256 list \<Rightarrow> SecpError + SchnorrSignature"
  c_option_h256 :: "H256 option codec"
  c_option_public_key :: "PublicKey codec \<Rightarrow> PublicKey option codec"
  c_vec_signer :: "Signer codec \<Rightarrow> Signer list codec"

definition signer_codec :: "ClientLib \<Rightarrow> 'm MuSigLib \<Rightarrow> Signer codec" where
  "signer_codec L G =
     map_codec (\<lambda>g. (sg_public_key g, sg_nonce_commitment g, sg_nonce g, sg_partial_signature g))
       (\<lambda>(k, c, n, p). \<lparr> sg_public_key = k, sg_nonce_commitment = c, sg_nonce = n, sg_partial_signature = p \<rparr>)
       (pair_codec (public_key_codec L)
         (pair_codec (c_option_h256 G) (pair_codec (c_option_public_key G (public_key_codec L)) (c_option_h256 G))))"

definition session_codec :: "ClientLib \<Rightarrow> 'm MuSigLib \<Rightarrow> MultiSigSession codec" where
  "session_codec L G =
     map_codec (\<lambda>s. (ms_id s, ms_message s, ms_signers s, ms_public_key s, ms_private_key s, ms_combined_public_key s,
         ms_combined_public_key_hash s))
       (\<lambda>(i, m, g, k, sk, c, h). \<lparr> ms_id = i, ms_message = m, ms_signers = g, ms_public_key = k, ms_private_key = sk,
         ms_combined_public_key = c, ms_combined_public_key_hash = h \<rparr>)
       (pair_codec (c_h256 (cl_request L)) (pair_codec (c_h256 (cl_request L))
         (pair_codec (c_vec_signer G (signer_codec L G)) (pair_codec (public_key_codec L)
         (pair_codec (private_key_codec L) (pair_codec (public_key_codec L) (c_h256 (cl_request L))))))))"

definition signer_add_nonce_commitment :: "Signer \<Rightarrow> H256 \<Rightarrow> Signer outcome" where
  "signer_add_nonce_commitment g c =
     (if sg_nonce_commitment g \<noteq> None then Err (Failed ErrorKind.InvalidInput)
      else Ok (g\<lparr> sg_nonce_commitment := Some c \<rparr>))"

definition signer_add_nonce :: "Signer \<Rightarrow> PublicKey \<Rightarrow> Signer outcome" where
  "signer_add_nonce g n =
     (if sg_nonce g \<noteq> None then Err (Failed ErrorKind.InvalidInput) else Ok (g\<lparr> sg_nonce := Some n \<rparr>))"

definition signer_add_partial_signature :: "Signer \<Rightarrow> H256 \<Rightarrow> Signer outcome" where
  "signer_add_partial_signature g p =
     (if sg_partial_signature g \<noteq> None then Err (Failed ErrorKind.InvalidInput)
      else Ok (g\<lparr> sg_partial_signature := Some p \<rparr>))"

definition signer_index :: "MultiSigSession \<Rightarrow> PublicKey \<Rightarrow> nat outcome" where
  "signer_index s k =
     map_err (\<lambda>_. Failed SignerNotFound) (binary_search_by (\<lambda>g. compare (sg_public_key g) k) (ms_signers s))"

text \<open>The three \<open>add_*\<close> methods of a session update the entry of one signer.\<close>

definition update_signer :: "(Signer \<Rightarrow> Signer outcome) \<Rightarrow> PublicKey \<Rightarrow> MultiSigSession \<Rightarrow> MultiSigSession outcome" where
  "update_signer f k s =
     try_bind (signer_index s k) (\<lambda>i.
     try_bind (f (ms_signers s ! i)) (\<lambda>g. Ok (s\<lparr> ms_signers := (ms_signers s)[i := g] \<rparr>)))"

definition session_add_nonce_commitment :: "PublicKey \<Rightarrow> H256 \<Rightarrow> MultiSigSession \<Rightarrow> MultiSigSession outcome" where
  "session_add_nonce_commitment k c = update_signer (\<lambda>g. signer_add_nonce_commitment g c) k"

definition session_add_nonce :: "PublicKey \<Rightarrow> PublicKey \<Rightarrow> MultiSigSession \<Rightarrow> MultiSigSession outcome" where
  "session_add_nonce k n = update_signer (\<lambda>g. signer_add_nonce g n) k"

definition session_add_partial_signature :: "PublicKey \<Rightarrow> H256 \<Rightarrow> MultiSigSession \<Rightarrow> MultiSigSession outcome" where
  "session_add_partial_signature k p = update_signer (\<lambda>g. signer_add_partial_signature g p) k"

definition session_public_keys :: "MultiSigSession \<Rightarrow> PublicKey list" where
  "session_public_keys s = map sg_public_key (ms_signers s)"

definition nonce_commitments :: "MultiSigSession \<Rightarrow> (PublicKey \<times> H256) list outcome" where
  "nonce_commitments s = collect_result (\<lambda>g. case sg_nonce_commitment g of
     None \<Rightarrow> Err (Failed MissingNonceCommitment) | Some c \<Rightarrow> Ok (sg_public_key g, c)) (ms_signers s)"

definition nonces :: "MultiSigSession \<Rightarrow> (PublicKey \<times> PublicKey) list outcome" where
  "nonces s = collect_result (\<lambda>g. case sg_nonce g of
     None \<Rightarrow> Err (Failed MissingNonce) | Some n \<Rightarrow> Ok (sg_public_key g, n)) (ms_signers s)"

definition partial_signatures :: "MultiSigSession \<Rightarrow> H256 list outcome" where
  "partial_signatures s = collect_result (\<lambda>g. case sg_partial_signature g of
     None \<Rightarrow> Err (Failed MissingPartialSignature) | Some p \<Rightarrow> Ok p) (ms_signers s)"

definition has_nonce_commitment :: "MultiSigSession \<Rightarrow> PublicKey \<Rightarrow> bool outcome" where
  "has_nonce_commitment s k = try_bind (signer_index s k) (\<lambda>i. Ok (sg_nonce_commitment (ms_signers s ! i) \<noteq> None))"

definition has_nonce :: "MultiSigSession \<Rightarrow> PublicKey \<Rightarrow> bool outcome" where
  "has_nonce s k = try_bind (signer_index s k) (\<lambda>i. Ok (sg_nonce (ms_signers s ! i) \<noteq> None))"

definition has_partial_signature :: "MultiSigSession \<Rightarrow> PublicKey \<Rightarrow> bool outcome" where
  "has_partial_signature s k = try_bind (signer_index s k) (\<lambda>i. Ok (sg_partial_signature (ms_signers s ! i) \<noteq> None))"

text \<open>\<open>MuSigSession::new\<close> with the arguments all four methods give it.\<close>

definition musig_session :: "ClientLib \<Rightarrow> 'm MuSigLib \<Rightarrow> MultiSigSession \<Rightarrow> 'm outcome" where
  "musig_session L G s =
     try_bind (with_context DeserializationError (session_id_from_slice G (ms_id s))) (\<lambda>sid.
     try_bind (with_context DeserializationError (message_from_slice (cl_ext L) (ms_message s))) (\<lambda>message.
     try_bind (signer_index s (ms_public_key s)) (\<lambda>i.
     with_context SessionCreationError (musig_new G sid message (ms_combined_public_key s)
       (ms_combined_public_key_hash s) (length (ms_signers s)) i (ms_private_key s)))))"

fun set_commitments :: "'m MuSigLib \<Rightarrow> MultiSigSession \<Rightarrow> 'm \<Rightarrow> (PublicKey \<times> H256) list \<Rightarrow> 'm outcome" where
  "set_commitments G s m [] = Ok m"
| "set_commitments G s m ((k, c) # rest) =
     try_bind (signer_index s k) (\<lambda>i. set_commitments G s (set_nonce_commitment G m c i) rest)"

fun set_nonces :: "'m MuSigLib \<Rightarrow> MultiSigSession \<Rightarrow> 'm \<Rightarrow> (PublicKey \<times> PublicKey) list \<Rightarrow> 'm outcome" where
  "set_nonces G s m [] = Ok m"
| "set_nonces G s m ((k, n) # rest) =
     try_bind (signer_index s k) (\<lambda>i.
     try_bind (with_context MissingNonce (musig_set_nonce G m i n)) (\<lambda>m. set_nonces G s m rest))"

definition session_nonce_commitment :: "ClientLib \<Rightarrow> 'm MuSigLib \<Rightarrow> MultiSigSession \<Rightarrow> H256 outcome" where
  "session_nonce_commitment L G s = try_bind (musig_session L G s) (\<lambda>m. Ok (get_my_nonce_commitment G m))"

definition session_nonce :: "ClientLib \<Rightarrow> 'm MuSigLib \<Rightarrow> MultiSigSession \<Rightarrow> PublicKey outcome" where
  "session_nonce L G s =
     try_bind (nonce_commitments s) (\<lambda>cs.
     try_bind (musig_session L G s) (\<lambda>m.
     try_bind (set_commitments G s m cs) (\<lambda>m.
     try_bind (with_context MissingNonceCommitment (get_public_nonce G m)) (\<lambda>(m, n). Ok n))))"

definition session_signing :: "ClientLib \<Rightarrow> 'm MuSigLib \<Rightarrow> MultiSigSession \<Rightarrow> (PublicKey \<times> H256) list \<Rightarrow>
    (PublicKey \<times> PublicKey) list \<Rightarrow> ('m \<times> H256) outcome" where
  "session_signing L G s cs ns =
     try_bind (musig_session L G s) (\<lambda>m.
     try_bind (set_commitments G s m cs) (\<lambda>m.
     try_bind (with_context MissingNonceCommitment (get_public_nonce G m)) (\<lambda>(m, n).
     try_bind (set_nonces G s m ns) (\<lambda>m.
     try_bind (with_context NonceCombiningError (combine_nonces G m)) (\<lambda>m.
     with_context PartialSignError (partial_sign G m))))))"

definition session_partial_signature :: "ClientLib \<Rightarrow> 'm MuSigLib \<Rightarrow> MultiSigSession \<Rightarrow> H256 outcome" where
  "session_partial_signature L G s =
     try_bind (nonce_commitments s) (\<lambda>cs.
     try_bind (nonces s) (\<lambda>ns.
     try_bind (session_signing L G s cs ns) (\<lambda>(m, p). Ok p)))"

definition session_signature :: "ClientLib \<Rightarrow> 'm MuSigLib \<Rightarrow> MultiSigSession \<Rightarrow> SchnorrSignature outcome" where
  "session_signature L G s =
     try_bind (nonce_commitments s) (\<lambda>cs.
     try_bind (nonces s) (\<lambda>ns.
     try_bind (partial_signatures s) (\<lambda>ps.
     try_bind (session_signing L G s cs ns) (\<lambda>(m, p).
     try_bind (collect_result (\<lambda>sig. with_context DeserializationError (partial_signature_from G sig)) ps) (\<lambda>sigs.
     with_context SigningError (partial_sig_combine G m sigs))))))"

section \<open>Session service\<close>

definition SESSION_KEYSPACE :: str where "SESSION_KEYSPACE = ascii ''core_multi_sig_address''"

definition get_session :: "ClientLib \<Rightarrow> 'm MuSigLib \<Rightarrow> 's Storage \<Rightarrow> H256 \<Rightarrow> bytes \<Rightarrow> 's \<Rightarrow> MultiSigSession outcome" where
  "get_session L G S sid passphrase s =
     try_bind (get_secure (cl_aead L) S SESSION_KEYSPACE sid passphrase s) (\<lambda>value.
     try_bind (or_kind SessionNotFound value) (\<lambda>session_bytes.
     decode_all (session_codec L G) session_bytes))"

definition set_session ::
    "ClientLib \<Rightarrow> 'm MuSigLib \<Rightarrow> 's Storage \<Rightarrow> H256 \<Rightarrow> MultiSigSession \<Rightarrow> bytes \<Rightarrow> ('s, unit) action" where
  "set_session L G S sid session passphrase =
     act_bind (set_secure (cl_aead L) S SESSION_KEYSPACE sid (enc (session_codec L G) session) passphrase) (\<lambda>_.
     act_pure (Ok ()))"

definition new_session ::
    "ClientLib \<Rightarrow> 'm MuSigLib \<Rightarrow> 's Storage \<Rightarrow> H256 \<Rightarrow> PublicKey list \<Rightarrow> PublicKey \<Rightarrow> PrivateKey \<Rightarrow> bytes \<Rightarrow> ('s, H256) action" where
  "new_session L G S message signer_public_keys self_public_key self_private_key passphrase =
     (if public_of_private L self_private_key \<noteq> self_public_key \<or> length signer_public_keys \<le> 1
      then act_pure (Err (Failed ErrorKind.InvalidInput))
      else let ks = sort signer_public_keys
      in if \<not> is_ok (binary_search_by (\<lambda>k. compare k self_public_key) ks) then act_pure (Err (Failed ErrorKind.InvalidInput))
      else act_bind (act_pure (public_key_combine L ks)) (\<lambda>(combined_public_key, combined_public_key_hash).
        let signers = map (\<lambda>k. \<lparr> sg_public_key = k, sg_nonce_commitment = None, sg_nonce = None,
              sg_partial_signature = None \<rparr>) ks
        in act_bind (act_ask (\<lambda>t. let sid = session_id_new G t
               in if length sid = 32 then Ok sid else Err (Failed DeserializationError))) (\<lambda>session_id.
           act_bind (set_session L G S session_id
              \<lparr> ms_id = session_id, ms_message = message, ms_signers = signers, ms_public_key = self_public_key,
                ms_private_key = self_private_key, ms_combined_public_key = combined_public_key,
                ms_combined_public_key_hash = combined_public_key_hash \<rparr> passphrase) (\<lambda>_.
           act_pure (Ok session_id)))))"

text \<open>
  \<open>nonce_commitment\<close>, \<open>nonce\<close> and \<open>partial_signature\<close> compute a value from the stored session, record
  it for the own signer if nothing is recorded yet, store the session and return the value.
\<close>

definition answer ::
    "ClientLib \<Rightarrow> 'm MuSigLib \<Rightarrow> 's Storage \<Rightarrow> (MultiSigSession \<Rightarrow> 'v outcome) \<Rightarrow> (MultiSigSession \<Rightarrow> PublicKey \<Rightarrow> bool outcome) \<Rightarrow>
       (PublicKey \<Rightarrow> 'v \<Rightarrow> MultiSigSession \<Rightarrow> MultiSigSession outcome) \<Rightarrow> H256 \<Rightarrow> bytes \<Rightarrow> ('s, 'v) action" where
  "answer L G S calc has add sid passphrase =
     act_bind (act_read (get_session L G S sid passphrase)) (\<lambda>session.
     act_bind (act_pure (calc session)) (\<lambda>v.
     let public_key = ms_public_key session
     in act_bind (act_pure (has session public_key)) (\<lambda>known.
        act_bind (act_pure (if \<not> known then add public_key v session else Ok session)) (\<lambda>session.
        act_bind (set_session L G S sid session passphrase) (\<lambda>_.
        act_pure (Ok v))))))"

definition svc_nonce_commitment :: "ClientLib \<Rightarrow> 'm MuSigLib \<Rightarrow> 's Storage \<Rightarrow> H256 \<Rightarrow> bytes \<Rightarrow> ('s, H256) action" where
  "svc_nonce_commitment L G S =
     answer L G S (session_nonce_commitment L G) has_nonce_commitment session_add_nonce_commitment"

definition svc_nonce :: "ClientLib \<Rightarrow> 'm MuSigLib \<Rightarrow> 's Storage \<Rightarrow> H256 \<Rightarrow> bytes \<Rightarrow> ('s, PublicKey) action" where
  "svc_nonce L G S = answer L G S (session_nonce L G) has_nonce session_add_nonce"

definition svc_partial_signature :: "ClientLib \<Rightarrow> 'm MuSigLib \<Rightarrow> 's Storage \<Rightarrow> H256 \<Rightarrow> bytes \<Rightarrow> ('s, H256) action" where
  "svc_partial_signature L G S =
     answer L G S (session_partial_signature L G) has_partial_signature session_add_partial_signature"

text \<open>The other three update the stored session with what a co-signer sent.\<close>

definition edit_session ::
    "ClientLib \<Rightarrow> 'm MuSigLib \<Rightarrow> (MultiSigSession \<Rightarrow> MultiSigSession outcome) \<Rightarrow> bytes option \<Rightarrow> bytes option outcome" where
  "edit_session L G f value =
     try_bind (or_kind SessionNotFound value) (\<lambda>session_bytes.
     try_bind (decode_all (session_codec L G) session_bytes) (\<lambda>session.
     try_bind (f session) (\<lambda>session. Ok (Some (enc (session_codec L G) session)))))"

definition receive ::
    "ClientLib \<Rightarrow> 'm MuSigLib \<Rightarrow> 's Storage \<Rightarrow> (MultiSigSession \<Rightarrow> MultiSigSession outcome) \<Rightarrow> H256 \<Rightarrow> bytes \<Rightarrow> ('s, unit) action" where
  "receive L G S f sid passphrase =
     act_bind (fetch_and_update_secure (cl_aead L) S SESSION_KEYSPACE sid passphrase (edit_session L G f)) (\<lambda>_.
     act_pure (Ok ()))"

definition svc_add_nonce_commitment ::
    "ClientLib \<Rightarrow> 'm MuSigLib \<Rightarrow> 's Storage \<Rightarrow> H256 \<Rightarrow> H256 \<Rightarrow> PublicKey \<Rightarrow> bytes \<Rightarrow> ('s, unit) action" where
  "svc_add_nonce_commitment L G S sid c k passphrase =
     receive L G S (session_add_nonce_commitment k c) sid passphrase"

definition svc_add_nonce ::
    "ClientLib \<Rightarrow> 'm MuSigLib \<Rightarrow> 's Storage \<Rightarrow> H256 \<Rightarrow> PublicKey \<Rightarrow> PublicKey \<Rightarrow> bytes \<Rightarrow> ('s, unit) action" where
  "svc_add_nonce L G S sid n k passphrase = receive L G S (session_add_nonce k n) sid passphrase"

definition svc_add_partial_signature ::
    "ClientLib \<Rightarrow> 'm MuSigLib \<Rightarrow> 's Storage \<Rightarrow> H256 \<Rightarrow> H256 \<Rightarrow> PublicKey \<Rightarrow> bytes \<Rightarrow> ('s, unit) action" where
  "svc_add_partial_signature L G S sid p k passphrase =
     receive L G S (session_add_partial_signature k p) sid passphrase"

definition svc_signature ::
    "ClientLib \<Rightarrow> 'm MuSigLib \<Rightarrow> 's Storage \<Rightarrow> H256 \<Rightarrow> bytes \<Rightarrow> 's \<Rightarrow> SchnorrSignature outcome" where
  "svc_signature L G S sid passphrase s =
     try_bind (get_session L G S sid passphrase s) (session_signature L G)"

definition svc_public_keys :: "ClientLib \<Rightarrow> 'm MuSigLib \<Rightarrow> 's Storage \<Rightarrow> H256 \<Rightarrow> bytes \<Rightarrow> 's \<Rightarrow> PublicKey list outcome" where
  "svc_public_keys L G S sid passphrase s =
     try_bind (get_session L G S sid passphrase s) (\<lambda>session. Ok (session_public_keys session))"


section \<open>Binary search finds what a sorted list holds\<close>

lemma bs_loop_inv:
  assumes "sorted (map key s)" "0 < sz" "base + sz \<le> length s"
    and "base = 0 \<or> key (s ! base) \<le> k" "\<forall>j. base + sz \<le> j \<longrightarrow> j < length s \<longrightarrow> k < key (s ! j)"
  shows "\<exists>b. bs_loop (\<lambda>x. compare (key x) k) s base sz = b \<and> b < length s \<and>
    (b = 0 \<or> key (s ! b) \<le> k) \<and> (\<forall>j. b < j \<longrightarrow> j < length s \<longrightarrow> k < key (s ! j))"
  using assms
proof (induction "\<lambda>x. compare (key x) k" s base sz rule: bs_loop.induct)
  case (1 s base sz)
  show ?case
  proof (cases "sz \<le> 1")
    case True
    with "1.prems" have "sz = 1" by simp
    with "1.prems" show ?thesis by (subst bs_loop.simps) (auto simp: Suc_le_eq)
  next
    case False
    let ?h = "sz div 2" and ?m = "base + sz div 2"
    have m: "?m < length s" "0 < sz - ?h" "?h < sz" using "1.prems" False by auto
    show ?thesis
    proof (cases "compare (key (s ! ?m)) k = Greater")
      case True
      then have gt: "k < key (s ! ?m)" by (auto simp: compare_def split: if_splits)
      have "k < key (s ! j)" if "base + (sz - ?h) \<le> j" "j < length s" for j
      proof -
        have "?m \<le> j" using that(1) by linarith
        then have "key (s ! ?m) \<le> key (s ! j)"
          using "1.prems"(1) that(2) by (simp add: sorted_iff_nth_mono)
        with gt show ?thesis by simp
      qed
      with "1.hyps" [OF False refl refl] True "1.prems" m show ?thesis
        by (subst bs_loop.simps) (auto simp: Let_def)
    next
      case le: False
      then have "key (s ! ?m) \<le> k" by (auto simp: compare_def split: if_splits)
      with "1.hyps" [OF False refl refl] le "1.prems" m False show ?thesis
        by (subst bs_loop.simps) (auto simp: Let_def)
    qed
  qed
qed

lemma binary_search_spec:
  assumes "sorted (map key s)"
  shows "case binary_search_by (\<lambda>x. compare (key x) k) s of
      Inr i \<Rightarrow> i < length s \<and> key (s ! i) = k
    | Inl _ \<Rightarrow> k \<notin> key ` set s"
proof (cases "s = []")
  case True
  then show ?thesis by (simp add: binary_search_by_def)
next
  case False
  let ?b = "bs_loop (\<lambda>x. compare (key x) k) s 0 (length s)"
  have b: "?b < length s" "?b = 0 \<or> key (s ! ?b) \<le> k" "\<forall>j. ?b < j \<longrightarrow> j < length s \<longrightarrow> k < key (s ! j)"
    using bs_loop_inv [OF assms, of "length s" 0 k] False by auto
  have "key (s ! ?b) = k" if "j < length s" "key (s ! j) = k" for j
  proof -
    have "j \<le> ?b" using that b(3) by (metis leI less_irrefl)
    then have "k \<le> key (s ! ?b)"
      using assms that b(1) by (auto simp: sorted_iff_nth_mono)
    with b(2) that \<open>j \<le> ?b\<close> show ?thesis by (cases "?b = 0") auto
  qed
  then have "k \<notin> key ` set s" if "key (s ! ?b) \<noteq> k"
    using that by (metis imageE in_set_conv_nth)
  then show ?thesis
    using b(1) False by (auto simp: binary_search_by_def Let_def compare_def split: if_splits)
qed

section \<open>Recorded values stay\<close>

text \<open>A field that was set keeps its value.\<close>

definition kept :: "'a option \<Rightarrow> 'a option \<Rightarrow> bool" where
  "kept old new \<longleftrightarrow> (\<forall>x. old = Some x \<longrightarrow> new = Some x)"

definition signer_extends :: "Signer \<Rightarrow> Signer \<Rightarrow> bool" where
  "signer_extends g g' \<longleftrightarrow> sg_public_key g' = sg_public_key g \<and>
     kept (sg_nonce_commitment g) (sg_nonce_commitment g') \<and> kept (sg_nonce g) (sg_nonce g') \<and>
     kept (sg_partial_signature g) (sg_partial_signature g')"

definition session_extends :: "MultiSigSession \<Rightarrow> MultiSigSession \<Rightarrow> bool" where
  "session_extends s s' \<longleftrightarrow> ms_id s' = ms_id s \<and> ms_message s' = ms_message s \<and> ms_public_key s' = ms_public_key s \<and>
     ms_private_key s' = ms_private_key s \<and> ms_combined_public_key s' = ms_combined_public_key s \<and>
     ms_combined_public_key_hash s' = ms_combined_public_key_hash s \<and>
     list_all2 signer_extends (ms_signers s) (ms_signers s') \<and>
     (\<forall>j < length (ms_signers s). signer_index s (sg_public_key (ms_signers s ! j)) \<noteq> Ok j \<longrightarrow>
        ms_signers s' ! j = ms_signers s ! j)"

lemma kept_refl [simp]: "kept x x" by (simp add: kept_def)

lemma signer_extends_refl [simp]: "signer_extends g g" by (simp add: signer_extends_def)

lemma signer_extends_trans: "\<lbrakk> signer_extends a b; signer_extends b c \<rbrakk> \<Longrightarrow> signer_extends a c"
  by (auto simp: signer_extends_def kept_def)

lemma bs_loop_cong:
  "\<lbrakk> \<And>j. j < length s \<Longrightarrow> f (s ! j) = g (t ! j); base + sz \<le> length s \<rbrakk> \<Longrightarrow> bs_loop f s base sz = bs_loop g t base sz"
proof (induction f s base sz rule: bs_loop.induct)
  case (1 f s base sz)
  show ?case
  proof (cases "sz \<le> 1")
    case True
    then show ?thesis by (simp add: bs_loop.simps [of f] bs_loop.simps [of g])
  next
    case False
    then have "base + sz div 2 < length s" using "1.prems" by auto
    then have "f (s ! (base + sz div 2)) = g (t ! (base + sz div 2))" by (rule "1.prems")
    with "1.IH" [OF False refl refl "1.prems"(1)] "1.prems"(2) False show ?thesis
      by (subst bs_loop.simps, subst (2) bs_loop.simps) (auto simp: Let_def)
  qed
qed

lemma bs_loop_bound: "\<lbrakk> base + sz \<le> n; 0 < sz \<rbrakk> \<Longrightarrow> bs_loop f s base sz < n"
proof (induction f s base sz rule: bs_loop.induct)
  case (1 f s base sz)
  then show ?case by (subst bs_loop.simps) (auto simp: Let_def)
qed

lemma signer_index_extends: "session_extends s s' \<Longrightarrow> signer_index s' k = signer_index s k"
proof -
  assume ext: "session_extends s s'"
  let ?f = "\<lambda>g. compare (sg_public_key g) k"
  have len: "length (ms_signers s') = length (ms_signers s)"
    and eq: "j < length (ms_signers s) \<Longrightarrow> ?f (ms_signers s ! j) = ?f (ms_signers s' ! j)" for j
    using ext by (auto simp: session_extends_def list_all2_conv_all_nth signer_extends_def)
  have "bs_loop ?f (ms_signers s) 0 (length (ms_signers s)) = bs_loop ?f (ms_signers s') 0 (length (ms_signers s))"
    by (rule bs_loop_cong) (use eq in auto)
  moreover have "bs_loop ?f (ms_signers s) 0 (length (ms_signers s)) < length (ms_signers s)" if "ms_signers s \<noteq> []"
    by (rule bs_loop_bound) (use that in auto)
  ultimately have "binary_search_by ?f (ms_signers s') = binary_search_by ?f (ms_signers s)"
    using len eq by (auto simp: binary_search_by_def Let_def)
  then show ?thesis by (simp add: signer_index_def)
qed


lemma session_extends_refl [simp]: "session_extends s s"
  by (simp add: session_extends_def list_all2_refl)

lemma session_extends_trans: "\<lbrakk> session_extends a b; session_extends b c \<rbrakk> \<Longrightarrow> session_extends a c"
proof -
  assume ab: "session_extends a b" and bc: "session_extends b c"
  have "list_all2 signer_extends (ms_signers a) (ms_signers c)"
    using ab bc list_all2_trans [of signer_extends signer_extends signer_extends] signer_extends_trans
    unfolding session_extends_def by blast
  moreover have "ms_signers c ! j = ms_signers a ! j"
    if "j < length (ms_signers a)" "signer_index a (sg_public_key (ms_signers a ! j)) \<noteq> Ok j" for j
  proof -
    have "ms_signers b ! j = ms_signers a ! j" "length (ms_signers b) = length (ms_signers a)"
      using ab that list_all2_lengthD unfolding session_extends_def by fastforce+
    with bc that signer_index_extends [OF ab] show ?thesis unfolding session_extends_def by metis
  qed
  ultimately show ?thesis using ab bc by (simp add: session_extends_def)
qed

lemma signer_add_extends:
  "signer_add_nonce_commitment g c = Ok g' \<Longrightarrow> signer_extends g g'"
  "signer_add_nonce g n = Ok g' \<Longrightarrow> signer_extends g g'"
  "signer_add_partial_signature g p = Ok g' \<Longrightarrow> signer_extends g g'"
  by (auto simp: signer_add_nonce_commitment_def signer_add_nonce_def signer_add_partial_signature_def
      signer_extends_def kept_def split: if_splits)

lemma signer_index_key: "signer_index s k = Ok i \<Longrightarrow> sg_public_key (ms_signers s ! i) = k"
  by (auto simp: signer_index_def binary_search_by_def Let_def compare_def result_simps split: if_splits)

lemma update_signer_extends:
  "\<lbrakk> update_signer f k s = Ok s'; \<And>g g'. f g = Ok g' \<Longrightarrow> signer_extends g g' \<rbrakk> \<Longrightarrow> session_extends s s'"
proof -
  assume u: "update_signer f k s = Ok s'" and f: "\<And>g g'. f g = Ok g' \<Longrightarrow> signer_extends g g'"
  from u obtain i g where i: "signer_index s k = Ok i" and g: "f (ms_signers s ! i) = Ok g"
    and s': "s' = s\<lparr> ms_signers := (ms_signers s)[i := g] \<rparr>"
    by (auto simp: update_signer_def result_simps)
  have "signer_index s (sg_public_key (ms_signers s ! i)) = Ok i"
    using i signer_index_key [OF i] by simp
  then have "(ms_signers s)[i := g] ! j = ms_signers s ! j"
    if "signer_index s (sg_public_key (ms_signers s ! j)) \<noteq> Ok j" for j
    using that by (cases "j = i") simp_all
  moreover have "signer_extends (ms_signers s ! j) ((ms_signers s)[i := g] ! j)" if "j < length (ms_signers s)" for j
    using f [OF g] that by (cases "j = i") simp_all
  ultimately show ?thesis by (simp add: s' session_extends_def list_all2_conv_all_nth)
qed

lemma session_add_extends:
  "session_add_nonce_commitment k c s = Ok s' \<Longrightarrow> session_extends s s'"
  "session_add_nonce k n s = Ok s' \<Longrightarrow> session_extends s s'"
  "session_add_partial_signature k p s = Ok s' \<Longrightarrow> session_extends s s'"
  unfolding session_add_nonce_commitment_def session_add_nonce_def session_add_partial_signature_def
  by (erule update_signer_extends, erule signer_add_extends)+

text \<open>What the later rounds compute depends on recorded values only, so it does not change either.\<close>

lemma collect_kept:
  assumes "list_all2 signer_extends gs gs'" "collect_result f gs = Ok ys"
    and "\<And>g g' y. signer_extends g g' \<Longrightarrow> f g = Ok y \<Longrightarrow> f g' = Ok y"
  shows "collect_result f gs' = Ok ys"
  using assms(1,2)
  by (induction arbitrary: ys rule: list_all2_induct) (auto simp: result_simps intro: assms(3))

lemma rounds_kept:
  assumes "session_extends s s'"
  shows "nonce_commitments s = Ok cs \<Longrightarrow> nonce_commitments s' = Ok cs" "nonces s = Ok ns \<Longrightarrow> nonces s' = Ok ns"
    "partial_signatures s = Ok ps \<Longrightarrow> partial_signatures s' = Ok ps"
proof -
  have gs: "list_all2 signer_extends (ms_signers s) (ms_signers s')" using assms by (simp add: session_extends_def)
  show "nonce_commitments s = Ok cs \<Longrightarrow> nonce_commitments s' = Ok cs" "nonces s = Ok ns \<Longrightarrow> nonces s' = Ok ns"
    "partial_signatures s = Ok ps \<Longrightarrow> partial_signatures s' = Ok ps"
    unfolding nonce_commitments_def nonces_def partial_signatures_def
    by (erule collect_kept [OF gs]; auto simp: signer_extends_def kept_def split: option.splits)+
qed

lemma set_commitments_extends: "session_extends s s' \<Longrightarrow> set_commitments G s' m cs = set_commitments G s m cs"
  by (induction G s m cs rule: set_commitments.induct) (auto simp: signer_index_extends intro: try_bind_cong)

lemma set_nonces_extends: "session_extends s s' \<Longrightarrow> set_nonces G s' m ns = set_nonces G s m ns"
  by (induction G s m ns rule: set_nonces.induct) (auto simp: signer_index_extends intro!: try_bind_cong)

lemma musig_session_extends: "session_extends s s' \<Longrightarrow> musig_session L G s' = musig_session L G s"
proof -
  assume ext: "session_extends s s'"
  then have "length (ms_signers s') = length (ms_signers s)"
    by (auto simp: session_extends_def dest: list_all2_lengthD)
  with ext show ?thesis
    by (simp add: musig_session_def signer_index_extends [OF ext]) (simp add: session_extends_def)
qed

lemma session_signing_extends: "session_extends s s' \<Longrightarrow> session_signing L G s' cs ns = session_signing L G s cs ns"
  by (simp add: session_signing_def musig_session_extends set_commitments_extends set_nonces_extends)

lemma session_partial_signature_extends:
  "\<lbrakk> session_extends s s'; session_partial_signature L G s = Ok p \<rbrakk> \<Longrightarrow> session_partial_signature L G s' = Ok p"
  by (auto simp: session_partial_signature_def result_simps session_signing_extends dest: rounds_kept)

lemma session_nonce_extends:
  "\<lbrakk> session_extends s s'; session_nonce L G s = Ok n \<rbrakk> \<Longrightarrow> session_nonce L G s' = Ok n"
  by (auto simp: session_nonce_def result_simps musig_session_extends set_commitments_extends dest: rounds_kept)


section \<open>Stored sessions\<close>

definition musig_laws :: "'m MuSigLib \<Rightarrow> bool" where
  "musig_laws G \<longleftrightarrow> reads_back (c_option_h256 G) \<and> (\<forall>c. reads_back c \<longrightarrow> reads_back (c_option_public_key G c)) \<and>
     (\<forall>c. reads_back c \<longrightarrow> reads_back (c_vec_signer G c))"

text \<open>A codec reads back one value; private keys are read back when the library accepts them.\<close>

definition reads_value :: "'a codec \<Rightarrow> 'a \<Rightarrow> bool" where
  "reads_value c x \<longleftrightarrow> (\<forall>rest. dec c (enc c x @ rest) = Ok (x, rest))"

lemma reads_value_back: "reads_back c \<Longrightarrow> reads_value c x"
  by (simp add: reads_back_def reads_value_def)

lemma reads_value_pair: "\<lbrakk> reads_value c x; reads_value d y \<rbrakk> \<Longrightarrow> reads_value (pair_codec c d) (x, y)"
  by (simp add: reads_value_def pair_codec_def)

lemma reads_value_map: "\<lbrakk> reads_value c (f x); g (f x) = x \<rbrakk> \<Longrightarrow> reads_value (map_codec f g c) x"
  by (simp add: reads_value_def map_codec_def)

lemma decode_value: "reads_value c x \<Longrightarrow> decode_all c (enc c x) = Ok x"
proof -
  assume "reads_value c x"
  then have "dec c (enc c x @ []) = Ok (x, [])" unfolding reads_value_def by (rule spec)
  then show ?thesis by (simp add: decode_all_def)
qed

lemma private_key_reads: "\<lbrakk> client_laws L; sk_from_slice L sk = Ok sk \<rbrakk> \<Longrightarrow> reads_value (private_key_codec L) sk"
proof -
  assume "client_laws L" and sk: "sk_from_slice L sk = Ok sk"
  then have "dec (c_bytes L) (enc (c_bytes L) b @ rest) = Ok (b, rest)" for b rest
    by (intro reads_backD client_lawsD)
  with sk show ?thesis by (simp add: reads_value_def private_key_codec_def private_key_deserialize_from_def)
qed

lemma signer_codec_ok: "\<lbrakk> client_laws L; musig_laws G \<rbrakk> \<Longrightarrow> reads_back (signer_codec L G)"
  unfolding signer_codec_def
  by (intro map_codec_ok pair_codec_ok public_key_codec_ok) (simp_all add: musig_laws_def public_key_codec_ok)

lemma session_reads:
  "\<lbrakk> client_laws L; musig_laws G; sk_from_slice L (ms_private_key x) = Ok (ms_private_key x) \<rbrakk> \<Longrightarrow>
   reads_value (session_codec L G) x"
  unfolding session_codec_def
  by (intro reads_value_map reads_value_pair reads_value_back public_key_codec_ok private_key_reads client_lawsD)
    (simp_all add: musig_laws_def signer_codec_ok)

lemma decode_session:
  "\<lbrakk> client_laws L; musig_laws G; sk_from_slice L (ms_private_key x) = Ok (ms_private_key x) \<rbrakk> \<Longrightarrow>
   decode_all (session_codec L G) (enc (session_codec L G) x) = Ok x"
  by (rule decode_value [OF session_reads])

context client_storage
begin

definition session_at :: "ClientLib \<Rightarrow> 'm MuSigLib \<Rightarrow> H256 \<Rightarrow> bytes \<Rightarrow> MultiSigSession \<Rightarrow> 's \<Rightarrow> bool" where
  "session_at L G sid p x s \<longleftrightarrow> healthy s \<and> sk_from_slice L (ms_private_key x) = Ok (ms_private_key x) \<and>
     sealed (cl_aead L) p sid (enc (session_codec L G) x) (view s SESSION_KEYSPACE sid)"

lemma get_session_at:
  "\<lbrakk> client_laws L; musig_laws G; session_at L G sid p x s \<rbrakk> \<Longrightarrow> get_session L G S sid p s = Ok x"
  using get_sealed [OF client_lawsD(1), of L s p sid "enc (session_codec L G) x" SESSION_KEYSPACE]
  by (simp add: get_session_def session_at_def decode_session)

lemma get_session_wrong_passphrase:
  "\<lbrakk> aead_authentic (cl_aead L); session_at L G sid p x s; p \<noteq> q \<rbrakk> \<Longrightarrow>
   get_session L G S sid q s = Err (Failed DecryptionError)"
  using get_sealed_other [of "cl_aead L" s p sid "enc (session_codec L G) x" SESSION_KEYSPACE q]
  by (simp add: get_session_def session_at_def)

text \<open>Writing any session: what is stored afterwards, or that nothing changed.\<close>

lemma set_session_effect:
  assumes "client_laws L" "healthy (store w)" "set_session L G S sid x p w = (w', r)"
  shows "healthy (store w') \<and> only_key SESSION_KEYSPACE sid w w' \<and>
    (case r of Inr _ \<Rightarrow> sealed (cl_aead L) p sid (enc (session_codec L G) x) (view (store w') SESSION_KEYSPACE sid)
     | Inl _ \<Rightarrow> view (store w') = view (store w))"
proof (cases "get_secure (cl_aead L) S SESSION_KEYSPACE sid p (store w)")
  case (Inl e)
  then show ?thesis
    using set_secure_refused [OF Inl] assms(2,3) by (auto simp: set_session_def act_bind.simps only_key_def)
next
  case (Inr old)
  from set_secure_new [OF client_lawsD(1) [OF assms(1)] assms(2) Inr, of "enc (session_codec L G) x"]
  obtain w1 where "set_secure (cl_aead L) S SESSION_KEYSPACE sid (enc (session_codec L G) x) p w = (w1, Ok old)"
    and n: "stored_now (cl_aead L) SESSION_KEYSPACE sid p (enc (session_codec L G) x) w w1" by blast
  then have "w' = w1" "r = Ok ()" using assms(3) by (auto simp: set_session_def act_bind.simps)
  with n stored_now_only [OF n] show ?thesis by (simp add: stored_now_def)
qed

text \<open>
  What a step may do to the storage: one session entry is rewritten; a protected session is at most
  extended, and only under its own passphrase.
\<close>

definition session_kept :: "ClientLib \<Rightarrow> 'm MuSigLib \<Rightarrow> H256 \<Rightarrow> bytes \<Rightarrow> MultiSigSession \<Rightarrow> 's World \<Rightarrow> bool" where
  "session_kept L G sid p x w \<longleftrightarrow> (\<exists>y. session_at L G sid p y (store w) \<and> session_extends x y)"

lemma session_kept_frame:
  "\<lbrakk> session_kept L G sid p x w; healthy (store w'); only_key SESSION_KEYSPACE sid' w w'; sid' \<noteq> sid \<rbrakk> \<Longrightarrow>
   session_kept L G sid p x w'"
  by (auto simp: session_kept_def session_at_def only_key_def)

lemma session_kept_same:
  "\<lbrakk> session_kept L G sid p x w; healthy (store w'); view (store w') = view (store w) \<rbrakk> \<Longrightarrow> session_kept L G sid p x w'"
  by (auto simp: session_kept_def session_at_def)

lemma answer_kept:
  assumes laws: "client_laws L" "musig_laws G" "aead_authentic (cl_aead L)"
    and kept: "session_kept L G sid p x w" and a: "answer L G S calc has add sid' q w = (w', r)"
    and add: "\<And>k v y y'. add k v y = Ok y' \<Longrightarrow> session_extends y y'"
  shows "session_kept L G sid p x w'"
proof -
  obtain y where y: "session_at L G sid p y (store w)" "session_extends x y"
    using kept by (auto simp: session_kept_def)
  then have h: "healthy (store w)" by (simp add: session_at_def)
  consider "w' = w" | z v known z' r' where "get_session L G S sid' q (store w) = Ok z" "calc z = Ok v"
    "(if \<not> known then add (ms_public_key z) v z else Ok z) = Ok z'" "set_session L G S sid' z' q w = (w', r')"
    using a by (cases r) (auto simp: answer_def result_simps Let_def)
  then show ?thesis
  proof cases
    case 1
    with kept show ?thesis by simp
  next
    case 2
    note eff = set_session_effect [OF laws(1) h 2(4)]
    show ?thesis
    proof (cases "sid' = sid")
      case False
      with session_kept_frame [OF kept] eff show ?thesis by blast
    next
      case True
      have "q = p" using get_session_wrong_passphrase [OF laws(3) y(1)] 2(1) True by (metis sum.distinct(1))
      then have "z = y" using get_session_at [OF laws(1,2) y(1)] 2(1) True by simp
      have ext: "session_extends y z'" using 2(3) add \<open>z = y\<close> by (auto split: if_splits)
      then have "ms_private_key z' = ms_private_key y" by (simp add: session_extends_def)
      then have "session_at L G sid p z' (store w')" if "r' = Ok ()"
        using eff True \<open>q = p\<close> y(1) that by (simp add: session_at_def)
      then show ?thesis
        using session_kept_same [OF kept] eff session_extends_trans [OF y(2) ext]
        by (cases r') (auto simp: session_kept_def)
    qed
  qed
qed

lemma receive_kept:
  assumes laws: "client_laws L" "musig_laws G" "aead_authentic (cl_aead L)"
    and kept: "session_kept L G sid p x w" and a: "receive L G S f sid' q w = (w', r)"
    and panic: "\<And>msg. r \<noteq> Err (Panicked msg)"
    and f: "\<And>y y'. f y = Ok y' \<Longrightarrow> session_extends y y'"
  shows "session_kept L G sid p x w'"
proof -
  let ?v = "view (store w) SESSION_KEYSPACE sid'" and ?F = "fetch_and_update_secure (cl_aead L) S SESSION_KEYSPACE sid' q (edit_session L G f) w"
  obtain y where y: "session_at L G sid p y (store w)" "session_extends x y"
    using kept by (auto simp: session_kept_def)
  then have h: "healthy (store w)" by (simp add: session_at_def)
  obtain r0 where F: "?F = (w', r0)" and r0: "\<And>msg. r0 \<noteq> Err (Panicked msg)"
    using a panic by (cases "?F") (auto simp: receive_def act_bind.simps split: sum.splits)
  show ?thesis
  proof (cases "try_bind (transposed (open_value (cl_aead L) q sid') ?v) (edit_session L G f)")
    case (Inl e)
    show ?thesis
    proof (cases e)
      case (Failed k)
      with fetch_and_update_secure_fails [OF h Inl [unfolded Failed]] F
      have "healthy (store w')" "view (store w') = view (store w)" by auto
      then show ?thesis by (rule session_kept_same [OF kept])
    next
      case (Panicked msg)
      with fetch_and_update_secure_panics [OF h Inl [unfolded Panicked]] F r0 show ?thesis by auto
    qed
  next
    case (Inr res)
    then obtain cur z z' where cur: "transposed (open_value (cl_aead L) q sid') ?v = Ok (Some cur)"
      and z: "decode_all (session_codec L G) cur = Ok z" "f z = Ok z'" and res: "res = Some (enc (session_codec L G) z')"
      and e: "edit_session L G f (Some cur) = Ok (Some (enc (session_codec L G) z'))"
      by (auto simp: edit_session_def result_simps)
    from fetch_and_update_secure_Ok [where f = "edit_session L G f", OF client_lawsD(1) [OF laws(1)] h cur e] F
    have n: "stored_now (cl_aead L) SESSION_KEYSPACE sid' q (enc (session_codec L G) z') w w'" by auto
    show ?thesis
    proof (cases "sid' = sid")
      case False
      with session_kept_frame [OF kept _ stored_now_only [OF n]] n show ?thesis by (simp add: stored_now_def)
    next
      case True
      have s: "sealed (cl_aead L) p sid (enc (session_codec L G) y) ?v" using y(1) True by (simp add: session_at_def)
      have "q = p" using sealed_refuses [OF laws(3) s] cur True by (metis sum.distinct(1))
      then have "cur = enc (session_codec L G) y" using sealed_opens [OF client_lawsD(1) [OF laws(1)] s] cur True by simp
      then have "z = y" using z(1) y(1) decode_session [OF laws(1,2)] by (simp add: session_at_def)
      then have ext: "session_extends y z'" using f z(2) by simp
      then have "session_at L G sid p z' (store w')"
        using n y(1) True \<open>q = p\<close> by (simp add: session_at_def stored_now_def session_extends_def)
      with session_extends_trans [OF y(2) ext] show ?thesis by (auto simp: session_kept_def)
    qed
  qed
qed

lemma new_session_kept:
  assumes laws: "client_laws L" and kept: "session_kept L G sid p x w"
    and a: "new_session L G S msg pks self sk q w = (w', r)" and r: "r \<noteq> Ok sid"
  shows "session_kept L G sid p x w'"
proof -
  have h: "healthy (store w)" using kept by (auto simp: session_kept_def session_at_def)
  consider "store w' = store w"
    | sid' y r' where "set_session L G S sid' y q (w\<lparr> tick := tick w + 1 \<rparr>) = (w', r')" "\<And>u. r' = Ok u \<Longrightarrow> r = Ok sid'"
    using a by (cases r) (auto simp: new_session_def result_simps Let_def split: if_splits)
  then show ?thesis
  proof cases
    case 1
    with kept show ?thesis by (simp add: session_kept_def)
  next
    case 2
    have k: "session_kept L G sid p x (w\<lparr> tick := tick w + 1 \<rparr>)" using kept by (simp add: session_kept_def)
    have eff: "healthy (store w')" "only_key SESSION_KEYSPACE sid' (w\<lparr> tick := tick w + 1 \<rparr>) w'"
      "\<And>e. r' = Err e \<Longrightarrow> view (store w') = view (store w)"
      using set_session_effect [OF laws _ 2(1)] h by auto
    show ?thesis
    proof (cases r')
      case (Inl e)
      with session_kept_same [OF kept eff(1)] eff(3) show ?thesis by blast
    next
      case (Inr u)
      with 2(2) r have "sid' \<noteq> sid" by auto
      with session_kept_frame [OF k eff(1,2)] show ?thesis by blast
    qed
  qed
qed

text \<open>An answer that can be computed is recorded and given out.\<close>

lemma answer_at:
  assumes laws: "client_laws L" "musig_laws G" and x: "session_at L G sid p x (store w)"
    and v: "calc x = Ok v" "has x (ms_public_key x) = Ok known"
    and y: "(if \<not> known then add (ms_public_key x) v x else Ok x) = Ok y" "session_extends x y"
  shows "\<exists>w'. answer L G S calc has add sid p w = (w', Ok v) \<and> session_at L G sid p y (store w')"
proof -
  have h: "healthy (store w)" and "get_secure (cl_aead L) S SESSION_KEYSPACE sid p (store w) = Ok (Some (enc (session_codec L G) x))"
    using x get_sealed [OF client_lawsD(1) [OF laws(1)]] by (auto simp: session_at_def)
  from set_secure_new [OF client_lawsD(1) [OF laws(1)] this, of "enc (session_codec L G) y"]
  obtain w' where "set_session L G S sid y p w = (w', Ok ())"
    and n: "stored_now (cl_aead L) SESSION_KEYSPACE sid p (enc (session_codec L G) y) w w'"
    by (auto simp: set_session_def act_bind.simps)
  then have "answer L G S calc has add sid p w = (w', Ok v)"
    using get_session_at [OF laws x] v y(1) by (simp add: answer_def act_bind.simps Let_def)
  moreover have "session_at L G sid p y (store w')"
    using n x y(2) by (simp add: session_at_def stored_now_def session_extends_def)
  ultimately show ?thesis by blast
qed

lemma receive_at:
  assumes laws: "client_laws L" "musig_laws G" and x: "session_at L G sid p x (store w)"
    and y: "f x = Ok y" "session_extends x y"
  shows "\<exists>w'. receive L G S f sid p w = (w', Ok ()) \<and> session_at L G sid p y (store w')"
proof -
  have h: "healthy (store w)" and o: "transposed (open_value (cl_aead L) p sid) (view (store w) SESSION_KEYSPACE sid) =
      Ok (Some (enc (session_codec L G) x))"
    using x sealed_opens [OF client_lawsD(1) [OF laws(1)]] by (auto simp: session_at_def)
  have "edit_session L G f (Some (enc (session_codec L G) x)) = Ok (Some (enc (session_codec L G) y))"
    using x y(1) decode_session [OF laws] by (simp add: edit_session_def session_at_def)
  from fetch_and_update_secure_Ok [where f = "edit_session L G f", OF client_lawsD(1) [OF laws(1)] h o this]
  obtain w' c where "fetch_and_update_secure (cl_aead L) S SESSION_KEYSPACE sid p (edit_session L G f) w = (w', Ok c)"
    and n: "stored_now (cl_aead L) SESSION_KEYSPACE sid p (enc (session_codec L G) y) w w'" by blast
  moreover have "session_at L G sid p y (store w')"
    using n x y(2) by (simp add: session_at_def stored_now_def session_extends_def)
  ultimately show ?thesis by (auto simp: receive_def act_bind.simps)
qed

lemma new_session_at:
  assumes "client_laws L" "healthy (store w)" "sk_from_slice L sk = Ok sk"
    and "new_session L G S msg pks self sk p w = (w', Ok sid)"
  shows "\<exists>x. session_at L G sid p x (store w') \<and> public_key_combine L (sort pks) =
      Ok (ms_combined_public_key x, ms_combined_public_key_hash x) \<and> ms_id x = sid \<and> ms_message x = msg \<and>
      ms_public_key x = self \<and> ms_private_key x = sk \<and>
      ms_signers x = map (\<lambda>k. \<lparr> sg_public_key = k, sg_nonce_commitment = None, sg_nonce = None,
        sg_partial_signature = None \<rparr>) (sort pks)"
proof -
  obtain x where x: "set_session L G S sid x p (w\<lparr> tick := tick w + 1 \<rparr>) = (w', Ok ())"
    and "public_key_combine L (sort pks) = Ok (ms_combined_public_key x, ms_combined_public_key_hash x)"
      "ms_id x = sid" "ms_message x = msg" "ms_public_key x = self" "ms_private_key x = sk"
      "ms_signers x = map (\<lambda>k. \<lparr> sg_public_key = k, sg_nonce_commitment = None, sg_nonce = None,
        sg_partial_signature = None \<rparr>) (sort pks)"
    using assms(4) by (auto simp: new_session_def result_simps Let_def split: if_splits)
  then show ?thesis
    using set_session_effect [OF assms(1) _ x] assms(2,3) by (auto simp: session_at_def intro!: exI [of _ x])
qed

end

section \<open>Runs of the service\<close>

text \<open>
  Any call of the service on any session, with any passphrase and any arguments, with any result but a
  panic.  The session named by the relation is not created anew: identifiers are random.
\<close>

definition no_panic :: "'a outcome \<Rightarrow> bool" where
  "no_panic r \<longleftrightarrow> (\<forall>msg. r \<noteq> Err (Panicked msg))"

inductive session_step :: "ClientLib \<Rightarrow> 'm MuSigLib \<Rightarrow> 's Storage \<Rightarrow> H256 \<Rightarrow> 's World \<Rightarrow> 's World \<Rightarrow> bool"
  for L G S sid where
  step_new: "\<lbrakk> new_session L G S msg pks self sk q w = (w', r); r \<noteq> Ok sid; no_panic r \<rbrakk> \<Longrightarrow> session_step L G S sid w w'"
| step_commitment: "\<lbrakk> svc_nonce_commitment L G S sid' q w = (w', r); no_panic r \<rbrakk> \<Longrightarrow> session_step L G S sid w w'"
| step_add_commitment: "\<lbrakk> svc_add_nonce_commitment L G S sid' c k q w = (w', r1); no_panic r1 \<rbrakk> \<Longrightarrow> session_step L G S sid w w'"
| step_nonce: "\<lbrakk> svc_nonce L G S sid' q w = (w', r); no_panic r \<rbrakk> \<Longrightarrow> session_step L G S sid w w'"
| step_add_nonce: "\<lbrakk> svc_add_nonce L G S sid' n k q w = (w', r1); no_panic r1 \<rbrakk> \<Longrightarrow> session_step L G S sid w w'"
| step_partial: "\<lbrakk> svc_partial_signature L G S sid' q w = (w', r); no_panic r \<rbrakk> \<Longrightarrow> session_step L G S sid w w'"
| step_add_partial: "\<lbrakk> svc_add_partial_signature L G S sid' c k q w = (w', r1); no_panic r1 \<rbrakk> \<Longrightarrow> session_step L G S sid w w'"

abbreviation session_run :: "ClientLib \<Rightarrow> 'm MuSigLib \<Rightarrow> 's Storage \<Rightarrow> H256 \<Rightarrow> 's World \<Rightarrow> 's World \<Rightarrow> bool" where
  "session_run L G S sid \<equiv> (session_step L G S sid)\<^sup>*\<^sup>*"

context client_storage
begin

lemma session_step_kept:
  assumes laws: "client_laws L" "musig_laws G" "aead_authentic (cl_aead L)"
    and "session_step L G S sid w w'" "session_kept L G sid p x w"
  shows "session_kept L G sid p x w'"
  using assms(4,5)
proof cases
  case step_new
  with new_session_kept [OF laws(1) assms(5)] show ?thesis by blast
next
  case step_commitment
  with answer_kept [OF laws assms(5)] session_add_extends(1) show ?thesis unfolding svc_nonce_commitment_def by blast
next
  case step_nonce
  with answer_kept [OF laws assms(5)] session_add_extends(2) show ?thesis unfolding svc_nonce_def by blast
next
  case step_partial
  with answer_kept [OF laws assms(5)] session_add_extends(3) show ?thesis unfolding svc_partial_signature_def by blast
next
  case step_add_commitment
  with receive_kept [OF laws assms(5)] session_add_extends(1) show ?thesis
    unfolding svc_add_nonce_commitment_def no_panic_def by blast
next
  case step_add_nonce
  with receive_kept [OF laws assms(5)] session_add_extends(2) show ?thesis
    unfolding svc_add_nonce_def no_panic_def by blast
next
  case step_add_partial
  with receive_kept [OF laws assms(5)] session_add_extends(3) show ?thesis
    unfolding svc_add_partial_signature_def no_panic_def by blast
qed

lemma session_run_kept:
  assumes "client_laws L" "musig_laws G" "aead_authentic (cl_aead L)" "session_run L G S sid w w'" "session_kept L G sid p x w"
  shows "session_kept L G sid p x w'"
  using assms(4,5) by (induction rule: rtranclp_induct) (auto intro: session_step_kept [OF assms(1-3)])

text \<open>An answer given out comes from the stored session.\<close>

lemma answer_source:
  assumes laws: "client_laws L" "musig_laws G" "aead_authentic (cl_aead L)"
    and kept: "session_kept L G sid p x w" and a: "answer L G S calc has add sid q w = (w', Ok v)"
  shows "\<exists>y. session_extends x y \<and> calc y = Ok v \<and> session_at L G sid p y (store w)"
proof -
  obtain y where y: "session_at L G sid p y (store w)" "session_extends x y"
    using kept by (auto simp: session_kept_def)
  obtain z where z: "get_session L G S sid q (store w) = Ok z" "calc z = Ok v"
    using a by (auto simp: answer_def result_simps Let_def)
  have "q = p" using get_session_wrong_passphrase [OF laws(3) y(1)] z(1) by (metis sum.distinct(1))
  with get_session_at [OF laws(1,2) y(1)] z y show ?thesis by auto
qed

end

section \<open>A concrete MuSig library\<close>

definition sample_musig :: "bytes MuSigLib" where
  "sample_musig = \<lparr> session_id_new = (\<lambda>t. replicate 32 (of_nat t)), session_id_from_slice = Ok,
     musig_new = (\<lambda>sid m c h n i sk. Ok sk), get_my_nonce_commitment = id, set_nonce_commitment = (\<lambda>m c i. m @ c),
     get_public_nonce = (\<lambda>m. Ok (m, m)), musig_set_nonce = (\<lambda>m i n. Ok (m @ n)), combine_nonces = Ok,
     partial_sign = (\<lambda>m. Ok (m, m)), partial_signature_from = Ok, partial_sig_combine = (\<lambda>m sigs. Ok (concat sigs)),
     c_option_h256 = option_codec bytes_codec, c_option_public_key = option_codec, c_vec_signer = list_codec \<rparr>"

lemma sample_musig_laws: "musig_laws sample_musig"
  by (simp add: musig_laws_def sample_musig_def codec_oks)

lemma sample_public_of_private [simp]: "public_of_private sample_client sk = sk"
  by (simp add: public_of_private_def sample_client_def sample_request_lib_def)

lemma sample_sk [simp]: "sk_from_slice sample_client sk = Ok sk"
  by (simp add: sample_client_def)

lemma sample_new_session:
  assumes "self \<in> set ks" "1 < length ks"
  shows "\<exists>w'. new_session sample_client sample_musig memory_storage msg ks self self p fresh_world = (w', Ok (replicate 32 0))"
proof -
  let ?k = "\<lambda>x :: PublicKey. x"
  have "case binary_search_by (\<lambda>x. compare (?k x) self) (sort ks) of Inr i \<Rightarrow> i < length (sort ks) \<and> ?k (sort ks ! i) = self
    | Inl _ \<Rightarrow> self \<notin> ?k ` set (sort ks)"
    by (rule binary_search_spec) simp
  then have found: "is_ok (binary_search_by (\<lambda>x. compare x self) (sort ks))"
    using assms(1) by (cases "binary_search_by (\<lambda>x. compare x self) (sort ks)") auto
  have "\<exists>w'. set_session sample_client sample_musig memory_storage sid x p (fresh_world\<lparr> tick := 1 \<rparr>) = (w', Ok ())" for sid x
    using memory_set_new [OF _ _ client_lawsD(1) [OF sample_client_laws(1)], of "fresh_world\<lparr> tick := 1 \<rparr>" SESSION_KEYSPACE
        sid "enc (session_codec sample_client sample_musig) x" p]
    by (auto simp: set_session_def act_bind.simps)
  then obtain w' where "set_session sample_client sample_musig memory_storage (replicate 32 0)
      \<lparr> ms_id = replicate 32 0, ms_message = msg, ms_signers = map (\<lambda>k. \<lparr> sg_public_key = k, sg_nonce_commitment = None,
          sg_nonce = None, sg_partial_signature = None \<rparr>) (sort ks), ms_public_key = self, ms_private_key = self,
        ms_combined_public_key = concat (sort ks), ms_combined_public_key_hash = [] \<rparr> p (fresh_world\<lparr> tick := 1 \<rparr>) = (w', Ok ())"
    by blast
  moreover have "public_key_combine sample_client (sort ks) = Ok (concat (sort ks), [])"
    by (simp add: public_key_combine_def sample_client_def)
  moreover have "session_id_new sample_musig 0 = replicate 32 0" by (simp add: sample_musig_def)
  ultimately show ?thesis
    using found assms by (simp add: new_session_def act_bind.simps Let_def)
qed

lemma collect_present:
  "\<forall>g \<in> set gs. f g \<noteq> None \<Longrightarrow> \<exists>ys. collect_result (\<lambda>g. case f g of None \<Rightarrow> Err e | Some v \<Rightarrow> Ok (h g v)) gs = Ok ys"
  by (induction gs) auto

lemma collect_missing:
  "\<exists>g \<in> set gs. f g = None \<Longrightarrow> collect_result (\<lambda>g. case f g of None \<Rightarrow> Err e | Some v \<Rightarrow> Ok (h g v)) gs = Err e"
proof (induction gs)
  case (Cons a gs)
  then show ?case by (cases "f a") (auto simp: result_simps)
qed simp

text \<open>A session of two signers, with what was recorded for each.\<close>

definition sample_session :: "H256 option \<Rightarrow> PublicKey option \<Rightarrow> H256 option \<Rightarrow> H256 option \<Rightarrow> PublicKey option \<Rightarrow> MultiSigSession" where
  "sample_session c1 n1 p1 c2 n2 = \<lparr> ms_id = replicate 32 0, ms_message = [9],
     ms_signers = [\<lparr> sg_public_key = [5], sg_nonce_commitment = c1, sg_nonce = n1, sg_partial_signature = p1 \<rparr>,
       \<lparr> sg_public_key = [6], sg_nonce_commitment = c2, sg_nonce = n2, sg_partial_signature = None \<rparr>],
     ms_public_key = [5], ms_private_key = [5], ms_combined_public_key = [5, 6], ms_combined_public_key_hash = [] \<rparr>"

lemma sample_signer_index:
  "signer_index (sample_session c1 n1 p1 c2 n2) [5] = Ok 0" "signer_index (sample_session c1 n1 p1 c2 n2) [6] = Ok 1"
  by (simp_all add: signer_index_def sample_session_def binary_search_by_def bs_loop.simps compare_def Let_def)

lemma sample_session_simps [simp]:
  "ms_signers (sample_session c1 n1 p1 c2 n2) =
     [\<lparr> sg_public_key = [5], sg_nonce_commitment = c1, sg_nonce = n1, sg_partial_signature = p1 \<rparr>,
      \<lparr> sg_public_key = [6], sg_nonce_commitment = c2, sg_nonce = n2, sg_partial_signature = None \<rparr>]"
  "ms_public_key (sample_session c1 n1 p1 c2 n2) = [5]" "ms_private_key (sample_session c1 n1 p1 c2 n2) = [5]"
  by (simp_all add: sample_session_def)

lemma sample_musig_session: "musig_session sample_client sample_musig (sample_session c1 n1 p1 c2 n2) = Ok [5]"
  by (simp add: musig_session_def sample_signer_index) (simp add: sample_client_def sample_ext_def sample_musig_def)

lemma sample_calc:
  "session_nonce_commitment sample_client sample_musig (sample_session None None None c2 n2) = Ok [5]"
  "session_nonce sample_client sample_musig (sample_session (Some [5]) None None (Some [8]) n2) = Ok [5, 5, 8]"
  "session_partial_signature sample_client sample_musig (sample_session (Some [5]) (Some [5, 5, 8]) p1 (Some [8]) (Some [1])) =
     Ok [5, 5, 8, 5, 5, 8, 1]"
  unfolding session_nonce_commitment_def session_nonce_def session_partial_signature_def session_signing_def
    nonce_commitments_def nonces_def sample_musig_session
  by (simp_all add: sample_signer_index) (simp_all add: sample_musig_def)

lemma sample_update:
  "session_add_nonce_commitment [5] c (sample_session None n1 p1 c2 n2) = Ok (sample_session (Some c) n1 p1 c2 n2)"
  "session_add_nonce_commitment [6] c (sample_session c1 n1 p1 None n2) = Ok (sample_session c1 n1 p1 (Some c) n2)"
  "session_add_nonce [5] n (sample_session c1 None p1 c2 n2) = Ok (sample_session c1 (Some n) p1 c2 n2)"
  "session_add_nonce [6] n (sample_session c1 n1 p1 c2 None) = Ok (sample_session c1 n1 p1 c2 (Some n))"
  "session_add_partial_signature [5] q (sample_session c1 n1 None c2 n2) = Ok (sample_session c1 n1 (Some q) c2 n2)"
  by (simp_all add: session_add_nonce_commitment_def session_add_nonce_def session_add_partial_signature_def update_signer_def
      sample_signer_index signer_add_nonce_commitment_def signer_add_nonce_def signer_add_partial_signature_def)
    (simp_all add: sample_session_def)

lemma sample_has:
  "has_nonce_commitment (sample_session c1 n1 p1 c2 n2) [5] = Ok (c1 \<noteq> None)"
  "has_nonce (sample_session c1 n1 p1 c2 n2) [5] = Ok (n1 \<noteq> None)"
  "has_partial_signature (sample_session c1 n1 p1 c2 n2) [5] = Ok (p1 \<noteq> None)"
  by (simp_all add: has_nonce_commitment_def has_nonce_def has_partial_signature_def sample_signer_index)

text \<open>The first session of a fresh client and its run up to the partial signature.\<close>

abbreviation sample_sid :: H256 where "sample_sid \<equiv> replicate 32 0"

abbreviation sample_session_at :: "MultiSigSession \<Rightarrow> MemoryStorage World \<Rightarrow> bool" where
  "sample_session_at x w \<equiv> memory.session_at sample_client sample_musig sample_sid [7] x (store w)"

lemma sample_started:
  "\<exists>w1. new_session sample_client sample_musig memory_storage [9] [[6], [5]] [5] [5] [7] fresh_world = (w1, Ok sample_sid) \<and>
     sample_session_at (sample_session None None None None None) w1"
proof -
  obtain w1 where new: "new_session sample_client sample_musig memory_storage [9] [[6], [5]] [5] [5] [7] fresh_world = (w1, Ok sample_sid)"
    using sample_new_session [of "[5]" "[[6], [5]]" "[9]" "[7]"] by auto
  have srt: "sort [[6], [5 :: u8]] = [[5], [6]]" by simp
  obtain x where x: "sample_session_at x w1" "public_key_combine sample_client (sort [[6], [5]]) =
      Ok (ms_combined_public_key x, ms_combined_public_key_hash x)" "ms_id x = sample_sid" "ms_message x = [9]"
    "ms_public_key x = [5]" "ms_private_key x = [5]" "ms_signers x = map (\<lambda>k. \<lparr> sg_public_key = k, sg_nonce_commitment = None,
      sg_nonce = None, sg_partial_signature = None \<rparr>) (sort [[6], [5]])"
    using memory.new_session_at [OF sample_client_laws(1) _ sample_sk new] by (auto simp: fresh_world_simps)
  have "x = sample_session None None None None None"
    using x(2-) unfolding srt
    by (intro MultiSigSession.equality) (simp_all add: sample_session_def public_key_combine_def sample_client_def)
  with new x(1) show ?thesis by blast
qed

lemma sample_answer:
  assumes "sample_session_at x w" "calc x = Ok v" "has x [5] = Ok known" "ms_public_key x = [5]"
    and "(if \<not> known then add [5] v x else Ok x) = Ok y" "session_extends x y"
  shows "\<exists>w'. answer sample_client sample_musig memory_storage calc has add sample_sid [7] w = (w', Ok v) \<and> sample_session_at y w'"
proof (rule memory.answer_at [where calc = calc, OF sample_client_laws(1) sample_musig_laws assms(1) assms(2)])
  show "has x (ms_public_key x) = Ok known" "(if \<not> known then add (ms_public_key x) v x else Ok x) = Ok y"
    "session_extends x y"
    using assms(3-) by (simp_all split: if_splits)
qed

lemma sample_receive:
  assumes "sample_session_at x w" "f x = Ok y" "session_extends x y"
  shows "\<exists>w'. receive sample_client sample_musig memory_storage f sample_sid [7] w = (w', Ok ()) \<and> sample_session_at y w'"
  by (rule memory.receive_at [where f = f, OF sample_client_laws(1) sample_musig_laws assms])

lemma no_panic_Ok [simp]: "no_panic (Ok x)" by (simp add: no_panic_def)

lemma sample_run:
  assumes "sample_session_at (sample_session None None None None None) w1"
  shows "\<exists>w2. session_run sample_client sample_musig memory_storage sample_sid w1 w2 \<and>
    sample_session_at (sample_session (Some [5]) (Some [5, 5, 8]) None (Some [8]) (Some [1])) w2"
proof -
  let ?R = "session_step sample_client sample_musig memory_storage sample_sid"
  obtain wa where a: "svc_nonce_commitment sample_client sample_musig memory_storage sample_sid [7] w1 = (wa, Ok [5])"
    "sample_session_at (sample_session (Some [5]) None None None None) wa"
    using sample_answer [where calc = "session_nonce_commitment sample_client sample_musig" and has = has_nonce_commitment and
        add = session_add_nonce_commitment, OF assms sample_calc(1) sample_has(1)]
      session_add_extends(1) [OF sample_update(1)] by (auto simp: svc_nonce_commitment_def sample_update)
  obtain wb where b: "svc_add_nonce_commitment sample_client sample_musig memory_storage sample_sid [8] [6] [7] wa = (wb, Ok ())"
    "sample_session_at (sample_session (Some [5]) None None (Some [8]) None) wb"
    using sample_receive [where f = "session_add_nonce_commitment [6] [8]", OF a(2) sample_update(2) session_add_extends(1) [OF sample_update(2)]]
    by (auto simp: svc_add_nonce_commitment_def)
  obtain wc where c: "svc_nonce sample_client sample_musig memory_storage sample_sid [7] wb = (wc, Ok [5, 5, 8])"
    "sample_session_at (sample_session (Some [5]) (Some [5, 5, 8]) None (Some [8]) None) wc"
    using sample_answer [where calc = "session_nonce sample_client sample_musig" and has = has_nonce and
        add = session_add_nonce, OF b(2) sample_calc(2) sample_has(2)]
      session_add_extends(2) [OF sample_update(3)] by (auto simp: svc_nonce_def sample_update)
  obtain wd where d: "svc_add_nonce sample_client sample_musig memory_storage sample_sid [1] [6] [7] wc = (wd, Ok ())"
    "sample_session_at (sample_session (Some [5]) (Some [5, 5, 8]) None (Some [8]) (Some [1])) wd"
    using sample_receive [where f = "session_add_nonce [6] [1]", OF c(2) sample_update(4) session_add_extends(2) [OF sample_update(4)]]
    by (auto simp: svc_add_nonce_def)
  have "?R w1 wa" "?R wa wb" "?R wb wc" "?R wc wd"
    using step_commitment [OF a(1)] step_add_commitment [OF b(1)] step_nonce [OF c(1)] step_add_nonce [OF d(1)] by simp_all
  then have "session_run sample_client sample_musig memory_storage sample_sid w1 wd"
    by (meson converse_rtranclp_into_rtranclp rtranclp.rtrancl_refl)
  with d(2) show ?thesis by blast
qed

section \<open>Properties\<close>

text \<open>
  C14: a session gives out at most one partial signature.  From the creation of a session on, whatever
  calls reach the service in between, two successful requests for its partial signature return the same
  value, so that the nonce of the session is never used for two challenges.
\<close>

theorem one_partial_signature:
  assumes laws: "client_laws L" "musig_laws G" "aead_authentic (cl_aead L)" and w: "\<not> poisoned (store w)" "sk_from_slice L sk = Ok sk"
    and new: "new_session L G memory_storage msg pks self sk p w = (w1, Ok sid)"
    and run: "session_run L G memory_storage sid w1 w2"
    and first: "svc_partial_signature L G memory_storage sid q w2 = (w3, Ok sig)"
    and run': "session_run L G memory_storage sid w3 w4"
    and second: "svc_partial_signature L G memory_storage sid q' w4 = (w5, Ok sig')"
  shows "sig' = sig"
proof -
  obtain x where "memory.session_at L G sid p x (store w1)"
    using memory.new_session_at [OF laws(1) w(1,2) new] by blast
  then have "memory.session_kept L G sid p x w1" by (auto simp: memory.session_kept_def)
  then have kept: "memory.session_kept L G sid p x w2" by (rule memory.session_run_kept [OF laws run])
  from memory.answer_source [OF laws this first [unfolded svc_partial_signature_def]]
  obtain y where y: "session_partial_signature L G y = Ok sig" "memory.session_at L G sid p y (store w2)" by blast
  then have "memory.session_kept L G sid p y w2" by (auto simp: memory.session_kept_def)
  then have "memory.session_kept L G sid p y w3"
    by (rule memory.answer_kept [OF laws _ first [unfolded svc_partial_signature_def] session_add_extends(3)])
  then have "memory.session_kept L G sid p y w4" by (rule memory.session_run_kept [OF laws run'])
  from memory.answer_source [OF laws this second [unfolded svc_partial_signature_def]]
  obtain z where "session_extends y z" "session_partial_signature L G z = Ok sig'" by blast
  with session_partial_signature_extends [OF _ y(1)] show ?thesis by fastforce
qed

theorem one_partial_signature_witness:
  "\<exists>w1 w2 w3 w5. new_session sample_client sample_musig memory_storage [9] [[6], [5]] [5] [5] [7] fresh_world = (w1, Ok sample_sid) \<and>
     session_run sample_client sample_musig memory_storage sample_sid w1 w2 \<and>
     svc_partial_signature sample_client sample_musig memory_storage sample_sid [7] w2 = (w3, Ok [5, 5, 8, 5, 5, 8, 1]) \<and>
     svc_partial_signature sample_client sample_musig memory_storage sample_sid [7] w3 = (w5, Ok [5, 5, 8, 5, 5, 8, 1])"
proof -
  obtain w1 w2 where new: "new_session sample_client sample_musig memory_storage [9] [[6], [5]] [5] [5] [7] fresh_world = (w1, Ok sample_sid)"
    and run: "session_run sample_client sample_musig memory_storage sample_sid w1 w2"
    and x: "sample_session_at (sample_session (Some [5]) (Some [5, 5, 8]) None (Some [8]) (Some [1])) w2"
    using sample_started sample_run by blast
  let ?p = "Some [5, 5, 8, 5, 5, 8, 1] :: H256 option"
  obtain w3 where first: "svc_partial_signature sample_client sample_musig memory_storage sample_sid [7] w2 = (w3, Ok [5, 5, 8, 5, 5, 8, 1])"
    and y: "sample_session_at (sample_session (Some [5]) (Some [5, 5, 8]) ?p (Some [8]) (Some [1])) w3"
    using sample_answer [where calc = "session_partial_signature sample_client sample_musig" and has = has_partial_signature and
        add = session_add_partial_signature, OF x sample_calc(3) sample_has(3)]
      session_add_extends(3) [OF sample_update(5)] by (auto simp: svc_partial_signature_def sample_update)
  obtain w5 sig where second: "svc_partial_signature sample_client sample_musig memory_storage sample_sid [7] w3 = (w5, Ok sig)"
    using sample_answer [where calc = "session_partial_signature sample_client sample_musig" and has = has_partial_signature and
        add = session_add_partial_signature, OF y sample_calc(3) sample_has(3)]
    by (auto simp: svc_partial_signature_def)
  have "sig = [5, 5, 8, 5, 5, 8, 1]"
    by (rule one_partial_signature [OF sample_client_laws(1) sample_musig_laws sample_client_laws(4) _ sample_sk new run first
        rtranclp.rtrancl_refl second]) (simp add: fresh_world_simps)
  with new run first second show ?thesis by blast
qed

text \<open>
  C21: the rounds happen in order.  As long as a signer has not sent a nonce commitment the service gives
  out neither the own nonce nor a partial signature nor a signature; as long as a nonce is missing it
  gives out no partial signature and no signature; and the signature needs all partial signatures.  The
  refusals name what is missing and leave the storage as it is.
\<close>

theorem rounds_in_order:
  assumes "get_session L G S sid p (store w) = Ok y"
  shows "((\<exists>g \<in> set (ms_signers y). sg_nonce_commitment g = None) \<longrightarrow>
      svc_nonce L G S sid p w = (w, Err (Failed MissingNonceCommitment)) \<and>
      svc_partial_signature L G S sid p w = (w, Err (Failed MissingNonceCommitment)) \<and>
      svc_signature L G S sid p (store w) = Err (Failed MissingNonceCommitment)) \<and>
    ((\<forall>g \<in> set (ms_signers y). sg_nonce_commitment g \<noteq> None) \<and> (\<exists>g \<in> set (ms_signers y). sg_nonce g = None) \<longrightarrow>
      svc_partial_signature L G S sid p w = (w, Err (Failed MissingNonce)) \<and>
      svc_signature L G S sid p (store w) = Err (Failed MissingNonce)) \<and>
    ((\<forall>g \<in> set (ms_signers y). sg_nonce_commitment g \<noteq> None \<and> sg_nonce g \<noteq> None) \<and>
      (\<exists>g \<in> set (ms_signers y). sg_partial_signature g = None) \<longrightarrow>
      svc_signature L G S sid p (store w) = Err (Failed MissingPartialSignature))"
proof -
  note rounds = nonce_commitments_def nonces_def partial_signatures_def
  have a: "(\<exists>g \<in> set (ms_signers y). sg_nonce_commitment g = None) \<longrightarrow> nonce_commitments y = Err (Failed MissingNonceCommitment)"
    "(\<exists>g \<in> set (ms_signers y). sg_nonce g = None) \<longrightarrow> nonces y = Err (Failed MissingNonce)"
    "(\<exists>g \<in> set (ms_signers y). sg_partial_signature g = None) \<longrightarrow> partial_signatures y = Err (Failed MissingPartialSignature)"
    unfolding rounds by (intro impI collect_missing; assumption)+
  have b: "(\<forall>g \<in> set (ms_signers y). sg_nonce_commitment g \<noteq> None) \<longrightarrow> (\<exists>cs. nonce_commitments y = Ok cs)"
    "(\<forall>g \<in> set (ms_signers y). sg_nonce g \<noteq> None) \<longrightarrow> (\<exists>ns. nonces y = Ok ns)"
    unfolding rounds by (intro impI collect_present; assumption)+
  have c: "calc y = Err e \<Longrightarrow> answer L G S calc has add sid p w = (w, Err e)"
    for calc has e and add :: "PublicKey \<Rightarrow> 'v \<Rightarrow> MultiSigSession \<Rightarrow> MultiSigSession outcome"
    using assms by (simp add: answer_def act_bind.simps)
  show ?thesis
    using a b assms
    by (auto simp: svc_nonce_def svc_partial_signature_def svc_signature_def session_signature_def
        session_nonce_def session_partial_signature_def intro!: c)
qed

theorem rounds_in_order_witness:
  "\<exists>w. new_session sample_client sample_musig memory_storage [9] [[6], [5]] [5] [5] [7] fresh_world = (w, Ok sample_sid) \<and>
     svc_nonce sample_client sample_musig memory_storage sample_sid [7] w = (w, Err (Failed MissingNonceCommitment))"
proof -
  obtain w where new: "new_session sample_client sample_musig memory_storage [9] [[6], [5]] [5] [5] [7] fresh_world = (w, Ok sample_sid)"
    and x: "sample_session_at (sample_session None None None None None) w"
    using sample_started by blast
  from rounds_in_order [OF memory.get_session_at [OF sample_client_laws(1) sample_musig_laws x]] new
  show ?thesis by auto
qed

text \<open>
  C23: a session whose list of signers names a key twice is accepted but can never be completed: the
  second entry of the key is never found, so its nonce commitment stays missing and no call of the
  service ever gives out a nonce.
\<close>

theorem duplicate_signer_blocks:
  assumes laws: "client_laws L" "musig_laws G" "aead_authentic (cl_aead L)" and w: "\<not> poisoned (store w)" "sk_from_slice L sk = Ok sk"
    and dup: "\<not> distinct pks" and new: "new_session L G memory_storage msg pks self sk p w = (w1, Ok sid)"
    and run: "session_run L G memory_storage sid w1 w2"
  shows "\<not> (\<exists>q w3 n. svc_nonce L G memory_storage sid q w2 = (w3, Ok n))"
proof
  assume "\<exists>q w3 n. svc_nonce L G memory_storage sid q w2 = (w3, Ok n)"
  then obtain q w3 n where n: "svc_nonce L G memory_storage sid q w2 = (w3, Ok n)" by blast
  obtain x where x: "memory.session_at L G sid p x (store w1)"
    and gs: "ms_signers x = map (\<lambda>k. \<lparr> sg_public_key = k, sg_nonce_commitment = None, sg_nonce = None,
      sg_partial_signature = None \<rparr>) (sort pks)"
    using memory.new_session_at [OF laws(1) w(1,2) new] by blast
  then have "memory.session_kept L G sid p x w1" by (auto simp: memory.session_kept_def)
  then have "memory.session_kept L G sid p x w2" by (rule memory.session_run_kept [OF laws run])
  from memory.answer_source [OF laws this n [unfolded svc_nonce_def]]
  obtain y where y: "session_extends x y" "session_nonce L G y = Ok n" by blast
  have "\<not> distinct (sort pks)" using dup by simp
  then obtain i j where ij: "i < length pks" "j < length pks" "i \<noteq> j" "sort pks ! i = sort pks ! j"
    by (auto simp: distinct_conv_nth)
  obtain k where k: "k < length (ms_signers x)" "signer_index x (sg_public_key (ms_signers x ! k)) \<noteq> Ok k"
  proof (cases "signer_index x (sort pks ! i) = Ok i")
    case True
    with that [of j] ij gs show thesis by simp
  next
    case False
    with that [of i] ij gs show thesis by simp
  qed
  then have "ms_signers y ! k = ms_signers x ! k" "k < length (ms_signers y)"
    using y(1) by (auto simp: session_extends_def list_all2_lengthD)
  moreover have "sg_nonce_commitment (ms_signers x ! k) = None" using gs k(1) by simp
  ultimately obtain g where g: "g \<in> set (ms_signers y)" "sg_nonce_commitment g = None" by (metis nth_mem)
  from y(2) obtain cs where "nonce_commitments y = Ok cs" by (auto simp: session_nonce_def result_simps)
  from collect_result_mem [OF this [unfolded nonce_commitments_def] g(1)] g(2) show False by simp
qed

theorem duplicate_signer_blocks_witness:
  "\<exists>w1. new_session sample_client sample_musig memory_storage [9] [[5], [5]] [5] [5] [7] fresh_world = (w1, Ok (replicate 32 0)) \<and>
     \<not> (\<exists>q w3 n. svc_nonce sample_client sample_musig memory_storage (replicate 32 0) q w1 = (w3, Ok n))"
proof -
  obtain w1 where new: "new_session sample_client sample_musig memory_storage [9] [[5], [5]] [5] [5] [7] fresh_world =
      (w1, Ok (replicate 32 0))"
    using sample_new_session [of "[5]" "[[5], [5]]" "[9]" "[7]"] by auto
  have "\<not> distinct [[5], [5 :: u8]]" by simp
  from duplicate_signer_blocks [OF sample_client_laws(1) sample_musig_laws sample_client_laws(4) _ sample_sk this new rtranclp.rtrancl_refl]
  show ?thesis using new by (auto simp: fresh_world_simps)
qed

end
