(* ===== verification/Client_Transactions.thy ===== *)
theory Client_Transactions
  imports Client_Keys
begin

text \<open>
  Transactions as the client sees them (\<open>client-common/src/transaction.rs\<close>) and the changes of balances
  they cause (\<open>client-common/src/balance/balance_change.rs\<close>, \<open>transaction_change.rs\<close>).
\<close>

section \<open>Transactions\<close>

datatype Transaction =
    TransferTransaction Tx
  | DepositStakeTransaction DepositBondTx
  | UnbondStakeTransaction UnbondTx
  | WithdrawUnbondedStakeTransaction WithdrawUnbondedTx

definition transaction_id :: "Ext \<Rightarrow> Transaction \<Rightarrow> TxId" where
  "transaction_id E t = (case t of
     TransferTransaction tx \<Rightarrow> tx_id E tx
   | DepositStakeTransaction tx \<Rightarrow> deposit_id E tx
   | UnbondStakeTransaction tx \<Rightarrow> unbond_id E tx
   | WithdrawUnbondedStakeTransaction tx \<Rightarrow> withdraw_id E tx)"

datatype SignedTransaction =
    SignedTransfer Tx TxWitness
  | SignedDeposit DepositBondTx TxWitness
  | SignedUnbond UnbondTx StakedStateOpWitness
  | SignedWithdraw WithdrawUnbondedTx StakedState StakedStateOpWitness

definition signed_transaction_id :: "Ext \<Rightarrow> SignedTransaction \<Rightarrow> TxId" where
  "signed_transaction_id E t = (case t of
     SignedTransfer tx _ \<Rightarrow> tx_id E tx
   | SignedDeposit tx _ \<Rightarrow> deposit_id E tx
   | SignedUnbond tx _ \<Rightarrow> unbond_id E tx
   | SignedWithdraw tx _ _ \<Rightarrow> withdraw_id E tx)"

section \<open>Changes of balances\<close>

datatype BalanceChange = Incoming Coin | Outgoing Coin

definition coin_plus_change :: "Coin \<Rightarrow> BalanceChange \<Rightarrow> Coin outcome" where
  "coin_plus_change c change = (case change of
     Incoming d \<Rightarrow> with_context BalanceAdditionError (coin_add c d)
   | Outgoing d \<Rightarrow> with_context BalanceAdditionError (coin_sub c d))"

text \<open>A point in time, in nanoseconds.\<close>

type_synonym DateTime = int

record TransactionChange =
  tc_transaction_id :: TxId
  tc_address :: ExtendedAddr
  tc_balance_change :: BalanceChange
  tc_block_height :: u64
  tc_block_time :: DateTime

definition coin_plus_transaction_change :: "Coin \<Rightarrow> TransactionChange \<Rightarrow> Coin outcome" where
  "coin_plus_transaction_change c change = coin_plus_change c (tc_balance_change change)"

text \<open>
  The stored form of a change writes the time as RFC 3339 text; the texts, the enumeration of the two
  kinds and the other fields are codecs of the library.
\<close>

record ChangeLib =
  to_rfc3339 :: "DateTime \<Rightarrow> str"
  datetime_from_str :: "str \<Rightarrow> DateTime option"
  c_extended_addr :: "ExtendedAddr codec"
  c_balance_change :: "BalanceChange codec"
  c_height :: "u64 codec"
  c_string :: "str codec"

definition transaction_change_codec :: "TxId codec \<Rightarrow> ChangeLib \<Rightarrow> TransactionChange codec" where
  "transaction_change_codec c_id K = \<lparr>
     enc = (\<lambda>c. enc c_id (tc_transaction_id c) @ enc (c_extended_addr K) (tc_address c) @
       enc (c_balance_change K) (tc_balance_change c) @ enc (c_height K) (tc_block_height c) @
       enc (c_string K) (to_rfc3339 K (tc_block_time c))),
     dec = (\<lambda>input. try_bind (dec c_id input) (\<lambda>(txid, input).
       try_bind (dec (c_extended_addr K) input) (\<lambda>(addr, input).
       try_bind (dec (c_balance_change K) input) (\<lambda>(balance_change, input).
       try_bind (dec (c_height K) input) (\<lambda>(block_height, input).
       try_bind (dec (c_string K) input) (\<lambda>(text, input).
       try_bind (ok_or ''Unable to parse block time'' (datetime_from_str K text)) (\<lambda>block_time.
       Ok (\<lparr> tc_transaction_id = txid, tc_address = addr, tc_balance_change = balance_change,
             tc_block_height = block_height, tc_block_time = block_time \<rparr>, input)))))))) \<rparr>"

definition change_laws :: "ChangeLib \<Rightarrow> bool" where
  "change_laws K \<longleftrightarrow> reads_back (c_extended_addr K) \<and> reads_back (c_balance_change K) \<and> reads_back (c_height K) \<and>
     reads_back (c_string K) \<and> (\<forall>t. datetime_from_str K (to_rfc3339 K t) = Some t)"

lemma transaction_change_codec_ok:
  "\<lbrakk> reads_back c_id; change_laws K \<rbrakk> \<Longrightarrow> reads_back (transaction_change_codec c_id K)"
  by (simp add: reads_back_def change_laws_def transaction_change_codec_def)

text \<open>The change in a balance as a difference of amounts.\<close>

lemma coin_plus_change_Ok_iff [coin_simps]:
  "coin_plus_change c (Incoming d) = Ok e \<longleftrightarrow> coin_add c d = Ok e"
  "coin_plus_change c (Outgoing d) = Ok e \<longleftrightarrow> coin_sub c d = Ok e"
  by (simp_all add: coin_plus_change_def result_simps)

end
