(* ===== verification/Client_Builder.thy ===== *)
theory Client_Builder
  imports Root_Hash Client_Transactions
begin

text \<open>
  Building of transfers: the selection of unspent outputs (\<open>client-core/src/unspent_transactions.rs\<close>,
  \<open>input_selection.rs\<close>) and the loop of \<open>transaction_builder/default_transaction_builder.rs\<close> that raises
  the fee until it covers the transaction it pays for.  The loop has no bound in the source; the theory
  shows that it always returns, what the returned transaction spends and pays, and that the validation
  of the chain accepts it.
\<close>

section \<open>Unspent transactions\<close>

type_synonym Unspent = "(TxoPointer \<times> TxOut) list"

datatype Sorter = HighestValueFirst | LowestValueFirst

datatype Operation = Sort Sorter

definition sorter_sort :: "Sorter \<Rightarrow> Unspent \<Rightarrow> Unspent" where
  "sorter_sort s unspent = (case s of
     Sorter.HighestValueFirst \<Rightarrow> sort_key (\<lambda>(_, out). - int (amount (out_value out))) unspent
   | Sorter.LowestValueFirst \<Rightarrow> sort_key (\<lambda>(_, out). int (amount (out_value out))) unspent)"

definition apply_operation :: "Operation \<Rightarrow> Unspent \<Rightarrow> Unspent" where
  "apply_operation op unspent = (case op of Sort s \<Rightarrow> sorter_sort s unspent)"

definition apply_all :: "Operation list \<Rightarrow> Unspent \<Rightarrow> Unspent" where
  "apply_all ops unspent = fold apply_operation ops unspent"

datatype InputSelectionStrategy = HighestValueFirst | LowestValueFirst | Random

definition strategy_default :: InputSelectionStrategy where "strategy_default = InputSelectionStrategy.HighestValueFirst"

definition strategy_operations :: "InputSelectionStrategy \<Rightarrow> Operation list" where
  "strategy_operations s = (case s of
     InputSelectionStrategy.HighestValueFirst \<Rightarrow> [Sort Sorter.HighestValueFirst]
   | InputSelectionStrategy.LowestValueFirst \<Rightarrow> [Sort Sorter.LowestValueFirst]
   | Random \<Rightarrow> [])"

fun select_loop :: "Coin \<Rightarrow> Coin \<Rightarrow> Unspent \<Rightarrow> Unspent \<Rightarrow> (Unspent \<times> Coin) outcome" where
  "select_loop target selected_amount taken [] = Err (Failed InsufficientBalance)"
| "select_loop target selected_amount taken ((input, out) # rest) =
     try_bind (with_context BalanceAdditionError (coin_add selected_amount (out_value out))) (\<lambda>selected_amount.
     if target \<le> selected_amount
     then try_bind (with_context BalanceAdditionError (coin_sub selected_amount target)) (\<lambda>difference.
          Ok (taken @ [(input, out)], difference))
     else select_loop target selected_amount (taken @ [(input, out)]) rest)"

definition unspent_select :: "Unspent \<Rightarrow> Coin \<Rightarrow> (Unspent \<times> Coin) outcome" where
  "unspent_select unspent target = select_loop target coin_zero [] unspent"

definition select_all :: "Unspent \<Rightarrow> Unspent" where "select_all unspent = unspent"

section \<open>The builder\<close>

definition build_transaction :: "Unspent \<Rightarrow> TxOut list \<Rightarrow> TxAttributes \<Rightarrow> Coin \<Rightarrow> ExtendedAddr \<Rightarrow> Tx" where
  "build_transaction selected outputs attributes difference_amount return_address =
     \<lparr> tx_inputs = map fst selected,
       tx_outputs = (if difference_amount \<noteq> coin_zero then outputs @ [tx_out_new return_address difference_amount] else outputs),
       tx_attributes = attributes \<rparr>"

text \<open>
  The three generic parts of the builder: the signer reads the storage, the obfuscation may ask a
  remote enclave, the fee algorithm is a function of the transaction.
\<close>

record 's Builder =
  b_ext :: Ext
  b_sign :: "TxId \<Rightarrow> Unspent \<Rightarrow> 's \<Rightarrow> TxWitness outcome"
  b_encrypt :: "nat \<Rightarrow> SignedTransaction \<Rightarrow> TxAux outcome"
  b_fee :: "TxAux \<Rightarrow> CoinError + Fee"

definition build_round ::
    "'s Builder \<Rightarrow> TxOut list \<Rightarrow> TxAttributes \<Rightarrow> Unspent \<Rightarrow> ExtendedAddr \<Rightarrow> Coin \<Rightarrow> Coin \<Rightarrow> ('s, TxAux \<times> Coin) action" where
  "build_round B outputs attributes unspent return_address output_value fees =
     act_bind (act_pure (with_context BalanceAdditionError (coin_add output_value fees))) (\<lambda>target.
     act_bind (act_pure (unspent_select unspent target)) (\<lambda>(selected, difference_amount).
     let transaction = build_transaction selected outputs attributes difference_amount return_address
     in act_bind (act_read (b_sign B (tx_id (b_ext B) transaction) selected)) (\<lambda>witness.
        act_bind (act_ask (\<lambda>t. b_encrypt B t (SignedTransfer transaction witness))) (\<lambda>tx_aux.
        act_bind (act_pure (with_context BalanceAdditionError (b_fee B tx_aux))) (\<lambda>fee.
        act_pure (Ok (tx_aux, to_coin fee)))))))"

partial_function (option) build_loop ::
    "'s Builder \<Rightarrow> TxOut list \<Rightarrow> TxAttributes \<Rightarrow> Unspent \<Rightarrow> ExtendedAddr \<Rightarrow> Coin \<Rightarrow> Coin \<Rightarrow> 's World \<Rightarrow>
       ('s World \<times> TxAux outcome) option" where
  "build_loop B outputs attributes unspent return_address output_value fees w =
     (case build_round B outputs attributes unspent return_address output_value fees w of
        (w', Inl e) \<Rightarrow> Some (w', Inl e)
      | (w', Inr (tx_aux, new_fees)) \<Rightarrow>
          if fees < new_fees
          then build_loop B outputs attributes unspent return_address output_value new_fees w'
          else Some (w', Ok tx_aux))"

definition builder_build ::
    "'s Builder \<Rightarrow> TxOut list \<Rightarrow> TxAttributes \<Rightarrow> Unspent \<Rightarrow> ExtendedAddr \<Rightarrow> 's World \<Rightarrow> ('s World \<times> TxAux outcome) option" where
  "builder_build B outputs attributes unspent return_address w =
     (case with_context BalanceAdditionError (sum_coins (map out_value outputs)) of
        Inl e \<Rightarrow> Some (w, Inl e)
      | Inr output_value \<Rightarrow> build_loop B outputs attributes unspent return_address output_value coin_zero w)"

definition builder_obfuscate :: "'s Builder \<Rightarrow> SignedTransaction \<Rightarrow> ('s, TxAux) action" where
  "builder_obfuscate B transaction = act_ask (\<lambda>t. b_encrypt B t transaction)"

section \<open>Selection\<close>

abbreviation unspent_total :: "Unspent \<Rightarrow> nat" where
  "unspent_total u \<equiv> sum_list (map (\<lambda>x. amount (out_value (snd x))) u)"

lemma select_loop_Ok:
  assumes "select_loop target acc taken rest = Ok (sel, d)"
  shows "\<exists>us x vs. rest = us @ x # vs \<and> sel = taken @ us @ [x] \<and>
    amount acc + unspent_total (us @ [x]) = amount target + amount d \<and> amount acc + unspent_total (us @ [x]) \<le> max_supply \<and>
    (us \<noteq> [] \<longrightarrow> amount acc + unspent_total us < amount target)"
  using assms
proof (induction target acc taken rest rule: select_loop.induct)
  case (2 target acc taken input out rest)
  then obtain c where c: "coin_add acc (out_value out) = Ok c" by (auto simp: result_simps)
  then have ac: "amount c = amount acc + amount (out_value out)" "amount c \<le> max_supply" by (simp_all add: coin_simps)
  show ?case
  proof (cases "target \<le> c")
    case True
    then have "sel = taken @ [(input, out)]" "coin_sub c target = Ok d"
      using "2.prems" c by (auto simp: result_simps)
    with ac show ?thesis
      by (intro exI [of _ "[]"] exI [of _ "(input, out)"] exI [of _ rest]) (auto simp: coin_simps)
  next
    case False
    then have "select_loop target c (taken @ [(input, out)]) rest = Ok (sel, d)"
      using "2.prems" c by (auto simp: result_simps)
    from "2.IH" [OF _ False this] c obtain us x vs where
      "rest = us @ x # vs" "sel = (taken @ [(input, out)]) @ us @ [x]"
      "amount c + unspent_total (us @ [x]) = amount target + amount d" "amount c + unspent_total (us @ [x]) \<le> max_supply"
      "us \<noteq> [] \<longrightarrow> amount c + unspent_total us < amount target"
      by auto
    moreover have "amount c < amount target" using False by (simp add: coin_simps)
    ultimately show ?thesis
      using ac by (intro exI [of _ "(input, out) # us"] exI [of _ x] exI [of _ vs]) (cases "us = []"; simp)
  qed
qed simp

lemma unspent_select_Ok:
  assumes "unspent_select u target = Ok (sel, d)"
  shows "\<exists>rest. u = sel @ rest" "sel \<noteq> []" "unspent_total sel = amount target + amount d" "unspent_total sel \<le> max_supply"
proof -
  obtain us x vs where "u = us @ x # vs" "sel = us @ [x]" "unspent_total (us @ [x]) = amount target + amount d"
    "unspent_total (us @ [x]) \<le> max_supply"
    using select_loop_Ok [OF assms [unfolded unspent_select_def]] by auto
  then show "\<exists>rest. u = sel @ rest" "sel \<noteq> []" "unspent_total sel = amount target + amount d" "unspent_total sel \<le> max_supply"
    by auto
qed

lemma select_loop_enough:
  assumes "amount acc + unspent_total rest \<le> max_supply" "amount target \<le> amount acc + unspent_total rest" "rest \<noteq> []"
  shows "\<exists>sel d. select_loop target acc taken rest = Ok (sel, d)"
  using assms
proof (induction target acc taken rest rule: select_loop.induct)
  case (2 target acc taken input out rest)
  then obtain c where c: "coin_add acc (out_value out) = Ok c"
    using coin_add_ok_ex [of acc "out_value out"] by auto
  then have ac: "amount c = amount acc + amount (out_value out)" "coin_wf c" by (simp_all add: coin_simps)
  show ?case
  proof (cases "target \<le> c")
    case True
    then obtain d where "coin_sub c target = Ok d"
      using coin_sub_ok_ex [OF ac(2)] by (auto simp: coin_simps)
    with c True show ?thesis by simp
  next
    case False
    then have "rest \<noteq> []" using "2.prems" ac(1) by (auto simp: coin_simps)
    with "2.IH" [OF _ False] "2.prems" c ac(1) False show ?thesis by simp
  qed
qed simp

section \<open>The loop returns\<close>

lemma build_round_fee:
  assumes "build_round B outs attrs u addr ov fees w = (w', Ok (aux, nf))"
  shows "\<exists>target sel d wit t. coin_add ov fees = Ok target \<and> unspent_select u target = Ok (sel, d) \<and>
    b_sign B (tx_id (b_ext B) (build_transaction sel outs attrs d addr)) sel (store w) = Ok wit \<and>
    b_encrypt B t (SignedTransfer (build_transaction sel outs attrs d addr) wit) = Ok aux \<and>
    (\<exists>f. b_fee B aux = Ok f \<and> nf = to_coin f) \<and> store w' = store w"
  using assms by (auto simp: build_round_def result_simps Let_def)

lemma build_round_store: "build_round B outs attrs u addr ov fees w = (w', r) \<Longrightarrow> store w' = store w"
  by (cases r) (auto simp: build_round_def result_simps Let_def)

lemma build_loop_returns: "\<exists>r. build_loop B outs attrs u addr ov fees w = Some r"
proof (induction "2 ^ 64 - amount fees" arbitrary: fees w rule: less_induct)
  case less
  obtain w' r where r: "build_round B outs attrs u addr ov fees w = (w', r)" by fastforce
  show ?case
  proof (cases r)
    case (Inl e)
    with r show ?thesis by (subst build_loop.simps) simp
  next
    case (Inr p)
    obtain aux nf where p: "p = (aux, nf)" by fastforce
    show ?thesis
    proof (cases "fees < nf")
      case True
      then have "amount fees < amount nf" "amount nf < 2 ^ 64" by (simp_all add: coin_simps) (simp add: amount_def)
      then have "2 ^ 64 - amount nf < 2 ^ 64 - amount fees" by linarith
      from less [OF this, of w'] True r Inr p show ?thesis by (subst build_loop.simps) simp
    next
      case False
      with r Inr p show ?thesis by (subst build_loop.simps) simp
    qed
  qed
qed

text \<open>The last round: its fee was not larger than the one assumed for the selection.\<close>

lemma build_loop_result:
  assumes "build_loop B outs attrs u addr ov fees w = Some (w', Ok aux)"
  shows "\<exists>fees' w1 nf. build_round B outs attrs u addr ov fees' w1 = (w', Ok (aux, nf)) \<and> nf \<le> fees' \<and> store w1 = store w"
  using assms
proof (induction "2 ^ 64 - amount fees" arbitrary: fees w rule: less_induct)
  case less
  obtain w2 r where r: "build_round B outs attrs u addr ov fees w = (w2, r)" by fastforce
  from less.prems r obtain aux2 nf where p: "r = Ok (aux2, nf)"
    by (subst (asm) build_loop.simps) (auto split: sum.splits prod.splits)
  show ?case
  proof (cases "fees < nf")
    case True
    then have "amount fees < amount nf" "amount nf < 2 ^ 64" by (simp_all add: coin_simps) (simp add: amount_def)
    then have "2 ^ 64 - amount nf < 2 ^ 64 - amount fees" by linarith
    moreover have "build_loop B outs attrs u addr ov nf w2 = Some (w', Ok aux)"
      using less.prems r p True by (subst (asm) build_loop.simps) simp
    ultimately show ?thesis using less.hyps build_round_store [OF r] by metis
  next
    case False
    then have "w2 = w'" "aux2 = aux"
      using less.prems r p by (subst (asm) build_loop.simps, simp)+
    with r p False show ?thesis by (auto simp: not_less)
  qed
qed

lemma builder_build_result:
  assumes "builder_build B outs attrs u addr w = Some (w', Ok aux)"
  shows "\<exists>sel d wit t fees f rest. u = sel @ rest \<and> sel \<noteq> [] \<and>
    unspent_total sel = outputs_total outs + amount fees + amount d \<and> unspent_total sel \<le> max_supply \<and>
    b_sign B (tx_id (b_ext B) (build_transaction sel outs attrs d addr)) sel (store w) = Ok wit \<and>
    b_encrypt B t (SignedTransfer (build_transaction sel outs attrs d addr) wit) = Ok aux \<and>
    b_fee B aux = Ok f \<and> amount (to_coin f) \<le> amount fees"
proof -
  obtain ov where ov: "sum_coins (map out_value outs) = Ok ov"
    and loop: "build_loop B outs attrs u addr ov coin_zero w = Some (w', Ok aux)"
    using assms by (cases "sum_coins (map out_value outs)") (auto simp: builder_build_def)
  obtain fees w1 nf where rd: "build_round B outs attrs u addr ov fees w1 = (w', Ok (aux, nf))" "nf \<le> fees" "store w1 = store w"
    using build_loop_result [OF loop] by blast
  from build_round_fee [OF rd(1)] obtain target sel d wit t f where
    tgt: "coin_add ov fees = Ok target" "unspent_select u target = Ok (sel, d)" and
    rest: "b_sign B (tx_id (b_ext B) (build_transaction sel outs attrs d addr)) sel (store w1) = Ok wit"
      "b_encrypt B t (SignedTransfer (build_transaction sel outs attrs d addr) wit) = Ok aux" "b_fee B aux = Ok f" "nf = to_coin f"
    by blast
  have "amount target = outputs_total outs + amount fees"
    using tgt(1) ov by (simp add: coin_simps comp_def)
  then have "unspent_total sel = outputs_total outs + amount fees + amount d"
    using unspent_select_Ok(3) [OF tgt(2)] by simp
  moreover have "amount (to_coin f) \<le> amount fees" using rd(2) rest(4) by (simp add: coin_simps)
  moreover have "b_sign B (tx_id (b_ext B) (build_transaction sel outs attrs d addr)) sel (store w) = Ok wit"
    using rest(1) rd(3) by simp
  ultimately show ?thesis
    using unspent_select_Ok(1,2,4) [OF tgt(2)] rest(2,3) by blast
qed

lemma build_transaction_total:
  "outputs_total (tx_outputs (build_transaction sel outs attrs d addr)) = outputs_total outs + amount d"
  by (auto simp: build_transaction_def tx_out_new_def)

section \<open>The contract of a signer\<close>

text \<open>
  What the builder relies on: in a sound storage, the witnesses of a signer are accepted for the
  addresses of the outputs they are for.
\<close>

text \<open>
  An unspent output as the chain holds it: the transaction it points to has it at the given position,
  and it is not locked at the time of the last block.
\<close>

definition held_by :: "Ext \<Rightarrow> ChainInfo \<Rightarrow> TxoPointer \<times> TxOut \<Rightarrow> TxWithOutputs \<Rightarrow> bool" where
  "held_by E info x prev \<longleftrightarrow> txo_id (fst x) = two_id E prev \<and> unat (txo_index (fst x)) < length (two_outputs prev) \<and>
     two_outputs prev ! unat (txo_index (fst x)) = snd x \<and>
     (\<forall>t. out_valid_from (snd x) = Some t \<longrightarrow> sint t \<le> sint (previous_block_time info))"

locale transfer_signer =
  fixes E :: Ext and sign :: "TxId \<Rightarrow> Unspent \<Rightarrow> 's \<Rightarrow> TxWitness outcome" and sound :: "'s \<Rightarrow> bool"
  assumes sign_valid: "\<lbrakk> sound s; sign txid sel s = Ok ws \<rbrakk> \<Longrightarrow>
    list_all2 (\<lambda>(_, out) wit. verify_tx_address E wit txid (out_address out) = Ok ()) sel ws"
begin

lemma built_accepted:
  assumes B: "b_sign B = sign" "b_ext B = E" and s: "sound (store w)"
    and build: "builder_build B outs attrs u addr w = Some (w', Ok aux)"
    and outs: "outs \<noteq> []" "\<forall>x \<in> set outs. 0 < amount (out_value x)" and u: "distinct (map fst u)"
  shows "\<exists>tx wit. (\<exists>t. b_encrypt B t (SignedTransfer tx wit) = Ok aux) \<and>
    tx_inputs tx = map fst (take (length (tx_inputs tx)) u) \<and>
    (tx_outputs tx = outs \<or> (\<exists>change. tx_outputs tx = outs @ [tx_out_new addr change])) \<and>
    (\<forall>info prevs. ci_chain_hex_id info = attr_chain_hex_id attrs \<and> b_fee B aux = Ok (min_fee_computed info) \<and>
       list_all2 (held_by E info) (take (length (tx_inputs tx)) u) prevs \<longrightarrow>
       (\<exists>fee. verify_transfer E tx wit info prevs = Ok (Ok fee)))"
proof -
  obtain sel d wit t fees f rest where r: "u = sel @ rest" "sel \<noteq> []"
    "unspent_total sel = outputs_total outs + amount fees + amount d" "unspent_total sel \<le> max_supply"
    "sign (tx_id E (build_transaction sel outs attrs d addr)) sel (store w) = Ok wit"
    "b_encrypt B t (SignedTransfer (build_transaction sel outs attrs d addr) wit) = Ok aux"
    "b_fee B aux = Ok f" "amount (to_coin f) \<le> amount fees"
    using builder_build_result [OF build] B by blast
  let ?tx = "build_transaction sel outs attrs d addr"
  have ins: "tx_inputs ?tx = map fst sel" and at: "tx_attributes ?tx = attrs" by (simp_all add: build_transaction_def)
  have v: "list_all2 (\<lambda>(_, out) wit. verify_tx_address E wit (tx_id E ?tx) (out_address out) = Ok ()) sel wit"
    using sign_valid [OF s r(5)] .
  have pos: "\<forall>x \<in> set (tx_outputs ?tx). 0 < amount (out_value x)"
    using outs(2) amount_0_iff [of d] by (auto simp: build_transaction_def tx_out_new_def)
  have "\<exists>fee. verify_transfer E ?tx wit info prevs = Ok (Ok fee)"
    if i: "ci_chain_hex_id info = attr_chain_hex_id attrs" "b_fee B aux = Ok (min_fee_computed info)"
      and p: "list_all2 (held_by E info) sel prevs"
    for info prevs
  proof -
    have len: "length prevs = length sel" "length wit = length sel" using p v by (auto dest: list_all2_lengthD)
    have each: "spendable E (tx_id E ?tx) info (map fst sel ! k, prevs ! k, wit ! k)"
      "input_value (map fst sel ! k, prevs ! k, wit ! k) = amount (out_value (snd (sel ! k)))" if "k < length sel" for k
      using p v that by (auto simp: list_all2_conv_all_nth held_by_def spendable_def input_value_def Let_def case_prod_beta)
    have "map input_value (zip (map fst sel) (zip prevs wit)) = map (\<lambda>x. amount (out_value (snd x))) sel"
      using len each(2) by (intro nth_equalityI) simp_all
    then have tot: "inputs_total (tx_inputs ?tx) prevs wit = unspent_total sel" by (simp add: ins)
    have sp: "\<forall>x \<in> set (zip (tx_inputs ?tx) (zip prevs wit)). spendable E (tx_id E ?tx) info x"
      using each(1) len by (auto simp: ins set_zip)
    have "verify_transfer E ?tx wit info prevs = Ok (Ok (Fee fees))"
      unfolding verify_transfer_Ok_iff tot
      using i r(2,3,4,7,8) len sp pos u outs(1) build_transaction_total [of sel outs attrs d addr]
      by (auto simp: ins at r(1) build_transaction_def)
    then show ?thesis by blast
  qed
  moreover have "tx_outputs ?tx = outs \<or> (\<exists>change. tx_outputs ?tx = outs @ [tx_out_new addr change])"
    by (auto simp: build_transaction_def)
  ultimately show ?thesis using r(1,6) ins by (intro exI [of _ ?tx] exI [of _ wit]) auto
qed

end

section \<open>The default signer keeps the contract\<close>

text \<open>
  A storage is sound for a passphrase if every address that can be read with it is the tree found under
  its own root and every private key belongs to the public key it is stored under.
\<close>

definition wallet_sound :: "ClientLib \<Rightarrow> 's Storage \<Rightarrow> bytes \<Rightarrow> 's \<Rightarrow> bool" where
  "wallet_sound L S p s \<longleftrightarrow> client_laws L \<and> schnorr_laws L \<and>
     (\<forall>h a. read_address L S h p s = Ok a \<longrightarrow> (\<exists>cs.
        msa_merkle_tree a = merkle_new (blake2s (cl_ext L)) raw_pubkey_bytes cs \<and> h = root_hash (msa_merkle_tree a))) \<and>
     (\<forall>k sk. key_private_key L S k p s = Ok (Some sk) \<longrightarrow> public_of_private L sk = k)"

lemma sign_with_output_sound:
  assumes sound: "wallet_sound L S p s" and sig: "sign_with_output L S name p txid out s = Ok wit"
  shows "verify_tx_address (cl_ext L) wit txid (out_address out) = Ok ()"
proof -
  obtain h where h: "out_address out = OrTree h" by (cases "out_address out")
  from sig obtain hs x where "find (\<lambda>known. known = h) hs = Some x" "sign_with_root_hash L S p txid x s = Ok wit"
    by (auto simp: sign_with_output_def ws_find_root_hash_def h result_simps)
  then have "sign_with_root_hash L S p txid h s = Ok wit" by (auto simp: find_Some_iff)
  then obtain a sk pr m where a: "read_address L S h p s = Ok a"
    and sk: "key_private_key L S (msa_self_public_key a) p s = Ok (Some sk)"
    and pr: "rh_generate_proof L S h [msa_self_public_key a] p s = Ok pr"
    and m: "message_from_slice (cl_ext L) txid = Ok m" "wit = TreeSig (schnorr_sign L m sk) pr"
    by (auto simp: sign_with_root_hash_def rh_required_signers_def rh_public_key_def private_key_schnorr_sign_def
        result_simps split: if_splits)
  obtain cs where cs: "msa_merkle_tree a = merkle_new (blake2s (cl_ext L)) raw_pubkey_bytes cs" "h = root_hash (msa_merkle_tree a)"
    using sound a unfolding wallet_sound_def by blast
  have "generate_proof (blake2s (cl_ext L)) raw_pubkey_bytes (msa_merkle_tree a) (raw_of_public_key L (msa_self_public_key a)) = Some pr"
    using pr a by (auto simp: rh_generate_proof_def raw_public_key_def result_simps split: if_splits)
  then have "proof_verify (blake2s (cl_ext L)) pr h" "proof_value pr = raw_of_public_key L (msa_self_public_key a)"
    using generate_proof_verifies cs by metis+
  moreover have "schnorr_verify (cl_ext L) m (schnorr_sign L m sk) (msa_self_public_key a) = Ok ()"
    using sound sk by (metis wallet_sound_def schnorr_laws_def public_of_private_def)
  moreover have "client_laws L" using sound by (simp add: wallet_sound_def)
  ultimately show ?thesis
    using m h by (simp add: verify_tx_address_def raw_of_public_key_def client_lawsD)
qed

interpretation default_signer: transfer_signer "cl_ext L" "signer_sign L S name p" "wallet_sound L S p" for L S name p
proof unfold_locales
  fix s txid sel ws
  assume sound: "wallet_sound L S p s" and "signer_sign L S name p txid sel s = Ok ws"
  then have "list_all2 (\<lambda>x wit. (case x of (_, out) \<Rightarrow> sign_with_output L S name p txid out s) = Ok wit) sel ws"
    by (simp add: signer_sign_def collect_result_Ok_iff)
  then show "list_all2 (\<lambda>(_, out) wit. verify_tx_address (cl_ext L) wit txid (out_address out) = Ok ()) sel ws"
    by (rule list_all2_mono) (auto dest: sign_with_output_sound [OF sound])
qed

section \<open>Properties\<close>

text \<open>
  C19: the loop of the transaction builder ends.  Every further round is entered with a strictly larger
  fee, fees are 64-bit numbers, so the builder returns, with a transaction or with an error, whatever
  the signer, the obfuscation and the fee algorithm answer.
\<close>

theorem builder_terminates: "\<exists>w' r. builder_build B outputs attributes unspent return_address w = Some (w', r)"
proof (cases "with_context BalanceAdditionError (sum_coins (map out_value outputs))")
  case (Inr ov)
  obtain x where "build_loop B outputs attributes unspent return_address ov coin_zero w = Some x"
    using build_loop_returns by blast
  with Inr show ?thesis by (cases x) (simp add: builder_build_def)
qed (simp add: builder_build_def)

text \<open>
  C22: the selection of inputs takes, in the order given, the shortest nonempty prefix that covers the
  amount, as long as all outputs together stay within the supply.  What it returns is that prefix,
  which totals the amount plus the returned difference, so even an amount of zero takes one output;
  it fails with \<open>InsufficientBalance\<close> exactly when there is no output or all of them together do not suffice.
\<close>

theorem selection_minimal:
  assumes "unspent_total unspent \<le> max_supply"
  shows "case unspent_select unspent target of
      Inr (sel, d) \<Rightarrow> (\<exists>rest. unspent = sel @ rest) \<and> sel \<noteq> [] \<and> unspent_total sel = amount target + amount d \<and>
        (\<forall>us vs. unspent = us @ vs \<and> us \<noteq> [] \<and> amount target \<le> unspent_total us \<longrightarrow> length sel \<le> length us)
    | Inl e \<Rightarrow> e = Failed InsufficientBalance \<and> (unspent = [] \<or> unspent_total unspent < amount target)"
proof (cases "unspent \<noteq> [] \<and> amount target \<le> unspent_total unspent")
  case True
  then obtain sel d where ok: "unspent_select unspent target = Ok (sel, d)"
    using select_loop_enough [of coin_zero unspent target "[]"] assms by (auto simp: unspent_select_def)
  from select_loop_Ok [OF this [unfolded unspent_select_def]] obtain us x vs where
    s: "unspent = us @ x # vs" "sel = us @ [x]" "unspent_total (us @ [x]) = amount target + amount d"
    "us \<noteq> [] \<longrightarrow> unspent_total us < amount target" by auto
  have "length sel \<le> length as" if "unspent = as @ bs" "as \<noteq> []" "amount target \<le> unspent_total as" for as bs
  proof (rule ccontr)
    assume "\<not> length sel \<le> length as"
    then have "as = take (length as) us" using s(1,2) that(1) by (auto simp: append_eq_append_conv2 append_eq_Cons_conv)
    then obtain cs where "us = as @ cs" by (metis append_take_drop_id)
    then have "unspent_total as \<le> unspent_total us" "us \<noteq> []" using that(2) by auto
    with s(4) that(3) show False by simp
  qed
  with s ok show ?thesis by auto
next
  case False
  have "select_loop target acc taken rest = Err (Failed InsufficientBalance)"
    if "amount acc + unspent_total rest < amount target" "amount acc + unspent_total rest \<le> max_supply" for acc taken rest
    using that
  proof (induction target acc taken rest rule: select_loop.induct)
    case (2 target acc taken input out rest)
    then obtain c where c: "coin_add acc (out_value out) = Ok c" using coin_add_ok_ex [of acc "out_value out"] by auto
    then have "amount c = amount acc + amount (out_value out)" by (simp add: coin_simps)
    moreover from this have "\<not> target \<le> c" using "2.prems" by (simp add: coin_simps)
    ultimately show ?case using "2.IH" [of c] "2.prems" c by simp
  qed simp
  from this [of coin_zero unspent "[]"] False assms show ?thesis
    by (cases "unspent = []") (simp_all add: unspent_select_def)
qed

theorem selection_minimal_witness:
  "unspent_select [(txo_pointer_new [1] 0, tx_out_new (OrTree [2]) (Coin 5)), (txo_pointer_new [1] 1, tx_out_new (OrTree [2]) (Coin 3))]
     (Coin 9) = Err (Failed InsufficientBalance)"
proof -
  let ?u = "[(txo_pointer_new [1] 0, tx_out_new (OrTree [2]) (Coin 5)), (txo_pointer_new [1] 1, tx_out_new (OrTree [2]) (Coin 3))]"
  have u: "unspent_total ?u = 8" by (simp add: tx_out_new_def amount_def)
  have t: "amount (Coin 9) = 9" by (simp add: amount_def)
  note m = selection_minimal [of ?u "Coin 9"]
  show ?thesis
  proof (cases "unspent_select ?u (Coin 9)")
    case (Inl e)
    with m u show ?thesis by simp
  next
    case (Inr x)
    obtain sel d where x: "x = (sel, d)" by fastforce
    from m u Inr x obtain rest where "?u = sel @ rest" "unspent_total sel = amount (Coin 9) + amount d" by auto
    then have "unspent_total ?u = amount (Coin 9) + amount d + unspent_total rest" by simp
    with u t show ?thesis by linarith
  qed
qed

end
