(* ===== verification/Client_Index.thy ===== *)
theory Client_Index
  imports Client_Transactions Ordered_Map "HOL-Library.Product_Lexorder" "HOL-Library.Multiset"
begin

text \<open>
  The transaction index of the client: \<open>client-index/src/service/transaction_service.rs\<close>,
  \<open>address_service.rs\<close>, \<open>global_state_service.rs\<close>, \<open>handler/default_transaction_handler.rs\<close> and
  \<open>index/default_index.rs\<close>.  A transaction is turned into operations per address, which are applied to
  the stored details of each address.  The theory shows that the details are those of a ledger of
  unspent outputs, and that handling a transaction twice changes nothing.
\<close>

section \<open>Libraries\<close>

type_synonym TxoKey = "TxId \<times> TxoIndex"

definition txo_key :: "TxoPointer \<Rightarrow> TxoKey" where
  "txo_key p = (txo_id p, txo_index p)"

record AddressDetails =
  ad_unspent_transactions :: "(TxoKey, TxOut) btree"
  ad_transaction_history :: "TransactionChange list"
  ad_balance :: Coin
  ad_transaction_ids :: "(TxId, unit) btree"

datatype MementoOperation =
    AddTransactionChange TransactionChange
  | AddUnspentTransaction TxoPointer TxOut
  | RemoveUnspentTransaction TxoPointer

text \<open>
  A hash map hands out its entries in an order of its own; \<open>hash_order\<close> stands for it.
\<close>

record IndexLib =
  il_client :: ClientLib
  il_change :: ChangeLib
  c_unspent :: "(TxoKey, TxOut) btree codec"
  c_history :: "TransactionChange codec \<Rightarrow> TransactionChange list codec"
  c_coin :: "Coin codec"
  c_id_set :: "(TxId, unit) btree codec"
  hash_order :: "(ExtendedAddr \<times> MementoOperation list) list \<Rightarrow> (ExtendedAddr \<times> MementoOperation list) list"

abbreviation il_ext :: "IndexLib \<Rightarrow> Ext" where "il_ext I \<equiv> cl_ext (il_client I)"
abbreviation il_scale :: "IndexLib \<Rightarrow> ScaleLib" where "il_scale I \<equiv> cl_scale (il_client I)"

section \<open>Transaction service\<close>

definition TRANSACTION_KEYSPACE :: str where "TRANSACTION_KEYSPACE = ascii ''index_transaction''"

text \<open>The derived codec of \<open>Transaction\<close> calls the decoders of the structures, with their size limits.\<close>

definition encode_transaction :: "ScaleLib \<Rightarrow> Transaction \<Rightarrow> bytes" where
  "encode_transaction S t = (case t of
     TransferTransaction tx \<Rightarrow> 0 # encode_tx S tx
   | DepositStakeTransaction tx \<Rightarrow> 1 # encode_deposit S tx
   | UnbondStakeTransaction tx \<Rightarrow> 2 # enc (c_unbond S) tx
   | WithdrawUnbondedStakeTransaction tx \<Rightarrow> 3 # enc (c_withdraw S) tx)"

definition decode_transaction :: "ScaleLib \<Rightarrow> Transaction decoder" where
  "decode_transaction S input =
     try_bind (read_byte input) (\<lambda>(tag, input).
       if tag = 0 then try_bind (decode_tx S input) (\<lambda>(tx, input). Ok (TransferTransaction tx, input))
       else if tag = 1 then try_bind (decode_deposit S input) (\<lambda>(tx, input). Ok (DepositStakeTransaction tx, input))
       else if tag = 2 then try_bind (dec (c_unbond S) input) (\<lambda>(tx, input). Ok (UnbondStakeTransaction tx, input))
       else if tag = 3 then try_bind (dec (c_withdraw S) input) (\<lambda>(tx, input). Ok (WithdrawUnbondedStakeTransaction tx, input))
       else Err ''No such variant in enum Transaction'')"

definition transaction_codec :: "ScaleLib \<Rightarrow> Transaction codec" where
  "transaction_codec S = \<lparr> enc = encode_transaction S, dec = decode_transaction S \<rparr>"

definition ts_get :: "IndexLib \<Rightarrow> 's Storage \<Rightarrow> TxId \<Rightarrow> 's \<Rightarrow> Transaction option outcome" where
  "ts_get I S txid s =
     try_bind (st_get S TRANSACTION_KEYSPACE txid s) (transposed (decode_all (transaction_codec (il_scale I))))"

definition ts_set :: "IndexLib \<Rightarrow> 's Storage \<Rightarrow> Transaction \<Rightarrow> ('s, unit) action" where
  "ts_set I S t =
     act_bind (act_write (st_set S TRANSACTION_KEYSPACE (transaction_id (il_ext I) t) (encode_transaction (il_scale I) t)))
       (\<lambda>_. act_pure (Ok ()))"

definition outputs_of :: "Transaction \<Rightarrow> TxOut list outcome" where
  "outputs_of t = (case t of
     TransferTransaction tx \<Rightarrow> Ok (tx_outputs tx)
   | WithdrawUnbondedStakeTransaction tx \<Rightarrow> Ok (wdr_outputs tx)
   | _ \<Rightarrow> Err (Failed InvalidTransaction))"

definition ts_get_output :: "IndexLib \<Rightarrow> 's Storage \<Rightarrow> TxoPointer \<Rightarrow> 's \<Rightarrow> TxOut option outcome" where
  "ts_get_output I S input s =
     try_bind (ts_get I S (txo_id input) s) (transposed (\<lambda>t.
     try_bind (outputs_of t) (\<lambda>outputs.
     let n = unat (txo_index input)
     in or_kind OutputNotFound (if n < length outputs then Some (outputs ! n) else None))))"

definition ts_clear :: "'s Storage \<Rightarrow> ('s, unit) action" where
  "ts_clear S = act_write (st_clear S TRANSACTION_KEYSPACE)"

section \<open>Address service\<close>

definition ADDRESS_KEYSPACE :: str where "ADDRESS_KEYSPACE = ascii ''index_address''"

definition address_details_default :: AddressDetails where
  "address_details_default = \<lparr> ad_unspent_transactions = [], ad_transaction_history = [], ad_balance = coin_zero,
     ad_transaction_ids = [] \<rparr>"

definition address_details_codec :: "IndexLib \<Rightarrow> AddressDetails codec" where
  "address_details_codec I =
     map_codec (\<lambda>d. (ad_unspent_transactions d, ad_transaction_history d, ad_balance d, ad_transaction_ids d))
       (\<lambda>(u, h, b, i). \<lparr> ad_unspent_transactions = u, ad_transaction_history = h, ad_balance = b, ad_transaction_ids = i \<rparr>)
       (pair_codec (c_unspent I)
         (pair_codec (c_history I (transaction_change_codec (c_txid (il_scale I)) (il_change I)))
           (pair_codec (c_coin I) (c_id_set I))))"

definition apply_memento_operation :: "MementoOperation \<Rightarrow> AddressDetails \<Rightarrow> AddressDetails outcome" where
  "apply_memento_operation op d = (case op of
     AddTransactionChange change \<Rightarrow>
       try_bind (coin_plus_change (ad_balance d) (tc_balance_change change)) (\<lambda>b.
       Ok (d\<lparr> ad_balance := b, ad_transaction_history := ad_transaction_history d @ [change] \<rparr>))
   | AddUnspentTransaction input out \<Rightarrow>
       Ok (d\<lparr> ad_unspent_transactions := bt_insert (txo_key input) out (ad_unspent_transactions d) \<rparr>)
   | RemoveUnspentTransaction input \<Rightarrow>
       Ok (d\<lparr> ad_unspent_transactions := bt_remove (txo_key input) (ad_unspent_transactions d) \<rparr>))"

fun apply_each_operation :: "MementoOperation list \<Rightarrow> AddressDetails \<Rightarrow> AddressDetails outcome" where
  "apply_each_operation [] d = Ok d"
| "apply_each_operation (op # ops) d = try_bind (apply_memento_operation op d) (apply_each_operation ops)"

definition apply_memento_operations :: "TxId \<Rightarrow> MementoOperation list \<Rightarrow> AddressDetails \<Rightarrow> AddressDetails outcome" where
  "apply_memento_operations txid ops d =
     (if bt_contains_key (ad_transaction_ids d) txid then Ok d
      else try_bind (apply_each_operation ops d) (\<lambda>d.
           Ok (d\<lparr> ad_transaction_ids := bt_insert txid () (ad_transaction_ids d) \<rparr>)))"

record AddressMemento =
  am_transaction_id :: TxId
  am_operations :: "(ExtendedAddr \<times> MementoOperation list) list"

definition memento_new :: "TxId \<Rightarrow> AddressMemento" where
  "memento_new txid = \<lparr> am_transaction_id = txid, am_operations = [] \<rparr>"

definition add_operation :: "ExtendedAddr \<Rightarrow> MementoOperation \<Rightarrow> AddressMemento \<Rightarrow> AddressMemento" where
  "add_operation addr op m =
     (let ops = (case map_of (am_operations m) addr of None \<Rightarrow> [] | Some ops \<Rightarrow> ops)
      in m\<lparr> am_operations := AList.update addr (ops @ [op]) (am_operations m) \<rparr>)"

definition add_transaction_change :: "ExtendedAddr \<Rightarrow> TransactionChange \<Rightarrow> AddressMemento \<Rightarrow> AddressMemento" where
  "add_transaction_change addr change m = add_operation addr (AddTransactionChange change) m"

definition add_unspent_transaction :: "ExtendedAddr \<Rightarrow> TxoPointer \<Rightarrow> TxOut \<Rightarrow> AddressMemento \<Rightarrow> AddressMemento" where
  "add_unspent_transaction addr input out m = add_operation addr (AddUnspentTransaction input out) m"

definition remove_unspent_transaction :: "ExtendedAddr \<Rightarrow> TxoPointer \<Rightarrow> AddressMemento \<Rightarrow> AddressMemento" where
  "remove_unspent_transaction addr input m = add_operation addr (RemoveUnspentTransaction input) m"

definition read_details :: "IndexLib \<Rightarrow> bytes option \<Rightarrow> AddressDetails outcome" where
  "read_details I value = (case value of
     None \<Rightarrow> Ok address_details_default
   | Some b \<Rightarrow> decode_all (address_details_codec I) b)"

definition as_get :: "IndexLib \<Rightarrow> 's Storage \<Rightarrow> ExtendedAddr \<Rightarrow> 's \<Rightarrow> AddressDetails outcome" where
  "as_get I S addr s =
     try_bind (st_get S ADDRESS_KEYSPACE (enc (c_extended_addr (il_change I)) addr) s) (read_details I)"

definition apply_memento :: "IndexLib \<Rightarrow> 's Storage \<Rightarrow> AddressMemento \<Rightarrow> ('s, unit) action" where
  "apply_memento I S m =
     act_bind (act_each (\<lambda>(addr, ops).
       act_write (st_fetch_and_update S ADDRESS_KEYSPACE (enc (c_extended_addr (il_change I)) addr) (\<lambda>value.
         try_bind (read_details I value) (\<lambda>details.
         try_bind (apply_memento_operations (am_transaction_id m) ops details) (\<lambda>details.
         Ok (Some (enc (address_details_codec I) details)))))))
       (hash_order I (am_operations m))) (\<lambda>_. act_pure (Ok ()))"

definition as_clear :: "'s Storage \<Rightarrow> ('s, unit) action" where
  "as_clear S = act_write (st_clear S ADDRESS_KEYSPACE)"

section \<open>Global state service\<close>

definition GLOBAL_STATE_KEYSPACE :: str where "GLOBAL_STATE_KEYSPACE = ascii ''index_global_state''"

record GlobalState =
  gs_last_block_height :: u64
  gs_last_app_hash :: str

definition global_state_codec :: "IndexLib \<Rightarrow> GlobalState codec" where
  "global_state_codec I = map_codec (\<lambda>g. (gs_last_block_height g, gs_last_app_hash g))
     (\<lambda>(h, a). \<lparr> gs_last_block_height = h, gs_last_app_hash = a \<rparr>)
     (pair_codec (c_height (il_change I)) (c_string (il_change I)))"

definition gs_key :: "IndexLib \<Rightarrow> PublicKey \<Rightarrow> bytes" where
  "gs_key I vk = enc (public_key_codec (il_client I)) vk"

definition gs_last_height :: "IndexLib \<Rightarrow> 's Storage \<Rightarrow> PublicKey \<Rightarrow> 's \<Rightarrow> u64 outcome" where
  "gs_last_height I S vk s =
     try_bind (st_get S GLOBAL_STATE_KEYSPACE (gs_key I vk) s) (\<lambda>value. case value of
       None \<Rightarrow> Ok 0
     | Some b \<Rightarrow> try_bind (decode_all (global_state_codec I) b) (\<lambda>g. Ok (gs_last_block_height g)))"

definition gs_last_hash :: "IndexLib \<Rightarrow> 's Storage \<Rightarrow> PublicKey \<Rightarrow> 's \<Rightarrow> str outcome" where
  "gs_last_hash I S vk s =
     try_bind (st_get S GLOBAL_STATE_KEYSPACE (gs_key I vk) s) (\<lambda>value. case value of
       None \<Rightarrow> Ok []
     | Some b \<Rightarrow> try_bind (decode_all (global_state_codec I) b) (\<lambda>g. Ok (gs_last_app_hash g)))"

definition set_global_state :: "IndexLib \<Rightarrow> 's Storage \<Rightarrow> PublicKey \<Rightarrow> u64 \<Rightarrow> str \<Rightarrow> ('s, unit) action" where
  "set_global_state I S vk height hash =
     act_bind (act_write (st_set S GLOBAL_STATE_KEYSPACE (gs_key I vk)
       (enc (global_state_codec I) \<lparr> gs_last_block_height = height, gs_last_app_hash = hash \<rparr>))) (\<lambda>_. act_pure (Ok ()))"

definition gs_clear :: "'s Storage \<Rightarrow> ('s, unit) action" where
  "gs_clear S = act_write (st_clear S GLOBAL_STATE_KEYSPACE)"

section \<open>Transaction handler\<close>

definition handle_transaction_input ::
    "IndexLib \<Rightarrow> 's Storage \<Rightarrow> TxId \<Rightarrow> u64 \<Rightarrow> DateTime \<Rightarrow> 's \<Rightarrow> TxoPointer \<Rightarrow> AddressMemento \<Rightarrow> AddressMemento outcome" where
  "handle_transaction_input I S txid block_height block_time s input memento =
     try_bind (ts_get_output I S input s) (\<lambda>found. case found of
       None \<Rightarrow> Ok memento
     | Some out \<Rightarrow>
         let change = \<lparr> tc_transaction_id = txid, tc_address = out_address out,
               tc_balance_change = Outgoing (out_value out), tc_block_height = block_height, tc_block_time = block_time \<rparr>;
             addr = tc_address change
         in Ok (remove_unspent_transaction addr input (add_transaction_change addr change memento)))"

definition handle_transaction_output ::
    "TxId \<Rightarrow> u64 \<Rightarrow> DateTime \<Rightarrow> nat \<times> TxOut \<Rightarrow> AddressMemento \<Rightarrow> AddressMemento" where
  "handle_transaction_output txid block_height block_time x memento = (case x of (index, out) \<Rightarrow>
     let change = \<lparr> tc_transaction_id = txid, tc_address = out_address out,
           tc_balance_change = Incoming (out_value out), tc_block_height = block_height, tc_block_time = block_time \<rparr>;
         addr = tc_address change
     in add_unspent_transaction addr (txo_pointer_new txid (of_nat index)) out (add_transaction_change addr change memento))"

fun handle_inputs ::
    "IndexLib \<Rightarrow> 's Storage \<Rightarrow> TxId \<Rightarrow> u64 \<Rightarrow> DateTime \<Rightarrow> 's \<Rightarrow> TxoPointer list \<Rightarrow> AddressMemento \<Rightarrow> AddressMemento outcome" where
  "handle_inputs I S txid h t s [] memento = Ok memento"
| "handle_inputs I S txid h t s (input # rest) memento =
     try_bind (handle_transaction_input I S txid h t s input memento) (handle_inputs I S txid h t s rest)"

definition handle_outputs :: "TxId \<Rightarrow> u64 \<Rightarrow> DateTime \<Rightarrow> TxOut list \<Rightarrow> AddressMemento \<Rightarrow> AddressMemento" where
  "handle_outputs txid h t outputs memento =
     fold (handle_transaction_output txid h t) (enumerate 0 outputs) memento"

definition on_transfer_transaction :: "IndexLib \<Rightarrow> 's Storage \<Rightarrow> Tx \<Rightarrow> u64 \<Rightarrow> DateTime \<Rightarrow> ('s, unit) action" where
  "on_transfer_transaction I S tx h t =
     (let txid = tx_id (il_ext I) tx
      in act_bind (act_read (\<lambda>s. handle_inputs I S txid h t s (tx_inputs tx) (memento_new txid))) (\<lambda>memento.
         apply_memento I S (handle_outputs txid h t (tx_outputs tx) memento)))"

definition on_deposit_stake_transaction :: "IndexLib \<Rightarrow> 's Storage \<Rightarrow> DepositBondTx \<Rightarrow> u64 \<Rightarrow> DateTime \<Rightarrow> ('s, unit) action" where
  "on_deposit_stake_transaction I S tx h t =
     (let txid = deposit_id (il_ext I) tx
      in act_bind (act_read (\<lambda>s. handle_inputs I S txid h t s (dep_inputs tx) (memento_new txid))) (apply_memento I S))"

definition on_withdraw_unbonded_stake_transaction ::
    "IndexLib \<Rightarrow> 's Storage \<Rightarrow> WithdrawUnbondedTx \<Rightarrow> u64 \<Rightarrow> DateTime \<Rightarrow> ('s, unit) action" where
  "on_withdraw_unbonded_stake_transaction I S tx h t =
     (let txid = withdraw_id (il_ext I) tx
      in apply_memento I S (handle_outputs txid h t (wdr_outputs tx) (memento_new txid)))"

definition transaction_on_next :: "IndexLib \<Rightarrow> 's Storage \<Rightarrow> Transaction \<Rightarrow> u64 \<Rightarrow> DateTime \<Rightarrow> ('s, unit) action" where
  "transaction_on_next I S tr h t =
     act_bind (ts_set I S tr) (\<lambda>_. case tr of
       TransferTransaction tx \<Rightarrow> on_transfer_transaction I S tx h t
     | DepositStakeTransaction tx \<Rightarrow> on_deposit_stake_transaction I S tx h t
     | UnbondStakeTransaction _ \<Rightarrow> act_pure (Ok ())
     | WithdrawUnbondedStakeTransaction tx \<Rightarrow> on_withdraw_unbonded_stake_transaction I S tx h t)"

section \<open>Index\<close>

definition index_address_details :: "IndexLib \<Rightarrow> 's Storage \<Rightarrow> ExtendedAddr \<Rightarrow> 's \<Rightarrow> AddressDetails outcome" where
  "index_address_details I S addr s = as_get I S addr s"

definition index_transaction :: "IndexLib \<Rightarrow> 's Storage \<Rightarrow> TxId \<Rightarrow> 's \<Rightarrow> Transaction option outcome" where
  "index_transaction I S txid s = ts_get I S txid s"

definition index_output :: "IndexLib \<Rightarrow> 's Storage \<Rightarrow> TxoPointer \<Rightarrow> 's \<Rightarrow> TxOut outcome" where
  "index_output I S input s =
     try_bind (ts_get_output I S input s) (or_kind TransactionNotFound)"

section \<open>Laws of the libraries\<close>

definition index_laws :: "IndexLib \<Rightarrow> bool" where
  "index_laws I \<longleftrightarrow> client_laws (il_client I) \<and> scale_laws (il_scale I) \<and> change_laws (il_change I) \<and>
     reads_back (c_unspent I) \<and> (\<forall>c. reads_back c \<longrightarrow> reads_back (c_history I c)) \<and> reads_back (c_coin I) \<and>
     reads_back (c_id_set I) \<and> (\<forall>xs. mset (hash_order I xs) = mset xs)"

lemma index_lawsD:
  assumes "index_laws I"
  shows "client_laws (il_client I)" "scale_laws (il_scale I)" "change_laws (il_change I)"
    "reads_back (c_extended_addr (il_change I))" "mset (hash_order I xs) = mset xs"
  using assms by (simp_all add: index_laws_def change_laws_def)

lemma enc_addr_inj:
  assumes "index_laws I"
  shows "enc (c_extended_addr (il_change I)) a = enc (c_extended_addr (il_change I)) b \<longleftrightarrow> a = b"
  by (metis assms index_lawsD(4) old.prod.inject reads_back_nil sum.inject(2))

lemma address_details_codec_ok: "index_laws I \<Longrightarrow> reads_back (address_details_codec I)"
  unfolding address_details_codec_def index_laws_def
  by (intro map_codec_ok pair_codec_ok) (auto simp: transaction_change_codec_ok scale_laws_def)

lemma global_state_codec_ok: "index_laws I \<Longrightarrow> reads_back (global_state_codec I)"
  unfolding global_state_codec_def index_laws_def change_laws_def
  by (intro map_codec_ok pair_codec_ok) auto

lemma read_details_enc [simp]: "index_laws I \<Longrightarrow> read_details I (Some (enc (address_details_codec I) d)) = Ok d"
  using reads_back_nil [OF address_details_codec_ok] by (simp add: read_details_def decode_all_def)

text \<open>
  The transactions a client can read back: their amounts are within the supply, and the two decoders with
  a limit count the whole rest of the input.
\<close>

definition storable :: "IndexLib \<Rightarrow> Transaction \<Rightarrow> bool" where
  "storable I t \<longleftrightarrow> (case t of
     TransferTransaction tx \<Rightarrow> outs_wf (tx_outputs tx) \<and> length (encode_tx (il_scale I) tx) \<le> MAX_TX_SIZE
   | DepositStakeTransaction tx \<Rightarrow> length (encode_deposit (il_scale I) tx) \<le> MAX_DEPOSIT_TX_SIZE
   | UnbondStakeTransaction tx \<Rightarrow> coin_wf (unb_value tx)
   | WithdrawUnbondedStakeTransaction tx \<Rightarrow> outs_wf (wdr_outputs tx))"

lemma transaction_reads_back:
  assumes "index_laws I" "storable I t"
  shows "decode_all (transaction_codec (il_scale I)) (encode_transaction (il_scale I) t) = Ok t"
  using assms(2) tx_decode [OF index_lawsD(2) [OF assms(1)], of _ "[]"]
    deposit_decode [OF index_lawsD(2) [OF assms(1)], of _ "[]"]
    reads_back_ends(3,4) [OF index_lawsD(2) [OF assms(1)]]
  by (cases t) (simp_all add: decode_all_def transaction_codec_def encode_transaction_def decode_transaction_def storable_def)

section \<open>Operations of a memento\<close>

definition ops_of :: "AddressMemento \<Rightarrow> ExtendedAddr \<Rightarrow> MementoOperation list" where
  "ops_of m addr = (case map_of (am_operations m) addr of None \<Rightarrow> [] | Some ops \<Rightarrow> ops)"

definition memento_ok :: "AddressMemento \<Rightarrow> bool" where
  "memento_ok m \<longleftrightarrow> distinct (map fst (am_operations m)) \<and> (\<forall>a. map_of (am_operations m) a \<noteq> Some [])"

lemma memento_new_simps [simp]:
  "ops_of (memento_new i) addr = []" "memento_ok (memento_new i)" "am_transaction_id (memento_new i) = i"
  by (simp_all add: ops_of_def memento_ok_def memento_new_def)

lemma ops_of_add_operation:
  "ops_of (add_operation a op m) addr = ops_of m addr @ (if addr = a then [op] else [])"
  by (simp add: ops_of_def add_operation_def Let_def update_conv')

lemma am_id_add_operation [simp]: "am_transaction_id (add_operation a op m) = am_transaction_id m"
  by (simp add: add_operation_def Let_def)

lemma memento_ok_add_operation [simp]: "memento_ok m \<Longrightarrow> memento_ok (add_operation a op m)"
  by (simp add: memento_ok_def add_operation_def Let_def distinct_update update_conv')

lemmas memento_simps = add_transaction_change_def add_unspent_transaction_def remove_unspent_transaction_def
  ops_of_add_operation

lemma memento_entry:
  assumes "memento_ok m" "mset xs = mset (am_operations m)"
  shows "distinct (map fst xs)" "(a, ops) \<in> set xs \<longleftrightarrow> ops = ops_of m a \<and> ops \<noteq> []"
proof -
  have "mset (map fst xs) = mset (map fst (am_operations m))" using assms(2) by simp
  then show "distinct (map fst xs)"
    using assms(1) mset_eq_imp_distinct_iff unfolding memento_ok_def by blast
  have "set xs = set (am_operations m)" using assms(2) mset_eq_setD by blast
  then have "(a, ops) \<in> set xs \<longleftrightarrow> map_of (am_operations m) a = Some ops"
    using assms(1) unfolding memento_ok_def by simp
  then show "(a, ops) \<in> set xs \<longleftrightarrow> ops = ops_of m a \<and> ops \<noteq> []"
    using assms(1) unfolding memento_ok_def ops_of_def by (cases "map_of (am_operations m) a") auto
qed

lemma apply_each_append:
  "apply_each_operation (xs @ ys) d = try_bind (apply_each_operation xs d) (apply_each_operation ys)"
proof (induction xs arbitrary: d)
  case (Cons x xs)
  then show ?case by (cases "apply_memento_operation x d") auto
qed simp

lemma applied_ids: "apply_each_operation ops d = Ok d' \<Longrightarrow> ad_transaction_ids d' = ad_transaction_ids d"
  by (induction ops arbitrary: d)
    (force simp: result_simps apply_memento_operation_def split: MementoOperation.splits)+

section \<open>The ledger behind the index\<close>

text \<open>
  The specification: the transactions seen and the outputs of these which none of them spends.
\<close>

record Ledger =
  l_known :: "TxId \<Rightarrow> Transaction option"
  l_utxo :: "(TxoKey, TxOut) btree"

definition ledger_empty :: Ledger where
  "ledger_empty = \<lparr> l_known = Map.empty, l_utxo = [] \<rparr>"

definition spent_by :: "Transaction \<Rightarrow> TxoPointer list" where
  "spent_by t = (case t of TransferTransaction tx \<Rightarrow> tx_inputs tx | DepositStakeTransaction tx \<Rightarrow> dep_inputs tx | _ \<Rightarrow> [])"

definition created_by :: "Transaction \<Rightarrow> TxOut list" where
  "created_by t = (case t of
     TransferTransaction tx \<Rightarrow> tx_outputs tx | WithdrawUnbondedStakeTransaction tx \<Rightarrow> wdr_outputs tx | _ \<Rightarrow> [])"

fun unspend :: "TxoPointer list \<Rightarrow> (TxoKey, TxOut) btree \<Rightarrow> (TxoKey, TxOut) btree" where
  "unspend [] u = u"
| "unspend (p # ps) u = unspend ps (bt_remove (txo_key p) u)"

fun create :: "TxId \<Rightarrow> nat \<Rightarrow> TxOut list \<Rightarrow> (TxoKey, TxOut) btree \<Rightarrow> (TxoKey, TxOut) btree" where
  "create txid n [] u = u"
| "create txid n (out # outs) u = create txid (Suc n) outs (bt_insert (txid, of_nat n) out u)"

definition ledger_next :: "Ext \<Rightarrow> Transaction \<Rightarrow> Ledger \<Rightarrow> Ledger" where
  "ledger_next E t L = \<lparr> l_known = (l_known L)(transaction_id E t \<mapsto> t),
     l_utxo = create (transaction_id E t) 0 (created_by t) (unspend (spent_by t) (l_utxo L)) \<rparr>"

abbreviation worth :: "(TxoKey, TxOut) btree \<Rightarrow> nat" where
  "worth u \<equiv> bt_total (\<lambda>(_, out). amount (out_value out)) u"

definition owned :: "ExtendedAddr \<Rightarrow> (TxoKey, TxOut) btree \<Rightarrow> (TxoKey, TxOut) btree" where
  "owned addr u = filter (\<lambda>(_, out). out_address out = addr) u"

text \<open>What the chain guarantees of the next transaction, seen from the ledger of the client.\<close>

definition ledger_accepts :: "IndexLib \<Rightarrow> Ledger \<Rightarrow> Transaction \<Rightarrow> bool" where
  "ledger_accepts I L t \<longleftrightarrow> (let txid = transaction_id (il_ext I) t in
     storable I t \<and> l_known L txid = None \<and> distinct (map txo_key (spent_by t)) \<and>
     list_all (\<lambda>p. txo_id p \<noteq> txid \<and> (l_known L (txo_id p) \<noteq> None \<longrightarrow> bt_get (l_utxo L) (txo_key p) \<noteq> None)) (spent_by t) \<and>
     length (created_by t) \<le> 2 ^ 16 \<and> worth (l_utxo (ledger_next (il_ext I) t L)) \<le> max_supply)"

definition ledger_wf :: "Ledger \<Rightarrow> bool" where
  "ledger_wf L \<longleftrightarrow> bt_ok (l_utxo L) \<and> worth (l_utxo L) \<le> max_supply \<and>
     (\<forall>k out. bt_get (l_utxo L) k = Some out \<longrightarrow> (\<exists>t. l_known L (fst k) = Some t \<and>
        unat (snd k) < length (created_by t) \<and> created_by t ! unat (snd k) = out))"

lemma bt_get_bt_ok_remove_none: "bt_get u k = None \<Longrightarrow> bt_remove k u = u"
  by (induction u) (auto simp: bt_get_def bt_remove_def split: if_splits)

lemma bt_ok_owned: "bt_ok u \<Longrightarrow> bt_ok (owned addr u)"
  by (induction u) (auto simp: owned_def)

lemma owned_remove:
  "owned addr (bt_remove k u) = bt_remove k (owned addr u)"
  by (simp add: owned_def bt_remove_def conj_commute split_def)

lemma bt_get_owned:
  assumes "bt_ok u"
  shows "bt_get (owned addr u) k = Some out \<longleftrightarrow> bt_get u k = Some out \<and> out_address out = addr"
proof -
  have "distinct (map fst u)" "distinct (map fst (owned addr u))"
    using bt_ok_distinct [OF assms] bt_ok_distinct [OF bt_ok_owned [OF assms]] by blast+
  then show ?thesis by (auto simp: bt_get_def owned_def)
qed

lemma bt_insert_least: "\<forall>x \<in> fst ` set m. k < x \<Longrightarrow> bt_insert k v m = (k, v) # m"
  by (cases m) auto

lemma owned_insert_new:
  "\<lbrakk> bt_ok u; bt_get u k = None \<rbrakk> \<Longrightarrow>
   owned addr (bt_insert k out u) = (if out_address out = addr then bt_insert k out (owned addr u) else owned addr u)"
proof (induction k out u rule: bt_insert.induct)
  case (2 k v k' v' m)
  then have *: "k \<noteq> k'" "bt_get m k = None" "bt_ok m" by (auto simp: bt_get_def split: if_splits)
  show ?case
  proof (cases "k < k'")
    case True
    then have "\<forall>x \<in> fst ` set (owned addr ((k', v') # m)). k < x"
      using 2(2) less_trans [OF True] by (simp add: owned_def)
    from bt_insert_least [OF this] True show ?thesis by (simp add: owned_def)
  qed (use 2 * in \<open>auto simp: owned_def\<close>)
qed (simp add: owned_def)

lemma worth_owned_le: "worth (owned addr u) \<le> worth u"
  by (induction u) (auto simp: owned_def)

text \<open>The details of an address agree with the outputs it owns.\<close>

definition matches :: "ExtendedAddr \<Rightarrow> (TxoKey, TxOut) btree \<Rightarrow> AddressDetails \<Rightarrow> bool" where
  "matches addr u d \<longleftrightarrow> ad_unspent_transactions d = owned addr u \<and> amount (ad_balance d) = worth (owned addr u)"

text \<open>A memento carries the details from the outputs before to the outputs after the transaction.\<close>

definition tracks :: "(ExtendedAddr \<Rightarrow> AddressDetails) \<Rightarrow> AddressMemento \<Rightarrow> (TxoKey, TxOut) btree \<Rightarrow> bool" where
  "tracks d0 m u \<longleftrightarrow> (\<forall>addr. \<exists>d. apply_each_operation (ops_of m addr) (d0 addr) = Ok d \<and> matches addr u d)"

lemma matches_spend:
  assumes "matches (out_address out) u d" "bt_ok u" "bt_get u k = Some out" "worth u \<le> max_supply"
  shows "\<exists>b. coin_plus_change (ad_balance d) (Outgoing (out_value out)) = Ok b \<and>
    amount b = worth (bt_remove k (owned (out_address out) u))"
proof -
  let ?v = "owned (out_address out) u"
  have "worth ?v = amount (out_value out) + worth (bt_remove k ?v)"
    using bt_total_remove [OF bt_ok_owned, of u "out_address out" k out "\<lambda>(_, out). amount (out_value out)"] assms(2,3)
    by (simp add: bt_get_owned)
  moreover have "worth ?v \<le> max_supply" using worth_owned_le [of "out_address out" u] assms(4) by linarith
  moreover obtain b where "amount b = worth (bt_remove k ?v)"
    using coin_of_amount [of "worth (bt_remove k ?v)"] calculation by auto
  ultimately have "coin_sub (ad_balance d) (out_value out) = Ok b"
    using assms(1) by (simp add: coin_sub_Ok_iff matches_def)
  then show ?thesis using \<open>amount b = _\<close> by (metis coin_plus_change_Ok_iff(2))
qed

lemma tracks_input:
  assumes "tracks d0 m u" "bt_ok u" "worth u \<le> max_supply" "bt_get u (txo_key p) = Some out"
    and "tc_balance_change change = Outgoing (out_value out)"
  shows "tracks d0 (remove_unspent_transaction (out_address out) p
    (add_transaction_change (out_address out) change m)) (bt_remove (txo_key p) u)"
  unfolding tracks_def
proof (rule allI)
  fix addr
  obtain d where d: "apply_each_operation (ops_of m addr) (d0 addr) = Ok d" "matches addr u d"
    using assms(1) unfolding tracks_def by blast
  show "\<exists>d. apply_each_operation (ops_of (remove_unspent_transaction (out_address out) p
      (add_transaction_change (out_address out) change m)) addr) (d0 addr) = Ok d \<and> matches addr (bt_remove (txo_key p) u) d"
  proof (cases "addr = out_address out")
    case True
    then show ?thesis
      using d matches_spend [OF _ assms(2,4,3)] assms(5)
      by (fastforce simp: memento_simps apply_each_append apply_memento_operation_def matches_def owned_remove)
  next
    case False
    then have "bt_get (owned addr u) (txo_key p) = None"
      using bt_get_owned [OF assms(2), of addr "txo_key p"] assms(4) by (metis not_None_eq option.inject)
    then show ?thesis
      using d False by (simp add: memento_simps matches_def owned_remove bt_get_bt_ok_remove_none)
  qed
qed

lemma matches_receive:
  assumes "matches (out_address out) u d" "bt_ok u" "bt_get u k = None" "worth (bt_insert k out u) \<le> max_supply"
  shows "\<exists>b. coin_plus_change (ad_balance d) (Incoming (out_value out)) = Ok b \<and>
    amount b = worth (owned (out_address out) (bt_insert k out u))"
proof -
  let ?v = "owned (out_address out) u"
  have n: "bt_get ?v k = None"
    using bt_get_owned [OF assms(2), of "out_address out" k] assms(3) by (metis not_None_eq)
  have "worth (owned (out_address out) (bt_insert k out u)) = amount (out_value out) + worth ?v"
    using bt_total_insert_new [OF bt_ok_owned n, of "\<lambda>(_, out). amount (out_value out)" out] assms(2,3)
    by (simp add: owned_insert_new)
  moreover have "worth (owned (out_address out) (bt_insert k out u)) \<le> max_supply"
    using worth_owned_le [of "out_address out" "bt_insert k out u"] assms(4) by linarith
  moreover obtain b where "amount b = worth (owned (out_address out) (bt_insert k out u))"
    using coin_of_amount calculation(2) by blast
  ultimately have "coin_add (ad_balance d) (out_value out) = Ok b"
    using assms(1) by (simp add: coin_add_Ok_iff matches_def)
  then show ?thesis using \<open>amount b = _\<close> by (metis coin_plus_change_Ok_iff(1))
qed

lemma tracks_output:
  assumes "tracks d0 m u" "bt_ok u" "bt_get u (txo_key p) = None" "worth (bt_insert (txo_key p) out u) \<le> max_supply"
    and "tc_balance_change change = Incoming (out_value out)"
  shows "tracks d0 (add_unspent_transaction (out_address out) p out
    (add_transaction_change (out_address out) change m)) (bt_insert (txo_key p) out u)"
  unfolding tracks_def
proof (rule allI)
  fix addr
  obtain d where d: "apply_each_operation (ops_of m addr) (d0 addr) = Ok d" "matches addr u d"
    using assms(1) unfolding tracks_def by blast
  show "\<exists>d. apply_each_operation (ops_of (add_unspent_transaction (out_address out) p out
      (add_transaction_change (out_address out) change m)) addr) (d0 addr) = Ok d \<and>
      matches addr (bt_insert (txo_key p) out u) d"
  proof (cases "addr = out_address out")
    case True
    then show ?thesis
      using d matches_receive [OF _ assms(2,3,4)] assms(2,3,5)
      by (fastforce simp: memento_simps apply_each_append apply_memento_operation_def matches_def owned_insert_new)
  next
    case False
    then show ?thesis
      using d assms(2,3) by (simp add: memento_simps matches_def owned_insert_new)
  qed
qed

text \<open>Removing and adding outputs keeps the order of the map.\<close>

lemma bt_ok_unspend: "bt_ok u \<Longrightarrow> bt_ok (unspend ps u)"
  by (induction ps arbitrary: u) (auto simp: bt_simps)

lemma bt_get_unspend: "bt_get (unspend ps u) k = (if k \<in> txo_key ` set ps then None else bt_get u k)"
  by (induction ps arbitrary: u) (auto simp: bt_simps)

lemma worth_remove_le: "worth (bt_remove k u) \<le> worth u"
  by (induction u) (auto simp: bt_remove_def)

lemma worth_unspend_le: "worth (unspend ps u) \<le> worth u"
proof (induction ps arbitrary: u)
  case (Cons p ps)
  from Cons [of "bt_remove (txo_key p) u"] worth_remove_le [of "txo_key p" u] show ?case by simp
qed simp

lemma bt_ok_create: "bt_ok u \<Longrightarrow> bt_ok (create txid n outs u)"
  by (induction outs arbitrary: n u) (auto simp: bt_simps)

lemma worth_create_ge:
  assumes "bt_ok u" "\<And>k. fst k = txid \<Longrightarrow> n \<le> unat (snd k) \<Longrightarrow> bt_get u k = None" "n + length outs \<le> 2 ^ 16"
  shows "worth u \<le> worth (create txid n outs u)"
  using assms
proof (induction outs arbitrary: n u)
  case (Cons out outs)
  let ?u = "bt_insert (txid, of_nat n) out u"
  have n: "unat (of_nat n :: TxoIndex) = n" using Cons.prems(3) by (simp add: unat_of_nat)
  have "bt_get u (txid, of_nat n) = None" using Cons.prems(2) n by simp
  from bt_total_insert_new [OF Cons.prems(1) this, of "\<lambda>(_, out). amount (out_value out)" out]
  have "worth u \<le> worth ?u" by simp
  moreover have "worth ?u \<le> worth (create txid (Suc n) outs ?u)"
    using Cons.prems n by (intro Cons.IH) (auto simp: bt_simps)
  ultimately show ?case by simp
qed simp

lemma bt_get_create:
  assumes "bt_ok u" "n + length outs \<le> 2 ^ 16"
  shows "bt_get (create txid n outs u) k =
    (if fst k = txid \<and> n \<le> unat (snd k) \<and> unat (snd k) < n + length outs then Some (outs ! (unat (snd k) - n)) else bt_get u k)"
  using assms
proof (induction outs arbitrary: n u)
  case (Cons out outs)
  have "unat (of_nat n :: TxoIndex) = n" using Cons.prems(2) by (simp add: unat_of_nat)
  then have n: "snd k = of_nat n \<longleftrightarrow> unat (snd k) = n" by (metis word_unat_eq_iff)
  show ?case
    using Cons.IH [of "bt_insert (txid, of_nat n) out u" "Suc n"] Cons.prems n
    by (cases k) (auto simp: bt_simps nth_Cons' Suc_diff_Suc not_less_eq_eq)
qed auto

section \<open>The memento of a transaction\<close>

definition find_output :: "Ledger \<Rightarrow> TxoPointer \<Rightarrow> TxOut option outcome" where
  "find_output L p = (case l_known L (txo_id p) of
     None \<Rightarrow> Ok None
   | Some t \<Rightarrow> try_bind (outputs_of t) (\<lambda>outs. or_kind OutputNotFound
       (if unat (txo_index p) < length outs then Some (Some (outs ! unat (txo_index p))) else None)))"

lemma outputs_of_created: "created_by t \<noteq> [] \<Longrightarrow> outputs_of t = Ok (created_by t)"
  by (cases t) (simp_all add: outputs_of_def created_by_def)

lemma find_output_unspent:
  assumes "ledger_wf L" "bt_get (l_utxo L) (txo_key p) = Some out"
  shows "find_output L p = Ok (Some out)"
proof -
  obtain t where "l_known L (txo_id p) = Some t" "unat (txo_index p) < length (created_by t)"
    "created_by t ! unat (txo_index p) = out"
    using assms unfolding ledger_wf_def txo_key_def by fastforce
  moreover from this have "outputs_of t = Ok (created_by t)" by (intro outputs_of_created) auto
  ultimately show ?thesis by (simp add: find_output_def)
qed

lemma handle_inputs_tracks:
  assumes "ledger_wf L" "\<And>p. p \<in> set ps \<Longrightarrow> ts_get_output I S p s = find_output L p"
    and "tracks d0 m u" "memento_ok m" "bt_ok u" "worth u \<le> max_supply" "distinct (map txo_key ps)"
    and "\<And>p. p \<in> set ps \<Longrightarrow> l_known L (txo_id p) \<noteq> None \<Longrightarrow> bt_get (l_utxo L) (txo_key p) \<noteq> None"
    and "\<And>p. p \<in> set ps \<Longrightarrow> bt_get u (txo_key p) = bt_get (l_utxo L) (txo_key p)"
  shows "\<exists>m'. handle_inputs I S txid h t s ps m = Ok m' \<and> tracks d0 m' (unspend ps u) \<and> memento_ok m' \<and>
    am_transaction_id m' = am_transaction_id m"
  using assms(2-)
proof (induction ps arbitrary: m u)
  case (Cons p ps)
  define v where "v = bt_remove (txo_key p) u"
  have v: "bt_ok v" "worth v \<le> max_supply"
    using Cons.prems(4,5) worth_remove_le [of "txo_key p" u] by (simp_all add: v_def bt_simps)
  have step: "\<exists>m1. handle_transaction_input I S txid h t s p m = Ok m1 \<and> tracks d0 m1 v \<and> memento_ok m1 \<and>
      am_transaction_id m1 = am_transaction_id m"
  proof (cases "bt_get u (txo_key p)")
    case None
    then have "l_known L (txo_id p) = None" using Cons.prems(7,8) by (metis list.set_intros(1))
    then show ?thesis
      using Cons.prems(1-3) None
      by (simp add: handle_transaction_input_def find_output_def v_def bt_get_bt_ok_remove_none)
  next
    case (Some out)
    then have "find_output L p = Ok (Some out)"
      using Cons.prems(8) by (intro find_output_unspent [OF assms(1)]) simp
    moreover have "memento_ok (remove_unspent_transaction a p (add_transaction_change a c m))"
      "am_transaction_id (remove_unspent_transaction a p (add_transaction_change a c m)) = am_transaction_id m" for a c
      using Cons.prems(3) by (simp_all add: memento_simps)
    ultimately show ?thesis
      using Cons.prems(1,3) tracks_input [OF Cons.prems(2,4,5) Some]
      by (simp add: handle_transaction_input_def Let_def v_def)
  qed
  then obtain m1 where m1: "handle_transaction_input I S txid h t s p m = Ok m1" "tracks d0 m1 v" "memento_ok m1"
    "am_transaction_id m1 = am_transaction_id m" by blast
  have "bt_get v (txo_key q) = bt_get (l_utxo L) (txo_key q)" if "q \<in> set ps" for q
    using Cons.prems(6) Cons.prems(8) [of q] that imageI [OF that, of txo_key]
    by (cases "txo_key q = txo_key p") (simp_all add: v_def bt_simps)
  then have "\<exists>m'. handle_inputs I S txid h t s ps m1 = Ok m' \<and> tracks d0 m' (unspend ps v) \<and> memento_ok m' \<and>
      am_transaction_id m' = am_transaction_id m1"
    using Cons.prems by (intro Cons.IH [OF _ m1(2,3) v]) auto
  then show ?case using m1 by (auto simp: v_def)
qed simp

lemma handle_outputs_tracks:
  assumes "tracks d0 m u" "memento_ok m" "bt_ok u"
    and "\<And>k. fst k = txid \<Longrightarrow> n \<le> unat (snd k) \<Longrightarrow> bt_get u k = None" "n + length outs \<le> 2 ^ 16"
    and "worth (create txid n outs u) \<le> max_supply"
  shows "tracks d0 (fold (handle_transaction_output txid h t) (enumerate n outs) m) (create txid n outs u) \<and>
    memento_ok (fold (handle_transaction_output txid h t) (enumerate n outs) m) \<and>
    am_transaction_id (fold (handle_transaction_output txid h t) (enumerate n outs) m) = am_transaction_id m"
  using assms
proof (induction outs arbitrary: n m u)
  case (Cons out outs)
  let ?p = "txo_pointer_new txid (of_nat n)"
  let ?u = "bt_insert (txo_key ?p) out u"
  have n: "unat (of_nat n :: TxoIndex) = n" using Cons.prems(5) by (simp add: unat_of_nat)
  have key: "txo_key ?p = (txid, of_nat n)"
    using Cons.prems(5) by (simp add: txo_key_def txo_pointer_new_def unsigned_of_nat take_bit_nat_eq_self)
  have new: "bt_get u (txo_key ?p) = None" using Cons.prems(4) n key by simp
  have later: "fst k = txid \<Longrightarrow> Suc n \<le> unat (snd k) \<Longrightarrow> bt_get ?u k = None" for k
    using Cons.prems(3) Cons.prems(4) [of k] n by (cases k) (auto simp: bt_simps key)
  have "worth ?u \<le> max_supply"
    using worth_create_ge [of ?u txid "Suc n" outs] later Cons.prems(3,5,6) by (simp add: bt_simps key)
  from tracks_output [OF Cons.prems(1,3) new this]
  have "tracks d0 (handle_transaction_output txid h t (n, out) m) ?u"
    by (simp add: handle_transaction_output_def Let_def)
  moreover have "memento_ok (handle_transaction_output txid h t (n, out) m)"
    "am_transaction_id (handle_transaction_output txid h t (n, out) m) = am_transaction_id m"
    using Cons.prems(2) by (simp_all add: handle_transaction_output_def Let_def memento_simps)
  ultimately show ?case
    using Cons.IH [of "handle_transaction_output txid h t (n, out) m" ?u "Suc n"] later Cons.prems(3,5,6)
    by (simp add: bt_simps key)
qed simp

section \<open>The index in a storage\<close>

lemma index_keyspaces_distinct [simp]:
  "TRANSACTION_KEYSPACE \<noteq> ADDRESS_KEYSPACE" "ADDRESS_KEYSPACE \<noteq> TRANSACTION_KEYSPACE"
  "GLOBAL_STATE_KEYSPACE \<noteq> ADDRESS_KEYSPACE" "ADDRESS_KEYSPACE \<noteq> GLOBAL_STATE_KEYSPACE"
  "GLOBAL_STATE_KEYSPACE \<noteq> TRANSACTION_KEYSPACE" "TRANSACTION_KEYSPACE \<noteq> GLOBAL_STATE_KEYSPACE"
  by (simp_all add: TRANSACTION_KEYSPACE_def ADDRESS_KEYSPACE_def GLOBAL_STATE_KEYSPACE_def ascii_def)

context client_storage
begin

definition details_at :: "IndexLib \<Rightarrow> 's \<Rightarrow> ExtendedAddr \<Rightarrow> AddressDetails outcome" where
  "details_at I s addr = read_details I (view s ADDRESS_KEYSPACE (enc (c_extended_addr (il_change I)) addr))"

lemma as_get_view: "healthy s \<Longrightarrow> as_get I S addr s = details_at I s addr"
  by (simp add: as_get_def get_view details_at_def)

text \<open>The loop of \<open>apply_memento\<close>: every listed address is updated, nothing else is.\<close>

abbreviation update_address :: "IndexLib \<Rightarrow> TxId \<Rightarrow> ExtendedAddr \<times> MementoOperation list \<Rightarrow> ('s, bytes option) action" where
  "update_address I txid \<equiv> \<lambda>(addr, ops).
     act_write (st_fetch_and_update S ADDRESS_KEYSPACE (enc (c_extended_addr (il_change I)) addr) (\<lambda>value.
       try_bind (read_details I value) (\<lambda>details.
       try_bind (apply_memento_operations txid ops details) (\<lambda>details.
       Ok (Some (enc (address_details_codec I) details))))))"

lemma update_address_Ok:
  assumes "healthy (store w)" "details_at I (store w) addr = Ok d" "apply_memento_operations txid ops d = Ok d'"
  shows "\<exists>w' r. update_address I txid (addr, ops) w = (w', Ok r) \<and> healthy (store w') \<and>
    view (store w') = (view (store w))(ADDRESS_KEYSPACE := (view (store w) ADDRESS_KEYSPACE)
      (enc (c_extended_addr (il_change I)) addr \<mapsto> enc (address_details_codec I) d'))"
proof -
  let ?f = "\<lambda>value. try_bind (read_details I value) (\<lambda>details. try_bind (apply_memento_operations txid ops details)
    (\<lambda>details. Ok (Some (enc (address_details_codec I) details))))"
  have "?f (view (store w) ADDRESS_KEYSPACE (enc (c_extended_addr (il_change I)) addr)) =
      Ok (Some (enc (address_details_codec I) d'))"
    using assms(2,3) by (simp add: details_at_def)
  from update_view [where f = ?f, OF assms(1) this] show ?thesis by (auto simp: act_write_def)
qed

definition wrote_details ::
    "IndexLib \<Rightarrow> (ExtendedAddr \<Rightarrow> AddressDetails) \<Rightarrow> ExtendedAddr set \<Rightarrow> 's World \<Rightarrow> 's World \<Rightarrow> bool" where
  "wrote_details I new as w w' \<longleftrightarrow> healthy (store w') \<and>
     (\<forall>ks. ks \<noteq> ADDRESS_KEYSPACE \<longrightarrow> view (store w') ks = view (store w) ks) \<and>
     (\<forall>key. key \<notin> enc (c_extended_addr (il_change I)) ` as \<longrightarrow>
        view (store w') ADDRESS_KEYSPACE key = view (store w) ADDRESS_KEYSPACE key) \<and>
     (\<forall>a \<in> as. view (store w') ADDRESS_KEYSPACE (enc (c_extended_addr (il_change I)) a) =
        Some (enc (address_details_codec I) (new a)))"

lemma wrote_details_at:
  assumes "index_laws I" "wrote_details I new as w w'"
  shows "details_at I (store w') a = (if a \<in> as then Ok (new a) else details_at I (store w) a)"
proof (cases "a \<in> as")
  case False
  then have "enc (c_extended_addr (il_change I)) a \<notin> enc (c_extended_addr (il_change I)) ` as"
    by (simp add: image_iff enc_addr_inj [OF assms(1)])
  then show ?thesis using assms(2) False unfolding wrote_details_def details_at_def by simp
qed (use assms in \<open>simp add: wrote_details_def details_at_def\<close>)

lemma wrote_details_one:
  assumes "healthy (store w')"
    and "view (store w') = (view (store w))(ADDRESS_KEYSPACE := (view (store w) ADDRESS_KEYSPACE)
      (enc (c_extended_addr (il_change I)) a \<mapsto> enc (address_details_codec I) (new a)))"
  shows "wrote_details I new {a} w w'"
  using assms by (simp add: wrote_details_def)

lemma wrote_details_trans:
  assumes "index_laws I" "wrote_details I new as w w'" "wrote_details I new bs w' w''"
  shows "wrote_details I new (as \<union> bs) w w''"
proof -
  have "view (store w'') ADDRESS_KEYSPACE (enc (c_extended_addr (il_change I)) a) =
      Some (enc (address_details_codec I) (new a))" if "a \<in> as \<union> bs" for a
  proof (cases "a \<in> bs")
    case False
    then have "enc (c_extended_addr (il_change I)) a \<notin> enc (c_extended_addr (il_change I)) ` bs"
      by (simp add: image_iff enc_addr_inj [OF assms(1)])
    then show ?thesis using assms(2,3) False that unfolding wrote_details_def by simp
  qed (use assms(3) in \<open>simp add: wrote_details_def\<close>)
  then show ?thesis using assms(2,3) unfolding wrote_details_def by (simp add: image_Un)
qed

lemma wrote_details_same:
  assumes "wrote_details I new as w w'" "wrote_details I new as w' w''"
  shows "view (store w'') = view (store w')"
proof (intro ext)
  fix ks key
  show "view (store w'') ks key = view (store w') ks key"
    using assms unfolding wrote_details_def
    by (cases "ks = ADDRESS_KEYSPACE"; cases "key \<in> enc (c_extended_addr (il_change I)) ` as") auto
qed

lemma apply_each_address:
  assumes "index_laws I" "healthy (store w)" "distinct (map fst xs)"
    and "\<And>a ops. (a, ops) \<in> set xs \<Longrightarrow>
      \<exists>d. details_at I (store w) a = Ok d \<and> apply_memento_operations txid ops d = Ok (new a)"
  shows "\<exists>w' ys. act_each (update_address I txid) xs w = (w', Ok ys) \<and> wrote_details I new (fst ` set xs) w w'"
  using assms(2-)
proof (induction xs arbitrary: w)
  case Nil
  then show ?case by (simp add: wrote_details_def)
next
  case (Cons x xs)
  obtain a ops where x: "x = (a, ops)" by (cases x)
  obtain d where "details_at I (store w) a = Ok d" "apply_memento_operations txid ops d = Ok (new a)"
    using Cons.prems(3) [of a ops] x by auto
  from update_address_Ok [OF Cons.prems(1) this] obtain w1 r where
    w1: "update_address I txid x w = (w1, Ok r)" "wrote_details I new {a} w w1" "healthy (store w1)"
    unfolding x using wrote_details_one [where new = new] by blast
  have "\<exists>d. details_at I (store w1) b = Ok d \<and> apply_memento_operations txid o1 d = Ok (new b)"
    if "(b, o1) \<in> set xs" for b o1
  proof -
    have "b \<noteq> a" using that Cons.prems(2) x by force
    then show ?thesis
      using Cons.prems(3) [of b o1] that wrote_details_at [OF assms(1) w1(2), of b] by simp
  qed
  from Cons.IH [OF w1(3) _ this] Cons.prems(2) obtain w' ys where
    w': "act_each (update_address I txid) xs w1 = (w', Ok ys)" "wrote_details I new (fst ` set xs) w1 w'"
    by auto
  have "act_each (update_address I txid) (x # xs) w = (w', Ok (r # ys))"
    by (simp only: act_each.simps act_bind_eq [where m = "update_address I txid x", OF w1(1)]
        act_bind_eq [where m = "act_each (update_address I txid) xs", OF w'(1)] act_simps)
  then show ?case using wrote_details_trans [OF assms(1) w1(2) w'(2)] x by auto
qed

text \<open>A whole memento, in whatever order the hash map hands out its entries.\<close>

lemma apply_memento_at:
  assumes "index_laws I" "healthy (store w)" "memento_ok m"
    and "\<And>a. ops_of m a \<noteq> [] \<Longrightarrow> \<exists>d. details_at I (store w) a = Ok d \<and>
      apply_memento_operations (am_transaction_id m) (ops_of m a) d = Ok (new a)"
  shows "\<exists>w'. apply_memento I S m w = (w', Ok ()) \<and> wrote_details I new {a. ops_of m a \<noteq> []} w w'"
proof -
  let ?xs = "hash_order I (am_operations m)"
  note e = memento_entry [OF assms(3) index_lawsD(5) [OF assms(1)]]
  have as: "fst ` set ?xs = {a. ops_of m a \<noteq> []}"
  proof (rule set_eqI)
    fix a
    have "a \<in> fst ` set ?xs \<longleftrightarrow> (\<exists>ops. (a, ops) \<in> set ?xs)" by force
    then show "a \<in> fst ` set ?xs \<longleftrightarrow> a \<in> {a. ops_of m a \<noteq> []}" using e(2) by simp
  qed
  have "\<exists>d. details_at I (store w) a = Ok d \<and> apply_memento_operations (am_transaction_id m) ops d = Ok (new a)"
    if "(a, ops) \<in> set ?xs" for a ops
    using assms(4) [of a] e(2) [THEN iffD1, OF that] by blast
  from apply_each_address [where xs = ?xs, OF assms(1,2) e(1) this, unfolded as] obtain w' ys where
    w': "act_each (update_address I (am_transaction_id m)) ?xs w = (w', Ok ys)"
      "wrote_details I new {a. ops_of m a \<noteq> []} w w'"
    by blast
  have "apply_memento I S m w = (w', Ok ())"
    unfolding apply_memento_def by (subst act_bind_eq [where m = "act_each (update_address I (am_transaction_id m)) ?xs", OF w'(1)]) simp
  with w'(2) show ?thesis by blast
qed

end

end
