(* ===== verification/Client_Ledger.thy ===== *)
theory Client_Ledger
  imports Client_Index Root_Hash
begin

text \<open>
  What the index of the client holds after any sequence of transactions the chain accepted: the
  transactions themselves, and for every address the outputs to it which are not spent, with their
  sum as the balance.  The ledger of Client_Index is the specification; the handler refines it.
\<close>

section \<open>The handler as one pipeline\<close>

lemma apply_memento_empty:
  assumes "index_laws I"
  shows "apply_memento I S (memento_new txid) w = (w, Ok ())"
proof -
  have "hash_order I [] = []" using index_lawsD(5) [OF assms, of "[]"] by simp
  then show ?thesis by (simp add: apply_memento_def memento_new_def)
qed

definition handle_all ::
    "IndexLib \<Rightarrow> 's Storage \<Rightarrow> Transaction \<Rightarrow> u64 \<Rightarrow> DateTime \<Rightarrow> ('s, unit) action" where
  "handle_all I S t h bt = (let txid = transaction_id (il_ext I) t in
     act_bind (act_read (\<lambda>s. handle_inputs I S txid h bt s (spent_by t) (memento_new txid))) (\<lambda>m.
     apply_memento I S (handle_outputs txid h bt (created_by t) m)))"

lemma on_next_pipeline:
  assumes "index_laws I"
  shows "transaction_on_next I S t h bt w = act_bind (ts_set I S t) (\<lambda>_. handle_all I S t h bt) w"
proof (cases t)
  case (UnbondStakeTransaction tx)
  have "handle_all I S t h bt = act_pure (Ok ())"
    by (rule ext) (simp add: UnbondStakeTransaction handle_all_def spent_by_def created_by_def handle_outputs_def
        act_bind.simps apply_memento_empty [OF assms])
  then show ?thesis by (simp add: transaction_on_next_def UnbondStakeTransaction)
qed (simp_all add: transaction_on_next_def handle_all_def on_transfer_transaction_def on_deposit_stake_transaction_def
    on_withdraw_unbonded_stake_transaction_def spent_by_def created_by_def transaction_id_def handle_outputs_def
    act_bind.simps Let_def cong: if_cong)

lemma ops_of_memento_ids: "bt_contains_key m k \<longleftrightarrow> k \<in> fst ` set m"
  by (simp add: bt_contains_key_def bt_get_def map_of_eq_None_iff)

lemma applied_new:
  assumes "\<not> bt_contains_key (ad_transaction_ids d) txid" "apply_each_operation ops d = Ok d'"
  shows "apply_memento_operations txid ops d = Ok (d'\<lparr> ad_transaction_ids := bt_insert txid () (ad_transaction_ids d) \<rparr>)"
  using assms applied_ids [OF assms(2)] by (simp add: apply_memento_operations_def)

lemma applied_contains:
  "apply_memento_operations txid ops d = Ok d' \<Longrightarrow> bt_contains_key (ad_transaction_ids d') txid"
  by (auto simp: apply_memento_operations_def result_simps ops_of_memento_ids fst_set_bt_insert split: if_splits)

lemma applied_again:
  "bt_contains_key (ad_transaction_ids d) txid \<Longrightarrow> apply_memento_operations txid ops d = Ok d"
  by (simp add: apply_memento_operations_def)

text \<open>The memento has one entry for each address, whatever the transaction.\<close>

lemma handle_inputs_ok:
  "\<lbrakk> handle_inputs I S txid h bt s ps m = Ok m'; memento_ok m \<rbrakk> \<Longrightarrow>
   memento_ok m' \<and> am_transaction_id m' = am_transaction_id m"
proof (induction ps arbitrary: m)
  case (Cons p ps)
  then obtain m1 where m1: "handle_transaction_input I S txid h bt s p m = Ok m1" "handle_inputs I S txid h bt s ps m1 = Ok m'"
    by (auto simp: result_simps)
  have "memento_ok m1 \<and> am_transaction_id m1 = am_transaction_id m"
    using m1(1) Cons.prems(2)
    by (auto simp: handle_transaction_input_def result_simps Let_def memento_simps split: option.splits)
  then show ?case using Cons.IH [OF m1(2)] by simp
qed simp

lemma handle_outputs_ok:
  "memento_ok m \<Longrightarrow> memento_ok (handle_outputs txid h bt outs m) \<and>
   am_transaction_id (handle_outputs txid h bt outs m) = am_transaction_id m"
proof -
  have "memento_ok m \<Longrightarrow> memento_ok (fold (handle_transaction_output txid h bt) xs m) \<and>
      am_transaction_id (fold (handle_transaction_output txid h bt) xs m) = am_transaction_id m" for xs m
    by (induction xs arbitrary: m) (auto simp: handle_transaction_output_def Let_def memento_simps)
  then show "memento_ok m \<Longrightarrow> ?thesis" by (simp add: handle_outputs_def)
qed

section \<open>The index of a ledger\<close>

fun accepts_all :: "IndexLib \<Rightarrow> Ledger \<Rightarrow> Transaction list \<Rightarrow> bool" where
  "accepts_all I L [] \<longleftrightarrow> True"
| "accepts_all I L (t # ts) \<longleftrightarrow> ledger_accepts I L t \<and> accepts_all I (ledger_next (il_ext I) t L) ts"

context client_storage
begin

definition transactions_at :: "IndexLib \<Rightarrow> (TxId \<Rightarrow> Transaction option) \<Rightarrow> 's \<Rightarrow> bool" where
  "transactions_at I known s \<longleftrightarrow> healthy s \<and>
     (\<forall>txid. view s TRANSACTION_KEYSPACE txid = map_option (encode_transaction (il_scale I)) (known txid)) \<and>
     (\<forall>txid t. known txid = Some t \<longrightarrow> storable I t)"

definition details_match :: "IndexLib \<Rightarrow> Ledger \<Rightarrow> 's \<Rightarrow> bool" where
  "details_match I L s \<longleftrightarrow> (\<forall>addr. \<exists>d. details_at I s addr = Ok d \<and> matches addr (l_utxo L) d \<and>
     (\<forall>i. bt_contains_key (ad_transaction_ids d) i \<longrightarrow> l_known L i \<noteq> None))"

definition index_at :: "IndexLib \<Rightarrow> Ledger \<Rightarrow> 's \<Rightarrow> bool" where
  "index_at I L s \<longleftrightarrow> ledger_wf L \<and> transactions_at I (l_known L) s \<and> details_match I L s"

lemma ts_get_at:
  assumes "index_laws I" "transactions_at I known s"
  shows "ts_get I S txid s = Ok (known txid)"
  using assms transaction_reads_back [OF assms(1)] unfolding transactions_at_def
  by (cases "known txid") (simp_all add: ts_get_def get_view)

lemma ts_get_output_at:
  assumes "index_laws I" "transactions_at I known s" "known (txo_id p) = l_known L (txo_id p)"
  shows "ts_get_output I S p s = find_output L p"
  using assms(3)
  by (cases "l_known L (txo_id p)")
    (auto simp: ts_get_output_def ts_get_at [OF assms(1,2)] find_output_def try_bind_assoc intro!: try_bind_cong)

lemma ts_set_at:
  assumes "transactions_at I known (store w)" "storable I t"
  shows "\<exists>w'. ts_set I S t w = (w', Ok ()) \<and>
    transactions_at I (known(transaction_id (il_ext I) t \<mapsto> t)) (store w') \<and>
    (\<forall>ks. ks \<noteq> TRANSACTION_KEYSPACE \<longrightarrow> view (store w') ks = view (store w) ks)"
proof -
  have h: "healthy (store w)" using assms(1) by (simp add: transactions_at_def)
  obtain s' where s': "st_set S TRANSACTION_KEYSPACE (transaction_id (il_ext I) t) (encode_transaction (il_scale I) t) (store w) =
      (s', Ok (view (store w) TRANSACTION_KEYSPACE (transaction_id (il_ext I) t)))" "healthy s'"
    "view s' = (view (store w))(TRANSACTION_KEYSPACE := (view (store w) TRANSACTION_KEYSPACE)
      (transaction_id (il_ext I) t \<mapsto> encode_transaction (il_scale I) t))"
    using set_view [OF h] by blast
  then have "ts_set I S t w = (w\<lparr> store := s' \<rparr>, Ok ())" by (simp add: ts_set_def act_bind.simps act_write_def)
  moreover have "transactions_at I (known(transaction_id (il_ext I) t \<mapsto> t)) s'"
    using assms s'(2,3) by (simp add: transactions_at_def)
  ultimately show ?thesis using s'(3) by simp
qed

end

text \<open>The next ledger is well formed.\<close>

lemma ledger_wf_fresh:
  assumes "ledger_wf L" "l_known L txid = None" "fst k = txid"
  shows "bt_get (l_utxo L) k = None"
  using assms unfolding ledger_wf_def by (metis not_None_eq)

lemma unspend_fresh:
  assumes "ledger_wf L" "l_known L txid = None" "fst k = txid"
  shows "bt_get (unspend ps (l_utxo L)) k = None"
  using ledger_wf_fresh [OF assms] by (simp add: bt_get_unspend)

lemma ledger_wf_next:
  assumes "ledger_wf L" "ledger_accepts I L t"
  shows "ledger_wf (ledger_next (il_ext I) t L)"
proof -
  let ?txid = "transaction_id (il_ext I) t" and ?u = "unspend (spent_by t) (l_utxo L)"
  have a: "l_known L ?txid = None" "length (created_by t) \<le> 2 ^ 16" "worth (l_utxo (ledger_next (il_ext I) t L)) \<le> max_supply"
    using assms(2) by (simp_all add: ledger_accepts_def Let_def)
  have ok: "bt_ok ?u" using assms(1) by (simp add: ledger_wf_def bt_ok_unspend)
  have get: "bt_get (create ?txid 0 (created_by t) ?u) k =
      (if fst k = ?txid \<and> unat (snd k) < length (created_by t) then Some (created_by t ! unat (snd k)) else bt_get ?u k)" for k
    using bt_get_create [OF ok, of 0 "created_by t" ?txid k] a(2) by simp
  have "\<exists>t'. l_known (ledger_next (il_ext I) t L) (fst k) = Some t' \<and> unat (snd k) < length (created_by t') \<and>
      created_by t' ! unat (snd k) = out" if "bt_get (l_utxo (ledger_next (il_ext I) t L)) k = Some out" for k out
  proof (cases "fst k = ?txid")
    case True
    then show ?thesis
      using that unspend_fresh [OF assms(1) a(1) True] by (auto simp: ledger_next_def get split: if_splits)
  next
    case False
    then have "bt_get (l_utxo L) k = Some out"
      using that by (auto simp: ledger_next_def get bt_get_unspend split: if_splits)
    then show ?thesis using False assms(1) by (auto simp: ledger_next_def ledger_wf_def)
  qed
  moreover have "bt_ok (l_utxo (ledger_next (il_ext I) t L))" using ok by (simp add: ledger_next_def bt_ok_create)
  ultimately show ?thesis using a(3) by (simp add: ledger_wf_def)
qed

context client_storage
begin

lemma memento_of_transaction:
  assumes "index_laws I" "ledger_wf L" "ledger_accepts I L t"
    and "transactions_at I ((l_known L)(transaction_id (il_ext I) t \<mapsto> t)) s"
    and "\<And>addr. matches addr (l_utxo L) (d0 addr)"
  shows "\<exists>m m'. handle_inputs I S (transaction_id (il_ext I) t) h bt s (spent_by t) (memento_new (transaction_id (il_ext I) t)) = Ok m \<and>
    handle_outputs (transaction_id (il_ext I) t) h bt (created_by t) m = m' \<and>
    tracks d0 m' (l_utxo (ledger_next (il_ext I) t L)) \<and> memento_ok m' \<and> am_transaction_id m' = transaction_id (il_ext I) t"
proof -
  let ?txid = "transaction_id (il_ext I) t" and ?u = "unspend (spent_by t) (l_utxo L)"
  have a: "l_known L ?txid = None" "distinct (map txo_key (spent_by t))" "length (created_by t) \<le> 2 ^ 16"
    "worth (create ?txid 0 (created_by t) ?u) \<le> max_supply"
    using assms(3) by (simp_all add: ledger_accepts_def ledger_next_def Let_def)
  have p: "txo_id p \<noteq> ?txid" "l_known L (txo_id p) \<noteq> None \<Longrightarrow> bt_get (l_utxo L) (txo_key p) \<noteq> None"
    if "p \<in> set (spent_by t)" for p
    using assms(3) that by (auto simp: ledger_accepts_def list_all_iff Let_def)
  have wf: "bt_ok (l_utxo L)" "worth (l_utxo L) \<le> max_supply" using assms(2) by (simp_all add: ledger_wf_def)
  have get: "ts_get_output I S p s = find_output L p" if "p \<in> set (spent_by t)" for p
    using p(1) [OF that] by (intro ts_get_output_at [OF assms(1,4)]) simp
  have start: "tracks d0 (memento_new ?txid) (l_utxo L)" using assms(5) by (simp add: tracks_def)
  have "\<exists>m. handle_inputs I S ?txid h bt s (spent_by t) (memento_new ?txid) = Ok m \<and> tracks d0 m ?u \<and> memento_ok m \<and>
      am_transaction_id m = am_transaction_id (memento_new ?txid)"
    by (rule handle_inputs_tracks [OF assms(2) get start _ wf a(2) p(2)]) simp_all
  then obtain m where m: "handle_inputs I S ?txid h bt s (spent_by t) (memento_new ?txid) = Ok m" "tracks d0 m ?u"
    "memento_ok m" "am_transaction_id m = ?txid" by auto
  have "bt_ok ?u" by (rule bt_ok_unspend [OF wf(1)])
  from handle_outputs_tracks [OF m(2,3) this, of ?txid 0 "created_by t" h bt] m(4) a(3,4)
    unspend_fresh [OF assms(2) a(1)]
  show ?thesis using m(1) by (simp add: handle_outputs_def ledger_next_def)
qed

lemma handle_all_at:
  assumes "index_laws I" "ledger_wf L" "ledger_accepts I L t"
    and "transactions_at I ((l_known L)(transaction_id (il_ext I) t \<mapsto> t)) (store w1)" "details_match I L (store w1)"
  shows "\<exists>w'. handle_all I S t h bt w1 = (w', Ok ()) \<and> index_at I (ledger_next (il_ext I) t L) (store w') \<and>
    (\<forall>ks. ks \<noteq> ADDRESS_KEYSPACE \<longrightarrow> view (store w') ks = view (store w1) ks)"
proof -
  let ?txid = "transaction_id (il_ext I) t" and ?L = "ledger_next (il_ext I) t L"
  have new_id: "l_known L ?txid = None" using assms(3) by (simp add: ledger_accepts_def Let_def)
  obtain d0 where d0: "\<And>addr. details_at I (store w1) addr = Ok (d0 addr)" "\<And>addr. matches addr (l_utxo L) (d0 addr)"
    "\<And>addr i. bt_contains_key (ad_transaction_ids (d0 addr)) i \<Longrightarrow> l_known L i \<noteq> None"
    using assms(5) unfolding details_match_def by metis
  obtain m m' where m: "handle_inputs I S ?txid h bt (store w1) (spent_by t) (memento_new ?txid) = Ok m"
    "handle_outputs ?txid h bt (created_by t) m = m'" "tracks d0 m' (l_utxo ?L)" "memento_ok m'" "am_transaction_id m' = ?txid"
    using memento_of_transaction [OF assms(1-4) d0(2)] by blast
  obtain e where e: "\<And>a. apply_each_operation (ops_of m' a) (d0 a) = Ok (e a)" "\<And>a. matches a (l_utxo ?L) (e a)"
    using m(3) unfolding tracks_def by metis
  define new where "new a = (e a)\<lparr> ad_transaction_ids := bt_insert ?txid () (ad_transaction_ids (d0 a)) \<rparr>" for a
  have "apply_memento_operations (am_transaction_id m') (ops_of m' a) (d0 a) = Ok (new a)" for a
    unfolding new_def m(5) using new_id d0(3) [of a ?txid] by (intro applied_new [OF _ e(1)]) blast
  moreover have "healthy (store w1)" using assms(4) by (simp add: transactions_at_def)
  ultimately obtain w' where w': "apply_memento I S m' w1 = (w', Ok ())" "wrote_details I new {a. ops_of m' a \<noteq> []} w1 w'"
    using apply_memento_at [OF assms(1) _ m(4), of w1 new] d0(1) by blast
  have run: "handle_all I S t h bt w1 = (w', Ok ())"
    using m(1,2) w'(1) by (simp add: handle_all_def Let_def act_bind.simps)
  have "matches a (l_utxo ?L) (new a)" for a using e(2) by (simp add: new_def matches_def)
  moreover have "matches a (l_utxo ?L) (d0 a)" if "ops_of m' a = []" for a
    using e [of a] that by simp
  moreover have "bt_contains_key (ad_transaction_ids (new a)) i \<Longrightarrow> l_known ?L i \<noteq> None" for a i
    using d0(3) [of a i] by (auto simp: new_def ledger_next_def ops_of_memento_ids fst_set_bt_insert)
  moreover have "bt_contains_key (ad_transaction_ids (d0 a)) i \<Longrightarrow> l_known ?L i \<noteq> None" for a i
    using d0(3) [of a i] by (auto simp: ledger_next_def)
  ultimately have "details_match I ?L (store w')"
    unfolding details_match_def wrote_details_at [OF assms(1) w'(2)] d0(1) by simp
  moreover have "transactions_at I (l_known ?L) (store w')"
    using assms(4) w'(2) by (simp add: transactions_at_def wrote_details_def ledger_next_def)
  ultimately have "index_at I ?L (store w')" using ledger_wf_next [OF assms(2,3)] by (simp add: index_at_def)
  then show ?thesis using run w'(2) by (auto simp: wrote_details_def)
qed

lemma index_next_frame:
  assumes "index_laws I" "index_at I L (store w)" "ledger_accepts I L t"
  shows "\<exists>w'. transaction_on_next I S t h bt w = (w', Ok ()) \<and> index_at I (ledger_next (il_ext I) t L) (store w') \<and>
    (\<forall>ks. ks \<noteq> ADDRESS_KEYSPACE \<and> ks \<noteq> TRANSACTION_KEYSPACE \<longrightarrow> view (store w') ks = view (store w) ks)"
proof -
  have at: "ledger_wf L" "transactions_at I (l_known L) (store w)" "details_match I L (store w)"
    using assms(2) by (simp_all add: index_at_def)
  have "storable I t" using assms(3) by (simp add: ledger_accepts_def Let_def)
  from ts_set_at [OF at(2) this] obtain w1 where w1: "ts_set I S t w = (w1, Ok ())"
    "transactions_at I ((l_known L)(transaction_id (il_ext I) t \<mapsto> t)) (store w1)"
    "\<forall>ks. ks \<noteq> TRANSACTION_KEYSPACE \<longrightarrow> view (store w1) ks = view (store w) ks"
    by blast
  have "details_match I L (store w1)" using at(3) w1(3) by (simp add: details_match_def details_at_def)
  from handle_all_at [OF assms(1) at(1) assms(3) w1(2) this, of h bt] w1(1,3) show ?thesis
    by (auto simp: on_next_pipeline [OF assms(1)] act_bind.simps)
qed

lemma index_next:
  assumes "index_laws I" "index_at I L (store w)" "ledger_accepts I L t"
  shows "\<exists>w'. transaction_on_next I S t h bt w = (w', Ok ()) \<and> index_at I (ledger_next (il_ext I) t L) (store w')"
  using index_next_frame [OF assms] by blast

text \<open>Any number of accepted transactions.\<close>

lemma index_all:
  assumes "index_laws I"
  shows "\<lbrakk> index_at I L (store w); accepts_all I L (map fst xs) \<rbrakk> \<Longrightarrow>
    \<exists>w' ys. act_each (\<lambda>(t, h, bt). transaction_on_next I S t h bt) xs w = (w', Ok ys) \<and>
      index_at I (fold (ledger_next (il_ext I)) (map fst xs) L) (store w')"
proof (induction xs arbitrary: L w)
  case (Cons x xs)
  obtain t h bt where x: "x = (t, h, bt)" by (cases x)
  obtain w1 where w1: "transaction_on_next I S t h bt w = (w1, Ok ())" "index_at I (ledger_next (il_ext I) t L) (store w1)"
    using index_next [OF assms Cons.prems(1)] Cons.prems(2) x by fastforce
  obtain w' ys where w': "act_each (\<lambda>(t, h, bt). transaction_on_next I S t h bt) xs w1 = (w', Ok ys)"
    "index_at I (fold (ledger_next (il_ext I)) (map fst xs) (ledger_next (il_ext I) t L)) (store w')"
    using Cons.IH [OF w1(2)] Cons.prems(2) x by auto
  then show ?case using w1(1) by (simp add: x act_bind.simps)
qed simp

lemma index_at_empty:
  assumes "healthy s" "view s ADDRESS_KEYSPACE = Map.empty" "view s TRANSACTION_KEYSPACE = Map.empty"
  shows "index_at I ledger_empty s"
proof -
  have "details_match I ledger_empty s"
    using assms by (simp add: details_match_def details_at_def read_details_def matches_def ledger_empty_def owned_def
        address_details_default_def coin_zero_def amount_def bt_contains_key_def bt_get_def)
  then show ?thesis using assms by (simp add: index_at_def transactions_at_def ledger_wf_def ledger_empty_def bt_get_def)
qed

lemma index_answers:
  assumes "index_laws I" "index_at I L s"
  shows "(\<forall>addr. \<exists>d. index_address_details I S addr s = Ok d \<and> ad_unspent_transactions d = owned addr (l_utxo L) \<and>
      amount (ad_balance d) = worth (owned addr (l_utxo L))) \<and> (\<forall>txid. index_transaction I S txid s = Ok (l_known L txid))"
proof -
  have "healthy s" using assms(2) by (simp add: index_at_def transactions_at_def)
  then have "\<exists>d. index_address_details I S addr s = Ok d \<and> ad_unspent_transactions d = owned addr (l_utxo L) \<and>
      amount (ad_balance d) = worth (owned addr (l_utxo L))" for addr
    using assms(2) by (simp add: index_at_def details_match_def matches_def index_address_details_def as_get_view) metis
  then show ?thesis using assms(2) ts_get_at [OF assms(1)] by (simp add: index_at_def index_transaction_def)
qed

text \<open>A handler that returns has updated every address of its memento.\<close>

lemma update_address_success:
  assumes "healthy (store w)" "update_address I txid (addr, ops) w = (w', Ok r)"
  shows "\<exists>d d'. details_at I (store w) addr = Ok d \<and> apply_memento_operations txid ops d = Ok d'"
proof -
  let ?key = "enc (c_extended_addr (il_change I)) addr"
  let ?f = "\<lambda>value. try_bind (read_details I value) (\<lambda>details. try_bind (apply_memento_operations txid ops details)
    (\<lambda>details. Ok (Some (enc (address_details_codec I) details))))"
  have "?f (view (store w) ADDRESS_KEYSPACE ?key) \<noteq> Err e" for e
  proof (cases e)
    case (Failed k)
    then show ?thesis
      using update_fails [where f = ?f, OF assms(1), of ADDRESS_KEYSPACE ?key k] assms(2)
      by (auto simp: act_write_def)
  next
    case (Panicked msg)
    then show ?thesis
      using update_panics [where f = ?f, OF assms(1), of ADDRESS_KEYSPACE ?key msg] assms(2)
      by (auto simp: act_write_def)
  qed
  then obtain v where "?f (view (store w) ADDRESS_KEYSPACE ?key) = Ok v"
    by (cases "?f (view (store w) ADDRESS_KEYSPACE ?key)") auto
  then show ?thesis by (auto simp: result_simps details_at_def)
qed

lemma apply_each_success:
  assumes "index_laws I"
  shows "\<lbrakk> healthy (store w); distinct (map fst xs); act_each (update_address I txid) xs w = (w', Ok ys) \<rbrakk> \<Longrightarrow>
    \<exists>new. \<forall>(a, ops) \<in> set xs. \<exists>d. details_at I (store w) a = Ok d \<and> apply_memento_operations txid ops d = Ok (new a)"
proof (induction xs arbitrary: w ys)
  case (Cons x xs)
  obtain a ops where x: "x = (a, ops)" by (cases x)
  obtain w1 r ys' where w1: "update_address I txid (a, ops) w = (w1, Ok r)"
    "act_each (update_address I txid) xs w1 = (w', Ok ys')"
    using Cons.prems(3) unfolding x by (auto simp: result_simps simp del: case_prod_conv)
  obtain d d' where d: "details_at I (store w) a = Ok d" "apply_memento_operations txid ops d = Ok d'"
    using update_address_success [OF Cons.prems(1) w1(1)] by blast
  have wrote: "wrote_details I (\<lambda>_. d') {a} w w1"
    using update_address_Ok [OF Cons.prems(1) d] w1(1) wrote_details_one [where new = "\<lambda>_. d'"] by fastforce
  then have h: "healthy (store w1)" by (simp add: wrote_details_def)
  obtain new where new: "\<forall>(b, o1) \<in> set xs. \<exists>d. details_at I (store w1) b = Ok d \<and>
      apply_memento_operations txid o1 d = Ok (new b)"
    using Cons.IH [OF h _ w1(2)] Cons.prems(2) by auto
  have "\<exists>d. details_at I (store w) b = Ok d \<and> apply_memento_operations txid o1 d = Ok ((new(a := d')) b)"
    if "(b, o1) \<in> set (x # xs)" for b o1
  proof (cases "(b, o1) = x")
    case False
    then have "(b, o1) \<in> set xs" "b \<noteq> a" using that Cons.prems(2) x by (auto simp: image_iff)
    then show ?thesis using bspec [OF new, of "(b, o1)"] wrote_details_at [OF assms wrote, of b] by simp
  qed (use x d in simp)
  then show ?case by blast
qed simp

lemma apply_memento_success:
  assumes "index_laws I" "healthy (store w)" "memento_ok m" "apply_memento I S m w = (w', Ok ())"
  shows "\<exists>new. wrote_details I new {a. ops_of m a \<noteq> []} w w' \<and>
    (\<forall>a. ops_of m a \<noteq> [] \<longrightarrow> bt_contains_key (ad_transaction_ids (new a)) (am_transaction_id m))"
proof -
  let ?xs = "hash_order I (am_operations m)"
  note e = memento_entry [OF assms(3) index_lawsD(5) [OF assms(1)]]
  obtain ys where "act_each (update_address I (am_transaction_id m)) ?xs w = (w', Ok ys)"
    using assms(4) unfolding apply_memento_def by (auto simp: result_simps)
  from apply_each_success [OF assms(1,2) e(1) this] obtain new where
    new: "\<forall>(a, ops) \<in> set ?xs. \<exists>d. details_at I (store w) a = Ok d \<and>
      apply_memento_operations (am_transaction_id m) ops d = Ok (new a)" by blast
  then have n: "\<exists>d. details_at I (store w) a = Ok d \<and> apply_memento_operations (am_transaction_id m) (ops_of m a) d = Ok (new a)"
    if "ops_of m a \<noteq> []" for a
    using e(2) [of a "ops_of m a"] that by blast
  then have "wrote_details I new {a. ops_of m a \<noteq> []} w w'"
    using apply_memento_at [OF assms(1-3)] assms(4) by fastforce
  then show ?thesis using n applied_contains by blast
qed

lemma handle_inputs_cong:
  assumes "healthy s" "healthy s'" "view s TRANSACTION_KEYSPACE = view s' TRANSACTION_KEYSPACE"
  shows "handle_inputs I S txid h bt s ps m = handle_inputs I S txid h bt s' ps m"
proof -
  have "ts_get_output I S p s = ts_get_output I S p s'" for p
    using assms by (simp add: ts_get_output_def ts_get_def get_view)
  then have "handle_transaction_input I S txid h bt s p m = handle_transaction_input I S txid h bt s' p m" for p m
    by (simp add: handle_transaction_input_def)
  then show ?thesis by (induction ps arbitrary: m) (auto intro: try_bind_cong)
qed

lemma ts_set_view:
  assumes "healthy (store w)"
  shows "\<exists>w'. ts_set I S t w = (w', Ok ()) \<and> healthy (store w') \<and>
    view (store w') = (view (store w))(TRANSACTION_KEYSPACE := (view (store w) TRANSACTION_KEYSPACE)
      (transaction_id (il_ext I) t \<mapsto> encode_transaction (il_scale I) t))"
  using set_view [OF assms, of TRANSACTION_KEYSPACE "transaction_id (il_ext I) t" "encode_transaction (il_scale I) t"]
  by (auto simp: ts_set_def act_bind.simps act_write_def)

lemma handled_again:
  assumes "index_laws I" "healthy (store w)" "transaction_on_next I S t h bt w = (w', Ok ())"
  shows "\<exists>w''. transaction_on_next I S t h bt w' = (w'', Ok ()) \<and> view (store w'') = view (store w')"
proof -
  let ?txid = "transaction_id (il_ext I) t"
  obtain w1 where w1: "ts_set I S t w = (w1, Ok ())" "healthy (store w1)"
    "view (store w1) = (view (store w))(TRANSACTION_KEYSPACE := (view (store w) TRANSACTION_KEYSPACE)
      (?txid \<mapsto> encode_transaction (il_scale I) t))"
    using ts_set_view [OF assms(2)] by blast
  from assms(3) w1(1) obtain m where
    m: "handle_inputs I S ?txid h bt (store w1) (spent_by t) (memento_new ?txid) = Ok m"
      "apply_memento I S (handle_outputs ?txid h bt (created_by t) m) w1 = (w', Ok ())"
    by (auto simp: on_next_pipeline [OF assms(1)] handle_all_def Let_def result_simps)
  define m' where "m' = handle_outputs ?txid h bt (created_by t) m"
  have ok: "memento_ok m'" "am_transaction_id m' = ?txid"
    using handle_inputs_ok [OF m(1)] handle_outputs_ok [of m] by (simp_all add: m'_def)
  obtain new where new: "wrote_details I new {a. ops_of m' a \<noteq> []} w1 w'"
    "\<And>a. ops_of m' a \<noteq> [] \<Longrightarrow> bt_contains_key (ad_transaction_ids (new a)) ?txid"
    using apply_memento_success [OF assms(1) w1(2) ok(1) m(2) [folded m'_def]] ok(2) by auto
  have h': "healthy (store w')" and tv: "view (store w') TRANSACTION_KEYSPACE = view (store w1) TRANSACTION_KEYSPACE"
    using new(1) by (simp_all add: wrote_details_def)
  obtain w2 where w2: "ts_set I S t w' = (w2, Ok ())" "healthy (store w2)" "view (store w2) = view (store w')"
    using ts_set_view [OF h', of I t] tv w1(3) by (metis fun_upd_idem_iff fun_upd_same)
  have i2: "handle_inputs I S ?txid h bt (store w2) (spent_by t) (memento_new ?txid) = Ok m"
    using handle_inputs_cong [OF w2(2) w1(2)] m(1) w2(3) tv by simp
  have "wrote_details I new {a. ops_of m' a \<noteq> []} w1 w2" using new(1) w2(2,3) by (simp add: wrote_details_def)
  moreover have "details_at I (store w2) a = Ok (new a)" if "ops_of m' a \<noteq> []" for a
    using wrote_details_at [OF assms(1) calculation, of a] that by simp
  then obtain w'' where "apply_memento I S m' w2 = (w'', Ok ())" "wrote_details I new {a. ops_of m' a \<noteq> []} w2 w''"
    using apply_memento_at [OF assms(1) w2(2) ok(1), of new] new(2) ok(2) applied_again by auto
  ultimately have "view (store w'') = view (store w')" "transaction_on_next I S t h bt w' = (w'', Ok ())"
    using wrote_details_same w2 i2
    by (fastforce, simp add: on_next_pipeline [OF assms(1)] handle_all_def Let_def act_bind.simps m'_def)
  then show ?thesis by blast
qed

end

section \<open>Sample libraries\<close>

definition sample_change_lib :: ChangeLib where
  "sample_change_lib = \<lparr>
     to_rfc3339 = (\<lambda>t. (if t < 0 then 1 else 0) # enc nat_codec (nat \<bar>t\<bar>)),
     datetime_from_str = (\<lambda>b. case b of [] \<Rightarrow> None
       | c # r \<Rightarrow> (case dec nat_codec r of Inr (n, _) \<Rightarrow> Some (if c = 1 then - int n else int n) | _ \<Rightarrow> None)),
     c_extended_addr = map_codec (\<lambda>a. case a of OrTree h \<Rightarrow> h) OrTree bytes_codec,
     c_balance_change = map_codec (\<lambda>c. case c of Incoming v \<Rightarrow> (0, coin_u64 v) | Outgoing v \<Rightarrow> (1 :: nat, coin_u64 v))
       (\<lambda>(k, v). if k = 0 then Incoming (Coin v) else Outgoing (Coin v)) (pair_codec nat_codec word_codec),
     c_height = word_codec, c_string = bytes_codec \<rparr>"

definition sample_index :: IndexLib where
  "sample_index = \<lparr> il_client = sample_client, il_change = sample_change_lib,
     c_unspent = list_codec (pair_codec (pair_codec bytes_codec word_codec) tx_out_codec),
     c_history = list_codec, c_coin = map_codec coin_u64 Coin word_codec,
     c_id_set = list_codec (map_codec fst (\<lambda>i. (i, ())) bytes_codec), hash_order = rev \<rparr>"

lemma sample_change_laws: "change_laws sample_change_lib"
proof -
  have "reads_back (c_extended_addr sample_change_lib)"
    unfolding sample_change_lib_def by (simp, rule map_codec_ok [OF list_codec_ok [OF word_codec_ok]]) (auto split: ExtendedAddr.splits)
  moreover have "reads_back (c_balance_change sample_change_lib)"
    unfolding sample_change_lib_def
    by (simp, rule map_codec_ok [OF pair_codec_ok [OF nat_codec_ok word_codec_ok]]) (auto split: BalanceChange.splits)
  moreover have "datetime_from_str sample_change_lib (to_rfc3339 sample_change_lib t) = Some t" for t
    using reads_back_nil [OF nat_codec_ok, of "nat \<bar>t\<bar>"] by (simp add: sample_change_lib_def)
  ultimately show ?thesis by (simp add: change_laws_def) (simp add: sample_change_lib_def codec_oks)
qed

lemma sample_index_laws: "index_laws sample_index"
proof -
  have "reads_back (map_codec coin_u64 Coin word_codec)" by (rule map_codec_ok [OF word_codec_ok]) simp
  moreover have "reads_back (map_codec fst (\<lambda>i. (i, ())) bytes_codec)" by (rule map_codec_ok [OF list_codec_ok [OF word_codec_ok]]) auto
  moreover have "scale_laws (cl_scale sample_client)" by (simp add: sample_client_def sample_scale_laws)
  ultimately show ?thesis
    using sample_client_laws(1) sample_change_laws
    by (simp add: index_laws_def sample_index_def codec_oks structure_codecs_ok)
qed

definition sample_withdrawal :: WithdrawUnbondedTx where
  "sample_withdrawal = withdraw_tx_new 1 [\<lparr> out_address = OrTree [1], out_value = Coin 5, out_valid_from = None \<rparr>]
     \<lparr> attr_chain_hex_id = 0, allowed_view = [] \<rparr>"

definition sample_spending :: Tx where
  "sample_spending = \<lparr> tx_inputs = [\<lparr> txo_id = withdraw_id sample_ext sample_withdrawal, txo_index = 0 \<rparr>],
     tx_outputs = [\<lparr> out_address = OrTree [2], out_value = Coin 3, out_valid_from = None \<rparr>,
       \<lparr> out_address = OrTree [1], out_value = Coin 1, out_valid_from = None \<rparr>],
     tx_attributes = \<lparr> attr_chain_hex_id = 0, allowed_view = [] \<rparr> \<rparr>"

section \<open>Properties\<close>

text \<open>
  C5: the index of the client refines a ledger of unspent outputs.  Starting from an empty index, any
  sequence of transactions the chain can have accepted (new identifiers, inputs that spend outputs which
  are still unspent, or outputs the client never saw, at most 65536 outputs, a total within the supply,
  encodings within the size limits) is handled without an error.  Afterwards the details of every address
  hold exactly the unspent outputs to this address and their sum as the balance, and every transaction is
  found under its identifier, in whatever order the hash maps were walked.
\<close>

theorem index_refines_ledger:
  assumes "index_laws I" "\<not> poisoned (store w)"
    and "memory_view (store w) ADDRESS_KEYSPACE = Map.empty" "memory_view (store w) TRANSACTION_KEYSPACE = Map.empty"
    and "accepts_all I ledger_empty (map fst xs)"
  shows "\<exists>w' ys. act_each (\<lambda>(t, h, bt). transaction_on_next I memory_storage t h bt) xs w = (w', Ok ys) \<and>
    (let L = fold (ledger_next (il_ext I)) (map fst xs) ledger_empty in
      (\<forall>addr. \<exists>d. index_address_details I memory_storage addr (store w') = Ok d \<and>
         ad_unspent_transactions d = owned addr (l_utxo L) \<and> amount (ad_balance d) = worth (owned addr (l_utxo L))) \<and>
      (\<forall>txid. index_transaction I memory_storage txid (store w') = Ok (l_known L txid)))"
proof -
  let ?L = "fold (ledger_next (il_ext I)) (map fst xs) ledger_empty"
  obtain w' ys where run: "act_each (\<lambda>(t, h, bt). transaction_on_next I memory_storage t h bt) xs w = (w', Ok ys)"
    and at: "memory.index_at I ?L (store w')"
    using memory.index_all [OF assms(1) memory.index_at_empty assms(5)] assms(2-4) by blast
  then show ?thesis using memory.index_answers [OF assms(1) at] by (simp add: Let_def)
qed

lemma sample_fields:
  "tx_inputs sample_spending = [\<lparr> txo_id = withdraw_id sample_ext sample_withdrawal, txo_index = 0 \<rparr>]"
  "tx_outputs sample_spending = [\<lparr> out_address = OrTree [2], out_value = Coin 3, out_valid_from = None \<rparr>,
     \<lparr> out_address = OrTree [1], out_value = Coin 1, out_valid_from = None \<rparr>]"
  "wdr_outputs sample_withdrawal = [\<lparr> out_address = OrTree [1], out_value = Coin 5, out_valid_from = None \<rparr>]"
  by (simp_all add: sample_spending_def sample_withdrawal_def withdraw_tx_new_def)

lemma sample_id_values:
  "withdraw_id sample_ext sample_withdrawal = [13, 1, 1] @ replicate 27 0 @ [3, 15]"
  "tx_id sample_ext sample_spending = [10, 1, 2] @ replicate 27 0 @ [3, 13]"
  by (simp_all add: withdraw_id_def tx_id_def txid_hash_def hash256_def sample_ext_def sample_digest_def sample_withdrawal_def
      sample_spending_def withdraw_tx_new_def)

lemma sample_ids:
  "withdraw_id sample_ext sample_withdrawal \<noteq> tx_id sample_ext sample_spending"
  "length (encode_tx sample_scale sample_spending) \<le> MAX_TX_SIZE"
  by (simp_all add: sample_id_values encode_tx_def sample_scale_defs MAX_TX_SIZE_def sample_fields pointer_codec_def)
    (simp add: sample_spending_def)

lemma sample_lib_simps [simp]: "il_ext sample_index = sample_ext" "il_scale sample_index = sample_scale"
  by (simp_all add: sample_index_def sample_client_def)

lemma sample_accepts:
  "accepts_all sample_index ledger_empty [WithdrawUnbondedStakeTransaction sample_withdrawal, TransferTransaction sample_spending]"
  "l_utxo (fold (ledger_next sample_ext) [WithdrawUnbondedStakeTransaction sample_withdrawal, TransferTransaction sample_spending]
     ledger_empty) = [((tx_id sample_ext sample_spending, 0), \<lparr> out_address = OrTree [2], out_value = Coin 3, out_valid_from = None \<rparr>),
       ((tx_id sample_ext sample_spending, 1), \<lparr> out_address = OrTree [1], out_value = Coin 1, out_valid_from = None \<rparr>)]"
  using sample_ids
  by (simp_all add: sample_fields ledger_accepts_def ledger_next_def ledger_empty_def storable_def transaction_id_def
      spent_by_def created_by_def txo_key_def bt_get_def bt_remove_def amount_def
      outs_wf_def coin_wf_def MAX_COIN_def)

theorem index_refines_ledger_witness:
  "\<exists>w' ys d. act_each (\<lambda>(t, h, bt). transaction_on_next sample_index memory_storage t h bt)
       [(WithdrawUnbondedStakeTransaction sample_withdrawal, 1, 0), (TransferTransaction sample_spending, 2, 10)] fresh_world = (w', Ok ys) \<and>
     index_address_details sample_index memory_storage (OrTree [1]) (store w') = Ok d \<and> amount (ad_balance d) = 1"
proof -
  let ?xs = "[(WithdrawUnbondedStakeTransaction sample_withdrawal, 1, 0), (TransferTransaction sample_spending, 2, 10)]
    :: (Transaction \<times> u64 \<times> DateTime) list"
  have "memory_view (store fresh_world) ks = Map.empty" for ks by (rule ext) simp
  from index_refines_ledger [OF sample_index_laws _ this this, of ?xs] sample_accepts(1)
  obtain w' ys where w': "act_each (\<lambda>(t, h, bt). transaction_on_next sample_index memory_storage t h bt) ?xs fresh_world = (w', Ok ys)"
    "\<And>addr. \<exists>d. index_address_details sample_index memory_storage addr (store w') = Ok d \<and>
       amount (ad_balance d) = worth (owned addr (l_utxo (fold (ledger_next sample_ext) (map fst ?xs) ledger_empty)))"
    by (simp add: Let_def del: fold_simps) metis
  have "worth (owned (OrTree [1]) (l_utxo (fold (ledger_next sample_ext) (map fst ?xs) ledger_empty))) = 1"
    using sample_accepts(2) by (simp add: owned_def amount_def)
  then show ?thesis using w'(1) w'(2) [of "OrTree [1]"] by metis
qed

text \<open>
  C18: handling a transaction a second time changes nothing.  Whatever the index held before, when the
  handler returned for a transaction and is called again for it (a restart repeats the last blocks), it
  returns and every key of every keyspace keeps its value: no balance is counted twice, no entry of the
  history is repeated and no spent output comes back.
\<close>

theorem handling_is_idempotent:
  assumes "index_laws I" "\<not> poisoned (store w)" "transaction_on_next I memory_storage t h bt w = (w', Ok ())"
  shows "\<exists>w''. transaction_on_next I memory_storage t h bt w' = (w'', Ok ()) \<and>
    memory_view (store w'') = memory_view (store w')"
  using memory.handled_again [OF assms(1) _ assms(3)] assms(2) by simp

theorem handling_is_idempotent_witness:
  "\<exists>w' w''. transaction_on_next sample_index memory_storage (WithdrawUnbondedStakeTransaction sample_withdrawal) 1 0 fresh_world = (w', Ok ()) \<and>
     transaction_on_next sample_index memory_storage (WithdrawUnbondedStakeTransaction sample_withdrawal) 1 0 w' = (w'', Ok ()) \<and>
     memory_view (store w'') = memory_view (store w')"
proof -
  have "memory_view memory_default ks = Map.empty" for ks by (rule ext) simp
  then have "memory.index_at sample_index ledger_empty (store fresh_world)"
    by (intro memory.index_at_empty) simp_all
  then obtain w' where "transaction_on_next sample_index memory_storage (WithdrawUnbondedStakeTransaction sample_withdrawal) 1 0 fresh_world = (w', Ok ())"
    using memory.index_next [OF sample_index_laws] sample_accepts(1) by (metis accepts_all.simps(2))
  moreover from handling_is_idempotent [OF sample_index_laws _ this] obtain w'' where
    "transaction_on_next sample_index memory_storage (WithdrawUnbondedStakeTransaction sample_withdrawal) 1 0 w' = (w'', Ok ())"
    "memory_view (store w'') = memory_view (store w')" by auto
  ultimately show ?thesis by blast
qed

end
