(* ===== verification/Tendermint_Client.thy ===== *)
theory Tendermint_Client
  imports Client_Transactions Block_Filter Genesis
begin

text \<open>
  The connection of the client to a node (\<open>client-common/src/tendermint/\<close>): the answers of Tendermint
  and what the client reads from them, the interface \<open>Client\<close> as the record \<open>TmClient\<close> and its JSON-RPC
  implementation; and the two ciphers of \<open>client-index/src/cipher/\<close>, which have transactions encrypted
  and decrypted by the node or by the query enclave.  Base64, JSON-RPC and TLS are libraries.  The
  answers of a server depend on the number of the interaction, so that no two need to agree.
\<close>

section \<open>Answers of a node\<close>

record 'bl TmLib =
  base64_decode :: "string \<Rightarrow> bytes option"
  tm_bloom :: "'bl BloomLib"
  c_decrypted :: "TxWithOutputs list codec"

record Header =
  hdr_app_hash :: str
  hdr_height :: string
  hdr_time :: DateTime

record Data =
  data_txs :: "string list option"

record BlockInner =
  bi_header :: Header
  bi_data :: Data

record Block =
  blk_block :: BlockInner

definition read_tx_aux :: "ClientLib \<Rightarrow> 'bl TmLib \<Rightarrow> string \<Rightarrow> TxAux outcome" where
  "read_tx_aux L T raw_transaction =
     try_bind (or_kind DeserializationError (base64_decode T raw_transaction)) (\<lambda>decoded.
     decode_all \<lparr> enc = encode_txaux (cl_scale L), dec = decode_txaux (cl_scale L) \<rparr> decoded)"

definition unencrypted_transaction :: "TxAux \<Rightarrow> Transaction option" where
  "unencrypted_transaction tx_aux = (case tx_aux of
     DepositStakeTx tx _ \<Rightarrow> Some (DepositStakeTransaction tx)
   | UnbondStakeTx tx _ \<Rightarrow> Some (UnbondStakeTransaction tx)
   | _ \<Rightarrow> None)"

definition unencrypted_transactions :: "ClientLib \<Rightarrow> 'bl TmLib \<Rightarrow> Block \<Rightarrow> Transaction list outcome" where
  "unencrypted_transactions L T b = (case data_txs (bi_data (blk_block b)) of
     None \<Rightarrow> Ok []
   | Some transactions \<Rightarrow>
       try_bind (collect_result (read_tx_aux L T) transactions) (\<lambda>tx_auxs.
       Ok (List.map_filter unencrypted_transaction tx_auxs)))"

definition block_height_of :: "Block \<Rightarrow> u64 outcome" where
  "block_height_of b = or_kind DeserializationError (parse_u64 (hdr_height (bi_header (blk_block b))))"

definition block_time_of :: "Block \<Rightarrow> DateTime" where
  "block_time_of b = hdr_time (bi_header (blk_block b))"

definition block_app_hash :: "Block \<Rightarrow> str" where
  "block_app_hash b = hdr_app_hash (bi_header (blk_block b))"

record Attribute =
  attr_key :: string
  attr_value :: string

record Event =
  event_type :: string
  event_attributes :: "Attribute list"

record Results =
  deliver_tx_results :: "Event list list option"
  end_block_result :: "Event list option"

record BlockResults =
  br_height :: string
  br_results :: Results

definition attribute_id :: "'bl TmLib \<Rightarrow> Attribute \<Rightarrow> TxId outcome" where
  "attribute_id T attribute =
     try_bind (or_kind DeserializationError (base64_decode T (attr_value attribute))) (\<lambda>decoded.
     if 32 \<noteq> length decoded then Err (Failed DeserializationError) else Ok decoded)"

definition event_ids :: "'bl TmLib \<Rightarrow> Event \<Rightarrow> TxId list outcome" where
  "event_ids T event =
     (if event_type event = event_type_display ValidTransactions
      then collect_result (attribute_id T) (event_attributes event) else Ok [])"

definition transaction_ids :: "'bl TmLib \<Rightarrow> BlockResults \<Rightarrow> TxId list outcome" where
  "transaction_ids T r = (case deliver_tx_results (br_results r) of
     None \<Rightarrow> Ok []
   | Some deliver_tx \<Rightarrow>
       try_bind (collect_result (event_ids T) (concat deliver_tx)) (\<lambda>ids. Ok (concat ids)))"

fun filter_from_events :: "'bl TmLib \<Rightarrow> Event list \<Rightarrow> 'bl BlockFilter outcome" where
  "filter_from_events T [] = Ok (filter_default (tm_bloom T))"
| "filter_from_events T (event # events) =
     (if event_type event = event_type_display BlockFilterEvent
      then case event_attributes event of
          [] \<Rightarrow> Err (Panicked ''index out of bounds'')
        | attribute # _ \<Rightarrow>
            try_bind (or_kind DeserializationError (base64_decode T (attr_value attribute))) (\<lambda>decoded.
            with_context DeserializationError (filter_try_from (tm_bloom T) decoded))
      else filter_from_events T events)"

definition block_filter :: "'bl TmLib \<Rightarrow> BlockResults \<Rightarrow> 'bl BlockFilter outcome" where
  "block_filter T r = (case end_block_result (br_results r) of
     None \<Rightarrow> Ok (filter_default (tm_bloom T))
   | Some events \<Rightarrow> filter_from_events T events)"

record SyncInfo =
  latest_block_height :: string
  latest_app_hash :: str

record Status =
  sync_info :: SyncInfo

definition status_height :: "Status \<Rightarrow> u64 outcome" where
  "status_height st = or_kind DeserializationError (parse_u64 (latest_block_height (sync_info st)))"

definition status_app_hash :: "Status \<Rightarrow> str" where
  "status_app_hash st = latest_app_hash (sync_info st)"

record GenesisInner =
  gen_time :: DateTime
  gen_chain_id :: str
  gen_app_state :: InitConfig

definition genesis_time :: "GenesisInner \<Rightarrow> DateTime" where
  "genesis_time g = gen_time g"

definition fee_policy :: "GenesisInner \<Rightarrow> LinearFee" where
  "fee_policy g = initial_fee_policy (network_params (gen_app_state g))"

record QueryResult =
  response_value :: string

definition query_bytes :: "'bl TmLib \<Rightarrow> QueryResult \<Rightarrow> bytes outcome" where
  "query_bytes T q = or_kind DeserializationError (base64_decode T (response_value q))"

record BroadcastTxResult =
  btr_code :: u8
  btr_data :: string
  btr_hash :: string
  btr_log :: string

section \<open>The interface of a node\<close>

record TmClient =
  tm_genesis :: "nat \<Rightarrow> GenesisInner outcome"
  tm_status :: "nat \<Rightarrow> Status outcome"
  tm_block :: "u64 \<Rightarrow> nat \<Rightarrow> Block outcome"
  tm_block_batch :: "u64 list \<Rightarrow> nat \<Rightarrow> Block list outcome"
  tm_block_results :: "u64 \<Rightarrow> nat \<Rightarrow> BlockResults outcome"
  tm_block_results_batch :: "u64 list \<Rightarrow> nat \<Rightarrow> BlockResults list outcome"
  tm_broadcast_transaction :: "bytes \<Rightarrow> nat \<Rightarrow> BroadcastTxResult outcome"
  tm_query :: "string \<Rightarrow> bytes \<Rightarrow> nat \<Rightarrow> QueryResult outcome"

text \<open>
  The JSON-RPC client.  The library sends one request or a batch and hands out the result of a
  response in the type the caller asks for.
\<close>

datatype JsonValue = JsonText string | JsonBytes bytes | JsonNull

type_synonym request = "string \<times> JsonValue list"

record ('r, 'e) RpcLib =
  send_request :: "nat \<Rightarrow> request \<Rightarrow> 'e + 'r"
  send_batch :: "nat \<Rightarrow> request list \<Rightarrow> 'e + 'r option list"
  as_genesis :: "'r \<Rightarrow> 'e + GenesisInner"
  as_status :: "'r \<Rightarrow> 'e + Status"
  as_block :: "'r \<Rightarrow> 'e + Block"
  as_block_results :: "'r \<Rightarrow> 'e + BlockResults"
  as_broadcast :: "'r \<Rightarrow> 'e + BroadcastTxResult"
  as_query :: "'r \<Rightarrow> 'e + QueryResult"
  hex_encode :: "bytes \<Rightarrow> string"

definition rpc_call :: "('r, 'e) RpcLib \<Rightarrow> ('r \<Rightarrow> 'e + 'a) \<Rightarrow> string \<Rightarrow> JsonValue list \<Rightarrow> nat \<Rightarrow> 'a outcome" where
  "rpc_call R as name params t =
     try_bind (with_context RpcError (send_request R t (name, params))) (\<lambda>response.
     with_context RpcError (as response))"

definition rpc_call_batch :: "('r, 'e) RpcLib \<Rightarrow> ('r \<Rightarrow> 'e + 'a) \<Rightarrow> request list \<Rightarrow> nat \<Rightarrow> 'a option list outcome" where
  "rpc_call_batch R as params t = (case params of
     [] \<Rightarrow> Ok []
   | [(name, ps)] \<Rightarrow> try_bind (rpc_call R as name ps t) (\<lambda>value. Ok [Some value])
   | _ \<Rightarrow>
       try_bind (with_context RpcError (send_batch R t params)) (\<lambda>responses.
       collect_result (transposed (\<lambda>inner. with_context RpcError (as inner))) responses))"

definition rpc_genesis :: "('r, 'e) RpcLib \<Rightarrow> nat \<Rightarrow> GenesisInner outcome" where
  "rpc_genesis R = rpc_call R (as_genesis R) ''genesis'' []"

definition rpc_status :: "('r, 'e) RpcLib \<Rightarrow> nat \<Rightarrow> Status outcome" where
  "rpc_status R = rpc_call R (as_status R) ''status'' []"

definition rpc_block :: "('r, 'e) RpcLib \<Rightarrow> u64 \<Rightarrow> nat \<Rightarrow> Block outcome" where
  "rpc_block R height = rpc_call R (as_block R) ''block'' [JsonText (u64_to_string height)]"

definition rpc_block_batch :: "('r, 'e) RpcLib \<Rightarrow> u64 list \<Rightarrow> nat \<Rightarrow> Block list outcome" where
  "rpc_block_batch R heights t =
     (let params = map (\<lambda>height. (''block'', [JsonText (u64_to_string height)])) heights
      in try_bind (rpc_call_batch R (as_block R) params t) (collect_result (or_kind RpcError)))"

definition rpc_block_results :: "('r, 'e) RpcLib \<Rightarrow> u64 \<Rightarrow> nat \<Rightarrow> BlockResults outcome" where
  "rpc_block_results R height = rpc_call R (as_block_results R) ''block_results'' [JsonText (u64_to_string height)]"

definition rpc_block_results_batch :: "('r, 'e) RpcLib \<Rightarrow> u64 list \<Rightarrow> nat \<Rightarrow> BlockResults list outcome" where
  "rpc_block_results_batch R heights t =
     (let params = map (\<lambda>height. (''block_results'', [JsonText (u64_to_string height)])) heights
      in try_bind (rpc_call_batch R (as_block_results R) params t) (collect_result (or_kind RpcError)))"

definition rpc_broadcast_transaction :: "('r, 'e) RpcLib \<Rightarrow> bytes \<Rightarrow> nat \<Rightarrow> BroadcastTxResult outcome" where
  "rpc_broadcast_transaction R transaction t =
     try_bind (rpc_call R (as_broadcast R) ''broadcast_tx_sync'' [JsonBytes transaction] t) (\<lambda>result.
     if btr_code result \<noteq> 0 then Err (Failed TransactionValidationFailed) else Ok result)"

definition rpc_query :: "('r, 'e) RpcLib \<Rightarrow> string \<Rightarrow> bytes \<Rightarrow> nat \<Rightarrow> QueryResult outcome" where
  "rpc_query R path data = rpc_call R (as_query R) ''abci_query'' [JsonText path, JsonText (hex_encode R data), JsonNull, JsonNull]"

definition rpc_client :: "('r, 'e) RpcLib \<Rightarrow> TmClient" where
  "rpc_client R = \<lparr> tm_genesis = rpc_genesis R, tm_status = rpc_status R, tm_block = rpc_block R,
     tm_block_batch = rpc_block_batch R, tm_block_results = rpc_block_results R,
     tm_block_results_batch = rpc_block_results_batch R,
     tm_broadcast_transaction = rpc_broadcast_transaction R,
     tm_query = rpc_query R \<rparr>"

section \<open>Encryption and decryption by others\<close>

record Obfuscation =
  ob_decrypt :: "TxId list \<Rightarrow> PrivateKey \<Rightarrow> nat \<Rightarrow> Transaction list outcome"
  ob_encrypt :: "SignedTransaction \<Rightarrow> nat \<Rightarrow> TxAux outcome"

definition of_panic :: "panic + 'a \<Rightarrow> 'a outcome" where
  "of_panic r = map_err (\<lambda>p. case p of Panic msg \<Rightarrow> Panicked msg) r"

definition transaction_of_two :: "TxWithOutputs \<Rightarrow> Transaction" where
  "transaction_of_two tx = (case tx of
     Transfer t \<Rightarrow> TransferTransaction t
   | StakeWithdraw t \<Rightarrow> WithdrawUnbondedStakeTransaction t)"

definition decryption_request :: "ClientLib \<Rightarrow> TxId list \<Rightarrow> H256 \<Rightarrow> PrivateKey \<Rightarrow> bytes outcome" where
  "decryption_request L ids challenge private_key =
     try_bind (of_panic (decryption_request_create (cl_ext L) (cl_scale L) (cl_request L) ids challenge private_key)) (\<lambda>request.
     Ok (encode_decryption_request (cl_ext L) (cl_scale L) (cl_request L) request))"

definition read_decrypted :: "'bl TmLib \<Rightarrow> bytes \<Rightarrow> Transaction list outcome" where
  "read_decrypted T response = try_bind (decode_all (c_decrypted T) response) (\<lambda>txs. Ok (map transaction_of_two txs))"

text \<open>\<open>MockAbciTransactionObfuscation\<close> asks the node.\<close>

definition mock_encrypt_request ::
    "ClientLib \<Rightarrow> 'bl TmLib \<Rightarrow> StakedState codec \<Rightarrow> TmClient \<Rightarrow> EncryptionRequest \<Rightarrow> nat \<Rightarrow> TxAux outcome" where
  "mock_encrypt_request L T c_state C request t =
     try_bind (tm_query C ''mockencrypt'' (encode_encryption_request (cl_scale L) c_state request) t) (\<lambda>result.
     try_bind (query_bytes T result) (\<lambda>response.
     decode_all \<lparr> enc = encode_txaux (cl_scale L), dec = decode_txaux (cl_scale L) \<rparr> response))"

definition mock_abci_decrypt ::
    "ClientLib \<Rightarrow> 'bl TmLib \<Rightarrow> TmClient \<Rightarrow> TxId list \<Rightarrow> PrivateKey \<Rightarrow> nat \<Rightarrow> Transaction list outcome" where
  "mock_abci_decrypt L T C ids private_key t =
     try_bind (decryption_request L ids (replicate 32 0) private_key) (\<lambda>request.
     try_bind (tm_query C ''mockdecrypt'' request t) (\<lambda>result.
     try_bind (query_bytes T result) (read_decrypted T)))"

definition mock_abci_encrypt ::
    "ClientLib \<Rightarrow> 'bl TmLib \<Rightarrow> StakedState codec \<Rightarrow> TmClient \<Rightarrow> SignedTransaction \<Rightarrow> nat \<Rightarrow> TxAux outcome" where
  "mock_abci_encrypt L T c_state C transaction t = (case transaction of
     SignedTransfer tx witness \<Rightarrow> mock_encrypt_request L T c_state C (EncTransferTx tx witness) t
   | SignedDeposit tx witness \<Rightarrow> mock_encrypt_request L T c_state C (EncDepositStake tx witness) t
   | SignedUnbond tx witness \<Rightarrow> Ok (UnbondStakeTx tx witness)
   | SignedWithdraw tx state witness \<Rightarrow> mock_encrypt_request L T c_state C (EncWithdrawStake tx state witness) t)"

definition mock_abci :: "ClientLib \<Rightarrow> 'bl TmLib \<Rightarrow> StakedState codec \<Rightarrow> TmClient \<Rightarrow> Obfuscation" where
  "mock_abci L T c_state C = \<lparr> ob_decrypt = mock_abci_decrypt L T C, ob_encrypt = mock_abci_encrypt L T c_state C \<rparr>"

text \<open>
  \<open>DefaultTransactionObfuscation\<close> talks to the query enclave over TLS: the enclave sends a challenge,
  the client answers with the signed request and reads until the connection is closed.
\<close>

record TlsLib =
  dns_name_ok :: "str \<Rightarrow> bool"
  tcp_connect :: "nat \<Rightarrow> str \<Rightarrow> bool"
  tls_read_challenge :: "nat \<Rightarrow> H256 option"
  tls_write :: "nat \<Rightarrow> bytes \<Rightarrow> bool"
  tls_read_to_end :: "nat \<Rightarrow> bytes \<Rightarrow> bytes option"

definition tdqe_decrypt ::
    "ClientLib \<Rightarrow> 'bl TmLib \<Rightarrow> TlsLib \<Rightarrow> str \<Rightarrow> str \<Rightarrow> TxId list \<Rightarrow> PrivateKey \<Rightarrow> nat \<Rightarrow> Transaction list outcome" where
  "tdqe_decrypt L T N tdqe_address tdqe_hostname ids private_key t =
     (if \<not> dns_name_ok N tdqe_hostname then Err (Failed WebpkiFailure)
      else if \<not> tcp_connect N t tdqe_address then Err (Failed TDQEConnectionError)
      else try_bind (or_kind TDQEConnectionError (tls_read_challenge N t)) (\<lambda>challenge.
           try_bind (decryption_request L ids challenge private_key) (\<lambda>request.
           if \<not> tls_write N t request then Err (Failed TDQEConnectionError)
           else case tls_read_to_end N t request of
             Some plaintext \<Rightarrow> read_decrypted T plaintext
           | None \<Rightarrow> Err (Failed TDQEConnectionError))))"

definition tdqe :: "ClientLib \<Rightarrow> 'bl TmLib \<Rightarrow> TlsLib \<Rightarrow> str \<Rightarrow> str \<Rightarrow> Obfuscation" where
  "tdqe L T N tdqe_address tdqe_hostname = \<lparr> ob_decrypt = tdqe_decrypt L T N tdqe_address tdqe_hostname,
     ob_encrypt = (\<lambda>_ _. Err (Panicked ''not yet implemented'')) \<rparr>"

end
