(* ===== verification/Client_Sync.thy ===== *)
theory Client_Sync
  imports Client_Ledger Tendermint_Client
begin

text \<open>
  Synchronisation of the index with the chain: \<open>client-common/src/block_header.rs\<close>,
  \<open>client-index/src/handler/default_block_handler.rs\<close> and \<open>client-index/src/synchronizer.rs\<close>.  The
  synchroniser fetches blocks in batches and skips blocks when the application hash shows that nothing
  happened.  The theory shows that, with a node that serves one chain, a synchronisation returns and
  leaves the index of all the transactions the wallet can see, and that a transaction counts once
  however often blocks are repeated.
\<close>

section \<open>Block handler\<close>

record 'bl BlockHeader =
  bh_app_hash :: str
  bh_block_height :: u64
  bh_block_time :: DateTime
  bh_transaction_ids :: "TxId list"
  bh_block_filter :: "'bl BlockFilter"
  bh_unencrypted_transactions :: "Transaction list"

definition on_transaction :: "IndexLib \<Rightarrow> 's Storage \<Rightarrow> Transaction \<Rightarrow> u64 \<Rightarrow> DateTime \<Rightarrow> ('s, unit) action" where
  "on_transaction I S transaction block_height block_time =
     act_bind (ts_set I S transaction) (\<lambda>_. transaction_on_next I S transaction block_height block_time)"

definition block_on_next ::
    "IndexLib \<Rightarrow> 'bl TmLib \<Rightarrow> Obfuscation \<Rightarrow> 's Storage \<Rightarrow> 'bl BlockHeader \<Rightarrow> PublicKey \<Rightarrow> PrivateKey \<Rightarrow> ('s, unit) action" where
  "block_on_next I T O1 S header vk private_key =
     act_bind (act_each (\<lambda>transaction.
         if transaction_id (il_ext I) transaction \<in> set (bh_transaction_ids header)
         then on_transaction I S transaction (bh_block_height header) (bh_block_time header)
         else act_pure (Ok ())) (bh_unencrypted_transactions header)) (\<lambda>_.
     act_bind (if check_view_key (il_ext I) (tm_bloom T) (bh_block_filter header) vk
         then act_bind (act_ask (ob_decrypt O1 (bh_transaction_ids header) private_key)) (\<lambda>transactions.
              act_bind (act_each (\<lambda>transaction.
                on_transaction I S transaction (bh_block_height header) (bh_block_time header)) transactions) (\<lambda>_.
              act_pure (Ok ())))
         else act_pure (Ok ())) (\<lambda>_.
     set_global_state I S vk (bh_block_height header) (bh_app_hash header)))"

section \<open>Synchroniser\<close>

definition DEFAULT_BATCH_SIZE :: nat where "DEFAULT_BATCH_SIZE = 20"

text \<open>What a synchroniser and its block handler are made of; \<open>it_chunks\<close> is the adaptor of the iterator library.\<close>

record 'bl Sync =
  sy_index :: IndexLib
  sy_lib :: "'bl TmLib"
  sy_cipher :: Obfuscation
  sy_client :: TmClient
  it_chunks :: "nat \<Rightarrow> u64 list \<Rightarrow> u64 list list"

fun any_address :: "'bl TmLib \<Rightarrow> 'bl BlockFilter \<Rightarrow> StakedStateAddress list \<Rightarrow> bool" where
  "any_address T f [] \<longleftrightarrow> False"
| "any_address T f (staking_address # rest) \<longleftrightarrow>
     (if check_staked_state_address (tm_bloom T) f staking_address then True else any_address T f rest)"

definition check_unencrypted_transactions ::
    "'bl Sync \<Rightarrow> 'bl BlockFilter \<Rightarrow> StakedStateAddress list \<Rightarrow> Block \<Rightarrow> Transaction list outcome" where
  "check_unencrypted_transactions Y f staking_addresses block =
     (if any_address (sy_lib Y) f staking_addresses
      then unencrypted_transactions (il_client (sy_index Y)) (sy_lib Y) block else Ok [])"

definition prepare_block_header ::
    "'bl Sync \<Rightarrow> StakedStateAddress list \<Rightarrow> Block \<Rightarrow> BlockResults \<Rightarrow> 'bl BlockHeader outcome" where
  "prepare_block_header Y staking_addresses block block_result =
     try_bind (block_height_of block) (\<lambda>height.
     try_bind (transaction_ids (sy_lib Y) block_result) (\<lambda>ids.
     try_bind (block_filter (sy_lib Y) block_result) (\<lambda>f.
     try_bind (check_unencrypted_transactions Y f staking_addresses block) (\<lambda>unencrypted.
     Ok \<lparr> bh_app_hash = block_app_hash block, bh_block_height = height, bh_block_time = block_time_of block,
          bh_transaction_ids = ids, bh_block_filter = f, bh_unencrypted_transactions = unencrypted \<rparr>))))"

text \<open>Handing one block to the block handler.\<close>

definition feed ::
    "'bl Sync \<Rightarrow> 's Storage \<Rightarrow> StakedStateAddress list \<Rightarrow> PublicKey \<Rightarrow> PrivateKey \<Rightarrow> Block \<Rightarrow> BlockResults \<Rightarrow> ('s, unit) action" where
  "feed Y S staking_addresses vk private_key block block_result =
     act_bind (act_pure (prepare_block_header Y staking_addresses block block_result)) (\<lambda>header.
     block_on_next (sy_index Y) (sy_lib Y) (sy_cipher Y) S header vk private_key)"

definition fast_forward_status ::
    "'bl Sync \<Rightarrow> 's Storage \<Rightarrow> StakedStateAddress list \<Rightarrow> PublicKey \<Rightarrow> PrivateKey \<Rightarrow> Status \<Rightarrow> ('s, bool) action" where
  "fast_forward_status Y S staking_addresses vk private_key status =
     act_bind (act_read (gs_last_hash (sy_index Y) S vk)) (\<lambda>last_app_hash.
     if status_app_hash status = last_app_hash
     then act_bind (act_pure (status_height status)) (\<lambda>current_block_height.
          act_bind (act_ask (tm_block (sy_client Y) current_block_height)) (\<lambda>block.
          act_bind (act_ask (tm_block_results (sy_client Y) current_block_height)) (\<lambda>block_result.
          act_bind (feed Y S staking_addresses vk private_key block block_result) (\<lambda>_. act_pure (Ok True)))))
     else act_pure (Ok False))"

definition fast_forward_block ::
    "'bl Sync \<Rightarrow> 's Storage \<Rightarrow> StakedStateAddress list \<Rightarrow> PublicKey \<Rightarrow> PrivateKey \<Rightarrow> Block \<Rightarrow> ('s, bool) action" where
  "fast_forward_block Y S staking_addresses vk private_key block =
     act_bind (act_read (gs_last_hash (sy_index Y) S vk)) (\<lambda>last_app_hash.
     if block_app_hash block = last_app_hash
     then act_bind (act_pure (block_height_of block)) (\<lambda>current_block_height.
          act_bind (act_ask (tm_block_results (sy_client Y) current_block_height)) (\<lambda>block_result.
          act_bind (feed Y S staking_addresses vk private_key block block_result) (\<lambda>_. act_pure (Ok True))))
     else act_pure (Ok False))"

text \<open>
  The two loops.  The answer tells whether the synchronisation is finished (an early \<open>return Ok(())\<close>).
  Progress reports are messages to a channel whose errors are ignored; a report for a block reads its height.
\<close>

fun sync_blocks ::
    "'bl Sync \<Rightarrow> 's Storage \<Rightarrow> StakedStateAddress list \<Rightarrow> PublicKey \<Rightarrow> PrivateKey \<Rightarrow> bool \<Rightarrow> Status \<Rightarrow>
       (Block \<times> BlockResults) list \<Rightarrow> ('s, bool) action" where
  "sync_blocks Y S staking_addresses vk private_key report status [] = act_pure (Ok False)"
| "sync_blocks Y S staking_addresses vk private_key report status ((block, block_result) # rest) =
     act_bind (fast_forward_status Y S staking_addresses vk private_key status) (\<lambda>finished.
     if finished then act_pure (Ok True)
     else act_bind (feed Y S staking_addresses vk private_key block block_result) (\<lambda>_.
          act_bind (if report then act_pure (try_bind (block_height_of block) (\<lambda>_. Ok ())) else act_pure (Ok ())) (\<lambda>_.
          sync_blocks Y S staking_addresses vk private_key report status rest)))"

fun sync_chunks ::
    "'bl Sync \<Rightarrow> 's Storage \<Rightarrow> StakedStateAddress list \<Rightarrow> PublicKey \<Rightarrow> PrivateKey \<Rightarrow> bool \<Rightarrow> Status \<Rightarrow>
       u64 list list \<Rightarrow> ('s, unit) action" where
  "sync_chunks Y S staking_addresses vk private_key report status [] = act_pure (Ok ())"
| "sync_chunks Y S staking_addresses vk private_key report status (heights # chunks) =
     act_bind (fast_forward_status Y S staking_addresses vk private_key status) (\<lambda>finished.
     if finished then act_pure (Ok ())
     else
       act_bind (act_ask (tm_block_batch (sy_client Y) heights)) (\<lambda>blocks.
       if blocks = [] then act_pure (Err (Panicked ''index out of bounds''))
       else
         act_bind (fast_forward_block Y S staking_addresses vk private_key (last blocks)) (\<lambda>skipped.
         if skipped then sync_chunks Y S staking_addresses vk private_key report status chunks
         else
           act_bind (act_ask (tm_block_results_batch (sy_client Y) heights)) (\<lambda>block_results.
           act_bind (sync_blocks Y S staking_addresses vk private_key report status (zip blocks block_results)) (\<lambda>finished.
           if finished then act_pure (Ok ())
           else sync_chunks Y S staking_addresses vk private_key report status chunks)))))"

text \<open>\<open>a..=b\<close> on \<open>u64\<close>; \<open>chunks(0)\<close> panics.\<close>

definition height_range :: "u64 \<Rightarrow> u64 \<Rightarrow> u64 list" where
  "height_range a b = map of_nat [unat a ..< Suc (unat b)]"

definition sync ::
    "'bl Sync \<Rightarrow> 's Storage \<Rightarrow> StakedStateAddress list \<Rightarrow> PublicKey \<Rightarrow> PrivateKey \<Rightarrow> nat option \<Rightarrow> bool \<Rightarrow> ('s, unit) action" where
  "sync Y S staking_addresses vk private_key batch_size report =
     act_bind (act_ask (tm_status (sy_client Y))) (\<lambda>status.
     act_bind (act_read (gs_last_height (sy_index Y) S vk)) (\<lambda>last_block_height.
     act_bind (act_pure (status_height status)) (\<lambda>current_block_height.
     let size = (case batch_size of None \<Rightarrow> DEFAULT_BATCH_SIZE | Some n \<Rightarrow> n)
     in if size = 0 then act_pure (Err (Panicked ''assertion failed: size != 0''))
        else sync_chunks Y S staking_addresses vk private_key report status
               (it_chunks Y size (height_range (last_block_height + 1) current_block_height)))))"

definition sync_all ::
    "'bl Sync \<Rightarrow> 's Storage \<Rightarrow> StakedStateAddress list \<Rightarrow> PublicKey \<Rightarrow> PrivateKey \<Rightarrow> nat option \<Rightarrow> bool \<Rightarrow> ('s, unit) action" where
  "sync_all Y S staking_addresses vk private_key batch_size report =
     act_bind (set_global_state (sy_index Y) S vk 0 []) (\<lambda>_.
     sync Y S staking_addresses vk private_key batch_size report)"

section \<open>One chain behind the answers\<close>

text \<open>
  A node that serves one chain: the blocks \<open>blk n\<close> with their results \<open>res n\<close>, up to the height \<open>H\<close>.
\<close>

definition serves :: "TmClient \<Rightarrow> (nat \<Rightarrow> Block) \<Rightarrow> (nat \<Rightarrow> BlockResults) \<Rightarrow> nat \<Rightarrow> bool" where
  "serves C blk res H \<longleftrightarrow> H < 2 ^ 64 - 1 \<and>
     (\<forall>t. \<exists>st. tm_status C t = Ok st \<and> status_height st = Ok (of_nat H) \<and> status_app_hash st = block_app_hash (blk H)) \<and>
     (\<forall>n t. n \<le> H \<longrightarrow> tm_block C (of_nat n) t = Ok (blk n) \<and> tm_block_results C (of_nat n) t = Ok (res n) \<and>
        block_height_of (blk n) = Ok (of_nat n)) \<and>
     (\<forall>ns t. (\<forall>n \<in> set ns. n \<le> H) \<longrightarrow> tm_block_batch C (map of_nat ns) t = Ok (map blk ns) \<and>
        tm_block_results_batch C (map of_nat ns) t = Ok (map res ns))"

text \<open>What the wallet reads in each block: its header, and the transactions the cipher opens.\<close>

definition readable ::
    "'bl Sync \<Rightarrow> StakedStateAddress list \<Rightarrow> PublicKey \<Rightarrow> PrivateKey \<Rightarrow> (nat \<Rightarrow> Block) \<Rightarrow> (nat \<Rightarrow> BlockResults) \<Rightarrow> nat \<Rightarrow>
       (nat \<Rightarrow> 'bl BlockHeader) \<Rightarrow> (nat \<Rightarrow> Transaction list) \<Rightarrow> bool" where
  "readable Y addrs vk sk blk res H hdr opened \<longleftrightarrow> (\<forall>n. 0 < n \<and> n \<le> H \<longrightarrow>
     prepare_block_header Y addrs (blk n) (res n) = Ok (hdr n) \<and>
     (check_view_key (il_ext (sy_index Y)) (tm_bloom (sy_lib Y)) (bh_block_filter (hdr n)) vk \<longrightarrow>
        (\<forall>t. ob_decrypt (sy_cipher Y) (bh_transaction_ids (hdr n)) sk t = Ok (opened n)) \<and>
        (\<forall>tr \<in> set (opened n). transaction_id (il_ext (sy_index Y)) tr \<in> set (bh_transaction_ids (hdr n)))))"

text \<open>
  The application hash in a header is the one before the block: it is never empty, and two headers
  carry the same one only when no block from the first to the one before the second has a transaction.
\<close>

definition hash_moves :: "(nat \<Rightarrow> 'bl BlockHeader) \<Rightarrow> nat \<Rightarrow> bool" where
  "hash_moves hdr H \<longleftrightarrow> (\<forall>n. 0 < n \<and> n \<le> H \<longrightarrow> bh_app_hash (hdr n) \<noteq> []) \<and>
     (\<forall>m k n. 0 < m \<and> m \<le> k \<and> k < n \<and> n \<le> H \<and> bh_app_hash (hdr m) = bh_app_hash (hdr n) \<longrightarrow>
        bh_transaction_ids (hdr k) = [])"

definition chunk_laws :: "'bl Sync \<Rightarrow> bool" where
  "chunk_laws Y \<longleftrightarrow> (\<forall>n xs. 0 < n \<longrightarrow> concat (it_chunks Y n xs) = xs \<and> [] \<notin> set (it_chunks Y n xs))"

definition seen_in ::
    "'bl Sync \<Rightarrow> PublicKey \<Rightarrow> (nat \<Rightarrow> 'bl BlockHeader) \<Rightarrow> (nat \<Rightarrow> Transaction list) \<Rightarrow> nat \<Rightarrow> Transaction list" where
  "seen_in Y vk hdr opened n =
     filter (\<lambda>t. transaction_id (il_ext (sy_index Y)) t \<in> set (bh_transaction_ids (hdr n))) (bh_unencrypted_transactions (hdr n)) @
     (if check_view_key (il_ext (sy_index Y)) (tm_bloom (sy_lib Y)) (bh_block_filter (hdr n)) vk then opened n else [])"

definition seen_upto ::
    "'bl Sync \<Rightarrow> PublicKey \<Rightarrow> (nat \<Rightarrow> 'bl BlockHeader) \<Rightarrow> (nat \<Rightarrow> Transaction list) \<Rightarrow> nat \<Rightarrow> Transaction list" where
  "seen_upto Y vk hdr opened n = concat (map (seen_in Y vk hdr opened) [1 ..< Suc n])"

definition ledger_upto ::
    "'bl Sync \<Rightarrow> PublicKey \<Rightarrow> (nat \<Rightarrow> 'bl BlockHeader) \<Rightarrow> (nat \<Rightarrow> Transaction list) \<Rightarrow> nat \<Rightarrow> Ledger" where
  "ledger_upto Y vk hdr opened n = fold (ledger_next (il_ext (sy_index Y))) (seen_upto Y vk hdr opened n) ledger_empty"

lemma accepts_all_append:
  "accepts_all I L (xs @ ys) \<longleftrightarrow> accepts_all I L xs \<and> accepts_all I (fold (ledger_next (il_ext I)) xs L) ys"
  by (induction xs arbitrary: L) auto

lemma seen_upto_between:
  "m \<le> n \<Longrightarrow> seen_upto Y vk hdr opened n = seen_upto Y vk hdr opened m @ concat (map (seen_in Y vk hdr opened) [Suc m ..< Suc n])"
proof -
  assume "m \<le> n"
  then obtain k where "n = m + k" using le_Suc_ex by blast
  then have "[1 ..< Suc n] = [1 ..< Suc m] @ [Suc m ..< Suc n]" using upt_add_eq_append [of 1 "Suc m" k] by simp
  then show ?thesis by (simp add: seen_upto_def del: upt_Suc)
qed

lemma concat_map_split:
  "concat cs = map f xs \<Longrightarrow> \<exists>ns. cs = map (map f) ns \<and> concat ns = xs"
proof (induction cs arbitrary: xs)
  case (Cons c cs)
  then have "map f xs = c @ concat cs" by simp
  then obtain us vs where "xs = us @ vs" "c = map f us" "concat cs = map f vs" by (auto simp: map_eq_append_conv)
  moreover from Cons.IH [OF this(3)] obtain ns where "cs = map (map f) ns" "concat ns = vs" by blast
  ultimately show ?case by (intro exI [of _ "us # ns"]) simp
qed simp

context client_storage
begin

lemma index_at_frame:
  assumes "index_at I L s" "healthy s'" "view s' TRANSACTION_KEYSPACE = view s TRANSACTION_KEYSPACE"
    and "view s' ADDRESS_KEYSPACE = view s ADDRESS_KEYSPACE"
  shows "index_at I L s'"
  using assms by (simp add: index_at_def transactions_at_def details_match_def details_at_def)

lemma on_transaction_at:
  assumes "index_laws I" "index_at I L (store w)" "ledger_accepts I L t"
  shows "\<exists>w'. on_transaction I S t h bt w = (w', Ok ()) \<and> index_at I (ledger_next (il_ext I) t L) (store w') \<and>
    view (store w') GLOBAL_STATE_KEYSPACE = view (store w) GLOBAL_STATE_KEYSPACE"
proof -
  have at: "ledger_wf L" "transactions_at I (l_known L) (store w)" "details_match I L (store w)"
    using assms(2) by (simp_all add: index_at_def)
  have st: "storable I t" using assms(3) by (simp add: ledger_accepts_def Let_def)
  from ts_set_at [OF at(2) st] obtain w1 where w1: "ts_set I S t w = (w1, Ok ())"
    "transactions_at I ((l_known L)(transaction_id (il_ext I) t \<mapsto> t)) (store w1)"
    "\<forall>ks. ks \<noteq> TRANSACTION_KEYSPACE \<longrightarrow> view (store w1) ks = view (store w) ks"
    by blast
  from ts_set_at [OF w1(2) st] obtain w2 where w2: "ts_set I S t w1 = (w2, Ok ())"
    "transactions_at I ((l_known L)(transaction_id (il_ext I) t \<mapsto> t)) (store w2)"
    "\<forall>ks. ks \<noteq> TRANSACTION_KEYSPACE \<longrightarrow> view (store w2) ks = view (store w1) ks"
    by auto
  have "details_match I L (store w2)" using at(3) w1(3) w2(3) by (simp add: details_match_def details_at_def)
  from handle_all_at [OF assms(1) at(1) assms(3) w2(2) this, of h bt] obtain w' where
    "handle_all I S t h bt w2 = (w', Ok ())" "index_at I (ledger_next (il_ext I) t L) (store w')"
    "\<forall>ks. ks \<noteq> ADDRESS_KEYSPACE \<longrightarrow> view (store w') ks = view (store w2) ks"
    by blast
  with w1(1,3) w2(1,3) show ?thesis
    by (simp add: on_transaction_def on_next_pipeline [OF assms(1)] act_bind.simps)
qed

lemma on_transactions_at:
  assumes "index_laws I"
  shows "\<lbrakk> index_at I L (store w); accepts_all I L (filter P ts) \<rbrakk> \<Longrightarrow>
    \<exists>w' ys. act_each (\<lambda>t. if P t then on_transaction I S t h bt else act_pure (Ok ())) ts w = (w', Ok ys) \<and>
      index_at I (fold (ledger_next (il_ext I)) (filter P ts) L) (store w') \<and>
      view (store w') GLOBAL_STATE_KEYSPACE = view (store w) GLOBAL_STATE_KEYSPACE"
proof (induction ts arbitrary: L w)
  case (Cons t ts)
  let ?f = "\<lambda>t. if P t then on_transaction I S t h bt else act_pure (Ok ())"
  show ?case
  proof (cases "P t")
    case True
    then obtain w1 where w1: "on_transaction I S t h bt w = (w1, Ok ())"
      "index_at I (ledger_next (il_ext I) t L) (store w1)"
      "view (store w1) GLOBAL_STATE_KEYSPACE = view (store w) GLOBAL_STATE_KEYSPACE"
      using on_transaction_at [OF assms Cons.prems(1)] Cons.prems(2) by fastforce
    obtain w' ys where "act_each ?f ts w1 = (w', Ok ys)"
      "index_at I (fold (ledger_next (il_ext I)) (filter P ts) (ledger_next (il_ext I) t L)) (store w')"
      "view (store w') GLOBAL_STATE_KEYSPACE = view (store w1) GLOBAL_STATE_KEYSPACE"
      using Cons.IH [OF w1(2)] Cons.prems(2) True by auto
    then show ?thesis using w1 True by (simp add: act_bind.simps)
  next
    case False
    then show ?thesis using Cons.IH [OF Cons.prems(1)] Cons.prems(2) by (auto simp: act_bind.simps)
  qed
qed simp

lemma set_global_state_at:
  assumes "index_laws I" "index_at I L (store w)"
  shows "\<exists>w'. set_global_state I S vk h a w = (w', Ok ()) \<and> index_at I L (store w') \<and>
    gs_last_height I S vk (store w') = Ok h \<and> gs_last_hash I S vk (store w') = Ok a"
proof -
  let ?g = "\<lparr> gs_last_block_height = h, gs_last_app_hash = a \<rparr>"
  have "healthy (store w)" using assms(2) by (simp add: index_at_def transactions_at_def)
  from set_view [OF this, of GLOBAL_STATE_KEYSPACE "gs_key I vk" "enc (global_state_codec I) ?g"]
  obtain s' where s': "st_set S GLOBAL_STATE_KEYSPACE (gs_key I vk) (enc (global_state_codec I) ?g) (store w) =
      (s', Ok (view (store w) GLOBAL_STATE_KEYSPACE (gs_key I vk)))" "healthy s'"
    "view s' = (view (store w))(GLOBAL_STATE_KEYSPACE := (view (store w) GLOBAL_STATE_KEYSPACE)
      (gs_key I vk \<mapsto> enc (global_state_codec I) ?g))" by blast
  have "set_global_state I S vk h a w = (w\<lparr> store := s' \<rparr>, Ok ())"
    using s'(1) by (simp add: set_global_state_def act_bind.simps act_write_def)
  moreover have "index_at I L s'" by (rule index_at_frame [OF assms(2) s'(2)]) (simp_all add: s'(3))
  moreover have "gs_last_height I S vk s' = Ok h" "gs_last_hash I S vk s' = Ok a"
    using s'(2,3) reads_back_nil [OF global_state_codec_ok [OF assms(1)], of ?g]
    by (simp_all add: gs_last_height_def gs_last_hash_def get_view decode_all_def)
  ultimately show ?thesis by (intro exI [of _ "w\<lparr> store := s' \<rparr>"]) simp
qed

lemma block_on_next_at:
  assumes "index_laws I" "index_at I L (store w)"
    and "ts = filter (\<lambda>t. transaction_id (il_ext I) t \<in> set (bh_transaction_ids b)) (bh_unencrypted_transactions b) @
      (if check_view_key (il_ext I) (tm_bloom T) (bh_block_filter b) vk then ds else [])"
    and "check_view_key (il_ext I) (tm_bloom T) (bh_block_filter b) vk \<Longrightarrow> \<forall>t. ob_decrypt O1 (bh_transaction_ids b) sk t = Ok ds"
    and "accepts_all I L ts"
  shows "\<exists>w'. block_on_next I T O1 S b vk sk w = (w', Ok ()) \<and> index_at I (fold (ledger_next (il_ext I)) ts L) (store w') \<and>
    gs_last_height I S vk (store w') = Ok (bh_block_height b) \<and> gs_last_hash I S vk (store w') = Ok (bh_app_hash b)"
proof -
  let ?h = "bh_block_height b" and ?t = "bh_block_time b" and ?P = "\<lambda>t. transaction_id (il_ext I) t \<in> set (bh_transaction_ids b)"
  let ?us = "filter ?P (bh_unencrypted_transactions b)"
  let ?L = "fold (ledger_next (il_ext I)) ?us L"
  obtain w1 ys where w1: "act_each (\<lambda>t. if ?P t then on_transaction I S t ?h ?t else act_pure (Ok ())) (bh_unencrypted_transactions b) w = (w1, Ok ys)"
    "index_at I ?L (store w1)"
    using on_transactions_at [OF assms(1,2), of ?P "bh_unencrypted_transactions b" ?h ?t] assms(3,5)
    by (auto simp: accepts_all_append)
  let ?D = "if check_view_key (il_ext I) (tm_bloom T) (bh_block_filter b) vk
    then act_bind (act_ask (ob_decrypt O1 (bh_transaction_ids b) sk)) (\<lambda>transactions.
      act_bind (act_each (\<lambda>t. on_transaction I S t ?h ?t) transactions) (\<lambda>_. act_pure (Ok ()))) else act_pure (Ok ())"
  have "\<exists>w2. ?D w1 = (w2, Ok ()) \<and> index_at I (fold (ledger_next (il_ext I)) ts L) (store w2)"
  proof (cases "check_view_key (il_ext I) (tm_bloom T) (bh_block_filter b) vk")
    case True
    have "accepts_all I ?L (filter (\<lambda>_. True) ds)" using assms(3,5) True by (simp add: accepts_all_append)
    from on_transactions_at [OF assms(1), of ?L "w1\<lparr> tick := tick w1 + 1 \<rparr>" "\<lambda>_. True" ds ?h ?t, OF _ this] w1(2)
    obtain w2 zs where "act_each (\<lambda>t. on_transaction I S t ?h ?t) ds (w1\<lparr> tick := tick w1 + 1 \<rparr>) = (w2, Ok zs)"
      "index_at I (fold (ledger_next (il_ext I)) ds ?L) (store w2)" by auto
    then show ?thesis using True assms(3,4) by (simp add: act_bind.simps)
  qed (use w1(2) assms(3) in simp)
  then obtain w2 where w2: "?D w1 = (w2, Ok ())" "index_at I (fold (ledger_next (il_ext I)) ts L) (store w2)" by blast
  show ?thesis
    using set_global_state_at [OF assms(1) w2(2), of vk ?h "bh_app_hash b"] w1(1) w2(1)
    unfolding block_on_next_def by (simp only: act_bind.simps prod.case sum.case)
qed

end

definition honest ::
    "'bl Sync \<Rightarrow> StakedStateAddress list \<Rightarrow> PublicKey \<Rightarrow> PrivateKey \<Rightarrow> (nat \<Rightarrow> Block) \<Rightarrow> (nat \<Rightarrow> BlockResults) \<Rightarrow> nat \<Rightarrow>
       (nat \<Rightarrow> 'bl BlockHeader) \<Rightarrow> (nat \<Rightarrow> Transaction list) \<Rightarrow> bool" where
  "honest Y addrs vk sk blk res H hdr opened \<longleftrightarrow> index_laws (sy_index Y) \<and> chunk_laws Y \<and> serves (sy_client Y) blk res H \<and>
     readable Y addrs vk sk blk res H hdr opened \<and> hash_moves hdr H \<and>
     accepts_all (sy_index Y) ledger_empty (seen_upto Y vk hdr opened H)"

lemma honestD:
  assumes "honest Y addrs vk sk blk res H hdr opened"
  shows "index_laws (sy_index Y)" "chunk_laws Y" "serves (sy_client Y) blk res H"
    "readable Y addrs vk sk blk res H hdr opened" "hash_moves hdr H"
    "accepts_all (sy_index Y) ledger_empty (seen_upto Y vk hdr opened H)"
  using assms by (simp_all add: honest_def)

lemma honest_header:
  assumes "honest Y addrs vk sk blk res H hdr opened" "0 < n" "n \<le> H"
  shows "prepare_block_header Y addrs (blk n) (res n) = Ok (hdr n)" "bh_app_hash (hdr n) = block_app_hash (blk n)"
    "bh_block_height (hdr n) = of_nat n" "block_height_of (blk n) = Ok (of_nat n)"
proof -
  show p: "prepare_block_header Y addrs (blk n) (res n) = Ok (hdr n)"
    using honestD(4) [OF assms(1)] assms(2,3) by (simp add: readable_def)
  show h: "block_height_of (blk n) = Ok (of_nat n)" using honestD(3) [OF assms(1)] assms(3) by (simp add: serves_def)
  show "bh_app_hash (hdr n) = block_app_hash (blk n)" "bh_block_height (hdr n) = of_nat n"
    using p h by (auto simp: prepare_block_header_def result_simps eq_commute [of _ "hdr n"])
qed

text \<open>A block without transactions shows nothing to anyone.\<close>

lemma seen_nothing:
  assumes "honest Y addrs vk sk blk res H hdr opened" "0 < n" "n \<le> H" "bh_transaction_ids (hdr n) = []"
  shows "seen_in Y vk hdr opened n = []"
proof -
  have "check_view_key (il_ext (sy_index Y)) (tm_bloom (sy_lib Y)) (bh_block_filter (hdr n)) vk \<Longrightarrow> opened n = []"
    using honestD(4) [OF assms(1), unfolded readable_def, THEN spec [of _ n]] assms(2-4) by (cases "opened n") auto
  then show ?thesis using assms(4) by (simp add: seen_in_def)
qed

lemma seen_between_nothing:
  assumes "honest Y addrs vk sk blk res H hdr opened" "m < n" "n \<le> H"
    and "0 < m" "bh_app_hash (hdr m) = bh_app_hash (hdr n)"
  shows "seen_upto Y vk hdr opened n = seen_upto Y vk hdr opened m @ seen_in Y vk hdr opened n"
proof -
  have "seen_in Y vk hdr opened k = []" if "k \<in> set [Suc m ..< n]" for k
  proof -
    have k: "0 < k" "k \<le> H" "m \<le> k" "k < n" using that assms(3) by auto
    then have "bh_transaction_ids (hdr k) = []"
      using honestD(5) [OF assms(1)] assms(3-5) unfolding hash_moves_def by blast
    then show ?thesis by (rule seen_nothing [OF assms(1) k(1,2)])
  qed
  then have "concat (map (seen_in Y vk hdr opened) [Suc m ..< n]) = []" by simp
  moreover have "[Suc m ..< Suc n] = [Suc m ..< n] @ [n]" using assms(2) by simp
  ultimately show ?thesis using seen_upto_between [of m n Y vk hdr opened] assms(2) by simp
qed

context client_storage
begin

text \<open>The index and the stored position after the first \<open>n\<close> blocks.\<close>

definition synced ::
    "'bl Sync \<Rightarrow> PublicKey \<Rightarrow> (nat \<Rightarrow> 'bl BlockHeader) \<Rightarrow> (nat \<Rightarrow> Transaction list) \<Rightarrow> nat \<Rightarrow> 's \<Rightarrow> bool" where
  "synced Y vk hdr opened n s \<longleftrightarrow> index_at (sy_index Y) (ledger_upto Y vk hdr opened n) s \<and>
     gs_last_height (sy_index Y) S vk s = Ok (of_nat n) \<and>
     gs_last_hash (sy_index Y) S vk s = Ok (if n = 0 then [] else bh_app_hash (hdr n))"

lemma feed_at:
  assumes "honest Y addrs vk sk blk res H hdr opened" "synced Y vk hdr opened m (store w)" "m < n" "n \<le> H"
    and "seen_upto Y vk hdr opened n = seen_upto Y vk hdr opened m @ seen_in Y vk hdr opened n"
  shows "\<exists>w'. feed Y S addrs vk sk (blk n) (res n) w = (w', Ok ()) \<and> synced Y vk hdr opened n (store w')"
proof -
  let ?I = "sy_index Y"
  have n: "0 < n" using assms(3) by simp
  note hd = honest_header [OF assms(1) n assms(4)]
  have "seen_upto Y vk hdr opened H = (seen_upto Y vk hdr opened m @ seen_in Y vk hdr opened n) @
      concat (map (seen_in Y vk hdr opened) [Suc n ..< Suc H])"
    using seen_upto_between [OF assms(4), of Y vk hdr opened] assms(5) by simp
  then have acc: "accepts_all ?I (ledger_upto Y vk hdr opened m) (seen_in Y vk hdr opened n)"
    using honestD(6) [OF assms(1)] by (simp only: accepts_all_append ledger_upto_def)
  have L: "fold (ledger_next (il_ext ?I)) (seen_in Y vk hdr opened n) (ledger_upto Y vk hdr opened m) = ledger_upto Y vk hdr opened n"
    using assms(5) by (simp add: ledger_upto_def)
  have "check_view_key (il_ext ?I) (tm_bloom (sy_lib Y)) (bh_block_filter (hdr n)) vk \<Longrightarrow>
      \<forall>t. ob_decrypt (sy_cipher Y) (bh_transaction_ids (hdr n)) sk t = Ok (opened n)"
    using honestD(4) [OF assms(1)] n assms(4) by (simp add: readable_def)
  from block_on_next_at [OF honestD(1) [OF assms(1)] _ seen_in_def this acc, of w]
  obtain w' where "block_on_next ?I (sy_lib Y) (sy_cipher Y) S (hdr n) vk sk w = (w', Ok ())"
    "index_at ?I (ledger_upto Y vk hdr opened n) (store w')"
    "gs_last_height ?I S vk (store w') = Ok (of_nat n)" "gs_last_hash ?I S vk (store w') = Ok (bh_app_hash (hdr n))"
    using assms(2) hd(3) L by (auto simp: synced_def)
  then show ?thesis using n hd(1) by (simp add: feed_def synced_def act_bind.simps)
qed

lemma feed_next:
  assumes "honest Y addrs vk sk blk res H hdr opened" "synced Y vk hdr opened n (store w)" "n < H"
  shows "\<exists>w'. feed Y S addrs vk sk (blk (Suc n)) (res (Suc n)) w = (w', Ok ()) \<and> synced Y vk hdr opened (Suc n) (store w')"
  using assms seen_upto_between [of n "Suc n" Y vk hdr opened] by (intro feed_at [OF assms(1,2)]) simp_all

text \<open>Skipping: equal hashes lead from the last block seen straight to the later one.\<close>

lemma feed_skipping:
  assumes "honest Y addrs vk sk blk res H hdr opened" "synced Y vk hdr opened m (store w)" "m < n" "n \<le> H"
    and "gs_last_hash (sy_index Y) S vk (store w) = Ok (block_app_hash (blk n))"
  shows "\<exists>w'. feed Y S addrs vk sk (blk n) (res n) w = (w', Ok ()) \<and> synced Y vk hdr opened n (store w')"
proof -
  have n: "0 < n" using assms(3) by simp
  have h: "(if m = 0 then [] else bh_app_hash (hdr m)) = bh_app_hash (hdr n)"
    using assms(2,5) honest_header(2) [OF assms(1) n assms(4)] by (simp add: synced_def)
  moreover have "bh_app_hash (hdr n) \<noteq> []"
    using honestD(5) [OF assms(1)] n assms(4) by (simp add: hash_moves_def)
  ultimately have "0 < m" "bh_app_hash (hdr m) = bh_app_hash (hdr n)" by (auto split: if_splits)
  then show ?thesis by (intro feed_at [OF assms(1-4)] seen_between_nothing [OF assms(1,3,4)])
qed

lemma fast_forward_status_at:
  assumes "honest Y addrs vk sk blk res H hdr opened" "synced Y vk hdr opened m (store w)" "m < H"
    and "status_height st = Ok (of_nat H)" "status_app_hash st = block_app_hash (blk H)"
  shows "\<exists>w' b. fast_forward_status Y S addrs vk sk st w = (w', Ok b) \<and>
    (if b then synced Y vk hdr opened H (store w') else synced Y vk hdr opened m (store w'))"
proof (cases "gs_last_hash (sy_index Y) S vk (store w) = Ok (block_app_hash (blk H))")
  case True
  let ?w = "w\<lparr> tick := tick w + 1 + 1 \<rparr>"
  have "tm_block (sy_client Y) (of_nat H) t = Ok (blk H)" "tm_block_results (sy_client Y) (of_nat H) t = Ok (res H)" for t
    using honestD(3) [OF assms(1)] by (simp_all add: serves_def)
  moreover obtain w' where "feed Y S addrs vk sk (blk H) (res H) ?w = (w', Ok ())" "synced Y vk hdr opened H (store w')"
    using feed_skipping [OF assms(1) _ assms(3) order_refl, of ?w] assms(2) True by auto
  ultimately show ?thesis
    using True assms(4,5) by (auto simp: fast_forward_status_def act_bind.simps)
next
  case False
  then show ?thesis
    using assms(2,5) by (auto simp: fast_forward_status_def act_bind.simps synced_def)
qed

lemma fast_forward_block_at:
  assumes "honest Y addrs vk sk blk res H hdr opened" "synced Y vk hdr opened m (store w)" "m < n" "n \<le> H"
  shows "\<exists>w' b. fast_forward_block Y S addrs vk sk (blk n) w = (w', Ok b) \<and>
    (if b then synced Y vk hdr opened n (store w') else synced Y vk hdr opened m (store w'))"
proof (cases "gs_last_hash (sy_index Y) S vk (store w) = Ok (block_app_hash (blk n))")
  case True
  let ?w = "w\<lparr> tick := tick w + 1 \<rparr>"
  have "tm_block_results (sy_client Y) (of_nat n) t = Ok (res n)" "block_height_of (blk n) = Ok (of_nat n)" for t
    using honestD(3) [OF assms(1)] assms(4) by (simp_all add: serves_def)
  moreover obtain w' where "feed Y S addrs vk sk (blk n) (res n) ?w = (w', Ok ())" "synced Y vk hdr opened n (store w')"
    using feed_skipping [OF assms(1) _ assms(3,4), of ?w] assms(2) True by auto
  ultimately show ?thesis using True by (auto simp: fast_forward_block_def act_bind.simps)
next
  case False
  then show ?thesis
    using assms(2) by (auto simp: fast_forward_block_def act_bind.simps synced_def)
qed

lemma sync_blocks_at:
  assumes "honest Y addrs vk sk blk res H hdr opened"
    and "status_height st = Ok (of_nat H)" "status_app_hash st = block_app_hash (blk H)"
  shows "\<lbrakk> synced Y vk hdr opened m (store w); ns = [Suc m ..< Suc n]; m \<le> n; n \<le> H \<rbrakk> \<Longrightarrow>
    \<exists>w' b. sync_blocks Y S addrs vk sk report st (zip (map blk ns) (map res ns)) w = (w', Ok b) \<and>
      (if b then synced Y vk hdr opened H (store w') else synced Y vk hdr opened n (store w'))"
proof (induction ns arbitrary: m w)
  case Nil
  then have "m = n" by (auto split: if_splits)
  with Nil show ?case by (intro exI [of _ w] exI [of _ False]) simp
next
  case (Cons k ns)
  have lt: "Suc m < Suc n" using Cons.prems(2) by (cases "Suc m < Suc n") simp_all
  have k: "k = Suc m" "ns = [Suc k ..< Suc n]" "k \<le> n" "m < H"
    using Cons.prems(2,4) upt_conv_Cons [OF lt] lt by (simp_all del: upt_Suc)
  obtain w1 b where w1: "fast_forward_status Y S addrs vk sk st w = (w1, Ok b)"
    "if b then synced Y vk hdr opened H (store w1) else synced Y vk hdr opened m (store w1)"
    using fast_forward_status_at [OF assms(1) Cons.prems(1) k(4) assms(2,3)] by blast
  show ?case
  proof (cases b)
    case True
    then show ?thesis using w1 by (auto simp: act_bind.simps)
  next
    case False
    then obtain w2 where w2: "feed Y S addrs vk sk (blk k) (res k) w1 = (w2, Ok ())" "synced Y vk hdr opened k (store w2)"
      using feed_next [OF assms(1) _ k(4), of w1] w1(2) k(1) by auto
    have h: "block_height_of (blk k) = Ok (of_nat k)"
      using honest_header(4) [OF assms(1), of k] k(1,4) by simp
    obtain w' c where w': "sync_blocks Y S addrs vk sk report st (zip (map blk ns) (map res ns)) w2 = (w', Ok c)"
      "if c then synced Y vk hdr opened H (store w') else synced Y vk hdr opened n (store w')"
      using Cons.IH [OF w2(2) k(2,3) Cons.prems(4)] by blast
    have "sync_blocks Y S addrs vk sk report st (zip (map blk (k # ns)) (map res (k # ns))) w = (w', Ok c)"
      using w1(1) w2(1) w'(1) h False by (cases report) (simp_all add: act_bind.simps)
    then show ?thesis using w'(2) by blast
  qed
qed

lemma sync_chunks_at:
  assumes "honest Y addrs vk sk blk res H hdr opened"
    and "status_height st = Ok (of_nat H)" "status_app_hash st = block_app_hash (blk H)"
  shows "\<lbrakk> synced Y vk hdr opened m (store w); concat nss = [Suc m ..< Suc H]; m \<le> H; [] \<notin> set nss \<rbrakk> \<Longrightarrow>
    \<exists>w'. sync_chunks Y S addrs vk sk report st (map (map of_nat) nss) w = (w', Ok ()) \<and> synced Y vk hdr opened H (store w')"
proof (induction nss arbitrary: m w)
  case Nil
  then have "m = H" by (auto split: if_splits)
  with Nil show ?case by auto
next
  case (Cons ns nss)
  define n where "n = m + length ns"
  have ns: "ns = [Suc m ..< Suc n]" and rest: "concat nss = [Suc n ..< Suc H]" and n: "m < n" "n \<le> H"
  proof -
    have c: "[Suc m ..< Suc H] = ns @ concat nss" using Cons.prems(2) by simp
    have len: "length ns \<le> H - m" using arg_cong [OF c, of length] by (simp del: upt_Suc)
    show "m < n" using Cons.prems(4) by (cases ns) (auto simp: n_def)
    show "n \<le> H" using len Cons.prems(3) by (simp add: n_def)
    show "ns = [Suc m ..< Suc n]" using arg_cong [OF c, of "take (length ns)"] len Cons.prems(3)
      by (simp add: take_upt n_def del: upt_Suc)
    show "concat nss = [Suc n ..< Suc H]" using arg_cong [OF c, of "drop (length ns)"]
      by (simp add: drop_upt n_def del: upt_Suc)
  qed
  obtain w1 b where w1: "fast_forward_status Y S addrs vk sk st w = (w1, Ok b)"
    "if b then synced Y vk hdr opened H (store w1) else synced Y vk hdr opened m (store w1)"
    using fast_forward_status_at [OF assms(1) Cons.prems(1) _ assms(2,3)] n by fastforce
  show ?case
  proof (cases b)
    case True
    then show ?thesis using w1 by (auto simp: act_bind.simps)
  next
    case False
    let ?w = "w1\<lparr> tick := tick w1 + 1 \<rparr>"
    have le: "\<forall>k \<in> set ns. k \<le> H" using ns n by simp
    have batch: "tm_block_batch (sy_client Y) (map of_nat ns) t = Ok (map blk ns)"
      "tm_block_results_batch (sy_client Y) (map of_nat ns) t = Ok (map res ns)" for t
      using honestD(3) [OF assms(1)] le by (simp_all add: serves_def)
    have ne: "map blk ns \<noteq> []" "last (map blk ns) = blk n" using ns n by (simp_all add: last_map)
    obtain w2 c where w2: "fast_forward_block Y S addrs vk sk (blk n) ?w = (w2, Ok c)"
      "if c then synced Y vk hdr opened n (store w2) else synced Y vk hdr opened m (store w2)"
      using fast_forward_block_at [OF assms(1) _ n, of ?w] w1(2) False by auto
    note IH = Cons.IH [OF _ rest n(2)]
    show ?thesis
    proof (cases c)
      case True
      then obtain w' where "sync_chunks Y S addrs vk sk report st (map (map of_nat) nss) w2 = (w', Ok ())"
        "synced Y vk hdr opened H (store w')"
        using IH [of w2] w2(2) Cons.prems(4) by auto
      then show ?thesis using w1(1) w2(1) batch(1) ne False True by (simp add: act_bind.simps)
    next
      case c: False
      let ?w2 = "w2\<lparr> tick := tick w2 + 1 \<rparr>"
      obtain w3 d where w3: "sync_blocks Y S addrs vk sk report st (zip (map blk ns) (map res ns)) ?w2 = (w3, Ok d)"
        "if d then synced Y vk hdr opened H (store w3) else synced Y vk hdr opened n (store w3)"
        using sync_blocks_at [OF assms, of m ?w2 ns n report] w2(2) c ns n by auto
      have "\<exists>w'. (if d then act_pure (Ok ()) else sync_chunks Y S addrs vk sk report st (map (map of_nat) nss)) w3 = (w', Ok ()) \<and>
          synced Y vk hdr opened H (store w')"
        using IH [of w3] w3(2) Cons.prems(4) by (cases d) auto
      then show ?thesis using w1(1) w2(1) w3(1) batch ne False c by (simp add: act_bind.simps)
    qed
  qed
qed

lemma sync_at:
  assumes "honest Y addrs vk sk blk res H hdr opened" "synced Y vk hdr opened m (store w)" "m \<le> H" "batch_size \<noteq> Some 0"
  shows "\<exists>w'. sync Y S addrs vk sk batch_size report w = (w', Ok ()) \<and> synced Y vk hdr opened H (store w')"
proof -
  let ?w = "w\<lparr> tick := tick w + 1 \<rparr>"
  have H: "H < 2 ^ 64 - 1" using honestD(3) [OF assms(1)] by (simp add: serves_def)
  obtain st where st: "tm_status (sy_client Y) (tick w) = Ok st" "status_height st = Ok (of_nat H)"
    "status_app_hash st = block_app_hash (blk H)"
    using honestD(3) [OF assms(1)] unfolding serves_def by blast
  define size where "size = (case batch_size of None \<Rightarrow> DEFAULT_BATCH_SIZE | Some n \<Rightarrow> n)"
  have size: "0 < size" using assms(4) by (auto simp: size_def DEFAULT_BATCH_SIZE_def split: option.splits)
  have "unat (of_nat m + 1 :: u64) = Suc m" "unat (of_nat H :: u64) = H"
    using H assms(3) by (simp_all add: unat_word_ariths unat_of_nat)
  then have range: "height_range (of_nat m + 1) (of_nat H) = map of_nat [Suc m ..< Suc H]"
    by (simp add: height_range_def del: upt_Suc)
  define cs where "cs = it_chunks Y size (height_range (of_nat m + 1) (of_nat H))"
  have cs: "concat cs = map of_nat [Suc m ..< Suc H]" "[] \<notin> set cs"
    using honestD(2) [OF assms(1)] size unfolding chunk_laws_def cs_def range by blast+
  from concat_map_split [OF cs(1)] obtain nss where nss: "cs = map (map of_nat) nss" "concat nss = [Suc m ..< Suc H]" by blast
  then have "[] \<notin> set nss" using cs(2) by auto
  from sync_chunks_at [OF assms(1) st(2,3) _ nss(2) assms(3) this, of ?w report] assms(2)
  obtain w' where "sync_chunks Y S addrs vk sk report st cs ?w = (w', Ok ())" "synced Y vk hdr opened H (store w')"
    by (auto simp: nss(1))
  moreover have "gs_last_height (sy_index Y) S vk (store w) = Ok (of_nat m)" using assms(2) by (simp add: synced_def)
  ultimately show ?thesis using st size
    by (simp add: sync_def act_bind.simps cs_def size_def [symmetric] Let_def)
qed

end

section \<open>A sample chain\<close>

definition sample_tm :: "bool TmLib" where
  "sample_tm = \<lparr> base64_decode = (\<lambda>x. if x = ''w'' then Some (withdraw_id sample_ext sample_withdrawal)
       else if x = ''t'' then Some (tx_id sample_ext sample_spending)
       else if x = ''f'' then Some (replicate 256 255) else None),
     tm_bloom = sample_bloom, c_decrypted = list_codec \<lparr> enc = (\<lambda>_. []), dec = (\<lambda>_. Err ''unused'') \<rparr> \<rparr>"

text \<open>Two blocks, the withdrawal and the transfer that spends it, both marked in the filter.\<close>

definition sample_block :: "nat \<Rightarrow> Block" where
  "sample_block n = \<lparr> blk_block = \<lparr> bi_header = \<lparr> hdr_app_hash = [of_nat n + 1], hdr_height = u64_to_string (of_nat n), hdr_time = 0 \<rparr>,
     bi_data = \<lparr> data_txs = None \<rparr> \<rparr> \<rparr>"

definition sample_results :: "nat \<Rightarrow> BlockResults" where
  "sample_results n = \<lparr> br_height = [], br_results = \<lparr>
     deliver_tx_results = Some [[\<lparr> event_type = ''valid_txs'',
       event_attributes = [\<lparr> attr_key = ''txid'', attr_value = (if n = 1 then ''w'' else ''t'') \<rparr>] \<rparr>]],
     end_block_result = Some [\<lparr> event_type = ''block_filter'',
       event_attributes = [\<lparr> attr_key = ''ethbloom'', attr_value = ''f'' \<rparr>] \<rparr>] \<rparr> \<rparr>"

definition sample_opened :: "nat \<Rightarrow> Transaction list" where
  "sample_opened n = (if n = 1 then [WithdrawUnbondedStakeTransaction sample_withdrawal] else [TransferTransaction sample_spending])"

definition sample_header :: "nat \<Rightarrow> bool BlockHeader" where
  "sample_header n = \<lparr> bh_app_hash = [of_nat n + 1], bh_block_height = of_nat n, bh_block_time = 0,
     bh_transaction_ids = [if n = 1 then withdraw_id sample_ext sample_withdrawal else tx_id sample_ext sample_spending],
     bh_block_filter = \<lparr> bloom = True, modified = False \<rparr>, bh_unencrypted_transactions = [] \<rparr>"

definition sample_node_client :: TmClient where
  "sample_node_client = \<lparr> tm_genesis = (\<lambda>_. Err (Failed RpcError)),
     tm_status = (\<lambda>_. Ok \<lparr> sync_info = \<lparr> latest_block_height = u64_to_string 2, latest_app_hash = [3] \<rparr> \<rparr>),
     tm_block = (\<lambda>h _. Ok (sample_block (unat h))), tm_block_batch = (\<lambda>hs _. Ok (map (\<lambda>h. sample_block (unat h)) hs)),
     tm_block_results = (\<lambda>h _. Ok (sample_results (unat h))),
     tm_block_results_batch = (\<lambda>hs _. Ok (map (\<lambda>h. sample_results (unat h)) hs)),
     tm_broadcast_transaction = (\<lambda>_ _. Err (Failed RpcError)), tm_query = (\<lambda>_ _ _. Err (Failed RpcError)) \<rparr>"

definition sample_sync :: "bool Sync" where
  "sample_sync = \<lparr> sy_index = sample_index, sy_lib = sample_tm,
     sy_cipher = \<lparr> ob_decrypt = (\<lambda>ids _ _. Ok (if ids = [withdraw_id sample_ext sample_withdrawal] then sample_opened 1 else sample_opened 2)),
       ob_encrypt = (\<lambda>_ _. Err (Failed RpcError)) \<rparr>,
     sy_client = sample_node_client, it_chunks = (\<lambda>_ xs. map (\<lambda>x. [x]) xs) \<rparr>"

lemma sample_serves: "serves sample_node_client sample_block sample_results 2"
proof -
  have u: "unat (of_nat n :: u64) = n" if "n \<le> 2" for n using that by (simp add: unat_of_nat)
  have h: "block_height_of (sample_block n) = Ok (of_nat n)" for n
    by (simp add: block_height_of_def sample_block_def parse_u64_to_string)
  have "status_height \<lparr> sync_info = \<lparr> latest_block_height = u64_to_string 2, latest_app_hash = [3] \<rparr> \<rparr> = Ok 2"
    "status_app_hash \<lparr> sync_info = \<lparr> latest_block_height = u64_to_string 2, latest_app_hash = [3] \<rparr> \<rparr> = block_app_hash (sample_block 2)"
    by (simp_all add: status_height_def status_app_hash_def block_app_hash_def sample_block_def parse_u64_to_string)
  then show ?thesis unfolding serves_def by (simp add: sample_node_client_def u h)
qed

lemma sample_prepared:
  assumes "n = 1 \<or> n = 2"
  shows "prepare_block_header sample_sync addrs (sample_block n) (sample_results n) = Ok (sample_header n)"
proof -
  have "length (withdraw_id sample_ext sample_withdrawal) = 32" "length (tx_id sample_ext sample_spending) = 32"
    by (simp_all add: sample_id_values)
  then have "transaction_ids sample_tm (sample_results n) = Ok (bh_transaction_ids (sample_header n))"
    using assms by (auto simp: transaction_ids_def sample_results_def event_ids_def attribute_id_def sample_tm_def sample_header_def)
  moreover have "block_filter sample_tm (sample_results n) = Ok \<lparr> bloom = True, modified = False \<rparr>"
    by (simp add: block_filter_def sample_results_def sample_tm_def filter_try_from_def sample_bloom_def hd_replicate)
  moreover have "check_unencrypted_transactions sample_sync f addrs (sample_block n) = Ok []" for f
    by (simp add: check_unencrypted_transactions_def unencrypted_transactions_def sample_block_def)
  ultimately show ?thesis
    by (simp add: prepare_block_header_def block_height_of_def sample_sync_def)
      (simp add: sample_block_def sample_header_def parse_u64_to_string block_app_hash_def block_time_of_def)
qed

lemma sample_heights: "0 < n \<and> n \<le> 2 \<longleftrightarrow> n = 1 \<or> n = (2 :: nat)"
  by presburger

lemma sample_readable: "readable sample_sync addrs vk sk sample_block sample_results 2 sample_header sample_opened"
proof -
  have "ob_decrypt (sy_cipher sample_sync) (bh_transaction_ids (sample_header n)) sk t = Ok (sample_opened n)"
    "\<forall>tr \<in> set (sample_opened n). transaction_id (il_ext (sy_index sample_sync)) tr \<in> set (bh_transaction_ids (sample_header n))"
    if "n = 1 \<or> n = 2" for n t
  proof -
    have "sample_opened n = (if bh_transaction_ids (sample_header n) = [withdraw_id sample_ext sample_withdrawal]
        then sample_opened 1 else sample_opened 2)"
      using that sample_ids(1) by (cases "n = 1") (simp_all add: sample_header_def)
    then show "ob_decrypt (sy_cipher sample_sync) (bh_transaction_ids (sample_header n)) sk t = Ok (sample_opened n)"
      by (simp add: sample_sync_def)
    show "\<forall>tr \<in> set (sample_opened n). transaction_id (il_ext (sy_index sample_sync)) tr \<in> set (bh_transaction_ids (sample_header n))"
      by (simp add: sample_sync_def sample_header_def sample_opened_def transaction_id_def)
  qed
  then show ?thesis unfolding readable_def using sample_prepared sample_heights by simp
qed

lemma sample_seen:
  "seen_upto sample_sync vk sample_header sample_opened 2 =
     [WithdrawUnbondedStakeTransaction sample_withdrawal, TransferTransaction sample_spending]"
  by (simp add: seen_upto_def seen_in_def numeral_2_eq_2 sample_header_def sample_sync_def sample_tm_def sample_bloom_def
      check_view_key_def sample_opened_def)

lemma sample_honest_chain: "honest sample_sync addrs vk sk sample_block sample_results 2 sample_header sample_opened"
proof -
  have "hash_moves sample_header 2"
  proof -
    have "bh_app_hash (sample_header m) \<noteq> bh_app_hash (sample_header n)" if "0 < m" "m < n" "n \<le> 2" for m n
    proof -
      have "m = 1" "n = 2" using that by simp_all
      then show ?thesis by (simp add: sample_header_def)
    qed
    moreover have "bh_app_hash (sample_header n) \<noteq> []" for n by (simp add: sample_header_def)
    ultimately show ?thesis unfolding hash_moves_def by (metis le_less_trans)
  qed
  moreover have "chunk_laws sample_sync" by (auto simp: chunk_laws_def sample_sync_def)
  moreover have "sy_index sample_sync = sample_index" "sy_client sample_sync = sample_node_client" by (simp_all add: sample_sync_def)
  ultimately show ?thesis
    using sample_index_laws sample_serves sample_readable [of addrs vk sk] sample_accepts(1) sample_seen [of vk]
    by (simp add: honest_def)
qed

section \<open>Properties\<close>

text \<open>
  C4: synchronisation is complete.  Against a node that serves one chain whose application hash moves
  with every transaction, and with a cipher that opens what the wallet may read, a wallet with an empty
  index synchronises without an error, whatever the size of the batches and however the application
  hashes let it skip blocks.  Afterwards the stored height is the height of the chain, and the index is
  the ledger of all the transactions of the blocks up to this height which concern the wallet: no block
  with such a transaction was skipped and none was counted twice.
\<close>

theorem sync_indexes_chain:
  assumes "honest Y addrs vk sk blk res H hdr opened" "\<not> poisoned (store w)" "batch_size \<noteq> Some 0"
    and "memory_view (store w) ADDRESS_KEYSPACE = Map.empty" "memory_view (store w) TRANSACTION_KEYSPACE = Map.empty"
    and "memory_view (store w) GLOBAL_STATE_KEYSPACE = Map.empty"
  shows "\<exists>w'. sync Y memory_storage addrs vk sk batch_size report w = (w', Ok ()) \<and>
    gs_last_height (sy_index Y) memory_storage vk (store w') = Ok (of_nat H) \<and>
    (let L = ledger_upto Y vk hdr opened H in
      (\<forall>addr. \<exists>d. index_address_details (sy_index Y) memory_storage addr (store w') = Ok d \<and>
         ad_unspent_transactions d = owned addr (l_utxo L) \<and> amount (ad_balance d) = worth (owned addr (l_utxo L))) \<and>
      (\<forall>txid. index_transaction (sy_index Y) memory_storage txid (store w') = Ok (l_known L txid)))"
proof -
  let ?I = "sy_index Y" and ?L = "ledger_upto Y vk hdr opened H"
  have "memory.index_at ?I ledger_empty (store w)" using memory.index_at_empty assms(2,4,5) by blast
  then have "memory.synced Y vk hdr opened 0 (store w)"
    using assms(2,6) by (simp add: memory.synced_def ledger_upto_def seen_upto_def gs_last_height_def gs_last_hash_def memory.get_view)
  from memory.sync_at [OF assms(1) this _ assms(3), of report] obtain w' where
    w': "sync Y memory_storage addrs vk sk batch_size report w = (w', Ok ())" "memory.synced Y vk hdr opened H (store w')"
    by blast
  then have at: "memory.index_at ?I ?L (store w')" and h: "gs_last_height ?I memory_storage vk (store w') = Ok (of_nat H)"
    by (simp_all add: memory.synced_def)
  show ?thesis using w'(1) h memory.index_answers [OF honestD(1) [OF assms(1)] at] by (simp add: Let_def)
qed

theorem sync_indexes_chain_witness:
  "\<exists>w' d. sync sample_sync memory_storage [] [9] [9] None False fresh_world = (w', Ok ()) \<and>
     index_address_details sample_index memory_storage (OrTree [1]) (store w') = Ok d \<and> amount (ad_balance d) = 1"
proof -
  have e: "memory_view (store fresh_world) ks = Map.empty" for ks by (rule ext) simp
  have "worth (owned (OrTree [1]) (l_utxo (ledger_upto sample_sync [9] sample_header sample_opened 2))) = 1"
    using sample_accepts(2) by (simp add: ledger_upto_def sample_seen) (simp add: sample_sync_def owned_def amount_def)
  moreover have "sy_index sample_sync = sample_index" by (simp add: sample_sync_def)
  ultimately show ?thesis
    using sync_indexes_chain [OF sample_honest_chain [of "[]" "[9]" "[9]"] _ _ e e e, of None False]
    by (auto simp: Let_def) metis
qed

end
