(* ===== verification/Wallet_Client.thy ===== *)
theory Wallet_Client
  imports Client_Builder Multi_Sig Client_Ledger Tendermint_Client
begin

text \<open>
  The wallet client: \<open>client-core/src/wallet/default_wallet_client.rs\<close> over the services of keys, wallets,
  addresses and multi-signature sessions, an index (\<open>client-index/src/index.rs\<close>) and a transaction builder
  (\<open>client-core/src/transaction_builder.rs\<close>), with the variants of both that deny everything.  The theory
  shows what the storage keeps under every sequence of operations, that a wallet reports the ledger of
  its addresses, and that the chain accepts what the client builds from them.
\<close>

section \<open>The interfaces\<close>

record 's Index =
  ix_address_details :: "ExtendedAddr \<Rightarrow> 's \<Rightarrow> AddressDetails outcome"
  ix_transaction :: "TxId \<Rightarrow> 's \<Rightarrow> Transaction option outcome"
  ix_output :: "TxoPointer \<Rightarrow> 's \<Rightarrow> TxOut outcome"
  ix_broadcast_transaction :: "bytes \<Rightarrow> ('s, BroadcastTxResult) action"

definition default_index :: "IndexLib \<Rightarrow> 's Storage \<Rightarrow> TmClient \<Rightarrow> 's Index" where
  "default_index I S client = \<lparr> ix_address_details = index_address_details I S, ix_transaction = index_transaction I S,
     ix_output = index_output I S, ix_broadcast_transaction = (\<lambda>b. act_ask (tm_broadcast_transaction client b)) \<rparr>"

definition unauthorized_index :: "'s Index" where
  "unauthorized_index = \<lparr> ix_address_details = (\<lambda>_ _. Err (Failed PermissionDenied)),
     ix_transaction = (\<lambda>_ _. Err (Failed PermissionDenied)), ix_output = (\<lambda>_ _. Err (Failed PermissionDenied)),
     ix_broadcast_transaction = (\<lambda>_. act_pure (Err (Failed PermissionDenied))) \<rparr>"

text \<open>
  The builder is asked with the name and the passphrase of the wallet that signs.  Its loop may not
  end for all the trait says, so that it has no result then.
\<close>

record 's TransactionBuilder =
  tb_build :: "str \<Rightarrow> bytes \<Rightarrow> TxOut list \<Rightarrow> TxAttributes \<Rightarrow> Unspent \<Rightarrow> ExtendedAddr \<Rightarrow> 's World \<Rightarrow>
    ('s World \<times> TxAux outcome) option"
  tb_obfuscate :: "SignedTransaction \<Rightarrow> ('s, TxAux) action"

definition default_transaction_builder ::
    "ClientLib \<Rightarrow> 's Storage \<Rightarrow> (nat \<Rightarrow> SignedTransaction \<Rightarrow> TxAux outcome) \<Rightarrow> (TxAux \<Rightarrow> CoinError + Fee) \<Rightarrow>
       's TransactionBuilder" where
  "default_transaction_builder L S encrypt fee_of =
     (let B = (\<lambda>name passphrase. \<lparr> b_ext = cl_ext L, b_sign = signer_sign L S name passphrase,
                 b_encrypt = encrypt, b_fee = fee_of \<rparr>)
      in \<lparr> tb_build = (\<lambda>name passphrase. builder_build (B name passphrase)),
           tb_obfuscate = builder_obfuscate (B [] []) \<rparr>)"

definition unauthorized_transaction_builder :: "'s TransactionBuilder" where
  "unauthorized_transaction_builder = \<lparr> tb_build = (\<lambda>_ _ _ _ _ _ w. Some (w, Err (Failed PermissionDenied))),
     tb_obfuscate = (\<lambda>_. act_pure (Err (Failed PermissionDenied))) \<rparr>"

definition unauthorized_signer :: "str \<Rightarrow> bytes \<Rightarrow> bytes \<Rightarrow> Unspent \<Rightarrow> 's \<Rightarrow> TxWitness outcome" where
  "unauthorized_signer name passphrase message selected s = Err (Failed PermissionDenied)"

section \<open>The client\<close>

text \<open>
  \<open>DefaultWalletClient\<close>: the four services share one storage.  The libraries they call are kept beside
  it.
\<close>

record ('s, 'm) WalletClient =
  wc_lib :: ClientLib
  wc_musig :: "'m MuSigLib"
  wc_storage :: "'s Storage"
  wc_index :: "'s Index"
  wc_transaction_builder :: "'s TransactionBuilder"

definition wallet_client_new ::
    "ClientLib \<Rightarrow> 'm MuSigLib \<Rightarrow> 's Storage \<Rightarrow> 's Index \<Rightarrow> 's TransactionBuilder \<Rightarrow> ('s, 'm) WalletClient" where
  "wallet_client_new L G storage index transaction_builder = \<lparr> wc_lib = L, wc_musig = G, wc_storage = storage,
     wc_index = index, wc_transaction_builder = transaction_builder \<rparr>"

definition wc_wallets :: "('s, 'm) WalletClient \<Rightarrow> 's \<Rightarrow> str list outcome" where
  "wc_wallets C = ws_names (wc_storage C)"

definition wc_new_wallet :: "('s, 'm) WalletClient \<Rightarrow> str \<Rightarrow> bytes \<Rightarrow> ('s, unit) action" where
  "wc_new_wallet C name passphrase =
     act_bind (generate_keypair (wc_lib C) (wc_storage C) passphrase) (\<lambda>(view_key, _).
     ws_create (wc_lib C) (wc_storage C) name passphrase view_key)"

definition wc_view_key :: "('s, 'm) WalletClient \<Rightarrow> str \<Rightarrow> bytes \<Rightarrow> 's \<Rightarrow> PublicKey outcome" where
  "wc_view_key C = ws_view_key (wc_lib C) (wc_storage C)"

definition wc_public_keys :: "('s, 'm) WalletClient \<Rightarrow> str \<Rightarrow> bytes \<Rightarrow> 's \<Rightarrow> PublicKey list outcome" where
  "wc_public_keys C = ws_public_keys (wc_lib C) (wc_storage C)"

definition wc_root_hashes :: "('s, 'm) WalletClient \<Rightarrow> str \<Rightarrow> bytes \<Rightarrow> 's \<Rightarrow> H256 list outcome" where
  "wc_root_hashes C = ws_root_hashes (wc_lib C) (wc_storage C)"

definition wc_staking_addresses :: "('s, 'm) WalletClient \<Rightarrow> str \<Rightarrow> bytes \<Rightarrow> 's \<Rightarrow> StakedStateAddress list outcome" where
  "wc_staking_addresses C = ws_staking_addresses (wc_lib C) (wc_storage C)"

definition wc_transfer_addresses :: "('s, 'm) WalletClient \<Rightarrow> str \<Rightarrow> bytes \<Rightarrow> 's \<Rightarrow> ExtendedAddr list outcome" where
  "wc_transfer_addresses C = ws_transfer_addresses (wc_lib C) (wc_storage C)"

definition wc_find_public_key ::
    "('s, 'm) WalletClient \<Rightarrow> str \<Rightarrow> bytes \<Rightarrow> RedeemAddress \<Rightarrow> 's \<Rightarrow> PublicKey option outcome" where
  "wc_find_public_key C = ws_find_public_key (wc_lib C) (wc_storage C)"

definition wc_find_root_hash :: "('s, 'm) WalletClient \<Rightarrow> str \<Rightarrow> bytes \<Rightarrow> ExtendedAddr \<Rightarrow> 's \<Rightarrow> H256 option outcome" where
  "wc_find_root_hash C = ws_find_root_hash (wc_lib C) (wc_storage C)"

definition wc_private_key :: "('s, 'm) WalletClient \<Rightarrow> bytes \<Rightarrow> PublicKey \<Rightarrow> 's \<Rightarrow> PrivateKey option outcome" where
  "wc_private_key C passphrase public_key = key_private_key (wc_lib C) (wc_storage C) public_key passphrase"

definition wc_new_public_key :: "('s, 'm) WalletClient \<Rightarrow> str \<Rightarrow> bytes \<Rightarrow> ('s, PublicKey) action" where
  "wc_new_public_key C name passphrase =
     act_bind (generate_keypair (wc_lib C) (wc_storage C) passphrase) (\<lambda>(public_key, _).
     act_bind (ws_add_public_key (wc_lib C) (wc_storage C) name passphrase public_key) (\<lambda>_.
     act_pure (Ok public_key)))"

definition wc_new_staking_address :: "('s, 'm) WalletClient \<Rightarrow> str \<Rightarrow> bytes \<Rightarrow> ('s, StakedStateAddress) action" where
  "wc_new_staking_address C name passphrase =
     act_bind (wc_new_public_key C name passphrase) (\<lambda>public_key.
     act_pure (Ok (BasicRedeem (redeem_of_public_key (wc_lib C) public_key))))"

definition wc_new_multisig_transfer_address ::
    "('s, 'm) WalletClient \<Rightarrow> str \<Rightarrow> bytes \<Rightarrow> PublicKey list \<Rightarrow> PublicKey \<Rightarrow> u64 \<Rightarrow> u64 \<Rightarrow> ('s, ExtendedAddr) action" where
  "wc_new_multisig_transfer_address C name passphrase public_keys self_public_key m n =
     act_bind (act_read (wc_public_keys C name passphrase)) (\<lambda>wallet_public_keys.
     if self_public_key \<notin> set wallet_public_keys then act_pure (Err (Failed MultiSigInvalidSelfPubKey))
     else act_bind (new_root_hash (wc_lib C) (wc_storage C) public_keys self_public_key m n passphrase) (\<lambda>h.
          act_bind (ws_add_root_hash (wc_lib C) (wc_storage C) name passphrase h) (\<lambda>_.
          act_pure (Ok (OrTree h)))))"

definition wc_new_transfer_address :: "('s, 'm) WalletClient \<Rightarrow> str \<Rightarrow> bytes \<Rightarrow> ('s, ExtendedAddr) action" where
  "wc_new_transfer_address C name passphrase =
     act_bind (wc_new_public_key C name passphrase) (\<lambda>public_key.
     wc_new_multisig_transfer_address C name passphrase [public_key] public_key 1 1)"

definition wc_generate_proof ::
    "('s, 'm) WalletClient \<Rightarrow> str \<Rightarrow> bytes \<Rightarrow> ExtendedAddr \<Rightarrow> PublicKey list \<Rightarrow> 's \<Rightarrow> RawPubkey Proof outcome" where
  "wc_generate_proof C name passphrase addr public_keys s =
     try_bind (wc_transfer_addresses C name passphrase s) (\<lambda>_.
     case addr of OrTree h \<Rightarrow> rh_generate_proof (wc_lib C) (wc_storage C) h public_keys passphrase s)"

definition wc_required_cosigners :: "('s, 'm) WalletClient \<Rightarrow> str \<Rightarrow> bytes \<Rightarrow> H256 \<Rightarrow> 's \<Rightarrow> u64 outcome" where
  "wc_required_cosigners C name passphrase h s =
     try_bind (wc_transfer_addresses C name passphrase s) (\<lambda>_.
     rh_required_signers (wc_lib C) (wc_storage C) h passphrase s)"

definition wc_balance :: "('s, 'm) WalletClient \<Rightarrow> str \<Rightarrow> bytes \<Rightarrow> 's \<Rightarrow> Coin outcome" where
  "wc_balance C name passphrase s =
     try_bind (wc_transfer_addresses C name passphrase s) (\<lambda>addresses.
     try_bind (collect_result (\<lambda>a. try_bind (ix_address_details (wc_index C) a s) (\<lambda>d. Ok (ad_balance d))) addresses) (\<lambda>balances.
     with_context BalanceAdditionError (sum_coins balances)))"

definition wc_history :: "('s, 'm) WalletClient \<Rightarrow> str \<Rightarrow> bytes \<Rightarrow> 's \<Rightarrow> TransactionChange list outcome" where
  "wc_history C name passphrase s =
     try_bind (wc_transfer_addresses C name passphrase s) (\<lambda>addresses.
     try_bind (collect_result (\<lambda>a. try_bind (ix_address_details (wc_index C) a s) (\<lambda>d. Ok (ad_transaction_history d))) addresses)
       (\<lambda>histories. Ok (concat histories)))"

text \<open>The pairs of a map of unspent outputs, in its order.\<close>

definition unspent_pairs :: "(TxoKey, TxOut) btree \<Rightarrow> Unspent" where
  "unspent_pairs u = map (\<lambda>((txid, i), out). (\<lparr> txo_id = txid, txo_index = i \<rparr>, out)) u"

definition wc_unspent_transactions :: "('s, 'm) WalletClient \<Rightarrow> str \<Rightarrow> bytes \<Rightarrow> 's \<Rightarrow> Unspent outcome" where
  "wc_unspent_transactions C name passphrase s =
     try_bind (wc_transfer_addresses C name passphrase s) (\<lambda>addresses.
     try_bind (collect_result (\<lambda>a. try_bind (ix_address_details (wc_index C) a s) (\<lambda>d. Ok (unspent_pairs (ad_unspent_transactions d))))
       addresses) (\<lambda>unspent. Ok (concat unspent)))"

definition wc_output :: "('s, 'm) WalletClient \<Rightarrow> TxoPointer \<Rightarrow> 's \<Rightarrow> TxOut outcome" where
  "wc_output C = ix_output (wc_index C)"

definition wc_create_transaction ::
    "('s, 'm) WalletClient \<Rightarrow> str \<Rightarrow> bytes \<Rightarrow> TxOut list \<Rightarrow> TxAttributes \<Rightarrow> InputSelectionStrategy option \<Rightarrow> ExtendedAddr \<Rightarrow>
       's World \<Rightarrow> ('s World \<times> TxAux outcome) option" where
  "wc_create_transaction C name passphrase outputs attributes strategy return_address w =
     (case wc_unspent_transactions C name passphrase (store w) of
        Inl e \<Rightarrow> Some (w, Inl e)
      | Inr unspent \<Rightarrow>
          let strategy = (case strategy of None \<Rightarrow> strategy_default | Some s \<Rightarrow> s)
          in tb_build (wc_transaction_builder C) name passphrase outputs attributes
               (apply_all (strategy_operations strategy) unspent) return_address w)"

definition wc_broadcast_transaction :: "('s, 'm) WalletClient \<Rightarrow> TxAux \<Rightarrow> ('s, BroadcastTxResult) action" where
  "wc_broadcast_transaction C tx_aux = ix_broadcast_transaction (wc_index C) (encode_txaux (cl_scale (wc_lib C)) tx_aux)"

section \<open>Multi-signature operations\<close>

definition wc_schnorr_signature ::
    "('s, 'm) WalletClient \<Rightarrow> str \<Rightarrow> bytes \<Rightarrow> H256 \<Rightarrow> PublicKey \<Rightarrow> 's \<Rightarrow> SchnorrSignature outcome" where
  "wc_schnorr_signature C name passphrase message public_key s =
     try_bind (wc_transfer_addresses C name passphrase s) (\<lambda>_.
     try_bind (wc_private_key C passphrase public_key s) (\<lambda>found.
     try_bind (or_kind PrivateKeyNotFound found) (\<lambda>private_key.
     private_key_schnorr_sign (wc_lib C) private_key message)))"

definition wc_new_multi_sig_session ::
    "('s, 'm) WalletClient \<Rightarrow> str \<Rightarrow> bytes \<Rightarrow> H256 \<Rightarrow> PublicKey list \<Rightarrow> PublicKey \<Rightarrow> ('s, H256) action" where
  "wc_new_multi_sig_session C name passphrase message signer_public_keys self_public_key =
     act_bind (act_read (wc_transfer_addresses C name passphrase)) (\<lambda>_.
     act_bind (act_read (wc_private_key C passphrase self_public_key)) (\<lambda>found.
     act_bind (act_pure (or_kind PrivateKeyNotFound found)) (\<lambda>self_private_key.
     new_session (wc_lib C) (wc_musig C) (wc_storage C) message signer_public_keys self_public_key self_private_key passphrase)))"

definition wc_nonce_commitment :: "('s, 'm) WalletClient \<Rightarrow> H256 \<Rightarrow> bytes \<Rightarrow> ('s, H256) action" where
  "wc_nonce_commitment C = svc_nonce_commitment (wc_lib C) (wc_musig C) (wc_storage C)"

definition wc_add_nonce_commitment :: "('s, 'm) WalletClient \<Rightarrow> H256 \<Rightarrow> bytes \<Rightarrow> H256 \<Rightarrow> PublicKey \<Rightarrow> ('s, unit) action" where
  "wc_add_nonce_commitment C session_id passphrase nonce_commitment public_key =
     svc_add_nonce_commitment (wc_lib C) (wc_musig C) (wc_storage C) session_id nonce_commitment public_key passphrase"

definition wc_nonce :: "('s, 'm) WalletClient \<Rightarrow> H256 \<Rightarrow> bytes \<Rightarrow> ('s, PublicKey) action" where
  "wc_nonce C = svc_nonce (wc_lib C) (wc_musig C) (wc_storage C)"

definition wc_add_nonce :: "('s, 'm) WalletClient \<Rightarrow> H256 \<Rightarrow> bytes \<Rightarrow> PublicKey \<Rightarrow> PublicKey \<Rightarrow> ('s, unit) action" where
  "wc_add_nonce C session_id passphrase n public_key =
     svc_add_nonce (wc_lib C) (wc_musig C) (wc_storage C) session_id n public_key passphrase"

definition wc_partial_signature :: "('s, 'm) WalletClient \<Rightarrow> H256 \<Rightarrow> bytes \<Rightarrow> ('s, H256) action" where
  "wc_partial_signature C = svc_partial_signature (wc_lib C) (wc_musig C) (wc_storage C)"

definition wc_add_partial_signature :: "('s, 'm) WalletClient \<Rightarrow> H256 \<Rightarrow> bytes \<Rightarrow> H256 \<Rightarrow> PublicKey \<Rightarrow> ('s, unit) action" where
  "wc_add_partial_signature C session_id passphrase partial_signature public_key =
     svc_add_partial_signature (wc_lib C) (wc_musig C) (wc_storage C) session_id partial_signature public_key passphrase"

definition wc_signature :: "('s, 'm) WalletClient \<Rightarrow> H256 \<Rightarrow> bytes \<Rightarrow> 's \<Rightarrow> SchnorrSignature outcome" where
  "wc_signature C = svc_signature (wc_lib C) (wc_musig C) (wc_storage C)"

definition wc_transaction :: "('s, 'm) WalletClient \<Rightarrow> str \<Rightarrow> H256 \<Rightarrow> bytes \<Rightarrow> Tx \<Rightarrow> ('s, TxAux) action" where
  "wc_transaction C name session_id passphrase unsigned_transaction =
     (if length (tx_inputs unsigned_transaction) \<noteq> 1 then act_pure (Err (Failed ErrorKind.InvalidInput))
      else act_bind (act_read (wc_output C (tx_inputs unsigned_transaction ! 0))) (\<lambda>output_to_spend.
        act_bind (act_read (wc_find_root_hash C name passphrase (out_address output_to_spend))) (\<lambda>found.
        act_bind (act_pure (or_kind AddressNotFound found)) (\<lambda>h.
        act_bind (act_read (svc_public_keys (wc_lib C) (wc_musig C) (wc_storage C) session_id passphrase)) (\<lambda>public_keys.
        act_bind (act_read (rh_generate_proof (wc_lib C) (wc_storage C) h public_keys passphrase)) (\<lambda>proof.
        act_bind (act_read (wc_signature C session_id passphrase)) (\<lambda>signature.
        tb_obfuscate (wc_transaction_builder C) (SignedTransfer unsigned_transaction [TreeSig signature proof]))))))))"

section \<open>The builder of clients\<close>

text \<open>The type of each part is a parameter, as each \<open>with\<close> operation may change one of them.\<close>

record ('st, 'ix, 'tb) WalletClientBuilder =
  wcb_storage :: 'st
  wcb_index :: 'ix
  wcb_transaction_builder :: 'tb
  storage_set :: bool
  index_set :: bool
  transaction_builder_set :: bool

definition wallet_client_builder :: "(unit Storage, unit Index, unit TransactionBuilder) WalletClientBuilder" where
  "wallet_client_builder = \<lparr> wcb_storage = unauthorized_storage, wcb_index = unauthorized_index,
     wcb_transaction_builder = unauthorized_transaction_builder, storage_set = False, index_set = False,
     transaction_builder_set = False \<rparr>"

definition with_wallet :: "('st, 'ix, 'tb) WalletClientBuilder \<Rightarrow> 'st2 \<Rightarrow> ('st2, 'ix, 'tb) WalletClientBuilder" where
  "with_wallet b storage = \<lparr> wcb_storage = storage, wcb_index = wcb_index b,
     wcb_transaction_builder = wcb_transaction_builder b, storage_set = True, index_set = index_set b,
     transaction_builder_set = transaction_builder_set b \<rparr>"

definition with_transaction_read :: "('st, 'ix, 'tb) WalletClientBuilder \<Rightarrow> 'ix2 \<Rightarrow> ('st, 'ix2, 'tb) WalletClientBuilder" where
  "with_transaction_read b index = \<lparr> wcb_storage = wcb_storage b, wcb_index = index,
     wcb_transaction_builder = wcb_transaction_builder b, storage_set = storage_set b, index_set = True,
     transaction_builder_set = transaction_builder_set b \<rparr>"

definition with_transaction_write :: "('st, 'ix, 'tb) WalletClientBuilder \<Rightarrow> 'tb2 \<Rightarrow> ('st, 'ix, 'tb2) WalletClientBuilder" where
  "with_transaction_write b transaction_builder = \<lparr> wcb_storage = wcb_storage b, wcb_index = wcb_index b,
     wcb_transaction_builder = transaction_builder, storage_set = storage_set b, index_set = index_set b,
     transaction_builder_set = True \<rparr>"

definition wallet_client_build ::
    "ClientLib \<Rightarrow> 'm MuSigLib \<Rightarrow> ('s Storage, 's Index, 's TransactionBuilder) WalletClientBuilder \<Rightarrow>
       ('s, 'm) WalletClient outcome" where
  "wallet_client_build L G b =
     (if (\<not> index_set b \<and> \<not> transaction_builder_set b) \<or> (storage_set b \<and> index_set b)
      then Ok (wallet_client_new L G (wcb_storage b) (wcb_index b) (wcb_transaction_builder b))
      else Err (Failed ErrorKind.InvalidInput))"

end
