(* ===== verification/Wallet_Run.thy ===== *)
theory Wallet_Run
  imports Wallet_Client
begin

text \<open>
  What the storage of a client keeps under any sequence of wallet operations and indexed transactions,
  and what follows for the wallets in it: they report the ledger of their addresses, and the chain
  accepts the transfers they create.
\<close>

section \<open>Entries of the storage\<close>

text \<open>
  The four keyspaces of \<open>client-core\<close> hold sealed values only.  A private key is stored under its own
  public key, a multi-signature address under the root of its own tree, a wallet as its encoding.
\<close>

definition core_keyspaces :: "str set" where
  "core_keyspaces = {KEY_KEYSPACE, ROOT_HASH_KEYSPACE, WALLET_KEYSPACE, SESSION_KEYSPACE}"

definition entry_ok :: "ClientLib \<Rightarrow> str \<Rightarrow> bytes \<Rightarrow> bytes \<Rightarrow> bool" where
  "entry_ok L ks key v \<longleftrightarrow>
     (ks = KEY_KEYSPACE \<longrightarrow> key = public_key_serialize L (public_of_private L v) \<and> sk_from_slice L v = Ok v) \<and>
     (ks = ROOT_HASH_KEYSPACE \<longrightarrow> (\<exists>a cs. v = enc (multi_sig_address_codec L) a \<and>
        msa_merkle_tree a = merkle_new (blake2s (cl_ext L)) raw_pubkey_bytes cs \<and> key = root_hash (msa_merkle_tree a))) \<and>
     (ks = WALLET_KEYSPACE \<longrightarrow> (\<exists>W. v = enc (wallet_codec L) W))"

lemma core_keyspaces_distinct:
  "KEY_KEYSPACE \<noteq> ROOT_HASH_KEYSPACE" "KEY_KEYSPACE \<noteq> SESSION_KEYSPACE" "ROOT_HASH_KEYSPACE \<noteq> WALLET_KEYSPACE"
  "ROOT_HASH_KEYSPACE \<noteq> SESSION_KEYSPACE" "WALLET_KEYSPACE \<noteq> SESSION_KEYSPACE"
  by (simp_all add: KEY_KEYSPACE_def WALLET_KEYSPACE_def ROOT_HASH_KEYSPACE_def SESSION_KEYSPACE_def ascii_def)

lemma index_keyspaces_not_core:
  "ADDRESS_KEYSPACE \<notin> core_keyspaces" "TRANSACTION_KEYSPACE \<notin> core_keyspaces"
  by (simp_all add: core_keyspaces_def ADDRESS_KEYSPACE_def TRANSACTION_KEYSPACE_def KEY_KEYSPACE_def WALLET_KEYSPACE_def
      ROOT_HASH_KEYSPACE_def SESSION_KEYSPACE_def ascii_def)

lemmas keyspace_facts = core_keyspaces_distinct core_keyspaces_distinct [symmetric] keyspaces_distinct
  keyspaces_distinct [symmetric]

definition never_panics :: "'a outcome \<Rightarrow> bool" where
  "never_panics r \<longleftrightarrow> (\<forall>msg. r \<noteq> Err (Panicked msg))"

context client_storage
begin

definition keystore_ok :: "ClientLib \<Rightarrow> 's \<Rightarrow> bool" where
  "keystore_ok L s \<longleftrightarrow> healthy s \<and> (\<forall>ks \<in> core_keyspaces. \<forall>key. view s ks key = None \<or>
     (\<exists>p v. sealed (cl_aead L) p key v (view s ks key) \<and> entry_ok L ks key v))"

text \<open>An operation of the wallet keeps the entries and does not touch the keyspaces of the index.\<close>

definition guarded :: "ClientLib \<Rightarrow> ('s, 'a) action \<Rightarrow> bool" where
  "guarded L m \<longleftrightarrow> (\<forall>w w' r. keystore_ok L (store w) \<longrightarrow> m w = (w', r) \<longrightarrow> keystore_ok L (store w') \<and>
     (\<forall>ks. ks \<notin> core_keyspaces \<longrightarrow> view (store w') ks = view (store w) ks))"

lemma guardedD:
  "\<lbrakk> m w = (w', r); guarded L m; keystore_ok L (store w) \<rbrakk> \<Longrightarrow>
   keystore_ok L (store w') \<and> (\<forall>ks. ks \<notin> core_keyspaces \<longrightarrow> view (store w') ks = view (store w) ks)"
  unfolding guarded_def by blast

lemma guarded_pure: "guarded L (act_pure r)" and guarded_read: "guarded L (act_read f)" and guarded_ask: "guarded L (act_ask g)"
  by (auto simp: guarded_def)

lemma guarded_bind:
  assumes "guarded L m" "\<And>x. guarded L (f x)"
  shows "guarded L (act_bind m f)"
  unfolding guarded_def
proof (intro allI impI)
  fix w w' r
  assume w: "keystore_ok L (store w)" and run: "act_bind m f w = (w', r)"
  obtain w1 r1 where m: "m w = (w1, r1)" by fastforce
  have 1: "keystore_ok L (store w1)" "\<forall>ks. ks \<notin> core_keyspaces \<longrightarrow> view (store w1) ks = view (store w) ks"
    using assms(1) w m unfolding guarded_def by blast+
  show "keystore_ok L (store w') \<and> (\<forall>ks. ks \<notin> core_keyspaces \<longrightarrow> view (store w') ks = view (store w) ks)"
  proof (cases r1)
    case (Inl e)
    then have "w' = w1" using run m act_bind_fail [of m w w1 e f] by simp
    then show ?thesis using 1 by simp
  next
    case (Inr x)
    then have "f x w1 = (w', r)" using run m act_bind_eq [of m w w1 x f] by simp
    then have "keystore_ok L (store w') \<and> (\<forall>ks. ks \<notin> core_keyspaces \<longrightarrow> view (store w') ks = view (store w1) ks)"
      using assms(2) [of x] 1(1) unfolding guarded_def by blast
    then show ?thesis using 1(2) by simp
  qed
qed

lemma guarded_if: "\<lbrakk> b \<Longrightarrow> guarded L m; \<not> b \<Longrightarrow> guarded L m' \<rbrakk> \<Longrightarrow> guarded L (if b then m else m')"
  by simp

lemma guarded_case_prod: "(\<And>x y. guarded L (f x y)) \<Longrightarrow> guarded L (case p of (x, y) \<Rightarrow> f x y)"
  by (cases p) simp

lemmas guarded_intros = guarded_pure guarded_read guarded_ask guarded_bind guarded_if guarded_case_prod

lemma keystore_stored:
  assumes "keystore_ok L (store w)" "stored_now (cl_aead L) ks key p v w w'" "entry_ok L ks key v" "ks \<in> core_keyspaces"
  shows "keystore_ok L (store w') \<and> (\<forall>ks. ks \<notin> core_keyspaces \<longrightarrow> view (store w') ks = view (store w) ks)"
proof -
  obtain c where c: "view (store w') = (view (store w))(ks := (view (store w) ks)(key := c))"
    using assms(2) by (auto simp: stored_now_def)
  have h: "healthy (store w')" and sl: "sealed (cl_aead L) p key v (view (store w') ks key)"
    using assms(2) by (simp_all add: stored_now_def)
  have "view (store w') ks' key' = None \<or> (\<exists>p v. sealed (cl_aead L) p key' v (view (store w') ks' key') \<and> entry_ok L ks' key' v)"
    if k: "ks' \<in> core_keyspaces" for ks' key'
  proof (cases "ks' = ks \<and> key' = key")
    case True
    then show ?thesis using sl assms(3) by blast
  next
    case False
    then have "view (store w') ks' key' = view (store w) ks' key'" using c by auto
    then show ?thesis using assms(1) k by (simp add: keystore_ok_def)
  qed
  moreover have "view (store w') ks' = view (store w) ks'" if "ks' \<notin> core_keyspaces" for ks'
    using that assms(4) c by auto
  ultimately show ?thesis using h by (simp add: keystore_ok_def)
qed

lemma guarded_set_secure:
  assumes "client_laws L" "ks \<in> core_keyspaces" "entry_ok L ks key v"
  shows "guarded L (set_secure (cl_aead L) S ks key v p)"
  unfolding guarded_def
proof (intro allI impI)
  fix w w' r
  assume w: "keystore_ok L (store w)" and run: "set_secure (cl_aead L) S ks key v p w = (w', r)"
  show "keystore_ok L (store w') \<and> (\<forall>ks. ks \<notin> core_keyspaces \<longrightarrow> view (store w') ks = view (store w) ks)"
  proof (cases "get_secure (cl_aead L) S ks key p (store w)")
    case (Inl e)
    then have "w' = w" using run set_secure_refused [OF Inl] by simp
    then show ?thesis using w by simp
  next
    case (Inr old)
    have "healthy (store w)" using w by (simp add: keystore_ok_def)
    from set_secure_new [OF client_lawsD(1) [OF assms(1)] this Inr, of v] run
    have "stored_now (cl_aead L) ks key p v w w'" by auto
    then show ?thesis by (rule keystore_stored [OF w _ assms(3,2)])
  qed
qed

text \<open>Opening an entry never panics: sealed values are long enough to hold a nonce.\<close>

lemma keystore_opens:
  assumes "keystore_ok L s" "ks \<in> core_keyspaces"
  shows "never_panics (transposed (open_value (cl_aead L) p key) (view s ks key))"
proof (cases "view s ks key")
  case (Some c)
  then obtain q v where "sealed (cl_aead L) q key v (Some c)"
    using assms unfolding keystore_ok_def by (metis option.distinct(1))
  then have "NONCE_SIZE \<le> length c" by (auto simp: sealed_def seal_value_def)
  then show ?thesis using Some by (auto simp: never_panics_def open_value_def Let_def result_simps)
qed (simp add: never_panics_def)

lemma guarded_update:
  assumes "client_laws L" "ks \<in> core_keyspaces"
    and f: "\<And>c. never_panics (f c)" "\<And>c r. f c = Ok r \<Longrightarrow> \<exists>v. r = Some v \<and> entry_ok L ks key v"
  shows "guarded L (fetch_and_update_secure (cl_aead L) S ks key p f)"
  unfolding guarded_def
proof (intro allI impI)
  fix w w' r
  assume w: "keystore_ok L (store w)" and run: "fetch_and_update_secure (cl_aead L) S ks key p f w = (w', r)"
  let ?cur = "transposed (open_value (cl_aead L) p key) (view (store w) ks key)"
  have h: "healthy (store w)" using w by (simp add: keystore_ok_def)
  show "keystore_ok L (store w') \<and> (\<forall>ks. ks \<notin> core_keyspaces \<longrightarrow> view (store w') ks = view (store w) ks)"
  proof (cases "try_bind ?cur f")
    case (Inl e)
    then have "\<exists>k. e = Failed k"
      using keystore_opens [OF w assms(2), of p key] f(1) by (cases e) (auto simp: never_panics_def result_simps)
    then obtain k where k: "try_bind ?cur f = Err (Failed k)" using Inl by blast
    from fetch_and_update_secure_fails [OF h k] run
    have "healthy (store w')" "view (store w') = view (store w)" by auto
    then show ?thesis using w by (simp add: keystore_ok_def)
  next
    case (Inr x)
    then obtain cur where cur: "?cur = Ok cur" "f cur = Ok x" by (auto simp: result_simps)
    from f(2) [OF cur(2)] obtain v where v: "f cur = Ok (Some v)" "entry_ok L ks key v" using cur(2) by blast
    from fetch_and_update_secure_Ok [where f = f, OF client_lawsD(1) [OF assms(1)] h cur(1) v(1)] run
    have "stored_now (cl_aead L) ks key p v w w'" by auto
    then show ?thesis by (rule keystore_stored [OF w _ v(2) assms(2)])
  qed
qed

end

section \<open>Operations of the services\<close>

context client_storage
begin

lemma never_panics_intros:
  "never_panics (Ok x)" "never_panics (Err (Failed k))" "never_panics (or_kind k o1)" "never_panics (with_context k r)"
  "never_panics (decode_all c b)" "never_panics (map_err (\<lambda>_. Failed k) r1)"
  "\<lbrakk> never_panics m; \<And>y. never_panics (g y) \<rbrakk> \<Longrightarrow> never_panics (try_bind m g)"
  by (auto simp: never_panics_def result_simps decode_all_def)

lemma guarded_generate_keypair: "client_laws L \<Longrightarrow> guarded L (generate_keypair L S p)"
  unfolding guarded_def
proof (intro allI impI)
  fix w w' r
  assume L: "client_laws L" and w: "keystore_ok L (store w)" and run: "generate_keypair L S p w = (w', r)"
  let ?sk = "sk_new L (tick w)" and ?w = "w\<lparr> tick := tick w + 1 \<rparr>"
  let ?set = "set_secure (cl_aead L) S KEY_KEYSPACE (public_key_serialize L (public_of_private L ?sk)) ?sk p"
  have "entry_ok L KEY_KEYSPACE (public_key_serialize L (public_of_private L ?sk)) ?sk"
    using client_lawsD(10) [OF L] by (simp add: entry_ok_def keyspace_facts)
  then have g: "guarded L (act_bind ?set (\<lambda>_. act_pure (Ok (public_of_private L ?sk, ?sk))))"
    by (intro guarded_intros guarded_set_secure [OF L]) (simp_all add: core_keyspaces_def)
  have "generate_keypair L S p w = act_bind ?set (\<lambda>_. act_pure (Ok (public_of_private L ?sk, ?sk))) ?w"
    unfolding generate_keypair_def by (subst act_bind_eq [where x = ?sk and w' = ?w]) (simp_all add: Let_def)
  then show "keystore_ok L (store w') \<and> (\<forall>ks. ks \<notin> core_keyspaces \<longrightarrow> view (store w') ks = view (store w) ks)"
    using g [unfolded guarded_def, rule_format, of ?w w' r] w run by simp
qed

lemma guarded_edit_wallet:
  assumes "client_laws L"
  shows "guarded L (fetch_and_update_secure (cl_aead L) S WALLET_KEYSPACE name p (edit_wallet L f))"
proof (rule guarded_update [OF assms])
  show "never_panics (edit_wallet L f c)" for c unfolding edit_wallet_def by (intro never_panics_intros)
  show "\<exists>v. r = Some v \<and> entry_ok L WALLET_KEYSPACE name v" if "edit_wallet L f c = Ok r" for c r
    using that by (auto simp: edit_wallet_def result_simps entry_ok_def keyspace_facts)
qed (simp add: core_keyspaces_def)

lemma guarded_wallet_service:
  assumes "client_laws L"
  shows "guarded L (ws_create L S name p vk)" "guarded L (ws_add_public_key L S name p k)"
    "guarded L (ws_add_root_hash L S name p h)"
proof -
  have "entry_ok L WALLET_KEYSPACE name (enc (wallet_codec L) W)" for W by (auto simp: entry_ok_def keyspace_facts)
  then show "guarded L (ws_create L S name p vk)"
    unfolding ws_create_def set_wallet_def
    by (intro guarded_intros guarded_set_secure [OF assms]) (simp_all add: core_keyspaces_def)
  show "guarded L (ws_add_public_key L S name p k)" "guarded L (ws_add_root_hash L S name p h)"
    unfolding ws_add_public_key_def ws_add_root_hash_def by (intro guarded_intros guarded_edit_wallet [OF assms])+
qed

lemma guarded_new_root_hash:
  assumes "client_laws L"
  shows "guarded L (new_root_hash L S pks self m n p)"
proof -
  let ?a = "\<lambda>cs. \<lparr> msa_m = m, msa_n = n, msa_self_public_key = self,
    msa_merkle_tree = merkle_new (blake2s (cl_ext L)) raw_pubkey_bytes cs \<rparr>"
  have "entry_ok L ROOT_HASH_KEYSPACE (root_hash (merkle_new (blake2s (cl_ext L)) raw_pubkey_bytes cs))
      (enc (multi_sig_address_codec L) (?a cs))" for cs
    using exI [of _ "?a cs"] by (simp add: entry_ok_def keyspace_facts) (metis MultiSigAddress.select_convs(4))
  then show ?thesis
    unfolding new_root_hash_def Let_def
    by (intro guarded_intros guarded_set_secure [OF assms]) (simp_all add: core_keyspaces_def)
qed

lemma guarded_set_session: "client_laws L \<Longrightarrow> guarded L (set_session L G S sid session p)"
  unfolding set_session_def
  by (intro guarded_intros guarded_set_secure) (simp_all add: core_keyspaces_def entry_ok_def keyspace_facts)

lemma guarded_receive:
  assumes "client_laws L" "\<And>s. never_panics (f s)"
  shows "guarded L (receive L G S f sid p)"
  unfolding receive_def
proof (intro guarded_intros guarded_update [OF assms(1)])
  show "never_panics (edit_session L G f c)" for c
    unfolding edit_session_def by (intro never_panics_intros assms(2))
  show "\<exists>v. r = Some v \<and> entry_ok L SESSION_KEYSPACE sid v" if "edit_session L G f c = Ok r" for c r
    using that by (auto simp: edit_session_def result_simps entry_ok_def keyspace_facts)
qed (simp add: core_keyspaces_def)

lemma guarded_sessions:
  assumes "client_laws L"
  shows "guarded L (new_session L G S message ks k sk p)" "guarded L (svc_nonce_commitment L G S sid p)"
    "guarded L (svc_nonce L G S sid p)" "guarded L (svc_partial_signature L G S sid p)"
    "guarded L (svc_add_nonce_commitment L G S sid c k p)" "guarded L (svc_add_nonce L G S sid n k p)"
    "guarded L (svc_add_partial_signature L G S sid q k p)"
proof -
  note rules = guarded_intros guarded_set_session [OF assms]
  show "guarded L (new_session L G S message ks k sk p)"
    unfolding new_session_def Let_def by (intro rules)
  have answer: "guarded L (answer L G S calc has add sid p)" for calc :: "MultiSigSession \<Rightarrow> 'v outcome" and has add
    unfolding answer_def Let_def by (intro rules)
  then show "guarded L (svc_nonce_commitment L G S sid p)" "guarded L (svc_nonce L G S sid p)"
    "guarded L (svc_partial_signature L G S sid p)"
    unfolding svc_nonce_commitment_def svc_nonce_def svc_partial_signature_def
    unfolding answer_def Let_def by (intro rules)+
  have "never_panics (update_signer g k s)" if "\<And>x. never_panics (g x)" for g s
    unfolding update_signer_def signer_index_def by (intro never_panics_intros that)
  moreover have "never_panics (signer_add_nonce_commitment g c)" "never_panics (signer_add_nonce g n)"
    "never_panics (signer_add_partial_signature g q)" for g
    by (simp_all add: never_panics_def signer_add_nonce_commitment_def signer_add_nonce_def signer_add_partial_signature_def)
  ultimately show "guarded L (svc_add_nonce_commitment L G S sid c k p)" "guarded L (svc_add_nonce L G S sid n k p)"
    "guarded L (svc_add_partial_signature L G S sid q k p)"
    unfolding svc_add_nonce_commitment_def svc_add_nonce_def svc_add_partial_signature_def session_add_nonce_commitment_def
      session_add_nonce_def session_add_partial_signature_def
    by (intro guarded_receive [OF assms]; simp)+
qed

end

section \<open>Runs of a client\<close>

text \<open>The operations of the wallet client that write to the storage, with any result.\<close>

inductive wallet_step :: "('s, 'm) WalletClient \<Rightarrow> 's World \<Rightarrow> 's World \<Rightarrow> bool" for C where
  "wc_new_wallet C name p w = (w', r) \<Longrightarrow> wallet_step C w w'"
| "wc_new_public_key C name p w = (w', r) \<Longrightarrow> wallet_step C w w'"
| "wc_new_staking_address C name p w = (w', r) \<Longrightarrow> wallet_step C w w'"
| "wc_new_transfer_address C name p w = (w', r) \<Longrightarrow> wallet_step C w w'"
| "wc_new_multisig_transfer_address C name p ks k m n w = (w', r) \<Longrightarrow> wallet_step C w w'"
| "wc_new_multi_sig_session C name p message ks k w = (w', r) \<Longrightarrow> wallet_step C w w'"
| "wc_nonce_commitment C sid p w = (w', r) \<Longrightarrow> wallet_step C w w'"
| "wc_add_nonce_commitment C sid p c k w = (w', r) \<Longrightarrow> wallet_step C w w'"
| "wc_nonce C sid p w = (w', r) \<Longrightarrow> wallet_step C w w'"
| "wc_add_nonce C sid p pn k w = (w', r) \<Longrightarrow> wallet_step C w w'"
| "wc_partial_signature C sid p w = (w', r) \<Longrightarrow> wallet_step C w w'"
| "wc_add_partial_signature C sid p q k w = (w', r) \<Longrightarrow> wallet_step C w w'"

text \<open>
  A client that starts with an empty storage, in any interleaving of wallet operations and transactions
  of the chain handed to its index, together with the ledger of these transactions.
\<close>

inductive client_run :: "IndexLib \<Rightarrow> (MemoryStorage, 'm) WalletClient \<Rightarrow> MemoryStorage World \<Rightarrow> Ledger \<Rightarrow> bool" for I C where
  run_fresh: "client_run I C fresh_world ledger_empty"
| run_wallet: "\<lbrakk> client_run I C w Led; wallet_step C w w' \<rbrakk> \<Longrightarrow> client_run I C w' Led"
| run_indexed: "\<lbrakk> client_run I C w Led; ledger_accepts I Led t; transaction_on_next I memory_storage t h bt w = (w', r) \<rbrakk> \<Longrightarrow>
    client_run I C w' (ledger_next (il_ext I) t Led)"

text \<open>The client of one storage and one index library.\<close>

definition client_of :: "IndexLib \<Rightarrow> TmClient \<Rightarrow> ('s, 'm) WalletClient \<Rightarrow> 's Storage \<Rightarrow> bool" where
  "client_of I node C S \<longleftrightarrow> wc_storage C = S \<and> wc_lib C = il_client I \<and> wc_index C = default_index I S node"

context client_storage
begin

lemma guarded_wallet_client:
  assumes L: "client_laws (wc_lib C)" and C: "wc_storage C = S"
  shows "wallet_step C w w' \<Longrightarrow> keystore_ok (wc_lib C) (store w) \<Longrightarrow>
    keystore_ok (wc_lib C) (store w') \<and> (\<forall>ks. ks \<notin> core_keyspaces \<longrightarrow> view (store w') ks = view (store w) ks)"
proof -
  note rules = guarded_intros guarded_generate_keypair [OF L] guarded_wallet_service [OF L] guarded_new_root_hash [OF L]
    guarded_sessions [OF L]
  have pk: "guarded (wc_lib C) (wc_new_public_key C name p)" for name p
    unfolding wc_new_public_key_def C by (intro rules)
  have addr: "guarded (wc_lib C) (wc_new_multisig_transfer_address C name p ks k m n)" for name p ks k m n
    unfolding wc_new_multisig_transfer_address_def C by (intro rules)
  have ops: "guarded (wc_lib C) (wc_new_wallet C name p)" "guarded (wc_lib C) (wc_new_staking_address C name p)"
    "guarded (wc_lib C) (wc_new_transfer_address C name p)" "guarded (wc_lib C) (wc_new_multi_sig_session C name p message ks k)"
    "guarded (wc_lib C) (wc_nonce_commitment C sid p)" "guarded (wc_lib C) (wc_add_nonce_commitment C sid p c k)"
    "guarded (wc_lib C) (wc_nonce C sid p)" "guarded (wc_lib C) (wc_add_nonce C sid p n k)"
    "guarded (wc_lib C) (wc_partial_signature C sid p)" "guarded (wc_lib C) (wc_add_partial_signature C sid p q k)"
    for name p message ks k sid c n q
    unfolding wc_new_wallet_def wc_new_staking_address_def wc_new_transfer_address_def wc_new_multi_sig_session_def
      wc_nonce_commitment_def wc_add_nonce_commitment_def wc_nonce_def wc_add_nonce_def wc_partial_signature_def
      wc_add_partial_signature_def C
    by (intro rules pk addr)+
  show "wallet_step C w w' \<Longrightarrow> keystore_ok (wc_lib C) (store w) \<Longrightarrow> ?thesis"
    by (induction rule: wallet_step.induct) (erule guardedD, rule ops pk addr, assumption)+
qed

lemma index_at_frame:
  assumes "index_at I Led s" "healthy s'" "\<forall>ks. ks \<notin> core_keyspaces \<longrightarrow> view s' ks = view s ks"
  shows "index_at I Led s'"
  using assms index_keyspaces_not_core
  by (simp add: index_at_def transactions_at_def details_match_def details_at_def)

text \<open>What is kept can only be read with the passphrase it was sealed with.\<close>

lemma keystore_get:
  assumes "client_laws L" "aead_authentic (cl_aead L)" "keystore_ok L s" "ks \<in> core_keyspaces"
    and "get_secure (cl_aead L) S ks key p s = Ok (Some v)"
  shows "sealed (cl_aead L) p key v (view s ks key) \<and> entry_ok L ks key v"
proof -
  have h: "healthy s" using assms(3) by (simp add: keystore_ok_def)
  have "view s ks key \<noteq> None" using assms(5) get_secure_absent [OF h] by force
  moreover have "view s ks key = None \<or> (\<exists>p v. sealed (cl_aead L) p key v (view s ks key) \<and> entry_ok L ks key v)"
    using assms(3,4) by (simp add: keystore_ok_def)
  ultimately obtain q v' where q: "sealed (cl_aead L) q key v' (view s ks key)" "entry_ok L ks key v'" by metis
  have "q = p"
  proof (rule ccontr)
    assume "q \<noteq> p"
    then have "get_secure (cl_aead L) S ks key p s = Err (Failed DecryptionError)"
      using get_sealed_other [OF assms(2) h q(1)] by simp
    then show False using assms(5) by simp
  qed
  moreover from this have "v' = v" using get_sealed [OF client_lawsD(1) [OF assms(1)] h, of p key v' ks] q(1) assms(5) by simp
  ultimately show ?thesis using q by simp
qed

lemma keystore_sound:
  assumes "client_laws L" "schnorr_laws L" "aead_authentic (cl_aead L)" "keystore_ok L s"
  shows "wallet_sound L S p s"
proof -
  have "\<exists>cs. msa_merkle_tree a = merkle_new (blake2s (cl_ext L)) raw_pubkey_bytes cs \<and> h = root_hash (msa_merkle_tree a)"
    if r: "read_address L S h p s = Ok a" for h a
  proof -
    obtain v where v: "get_secure (cl_aead L) S ROOT_HASH_KEYSPACE h p s = Ok (Some v)"
      "decode_all (multi_sig_address_codec L) v = Ok a"
      using r by (auto simp: read_address_def result_simps)
    have "entry_ok L ROOT_HASH_KEYSPACE h v"
      using keystore_get [OF assms(1,3,4) _ v(1)] by (simp add: core_keyspaces_def)
    then obtain a' cs where "v = enc (multi_sig_address_codec L) a'" "msa_merkle_tree a' = merkle_new (blake2s (cl_ext L)) raw_pubkey_bytes cs"
      "h = root_hash (msa_merkle_tree a')"
      unfolding entry_ok_def by blast
    then show ?thesis using v(2) by (auto simp: decode_all_enc multi_sig_address_codec_ok assms(1))
  qed
  moreover have "public_of_private L sk = k" if r: "key_private_key L S k p s = Ok (Some sk)" for k sk
  proof -
    obtain v where v: "get_secure (cl_aead L) S KEY_KEYSPACE (public_key_serialize L k) p s = Ok (Some v)"
      "private_key_deserialize_from L v = Ok sk"
      using r by (auto simp: key_private_key_def result_simps) (case_tac x; auto simp: result_simps)
    have "entry_ok L KEY_KEYSPACE (public_key_serialize L k) v"
      using keystore_get [OF assms(1,3,4) _ v(1)] by (simp add: core_keyspaces_def)
    then show ?thesis
      using v(2) by (simp add: entry_ok_def serialize_inj assms(1) private_key_deserialize_from_def)
  qed
  ultimately show ?thesis using assms(1,2) by (simp add: wallet_sound_def)
qed

lemma keystore_wallet:
  assumes "client_laws L" "aead_authentic (cl_aead L)" "keystore_ok L s" "get_wallet L S name p s = Ok W"
  shows "wallet_at L name p W s"
proof -
  obtain v where v: "get_secure (cl_aead L) S WALLET_KEYSPACE name p s = Ok (Some v)" "decode_all (wallet_codec L) v = Ok W"
    using assms(4) by (auto simp: get_wallet_def result_simps)
  from keystore_get [OF assms(1-3) _ v(1)] have sl: "sealed (cl_aead L) p name v (view s WALLET_KEYSPACE name)"
    and "entry_ok L WALLET_KEYSPACE name v" by (simp_all add: core_keyspaces_def)
  then obtain W' where "v = enc (wallet_codec L) W'" unfolding entry_ok_def by blast
  then have "v = enc (wallet_codec L) W" using v(2) by (simp add: decode_all_enc wallet_codec_ok assms(1))
  then show ?thesis using sl assms(3) by (simp add: wallet_at_def keystore_ok_def)
qed

end

section \<open>Addresses that can be spent from\<close>

context client_storage
begin

text \<open>The addresses on the device can be read with the passphrase.\<close>

definition addresses_open :: "ClientLib \<Rightarrow> bytes \<Rightarrow> 's \<Rightarrow> bool" where
  "addresses_open L p s \<longleftrightarrow> (\<forall>h. \<exists>old. get_secure (cl_aead L) S ROOT_HASH_KEYSPACE h p s = Ok old)"

lemma key_at_frame:
  "\<lbrakk> key_at L k p sk (store w); only_key ks key w w'; healthy (store w'); ks \<noteq> KEY_KEYSPACE \<rbrakk> \<Longrightarrow> key_at L k p sk (store w')"
  by (simp add: key_at_def only_key_def)

lemma address_at_frame:
  "\<lbrakk> address_at L h p a (store w); only_key ks key w w'; healthy (store w'); ks \<noteq> ROOT_HASH_KEYSPACE \<rbrakk> \<Longrightarrow>
   address_at L h p a (store w')"
  by (simp add: address_at_def only_key_def)

lemma addresses_open_frame:
  "\<lbrakk> addresses_open L p (store w); healthy (store w); only_key ks key w w'; healthy (store w'); ks \<noteq> ROOT_HASH_KEYSPACE \<rbrakk> \<Longrightarrow>
   addresses_open L p (store w')"
  by (simp add: addresses_open_def get_secure_view only_key_def)

lemma single_combination:
  assumes "combination_laws L" "x \<in> set (it_combinations L 1 [k])"
  shows "x = [k]"
proof -
  have "x \<in> set (subseqs [k])" "length x = 1"
    using assms by (simp_all add: combination_laws_def del: subseqs.simps One_nat_def)
  then show ?thesis by auto
qed

lemma combinations_single:
  assumes "combination_laws L"
  shows "\<exists>cs. combinations L [k] 1 = Ok cs"
proof -
  have "raw_public_key L (sort x) = Ok (raw_of_public_key L k)" if "x \<in> set (it_combinations L 1 [k])" for x
    using single_combination [OF assms that] by (simp add: raw_public_key_def)
  then have "list_all2 (\<lambda>x y. raw_public_key L (sort x) = Ok y) (it_combinations L 1 [k])
      (map (\<lambda>_. raw_of_public_key L k) (it_combinations L 1 [k]))"
    by (simp add: list_all2_conv_all_nth)
  then have "collect_result (\<lambda>x. raw_public_key L (sort x)) (it_combinations L 1 [k]) =
      Ok (map (\<lambda>_. raw_of_public_key L k) (it_combinations L 1 [k]))"
    by (simp only: collect_result_Ok_iff)
  then show ?thesis by (simp add: combinations_def)
qed

lemma new_root_hash_single:
  assumes "client_laws L" "combination_laws L" "healthy (store w)" "addresses_open L p (store w)"
  shows "\<exists>w' h. new_root_hash L S [k] k 1 1 p w = (w', Ok h)"
proof -
  obtain cs where cs: "combinations L [k] 1 = Ok cs" using combinations_single [OF assms(2)] by blast
  let ?a = "\<lparr> msa_m = 1, msa_n = 1, msa_self_public_key = k,
    msa_merkle_tree = merkle_new (blake2s (cl_ext L)) raw_pubkey_bytes cs \<rparr>"
  let ?h = "root_hash (msa_merkle_tree ?a)"
  obtain old where "get_secure (cl_aead L) S ROOT_HASH_KEYSPACE ?h p (store w) = Ok old"
    using assms(4) by (auto simp: addresses_open_def)
  from set_secure_new [OF client_lawsD(1) [OF assms(1)] assms(3) this, of "enc (multi_sig_address_codec L) ?a"]
  obtain w' where w': "set_secure (cl_aead L) S ROOT_HASH_KEYSPACE ?h (enc (multi_sig_address_codec L) ?a) p w = (w', Ok old)" by blast
  have "new_root_hash L S [k] k 1 1 p w = (w', Ok ?h)"
    unfolding new_root_hash_def using cs w' by (simp add: act_bind.simps Let_def)
  then show ?thesis by blast
qed

lemma addresses_open_new:
  assumes L: "client_laws L" and h: "healthy (store w)" and opens: "addresses_open L p (store w)"
    and a: "address_at L h p a (store w')" "only_key ROOT_HASH_KEYSPACE h w w'"
  shows "addresses_open L p (store w')"
  unfolding addresses_open_def
proof
  fix h'
  have h': "healthy (store w')" using a(1) by (simp add: address_at_def)
  show "\<exists>old. get_secure (cl_aead L) S ROOT_HASH_KEYSPACE h' p (store w') = Ok old"
  proof (cases "h' = h")
    case True
    then show ?thesis
      using a(1) get_sealed [OF client_lawsD(1) [OF L] h'] by (auto simp: address_at_def)
  next
    case False
    then have "view (store w') ROOT_HASH_KEYSPACE h' = view (store w) ROOT_HASH_KEYSPACE h'" using a(2) by (simp add: only_key_def)
    then show ?thesis using opens h h' by (simp add: addresses_open_def get_secure_view)
  qed
qed

text \<open>A new public key: its private key and the entry in the wallet are there afterwards.\<close>

lemma new_public_key_at:
  assumes L: "client_laws L" and C: "wc_lib C = L" "wc_storage C = S"
    and wallet: "wallet_at L name p W (store w)" and opens: "addresses_open L p (store w)"
    and k: "k = public_of_private L (sk_new L (tick w))" "view (store w) KEY_KEYSPACE (public_key_serialize L k) = None"
  shows "\<exists>w'. wc_new_public_key C name p w = (w', Ok k) \<and>
    wallet_at L name p (W\<lparr> wallet_public_keys := wallet_public_keys W @ [k] \<rparr>) (store w') \<and>
    key_at L k p (sk_new L (tick w)) (store w') \<and> addresses_open L p (store w')"
proof -
  have h: "healthy (store w)" using wallet by (simp add: wallet_at_def)
  obtain w1 where w1: "generate_keypair L S p w = (w1, Ok (k, sk_new L (tick w)))" "key_at L k p (sk_new L (tick w)) (store w1)"
    "only_key KEY_KEYSPACE (public_key_serialize L k) w w1"
    using generate_keypair_new [OF L h k] by blast
  have h1: "healthy (store w1)" using w1(2) by (simp add: key_at_def)
  have wallet1: "wallet_at L name p W (store w1)"
    by (rule wallet_at_frame [OF wallet w1(3) h1]) (simp add: keyspace_facts)
  have opens1: "addresses_open L p (store w1)"
    by (rule addresses_open_frame [OF opens h w1(3) h1]) (simp add: keyspace_facts)
  obtain w2 where w2: "ws_add_public_key L S name p k w1 = (w2, Ok ())"
    "wallet_at L name p (W\<lparr> wallet_public_keys := wallet_public_keys W @ [k] \<rparr>) (store w2)" "only_key WALLET_KEYSPACE name w1 w2"
    using ws_add_public_key_at [OF L wallet1] by blast
  have h2: "healthy (store w2)" using w2(2) by (simp add: wallet_at_def)
  have "wc_new_public_key C name p w = (w2, Ok k)"
    unfolding wc_new_public_key_def C
    by (simp only: act_bind_eq [where m = "generate_keypair L S p", OF w1(1)] case_prod_conv
        act_bind_eq [where m = "ws_add_public_key L S name p k", OF w2(1)] act_simps)
  moreover have "key_at L k p (sk_new L (tick w)) (store w2)"
    by (rule key_at_frame [OF w1(2) w2(3) h2]) (simp add: keyspace_facts)
  moreover have "addresses_open L p (store w2)"
    by (rule addresses_open_frame [OF opens1 h1 w2(3) h2]) (simp add: keyspace_facts)
  ultimately show ?thesis using w2(2) by blast
qed

text \<open>A new transfer address: also its tree is there, under its root, and the root is in the wallet.\<close>

lemma new_transfer_address_at:
  assumes L: "client_laws L" "combination_laws L" and C: "wc_lib C = L" "wc_storage C = S"
    and wallet: "wallet_at L name p W (store w)" and opens: "addresses_open L p (store w)"
    and k: "k = public_of_private L (sk_new L (tick w))" "view (store w) KEY_KEYSPACE (public_key_serialize L k) = None"
  shows "\<exists>w' h a. wc_new_transfer_address C name p w = (w', Ok (OrTree h)) \<and>
    wallet_at L name p (W\<lparr> wallet_public_keys := wallet_public_keys W @ [k], wallet_root_hashes := wallet_root_hashes W @ [h] \<rparr>) (store w') \<and>
    address_at L h p a (store w') \<and> address_ok L [k] h a \<and> msa_m a = 1 \<and> msa_self_public_key a = k \<and>
    key_at L k p (sk_new L (tick w)) (store w') \<and> addresses_open L p (store w')"
proof -
  let ?W = "W\<lparr> wallet_public_keys := wallet_public_keys W @ [k] \<rparr>"
  obtain w2 where w2: "wc_new_public_key C name p w = (w2, Ok k)" "wallet_at L name p ?W (store w2)"
    "key_at L k p (sk_new L (tick w)) (store w2)" "addresses_open L p (store w2)"
    using new_public_key_at [OF L(1) C wallet opens k] by blast
  have h2: "healthy (store w2)" using w2(2) by (simp add: wallet_at_def)
  obtain w3 h where w3: "new_root_hash L S [k] k 1 1 p w2 = (w3, Ok h)"
    using new_root_hash_single [OF L h2 w2(4)] by blast
  obtain a where a: "address_at L h p a (store w3)" "address_ok L [k] h a" "msa_m a = 1" "msa_self_public_key a = k"
    "only_key ROOT_HASH_KEYSPACE h w2 w3"
    using new_root_hash_at [OF L(1) h2 w3] by blast
  have h3: "healthy (store w3)" using a(1) by (simp add: address_at_def)
  have wallet3: "wallet_at L name p ?W (store w3)"
    by (rule wallet_at_frame [OF w2(2) a(5) h3]) (simp add: keyspace_facts)
  have key3: "key_at L k p (sk_new L (tick w)) (store w3)"
    by (rule key_at_frame [OF w2(3) a(5) h3]) (simp add: keyspace_facts)
  have opens3: "addresses_open L p (store w3)" by (rule addresses_open_new [OF L(1) h2 w2(4) a(1,5)])
  obtain w4 where w4: "ws_add_root_hash L S name p h w3 = (w4, Ok ())"
    "wallet_at L name p (?W\<lparr> wallet_root_hashes := wallet_root_hashes ?W @ [h] \<rparr>) (store w4)"
    "only_key WALLET_KEYSPACE name w3 w4"
    using ws_add_root_hash_at [OF L(1) wallet3] by blast
  have h4: "healthy (store w4)" using w4(2) by (simp add: wallet_at_def)
  have "ws_public_keys L S name p (store w2) = Ok (wallet_public_keys W @ [k])"
    using get_wallet_at [OF L(1) w2(2)] by (simp add: ws_public_keys_def)
  then have "wc_new_multisig_transfer_address C name p [k] k 1 1 w2 = (w4, Ok (OrTree h))"
    unfolding wc_new_multisig_transfer_address_def wc_public_keys_def C using w3 w4(1) by (simp add: act_bind.simps)
  then have "wc_new_transfer_address C name p w = (w4, Ok (OrTree h))"
    unfolding wc_new_transfer_address_def by (simp only: act_bind_eq [where m = "wc_new_public_key C name p", OF w2(1)])
  moreover have "address_at L h p a (store w4)"
    by (rule address_at_frame [OF a(1) w4(3) h4]) (simp add: keyspace_facts)
  moreover have "addresses_open L p (store w4)"
    by (rule addresses_open_frame [OF opens3 h3 w4(3) h4]) (simp add: keyspace_facts)
  moreover have "key_at L k p (sk_new L (tick w)) (store w4)"
    by (rule key_at_frame [OF key3 w4(3) h4]) (simp add: keyspace_facts)
  moreover have "wallet_at L name p (W\<lparr> wallet_public_keys := wallet_public_keys W @ [k],
      wallet_root_hashes := wallet_root_hashes W @ [h] \<rparr>) (store w4)"
    using w4(2) by simp
  ultimately show ?thesis using a(2,3,4) by blast
qed

text \<open>Asking again for the address of one key of the wallet gives the same address.\<close>

lemma same_address_again:
  assumes L: "client_laws L" "combination_laws L" and C: "wc_lib C = L" "wc_storage C = S"
    and wallet: "wallet_at L name p W (store w)" and k: "k \<in> set (wallet_public_keys W)"
    and a: "address_ok L [k] h a" "msa_m a = 1" and opens: "addresses_open L p (store w)"
  shows "\<exists>w'. wc_new_multisig_transfer_address C name p [k] k 1 1 w = (w', Ok (OrTree h))"
proof -
  have healthy: "healthy (store w)" using wallet by (simp add: wallet_at_def)
  obtain w1 h' where w1: "new_root_hash L S [k] k 1 1 p w = (w1, Ok h')" using new_root_hash_single [OF L healthy opens] by blast
  obtain a' where a': "address_at L h' p a' (store w1)" "address_ok L [k] h' a'" "msa_m a' = 1" "only_key ROOT_HASH_KEYSPACE h' w w1"
    using new_root_hash_at [OF L(1) healthy w1] by blast
  have same: "h' = h" using a a'(2,3) by (auto simp: address_ok_def)
  have "wallet_at L name p W (store w1)"
    using a'(1) by (intro wallet_at_frame [OF wallet a'(4)]) (simp_all add: keyspace_facts address_at_def)
  from ws_add_root_hash_at [OF L(1) this] obtain w2 where w2: "ws_add_root_hash L S name p h w1 = (w2, Ok ())" by blast
  have "ws_public_keys L S name p (store w) = Ok (wallet_public_keys W)"
    using get_wallet_at [OF L(1) wallet] by (simp add: ws_public_keys_def)
  then have "wc_new_multisig_transfer_address C name p [k] k 1 1 w = (w2, Ok (OrTree h))"
    unfolding wc_new_multisig_transfer_address_def wc_public_keys_def C using w1 w2 k same by (simp add: act_bind.simps)
  then show ?thesis by blast
qed

text \<open>A multi-signature address is added to the wallet, whether or not it is there already.\<close>

lemma new_multisig_address_added:
  assumes L: "client_laws L" "aead_authentic (cl_aead L)" and C: "wc_lib C = L" "wc_storage C = S"
    and ok: "keystore_ok L (store w)" and hs: "wc_root_hashes C name p (store w) = Ok hs"
    and run: "wc_new_multisig_transfer_address C name p ks k m n w = (w', Ok (OrTree h))"
  shows "wc_root_hashes C name p (store w') = Ok (hs @ [h])"
proof -
  obtain W where W: "get_wallet L S name p (store w) = Ok W" "hs = wallet_root_hashes W"
    using hs by (auto simp: wc_root_hashes_def C ws_root_hashes_def result_simps)
  have wallet: "wallet_at L name p W (store w)" by (rule keystore_wallet [OF L ok W(1)])
  obtain w1 where w1: "new_root_hash L S ks k m n p w = (w1, Ok h)" "ws_add_root_hash L S name p h w1 = (w', Ok ())"
    using run by (auto simp: wc_new_multisig_transfer_address_def C result_simps split: if_splits)
  have healthy: "healthy (store w)" using wallet by (simp add: wallet_at_def)
  obtain a where a: "address_at L h p a (store w1)" "only_key ROOT_HASH_KEYSPACE h w w1"
    using new_root_hash_at [OF L(1) healthy w1(1)] by blast
  have "wallet_at L name p W (store w1)"
    using a(1) by (intro wallet_at_frame [OF wallet a(2)]) (simp_all add: keyspace_facts address_at_def)
  then have "wallet_at L name p (W\<lparr> wallet_root_hashes := wallet_root_hashes W @ [h] \<rparr>) (store w')"
    using ws_add_root_hash_at [OF L(1), of name p W w1 h] w1(2) by auto
  from get_wallet_at [OF L(1) this] show ?thesis by (simp add: wc_root_hashes_def C ws_root_hashes_def W(2))
qed

end

section \<open>What a run keeps\<close>

text \<open>Transactions are known under their own identifiers.\<close>

definition known_by_id :: "Ext \<Rightarrow> Ledger \<Rightarrow> bool" where
  "known_by_id E Led \<longleftrightarrow> (\<forall>txid t. l_known Led txid = Some t \<longrightarrow> transaction_id E t = txid)"

lemma client_run_keeps:
  assumes "index_laws I" "client_of I node C memory_storage"
  shows "client_run I C w Led \<Longrightarrow> memory.keystore_ok (il_client I) (store w) \<and> memory.index_at I Led (store w) \<and>
    known_by_id (il_ext I) Led"
proof (induction rule: client_run.induct)
  case run_fresh
  have "memory_view (store fresh_world) ks = Map.empty" for ks by (rule ext) simp
  then have "memory.index_at I ledger_empty (store fresh_world)" by (intro memory.index_at_empty) simp_all
  then show ?case by (simp add: memory.keystore_ok_def known_by_id_def ledger_empty_def)
next
  case (run_wallet w Led w')
  have "client_laws (wc_lib C)" "wc_lib C = il_client I" "wc_storage C = memory_storage"
    using assms by (simp_all add: index_laws_def client_of_def)
  then have "memory.keystore_ok (il_client I) (store w')"
    "\<forall>ks. ks \<notin> core_keyspaces \<longrightarrow> memory_view (store w') ks = memory_view (store w) ks"
    using memory.guarded_wallet_client [OF _ _ run_wallet.hyps(2)] run_wallet.IH by simp_all
  then show ?case
    using run_wallet.IH memory.index_at_frame [of I Led "store w" "store w'"] by (simp add: memory.keystore_ok_def)
next
  case (run_indexed w Led t h bt w' r)
  have at: "memory.index_at I Led (store w)" using run_indexed.IH by blast
  obtain w1 where w1: "transaction_on_next I memory_storage t h bt w = (w1, Ok ())"
    "memory.index_at I (ledger_next (il_ext I) t Led) (store w1)"
    "\<forall>ks. ks \<noteq> ADDRESS_KEYSPACE \<and> ks \<noteq> TRANSACTION_KEYSPACE \<longrightarrow> memory_view (store w1) ks = memory_view (store w) ks"
    using memory.index_next_frame [OF assms(1) at run_indexed.hyps(2), of h bt] by blast
  have "(w1, Ok ()) = (w', r)" using w1(1) run_indexed.hyps(3) by (rule trans [OF sym])
  then have "w1 = w'" by blast
  then have w': "memory.index_at I (ledger_next (il_ext I) t Led) (store w')"
    "\<forall>ks. ks \<noteq> ADDRESS_KEYSPACE \<and> ks \<noteq> TRANSACTION_KEYSPACE \<longrightarrow> memory_view (store w') ks = memory_view (store w) ks"
    using w1(2,3) by simp_all
  have "memory_view (store w') ks = memory_view (store w) ks" if "ks \<in> core_keyspaces" for ks
    using w'(2) that index_keyspaces_not_core by metis
  moreover have "\<not> poisoned (store w')" using w'(1) by (simp add: memory.index_at_def memory.transactions_at_def)
  ultimately have "memory.keystore_ok (il_client I) (store w')" using run_indexed.IH by (simp add: memory.keystore_ok_def)
  moreover have "known_by_id (il_ext I) (ledger_next (il_ext I) t Led)"
    using run_indexed.IH by (simp add: known_by_id_def ledger_next_def)
  ultimately show ?case using w'(1) by blast
qed

section \<open>Reports of a wallet\<close>

definition wallet_outputs :: "H256 list \<Rightarrow> (TxoKey, TxOut) btree \<Rightarrow> (TxoKey, TxOut) btree" where
  "wallet_outputs hs u = filter (\<lambda>(_, out). out_address out \<in> OrTree ` set hs) u"

lemma worth_split: "worth (filter P u) + worth (filter Q u) = worth (filter (\<lambda>x. P x \<or> Q x) u)" if "\<And>x. \<not> (P x \<and> Q x)"
  using that by (induction u) auto

lemma worth_addresses:
  "distinct hs \<Longrightarrow> sum_list (map (\<lambda>h. worth (owned (OrTree h) u)) hs) = worth (wallet_outputs hs u)"
proof (induction hs)
  case Nil
  then show ?case by (simp add: wallet_outputs_def case_prod_beta)
next
  case (Cons h hs)
  have "worth (owned (OrTree h) u) + worth (wallet_outputs hs u) =
      worth (filter (\<lambda>x. (case x of (_, out) \<Rightarrow> out_address out = OrTree h) \<or> (case x of (_, out) \<Rightarrow> out_address out \<in> OrTree ` set hs)) u)"
    unfolding owned_def wallet_outputs_def using Cons.prems by (intro worth_split) auto
  also have "\<dots> = worth (wallet_outputs (h # hs) u)"
    unfolding wallet_outputs_def by (rule arg_cong [where f = worth], rule filter_cong) auto
  finally show ?case using Cons by simp
qed

lemma worth_filter: "worth (filter P u) \<le> worth u"
  by (induction u) auto

definition pointer_of :: "TxoKey \<Rightarrow> TxoPointer" where
  "pointer_of k = \<lparr> txo_id = fst k, txo_index = snd k \<rparr>"

lemma unspent_pairs_alt: "unspent_pairs u = map (\<lambda>(k, out). (pointer_of k, out)) u"
  by (auto simp: unspent_pairs_def pointer_of_def)

lemma pointer_of_inj: "pointer_of k = pointer_of k' \<longleftrightarrow> k = k'"
  by (auto simp: pointer_of_def prod_eq_iff)

text \<open>With distinct addresses no output is listed twice.\<close>

lemma distinct_unspent:
  assumes "bt_ok u"
  shows "distinct hs \<Longrightarrow> distinct (map fst (concat (map (\<lambda>h. unspent_pairs (owned (OrTree h) u)) hs)))"
proof (induction hs)
  case (Cons h hs)
  have d: "distinct (map fst u)" using assms by (rule bt_ok_distinct)
  then have "distinct (map fst (owned (OrTree h) u))" unfolding owned_def by (rule distinct_map_filter)
  then have "distinct (map pointer_of (map fst (owned (OrTree h) u)))"
    by (subst distinct_map) (auto simp: inj_on_def pointer_of_inj)
  then have "distinct (map fst (unspent_pairs (owned (OrTree h) u)))"
    by (simp add: unspent_pairs_alt comp_def case_prod_beta)
  moreover have False if "(k, x) \<in> set (owned (OrTree h) u)" "(k, y) \<in> set (owned (OrTree h') u)" "h' \<in> set hs" for k x y h'
  proof -
    have "x = y" using that(1,2) d by (auto simp: owned_def dest: eq_key_imp_eq_value)
    then show False using that Cons.prems by (auto simp: owned_def)
  qed
  then have "set (map fst (unspent_pairs (owned (OrTree h) u))) \<inter>
      set (map fst (concat (map (\<lambda>h. unspent_pairs (owned (OrTree h) u)) hs))) = {}"
    unfolding disjoint_iff by (auto simp: unspent_pairs_alt pointer_of_inj)
  ultimately show ?case using Cons by (simp only: map_append list.map(2) concat.simps distinct_append distinct.simps(2))
qed simp

lemma wallet_reports:
  assumes "index_laws I" "client_of I node C memory_storage" "client_run I C w Led"
    and "wc_root_hashes C name p (store w) = Ok hs"
  shows "wc_unspent_transactions C name p (store w) = Ok (concat (map (\<lambda>h. unspent_pairs (owned (OrTree h) (l_utxo Led))) hs)) \<and>
    (\<exists>bs. wc_balance C name p (store w) = with_context BalanceAdditionError (sum_coins bs) \<and>
       map amount bs = map (\<lambda>h. worth (owned (OrTree h) (l_utxo Led))) hs)"
proof -
  have C: "wc_storage C = memory_storage" "wc_lib C = il_client I" "wc_index C = default_index I memory_storage node"
    using assms(2) by (simp_all add: client_of_def)
  have at: "memory.index_at I Led (store w)" using client_run_keeps [OF assms(1-3)] by blast
  obtain d where d: "\<And>addr. index_address_details I memory_storage addr (store w) = Ok (d addr)"
    "\<And>addr. ad_unspent_transactions (d addr) = owned addr (l_utxo Led)"
    "\<And>addr. amount (ad_balance (d addr)) = worth (owned addr (l_utxo Led))"
    using memory.index_answers [OF assms(1) at] by metis
  have addrs: "wc_transfer_addresses C name p (store w) = Ok (map OrTree hs)"
    using assms(4) by (simp add: wc_transfer_addresses_def ws_transfer_addresses_def wc_root_hashes_def)
  have all: "collect_result (\<lambda>a. try_bind (ix_address_details (wc_index C) a (store w)) (\<lambda>d. Ok (g d))) xs = Ok (map (\<lambda>a. g (d a)) xs)"
    for g :: "AddressDetails \<Rightarrow> 'x" and xs
    unfolding collect_result_Ok_iff by (simp add: C default_index_def d(1) list_all2_conv_all_nth)
  have "map amount (map (\<lambda>a. ad_balance (d a)) (map OrTree hs)) = map (\<lambda>h. worth (owned (OrTree h) (l_utxo Led))) hs"
    by (simp add: d(3))
  moreover have "wc_balance C name p (store w) =
      with_context BalanceAdditionError (sum_coins (map (\<lambda>a. ad_balance (d a)) (map OrTree hs)))"
    unfolding wc_balance_def addrs by (simp only: all try_bind.simps)
  moreover have "wc_unspent_transactions C name p (store w) =
      Ok (concat (map (\<lambda>h. unspent_pairs (owned (OrTree h) (l_utxo Led))) hs))"
    unfolding wc_unspent_transactions_def addrs by (simp add: all d(2) comp_def)
  ultimately show ?thesis by blast
qed

section \<open>Spending what a wallet reports\<close>

text \<open>The transactions whose outputs can be spent, as the chain keeps them.\<close>

definition with_outputs :: "Transaction \<Rightarrow> TxWithOutputs option" where
  "with_outputs t = (case t of
     TransferTransaction tx \<Rightarrow> Some (Transfer tx)
   | WithdrawUnbondedStakeTransaction tx \<Rightarrow> Some (StakeWithdraw tx)
   | _ \<Rightarrow> None)"

definition spent_transaction :: "Ledger \<Rightarrow> TxoPointer \<Rightarrow> TxWithOutputs option" where
  "spent_transaction Led ptr = Option.bind (l_known Led (txo_id ptr)) with_outputs"

definition unlocked :: "ChainInfo \<Rightarrow> TxOut \<Rightarrow> bool" where
  "unlocked info out \<longleftrightarrow> (\<forall>t. out_valid_from out = Some t \<longrightarrow> sint t \<le> sint (previous_block_time info))"

lemma created_with_outputs:
  assumes "i < length (created_by t)"
  shows "\<exists>prev. with_outputs t = Some prev \<and> two_outputs prev = created_by t \<and> two_id E prev = transaction_id E t"
  using assms by (cases t) (auto simp: with_outputs_def created_by_def two_outputs_def two_id_def transaction_id_def)

lemma unspent_held:
  assumes "ledger_wf Led" "known_by_id E Led" "bt_get (l_utxo Led) k = Some out"
  shows "\<exists>prev. spent_transaction Led (pointer_of k) = Some prev \<and>
    (\<forall>info. unlocked info out \<longrightarrow> held_by E info (pointer_of k, out) prev)"
proof -
  obtain t where t: "l_known Led (fst k) = Some t" "unat (snd k) < length (created_by t)" "created_by t ! unat (snd k) = out"
    using assms(1,3) unfolding ledger_wf_def by blast
  obtain prev where "with_outputs t = Some prev" "two_outputs prev = created_by t" "two_id E prev = transaction_id E t"
    using created_with_outputs [OF t(2)] by blast
  moreover have "transaction_id E t = fst k" using assms(2) t(1) by (simp add: known_by_id_def)
  ultimately show ?thesis
    using t by (simp add: spent_transaction_def held_by_def unlocked_def pointer_of_def)
qed

lemma list_all2_choice: "(\<And>x. x \<in> set xs \<Longrightarrow> \<exists>y. P x y) \<Longrightarrow> \<exists>ys. list_all2 P xs ys"
proof (induction xs)
  case (Cons x xs)
  then obtain y ys where "P x y" "list_all2 P xs ys" by (meson list.set_intros)
  then have "list_all2 P (x # xs) (y # ys)" by simp
  then show ?case by blast
qed auto

lemma mset_apply_all: "mset (apply_all ops u) = mset u"
proof (induction ops arbitrary: u)
  case (Cons op ops)
  have "mset (apply_operation op u) = mset u"
    by (cases op) (simp add: apply_operation_def sorter_sort_def split: Sorter.split)
  then show ?case using Cons [of "apply_operation op u"] by (simp add: apply_all_def)
qed (simp add: apply_all_def)

lemma apply_all_perm:
  "set (apply_all ops u) = set u" "distinct (map fst (apply_all ops u)) = distinct (map fst u)"
proof -
  show "set (apply_all ops u) = set u" by (metis mset_apply_all set_mset_mset)
  have "mset (map fst (apply_all ops u)) = mset (map fst u)" by (simp add: mset_apply_all)
  then show "distinct (map fst (apply_all ops u)) = distinct (map fst u)" by (metis mset_eq_imp_distinct_iff)
qed

lemma in_wallet_outputs:
  "x \<in> set (concat (map (\<lambda>h. unspent_pairs (owned (OrTree h) u)) hs)) \<longleftrightarrow> x \<in> set (unspent_pairs (wallet_outputs hs u))"
  by (auto simp: unspent_pairs_alt owned_def wallet_outputs_def)

text \<open>The chain holds the transactions of all selected outputs.\<close>

lemma selected_held:
  assumes "ledger_wf Led" "known_by_id E Led"
    and "\<And>x. x \<in> set sel \<Longrightarrow> \<exists>k. fst x = pointer_of k \<and> bt_get (l_utxo Led) k = Some (snd x)"
  shows "\<exists>prevs. map (spent_transaction Led) (map fst sel) = map Some prevs \<and>
    (\<forall>info. (\<forall>k out. bt_get (l_utxo Led) k = Some out \<longrightarrow> pointer_of k \<in> set (map fst sel) \<longrightarrow> unlocked info out) \<longrightarrow>
       list_all2 (held_by E info) sel prevs)"
proof -
  let ?P = "\<lambda>x prev. spent_transaction Led (fst x) = Some prev \<and> (\<forall>info. unlocked info (snd x) \<longrightarrow> held_by E info x prev)"
  have "\<exists>prev. ?P x prev" if "x \<in> set sel" for x
    using assms(3) [OF that] unspent_held [OF assms(1,2)] by (metis prod.collapse)
  then obtain prevs where prevs: "list_all2 ?P sel prevs"
    using list_all2_choice [of sel ?P] by blast
  then have "map (spent_transaction Led) (map fst sel) = map Some prevs"
    by (auto simp: list_all2_conv_all_nth intro: nth_equalityI)
  moreover have "list_all2 (held_by E info) sel prevs"
    if un: "\<forall>k out. bt_get (l_utxo Led) k = Some out \<longrightarrow> pointer_of k \<in> set (map fst sel) \<longrightarrow> unlocked info out" for info
  proof -
    have "unlocked info (snd x)" if "x \<in> set sel" for x
      using assms(3) [OF that] un that by (metis image_eqI list.set_map)
    then show ?thesis using prevs by (auto simp: list_all2_conv_all_nth)
  qed
  ultimately show ?thesis by blast
qed

text \<open>The builder is asked with the unspent outputs of the wallet.\<close>

lemma create_builds:
  assumes "index_laws I" "client_of I node C memory_storage"
    and "wc_transaction_builder C = default_transaction_builder (il_client I) memory_storage encrypt fee_of"
    and "client_run I C w Led" "wc_root_hashes C name p (store w) = Ok hs" "distinct hs"
    and "wc_create_transaction C name p outputs attributes strategy return_address w = Some (w', Ok aux)"
  shows "\<exists>u. builder_build \<lparr> b_ext = il_ext I, b_sign = signer_sign (il_client I) memory_storage name p, b_encrypt = encrypt,
      b_fee = fee_of \<rparr> outputs attributes u return_address w = Some (w', Ok aux) \<and> distinct (map fst u) \<and>
    (\<forall>x. x \<in> set u \<longrightarrow> (\<exists>k. fst x = pointer_of k \<and> bt_get (l_utxo Led) k = Some (snd x)))"
proof -
  define us where "us = concat (map (\<lambda>h. unspent_pairs (owned (OrTree h) (l_utxo Led))) hs)"
  define u where "u = apply_all (strategy_operations (case strategy of None \<Rightarrow> strategy_default | Some s \<Rightarrow> s)) us"
  have ok: "bt_ok (l_utxo Led)" using client_run_keeps [OF assms(1,2,4)] by (simp add: memory.index_at_def ledger_wf_def)
  have "wc_unspent_transactions C name p (store w) = Ok us"
    using wallet_reports [OF assms(1,2,4,5)] by (simp add: us_def)
  then have "builder_build \<lparr> b_ext = il_ext I, b_sign = signer_sign (il_client I) memory_storage name p, b_encrypt = encrypt,
      b_fee = fee_of \<rparr> outputs attributes u return_address w = Some (w', Ok aux)"
    using assms(7) by (simp add: wc_create_transaction_def assms(3) default_transaction_builder_def Let_def u_def)
  moreover have "distinct (map fst u)"
    unfolding u_def apply_all_perm us_def by (rule distinct_unspent [OF ok assms(6)])
  moreover have "\<exists>k. fst x = pointer_of k \<and> bt_get (l_utxo Led) k = Some (snd x)" if "x \<in> set u" for x
  proof -
    have "x \<in> set us" using that by (simp add: u_def apply_all_perm)
    then obtain k out where "x = (pointer_of k, out)" "(k, out) \<in> set (l_utxo Led)"
      by (auto simp: us_def unspent_pairs_alt owned_def)
    then show ?thesis using bt_ok_distinct [OF ok] by (intro exI [of _ k]) (simp add: bt_get_def)
  qed
  ultimately show ?thesis by blast
qed

section \<open>A concrete client\<close>

definition sample_offline :: TmClient where
  "sample_offline = \<lparr> tm_genesis = (\<lambda>_. Err (Failed RpcError)), tm_status = (\<lambda>_. Err (Failed RpcError)),
     tm_block = (\<lambda>_ _. Err (Failed RpcError)), tm_block_batch = (\<lambda>_ _. Err (Failed RpcError)),
     tm_block_results = (\<lambda>_ _. Err (Failed RpcError)), tm_block_results_batch = (\<lambda>_ _. Err (Failed RpcError)),
     tm_broadcast_transaction = (\<lambda>_ _. Err (Failed RpcError)), tm_query = (\<lambda>_ _ _. Err (Failed RpcError)) \<rparr>"

definition sample_encrypt :: "nat \<Rightarrow> SignedTransaction \<Rightarrow> TxAux outcome" where
  "sample_encrypt t signed_tx = (case signed_tx of
     SignedTransfer tx wit \<Rightarrow> Ok (TransferTx (tx_id sample_ext tx) (tx_inputs tx) (of_nat (length (tx_outputs tx)))
       \<lparr> obf_key_from = 0, obf_nonce = [], txpayload = [] \<rparr>)
   | _ \<Rightarrow> Err (Failed RpcError))"

definition sample_wallet_client :: "(MemoryStorage, bytes) WalletClient" where
  "sample_wallet_client = wallet_client_new sample_client sample_musig memory_storage
     (default_index sample_index memory_storage sample_offline)
     (default_transaction_builder sample_client memory_storage sample_encrypt (\<lambda>_. Ok (Fee (Coin 2))))"

lemma sample_wallet_client_simps:
  "wc_lib sample_wallet_client = sample_client" "wc_storage sample_wallet_client = memory_storage"
  "wc_transaction_builder sample_wallet_client =
     default_transaction_builder sample_client memory_storage sample_encrypt (\<lambda>_. Ok (Fee (Coin 2)))"
  "client_of sample_index sample_offline sample_wallet_client memory_storage"
  by (simp_all add: sample_wallet_client_def wallet_client_new_def client_of_def sample_index_def)

lemma set_secure_tick: "set_secure C S ks key v p w = (w', r) \<Longrightarrow> tick w \<le> tick w'"
  by (auto simp: set_secure_def act_bind.simps act_write_def split: sum.splits prod.splits)

lemma generate_keypair_tick: "generate_keypair L S p w = (w', r) \<Longrightarrow> tick w < tick w'"
  by (auto simp: generate_keypair_def act_bind.simps Let_def split: sum.splits prod.splits dest!: set_secure_tick)

lemma ws_create_tick: "ws_create L S name p vk w = (w', r) \<Longrightarrow> tick w \<le> tick w'"
  by (auto simp: ws_create_def set_wallet_def act_bind.simps split: sum.splits prod.splits if_splits dest!: set_secure_tick)

lemma sample_sk_new_inj: "sk_new sample_client m = sk_new sample_client n \<longleftrightarrow> m = n"
proof -
  have "dec nat_codec (enc nat_codec k) = Ok (k, [])" for k using reads_back_nil [OF nat_codec_ok] by simp
  then have "enc nat_codec m = enc nat_codec n \<Longrightarrow> m = n" by (metis Pair_inject sum.inject(2))
  then show ?thesis by (auto simp: sample_client_def)
qed

text \<open>A wallet is created.\<close>

lemma sample_new_wallet:
  "\<exists>w vk. wc_new_wallet sample_wallet_client [1] [7] fresh_world = (w, Ok ()) \<and>
     memory.wallet_at sample_client [1] [7] (wallet_new vk) (store w) \<and> memory.addresses_open sample_client [7] (store w) \<and>
     memory_view (store w) KEY_KEYSPACE (public_key_serialize sample_client (sk_new sample_client (tick w))) = None"
proof -
  note L = sample_client_laws(1)
  let ?k = "sk_new sample_client 0"
  obtain w1 where w1: "generate_keypair sample_client memory_storage [7] fresh_world = (w1, Ok (?k, ?k))"
    "memory.key_at sample_client ?k [7] ?k (store w1)"
    "memory.only_key KEY_KEYSPACE (public_key_serialize sample_client ?k) fresh_world w1"
    using memory.generate_keypair_new [OF L, of fresh_world ?k "[7]"] by auto
  have v1: "memory_view (store w1) ks key = None" if "(ks, key) \<noteq> (KEY_KEYSPACE, public_key_serialize sample_client ?k)" for ks key
    using w1(3) that by (auto simp: memory.only_key_def)
  have h1: "\<not> poisoned (store w1)" using w1(2) by (simp add: memory.key_at_def)
  obtain w2 where w2: "ws_create sample_client memory_storage [1] [7] ?k w1 = (w2, Ok ())"
    "memory.wallet_at sample_client [1] [7] (wallet_new ?k) (store w2)" "memory.only_key WALLET_KEYSPACE [1] w1 w2"
    using memory.ws_create_fresh [OF L h1, of "[1]" "[7]" ?k] v1 keyspace_facts by auto
  have v2: "memory_view (store w2) ks key = memory_view (store w1) ks key" if "ks \<noteq> WALLET_KEYSPACE" for ks key
    using w2(3) that by (simp add: memory.only_key_def)
  have h2: "\<not> poisoned (store w2)" using w2(2) by (simp add: memory.wallet_at_def)
  have run: "wc_new_wallet sample_wallet_client [1] [7] fresh_world = (w2, Ok ())"
    unfolding wc_new_wallet_def sample_wallet_client_simps
    by (simp only: act_bind_eq [where m = "generate_keypair sample_client memory_storage [7]", OF w1(1)] case_prod_conv w2(1))
  have "memory.addresses_open sample_client [7] (store w2)"
    using memory.get_secure_absent [OF h2] v1 v2 keyspace_facts by (metis memory.addresses_open_def prod.inject)
  moreover have "tick w2 \<noteq> 0" using generate_keypair_tick [OF w1(1)] ws_create_tick [OF w2(1)] by simp
  then have "sk_new sample_client (tick w2) \<noteq> ?k" by (simp add: sample_sk_new_inj)
  then have "memory_view (store w2) KEY_KEYSPACE (public_key_serialize sample_client (sk_new sample_client (tick w2))) = None"
    using v1 v2 keyspace_facts by (simp add: serialize_inj [OF L])
  ultimately show ?thesis using run w2(2) by blast
qed

text \<open>It gets a transfer address, and the index an output to it.\<close>

definition sample_funding :: "H256 \<Rightarrow> WithdrawUnbondedTx" where
  "sample_funding h = withdraw_tx_new 1 [\<lparr> out_address = OrTree h, out_value = Coin 5, out_valid_from = None \<rparr>]
     \<lparr> attr_chain_hex_id = 0, allowed_view = [] \<rparr>"

definition sample_ledger :: "H256 \<Rightarrow> Ledger" where
  "sample_ledger h = ledger_next sample_ext (WithdrawUnbondedStakeTransaction (sample_funding h)) ledger_empty"

lemma sample_ledger_simps:
  "l_utxo (sample_ledger h) =
     [((withdraw_id sample_ext (sample_funding h), 0), \<lparr> out_address = OrTree h, out_value = Coin 5, out_valid_from = None \<rparr>)]"
  "ledger_accepts sample_index ledger_empty (WithdrawUnbondedStakeTransaction (sample_funding h))"
  by (simp_all add: sample_ledger_def sample_funding_def ledger_accepts_def ledger_next_def ledger_empty_def storable_def
      transaction_id_def spent_by_def created_by_def withdraw_tx_new_def amount_def outs_wf_def coin_wf_def MAX_COIN_def)

lemma sample_client_run:
  "\<exists>w h. client_run sample_index sample_wallet_client w (sample_ledger h) \<and>
     wc_root_hashes sample_wallet_client [1] [7] (store w) = Ok [h] \<and>
     (\<forall>txid out. out_address out = OrTree h \<longrightarrow>
        (\<exists>wit. sign_with_output sample_client memory_storage [1] [7] txid out (store w) = Ok wit)) \<and>
     (\<exists>k w'. wc_new_multisig_transfer_address sample_wallet_client [1] [7] [k] k 1 1 w = (w', Ok (OrTree h)))"
proof -
  note L = sample_client_laws
  obtain w1 vk where w1: "wc_new_wallet sample_wallet_client [1] [7] fresh_world = (w1, Ok ())"
    "memory.wallet_at sample_client [1] [7] (wallet_new vk) (store w1)" "memory.addresses_open sample_client [7] (store w1)"
    "memory_view (store w1) KEY_KEYSPACE (public_key_serialize sample_client (sk_new sample_client (tick w1))) = None"
    using sample_new_wallet by blast
  let ?k = "sk_new sample_client (tick w1)"
  have k: "?k = public_of_private sample_client ?k" by simp
  obtain w2 h a where w2: "wc_new_transfer_address sample_wallet_client [1] [7] w1 = (w2, Ok (OrTree h))"
    "memory.wallet_at sample_client [1] [7] ((wallet_new vk)\<lparr> wallet_public_keys := wallet_public_keys (wallet_new vk) @ [?k],
       wallet_root_hashes := wallet_root_hashes (wallet_new vk) @ [h] \<rparr>) (store w2)"
    "memory.address_at sample_client h [7] a (store w2)" "address_ok sample_client [?k] h a" "msa_m a = 1"
    "msa_self_public_key a = ?k" "memory.key_at sample_client ?k [7] ?k (store w2)"
    "memory.addresses_open sample_client [7] (store w2)"
    using memory.new_transfer_address_at [OF L(1,2) sample_wallet_client_simps(1,2) w1(2,3) k w1(4)] by blast
  have run2: "client_run sample_index sample_wallet_client w2 ledger_empty"
    using run_wallet [OF run_wallet [OF run_fresh wallet_step.intros(1) [OF w1(1)]] wallet_step.intros(4) [OF w2(1)]] .
  have at: "memory.index_at sample_index ledger_empty (store w2)"
    using client_run_keeps [OF sample_index_laws sample_wallet_client_simps(4) run2] by blast
  obtain w3 where w3: "transaction_on_next sample_index memory_storage (WithdrawUnbondedStakeTransaction (sample_funding h)) 1 0 w2 = (w3, Ok ())"
    "memory.index_at sample_index (sample_ledger h) (store w3)"
    "\<forall>ks. ks \<noteq> ADDRESS_KEYSPACE \<and> ks \<noteq> TRANSACTION_KEYSPACE \<longrightarrow> memory_view (store w3) ks = memory_view (store w2) ks"
    using memory.index_next_frame [OF sample_index_laws at sample_ledger_simps(2), of h 1 0]
    unfolding sample_lib_simps sample_ledger_def [symmetric] by blast
  have run3: "client_run sample_index sample_wallet_client w3 (sample_ledger h)"
    using run_indexed [OF run2 sample_ledger_simps(2) w3(1)] by (simp add: sample_ledger_def)
  have v: "memory_view (store w3) ks = memory_view (store w2) ks" if "ks \<in> core_keyspaces" for ks
    using w3(3) that index_keyspaces_not_core by metis
  have h3: "\<not> poisoned (store w3)" using w3(2) by (simp add: memory.index_at_def memory.transactions_at_def)
  let ?W = "(wallet_new vk)\<lparr> wallet_public_keys := [?k], wallet_root_hashes := [h] \<rparr>"
  have wallet: "memory.wallet_at sample_client [1] [7] ?W (store w3)" and addr: "memory.address_at sample_client h [7] a (store w3)"
    and key: "memory.key_at sample_client ?k [7] ?k (store w3)"
    using w2(2,3,7) h3
    by (simp_all add: memory.wallet_at_def memory.address_at_def memory.key_at_def v core_keyspaces_def wallet_new_def)
  have "wc_root_hashes sample_wallet_client [1] [7] (store w3) = Ok [h]"
    using memory.get_wallet_at [OF L(1) wallet] by (simp add: wc_root_hashes_def sample_wallet_client_simps ws_root_hashes_def)
  moreover have "\<exists>wit. sign_with_output sample_client memory_storage [1] [7] txid out (store w3) = Ok wit"
    if "out_address out = OrTree h" for txid out
  proof -
    have "message_from_slice (cl_ext sample_client) txid = Ok txid" by (simp add: sample_client_def sample_ext_def)
    then show ?thesis
      using memory.sign_with_output_valid [OF L(1-3) wallet _ that addr w2(4,5)] key w2(6) by fastforce
  qed
  moreover have "memory.addresses_open sample_client [7] (store w3)"
    using w2(2,8) h3 v by (simp add: memory.addresses_open_def memory.get_secure_view memory.wallet_at_def core_keyspaces_def)
  then have "\<exists>w'. wc_new_multisig_transfer_address sample_wallet_client [1] [7] [?k] ?k 1 1 w3 = (w', Ok (OrTree h))"
    by (intro memory.same_address_again [OF L(1,2) sample_wallet_client_simps(1,2) wallet _ w2(4,5)]) simp_all
  ultimately show ?thesis using run3 by blast
qed

section \<open>Properties\<close>

text \<open>
  C16: what a wallet reports is the ledger.  From an empty in-memory storage on, after any interleaving of
  operations of the wallet client (failed ones included) with transactions of the chain handed to the
  index, a wallet whose addresses can be read and are distinct reports as its balance the sum of the unspent outputs to its addresses, without an error,
  and lists each of these outputs once.
\<close>

theorem wallet_reports_ledger:
  assumes "index_laws I" "client_of I node C memory_storage" "client_run I C w Led"
    and "wc_root_hashes C name p (store w) = Ok hs" "distinct hs"
  shows "\<exists>b unspent. wc_balance C name p (store w) = Ok b \<and> amount b = worth (wallet_outputs hs (l_utxo Led)) \<and>
    wc_unspent_transactions C name p (store w) = Ok unspent \<and> distinct (map fst unspent) \<and>
    set unspent = set (unspent_pairs (wallet_outputs hs (l_utxo Led)))"
proof -
  let ?u = "concat (map (\<lambda>h. unspent_pairs (owned (OrTree h) (l_utxo Led))) hs)"
  have us: "wc_unspent_transactions C name p (store w) = Ok ?u" using wallet_reports [OF assms(1-4)] by blast
  obtain bs where bs: "wc_balance C name p (store w) = with_context BalanceAdditionError (sum_coins bs)"
    "map amount bs = map (\<lambda>h. worth (owned (OrTree h) (l_utxo Led))) hs"
    using wallet_reports [OF assms(1-4)] by blast
  have wf: "ledger_wf Led" using client_run_keeps [OF assms(1-3)] by (simp add: memory.index_at_def)
  have tot: "sum_list (map amount bs) = worth (wallet_outputs hs (l_utxo Led))"
    unfolding bs(2) by (rule worth_addresses [OF assms(5)])
  moreover have "worth (wallet_outputs hs (l_utxo Led)) \<le> max_supply"
    using wf worth_filter [of _ "l_utxo Led"] unfolding wallet_outputs_def ledger_wf_def by (meson le_trans)
  ultimately obtain b where b: "sum_coins bs = Ok b" using sum_coins_ok_ex [of bs] by auto
  then have "amount b = worth (wallet_outputs hs (l_utxo Led))" using tot by (simp add: coin_simps)
  moreover have "wc_balance C name p (store w) = Ok b" using bs(1) b by (simp add: with_context_def)
  moreover have "distinct (map fst ?u)" using wf assms(5) by (intro distinct_unspent) (simp_all add: ledger_wf_def)
  moreover have "set ?u = set (unspent_pairs (wallet_outputs hs (l_utxo Led)))"
    using in_wallet_outputs by blast
  ultimately show ?thesis using us by blast
qed

theorem wallet_reports_ledger_witness:
  "\<exists>w h b. client_run sample_index sample_wallet_client w (sample_ledger h) \<and>
     wc_balance sample_wallet_client [1] [7] (store w) = Ok b \<and> amount b = 5"
proof -
  obtain w h where w: "client_run sample_index sample_wallet_client w (sample_ledger h)"
    "wc_root_hashes sample_wallet_client [1] [7] (store w) = Ok [h]"
    using sample_client_run by blast
  have "distinct [h]" by simp
  from wallet_reports_ledger [OF sample_index_laws sample_wallet_client_simps(4) w this]
  obtain b where "wc_balance sample_wallet_client [1] [7] (store w) = Ok b"
    "amount b = worth (wallet_outputs [h] (l_utxo (sample_ledger h)))" by blast
  then show ?thesis using w(1) by (auto simp: sample_ledger_simps wallet_outputs_def amount_def)
qed

text \<open>
  C15: the chain accepts what a wallet creates.  In any state that the client reaches from an empty in-memory storage, if
  \<open>create_transaction\<close> returns the envelope of a transfer for outputs that are not empty and not zero,
  then the signed transfer in it has these outputs, possibly with one more for the change; every input
  points to an output of a transaction the client was told about; and the validation of the chain accepts
  it together with these transactions, on the network of its attributes and under the minimal fee computed
  for the envelope, once the locks of the spent outputs are over.  The addresses of the wallet have to be distinct.
\<close>

theorem created_transaction_accepted:
  assumes "index_laws I" "schnorr_laws (il_client I)" "aead_authentic (cl_aead (il_client I))"
    and "client_of I node C memory_storage"
    and "wc_transaction_builder C = default_transaction_builder (il_client I) memory_storage encrypt fee_of"
    and "client_run I C w Led" "wc_root_hashes C name p (store w) = Ok hs" "distinct hs"
    and "wc_create_transaction C name p outputs attributes strategy return_address w = Some (w', Ok aux)"
    and "outputs \<noteq> []" "\<forall>x \<in> set outputs. 0 < amount (out_value x)"
  shows "\<exists>tx wit prevs. (\<exists>t. encrypt t (SignedTransfer tx wit) = Ok aux) \<and>
    (tx_outputs tx = outputs \<or> (\<exists>change. tx_outputs tx = outputs @ [tx_out_new return_address change])) \<and>
    map (spent_transaction Led) (tx_inputs tx) = map Some prevs \<and>
    (\<forall>info. ci_chain_hex_id info = attr_chain_hex_id attributes \<and> fee_of aux = Ok (min_fee_computed info) \<and>
       (\<forall>k out. bt_get (l_utxo Led) k = Some out \<and> pointer_of k \<in> set (tx_inputs tx) \<longrightarrow> unlocked info out) \<longrightarrow>
       (\<exists>fee. verify_transfer (il_ext I) tx wit info prevs = Ok (Ok fee)))"
proof -
  let ?B = "\<lparr> b_ext = il_ext I, b_sign = signer_sign (il_client I) memory_storage name p, b_encrypt = encrypt, b_fee = fee_of \<rparr>"
  have keeps: "memory.keystore_ok (il_client I) (store w)" "ledger_wf Led" "known_by_id (il_ext I) Led"
    using client_run_keeps [OF assms(1,4,6)] by (simp_all add: memory.index_at_def)
  have sound: "wallet_sound (il_client I) memory_storage p (store w)"
    using memory.keystore_sound [OF _ assms(2,3) keeps(1)] assms(1) by (simp add: index_laws_def)
  obtain u where u: "builder_build ?B outputs attributes u return_address w = Some (w', Ok aux)" "distinct (map fst u)"
    "\<And>x. x \<in> set u \<Longrightarrow> \<exists>k. fst x = pointer_of k \<and> bt_get (l_utxo Led) k = Some (snd x)"
    using create_builds [OF assms(1,4,5,6,7,8,9)] by blast
  have B: "b_sign ?B = signer_sign (il_client I) memory_storage name p" "b_ext ?B = il_ext I" "b_encrypt ?B = encrypt" "b_fee ?B = fee_of"
    by simp_all
  obtain tx wit where
    enc: "\<exists>t. encrypt t (SignedTransfer tx wit) = Ok aux" and
    ins: "tx_inputs tx = map fst (take (length (tx_inputs tx)) u)" and
    outs: "tx_outputs tx = outputs \<or> (\<exists>change. tx_outputs tx = outputs @ [tx_out_new return_address change])" and
    acc: "\<And>info prevs. \<lbrakk> ci_chain_hex_id info = attr_chain_hex_id attributes; fee_of aux = Ok (min_fee_computed info);
      list_all2 (held_by (il_ext I) info) (take (length (tx_inputs tx)) u) prevs \<rbrakk> \<Longrightarrow>
      \<exists>fee. verify_transfer (il_ext I) tx wit info prevs = Ok (Ok fee)"
    using default_signer.built_accepted [OF B(1,2) sound u(1) assms(10,11) u(2), unfolded B] by blast
  obtain prevs where prevs: "map (spent_transaction Led) (tx_inputs tx) = map Some prevs"
    "\<And>info. (\<And>k out. bt_get (l_utxo Led) k = Some out \<Longrightarrow> pointer_of k \<in> set (tx_inputs tx) \<Longrightarrow> unlocked info out) \<Longrightarrow>
       list_all2 (held_by (il_ext I) info) (take (length (tx_inputs tx)) u) prevs"
    using selected_held [OF keeps(2,3), of "take (length (tx_inputs tx)) u"] u(3) unfolding ins [symmetric]
    by (metis in_set_takeD)
  then show ?thesis using enc outs acc by (intro exI [of _ tx] exI [of _ wit] exI [of _ prevs]) blast
qed

text \<open>The wallet spends its output of 5: 3 for the payment and 2 for the fee.\<close>

lemma sample_coins:
  "coin_add (Coin 3) (Coin 0) = Ok (Coin 3)" "coin_add (Coin 3) (Coin 2) = Ok (Coin 5)"
  "coin_add coin_zero (Coin 5) = Ok (Coin 5)" "coin_add coin_zero (Coin 3) = Ok (Coin 3)"
  "coin_sub (Coin 5) (Coin 3) = Ok (Coin 2)" "coin_sub (Coin 5) (Coin 5) = Ok (Coin 0)"
  "Coin 3 \<le> Coin 5" "Coin 0 < Coin 2" "coin_zero = Coin 0"
  by (simp_all add: coin_simps amount_def coin_zero_def)

lemma sample_sum: "sum_coins (map out_value [tx_out_new (OrTree [2]) (Coin 3)]) = Ok (Coin 3)"
  by (simp add: coin_simps amount_def tx_out_new_def)

lemma sample_creates:
  assumes "client_run sample_index sample_wallet_client w (sample_ledger h)"
    and "wc_root_hashes sample_wallet_client [1] [7] (store w) = Ok [h]"
    and "\<And>txid out. out_address out = OrTree h \<Longrightarrow>
      \<exists>wit. sign_with_output sample_client memory_storage [1] [7] txid out (store w) = Ok wit"
  shows "\<exists>w' aux. wc_create_transaction sample_wallet_client [1] [7] [tx_out_new (OrTree [2]) (Coin 3)]
    \<lparr> attr_chain_hex_id = 0, allowed_view = [] \<rparr> None (OrTree h) w = Some (w', Ok aux)"
proof -
  let ?B = "\<lparr> b_ext = cl_ext sample_client, b_sign = signer_sign sample_client memory_storage [1] [7], b_encrypt = sample_encrypt,
    b_fee = (\<lambda>_. Ok (Fee (Coin 2))) \<rparr>"
  let ?out = "\<lparr> out_address = OrTree h, out_value = Coin 5, out_valid_from = None \<rparr>"
  let ?u = "[(pointer_of (withdraw_id sample_ext (sample_funding h), 0), ?out)]"
  let ?attrs = "\<lparr> attr_chain_hex_id = 0, allowed_view = [] \<rparr>"
  have us: "wc_unspent_transactions sample_wallet_client [1] [7] (store w) = Ok ?u"
    using wallet_reports [OF sample_index_laws sample_wallet_client_simps(4) assms(1,2)]
    by (simp add: sample_ledger_simps unspent_pairs_alt owned_def)
  have signs: "\<exists>wit. signer_sign sample_client memory_storage [1] [7] txid ?u s = Ok wit" if "s = store w" for txid s
    using assms(3) [of ?out txid] that by (auto simp: signer_sign_def)
  have round: "\<exists>w1 aux. build_round ?B [tx_out_new (OrTree [2]) (Coin 3)] ?attrs ?u (OrTree h) (Coin 3) fees w0 =
      (w1, Ok (aux, Coin 2)) \<and> store w1 = store w"
    if w0: "store w0 = store w" and fees: "fees \<in> {Coin 0, Coin 2}" for fees w0
  proof -
    obtain target d where d: "coin_add (Coin 3) fees = Ok target" "unspent_select ?u target = Ok (?u, d)"
      using fees sample_coins by (auto simp: unspent_select_def)
    obtain wit where "signer_sign sample_client memory_storage [1] [7]
        (tx_id (cl_ext sample_client) (build_transaction ?u [tx_out_new (OrTree [2]) (Coin 3)] ?attrs d (OrTree h))) ?u (store w0) = Ok wit"
      using signs [OF w0] by blast
    then show ?thesis using d w0 by (simp add: build_round_def act_bind.simps Let_def sample_encrypt_def)
  qed
  obtain w1 aux1 where w1: "build_round ?B [tx_out_new (OrTree [2]) (Coin 3)] ?attrs ?u (OrTree h) (Coin 3) (Coin 0) w =
      (w1, Ok (aux1, Coin 2))" "store w1 = store w" using round [of w "Coin 0"] by auto
  obtain w2 aux2 where w2: "build_round ?B [tx_out_new (OrTree [2]) (Coin 3)] ?attrs ?u (OrTree h) (Coin 3) (Coin 2) w1 =
      (w2, Ok (aux2, Coin 2))" using round [OF w1(2), of "Coin 2"] by auto
  have "build_loop ?B [tx_out_new (OrTree [2]) (Coin 3)] ?attrs ?u (OrTree h) (Coin 3) (Coin 2) w1 = Some (w2, Ok aux2)"
    by (subst build_loop.simps) (simp add: w2)
  then have "build_loop ?B [tx_out_new (OrTree [2]) (Coin 3)] ?attrs ?u (OrTree h) (Coin 3) (Coin 0) w = Some (w2, Ok aux2)"
    by (subst build_loop.simps) (simp add: w1(1) sample_coins)
  then have "builder_build ?B [tx_out_new (OrTree [2]) (Coin 3)] ?attrs ?u (OrTree h) w = Some (w2, Ok aux2)"
    unfolding builder_build_def sample_sum sample_coins(9) by simp
  then show ?thesis
    unfolding wc_create_transaction_def us sample_wallet_client_simps default_transaction_builder_def Let_def
    by (simp add: strategy_default_def strategy_operations_def apply_all_def apply_operation_def sorter_sort_def)
qed

theorem created_transaction_accepted_witness:
  "\<exists>w h w' aux tx wit prevs fee. client_run sample_index sample_wallet_client w (sample_ledger h) \<and>
     wc_create_transaction sample_wallet_client [1] [7] [tx_out_new (OrTree [2]) (Coin 3)]
       \<lparr> attr_chain_hex_id = 0, allowed_view = [] \<rparr> None (OrTree h) w = Some (w', Ok aux) \<and>
     map (spent_transaction (sample_ledger h)) (tx_inputs tx) = map Some prevs \<and>
     verify_transfer sample_ext tx wit sample_info prevs = Ok (Ok fee)"
proof -
  obtain w h where w: "client_run sample_index sample_wallet_client w (sample_ledger h)"
    "wc_root_hashes sample_wallet_client [1] [7] (store w) = Ok [h]"
    "\<And>txid out. out_address out = OrTree h \<Longrightarrow>
      \<exists>wit. sign_with_output sample_client memory_storage [1] [7] txid out (store w) = Ok wit"
    using sample_client_run by blast
  obtain w' aux where c: "wc_create_transaction sample_wallet_client [1] [7] [tx_out_new (OrTree [2]) (Coin 3)]
      \<lparr> attr_chain_hex_id = 0, allowed_view = [] \<rparr> None (OrTree h) w = Some (w', Ok aux)"
    using sample_creates [OF w] by blast
  have il: "il_client sample_index = sample_client" by (simp add: sample_index_def)
  have d: "distinct [h]" by simp
  have b: "wc_transaction_builder sample_wallet_client =
      default_transaction_builder (il_client sample_index) memory_storage sample_encrypt (\<lambda>_. Ok (Fee (Coin 2)))"
    by (simp add: il sample_wallet_client_simps)
  have o: "[tx_out_new (OrTree [2]) (Coin 3)] \<noteq> []" "\<forall>x \<in> set [tx_out_new (OrTree [2]) (Coin 3)]. 0 < amount (out_value x)"
    by (simp_all add: tx_out_new_def amount_def)
  have laws: "schnorr_laws (il_client sample_index)" "aead_authentic (cl_aead (il_client sample_index))"
    unfolding il by (rule sample_client_laws)+
  obtain tx wit prevs where
    t: "map (spent_transaction (sample_ledger h)) (tx_inputs tx) = map Some prevs"
    "\<forall>info. ci_chain_hex_id info = attr_chain_hex_id \<lparr> attr_chain_hex_id = 0, allowed_view = [] \<rparr> \<and>
       Ok (Fee (Coin 2)) = (Ok (min_fee_computed info) :: CoinError + Fee) \<and>
       (\<forall>k out. bt_get (l_utxo (sample_ledger h)) k = Some out \<and> pointer_of k \<in> set (tx_inputs tx) \<longrightarrow> unlocked info out) \<longrightarrow>
       (\<exists>fee. verify_transfer sample_ext tx wit info prevs = Ok (Ok fee))"
    using created_transaction_accepted [OF sample_index_laws laws sample_wallet_client_simps(4) b w(1,2) d c o]
    unfolding sample_lib_simps by blast
  have "unlocked sample_info out" if "bt_get (l_utxo (sample_ledger h)) k = Some out" for k out
    using that by (auto simp: sample_ledger_simps unlocked_def bt_get_def split: if_splits)
  then have "\<exists>fee. verify_transfer sample_ext tx wit sample_info prevs = Ok (Ok fee)"
    by (intro t(2) [rule_format]) (auto simp: sample_info_def)
  then show ?thesis using w(1) c t(1) by blast
qed

text \<open>
  An address that is added again is counted again.  The wallet service does not look whether a root
  hash is there already: when \<open>new_multisig_transfer_address\<close> returns an address the wallet has, the
  balance afterwards is larger by everything this address holds, although nothing was received.
\<close>

theorem readded_address_counts_twice:
  assumes "index_laws I" "aead_authentic (cl_aead (il_client I))" "client_of I node C memory_storage"
    and "client_run I C w Led" "wc_root_hashes C name p (store w) = Ok hs" "distinct hs" "h \<in> set hs"
    and "wc_new_multisig_transfer_address C name p ks k m n w = (w', Ok (OrTree h))"
    and "worth (wallet_outputs hs (l_utxo Led)) + worth (owned (OrTree h) (l_utxo Led)) \<le> max_supply"
  shows "\<exists>b b'. wc_balance C name p (store w) = Ok b \<and> wc_balance C name p (store w') = Ok b' \<and>
    amount b' = amount b + worth (owned (OrTree h) (l_utxo Led))"
proof -
  have C: "wc_lib C = il_client I" "wc_storage C = memory_storage" using assms(3) by (simp_all add: client_of_def)
  have L: "client_laws (il_client I)" using assms(1) by (simp add: index_laws_def)
  have run': "client_run I C w' Led" by (rule run_wallet [OF assms(4) wallet_step.intros(5) [OF assms(8)]])
  have "memory.keystore_ok (il_client I) (store w)" using client_run_keeps [OF assms(1,3,4)] by blast
  from memory.new_multisig_address_added [OF L assms(2) C this assms(5,8)]
  have hs': "wc_root_hashes C name p (store w') = Ok (hs @ [h])" .
  obtain bs where bs: "wc_balance C name p (store w) = with_context BalanceAdditionError (sum_coins bs)"
    "map amount bs = map (\<lambda>h. worth (owned (OrTree h) (l_utxo Led))) hs"
    using wallet_reports [OF assms(1,3,4,5)] by blast
  obtain bs' where bs': "wc_balance C name p (store w') = with_context BalanceAdditionError (sum_coins bs')"
    "map amount bs' = map (\<lambda>h. worth (owned (OrTree h) (l_utxo Led))) (hs @ [h])"
    using wallet_reports [OF assms(1,3) run' hs'] by blast
  have t: "sum_list (map amount bs) = worth (wallet_outputs hs (l_utxo Led))"
    "sum_list (map amount bs') = worth (wallet_outputs hs (l_utxo Led)) + worth (owned (OrTree h) (l_utxo Led))"
    using worth_addresses [OF assms(6)] by (simp_all add: bs(2) bs'(2))
  then obtain b b' where b: "sum_coins bs = Ok b" "sum_coins bs' = Ok b'"
    using sum_coins_ok_ex [of bs] sum_coins_ok_ex [of bs'] assms(9) by auto
  then have "amount b' = amount b + worth (owned (OrTree h) (l_utxo Led))" using t by (simp add: coin_simps)
  then show ?thesis using bs(1) bs'(1) b by (simp add: with_context_def)
qed

theorem readded_address_counts_twice_witness:
  "\<exists>w h w' k b b'. client_run sample_index sample_wallet_client w (sample_ledger h) \<and>
     wc_new_multisig_transfer_address sample_wallet_client [1] [7] [k] k 1 1 w = (w', Ok (OrTree h)) \<and>
     wc_balance sample_wallet_client [1] [7] (store w) = Ok b \<and> wc_balance sample_wallet_client [1] [7] (store w') = Ok b' \<and>
     amount b' = amount b + 5"
proof -
  obtain w h k w' where w: "client_run sample_index sample_wallet_client w (sample_ledger h)"
    "wc_root_hashes sample_wallet_client [1] [7] (store w) = Ok [h]"
    "wc_new_multisig_transfer_address sample_wallet_client [1] [7] [k] k 1 1 w = (w', Ok (OrTree h))"
    using sample_client_run by blast
  have a: "aead_authentic (cl_aead (il_client sample_index))" using sample_client_laws(4) by (simp add: sample_index_def)
  have d: "distinct [h]" "h \<in> set [h]" by simp_all
  have v: "worth (owned (OrTree h) (l_utxo (sample_ledger h))) = 5" "worth (wallet_outputs [h] (l_utxo (sample_ledger h))) = 5"
    by (simp_all add: sample_ledger_simps owned_def wallet_outputs_def amount_def)
  have "worth (wallet_outputs [h] (l_utxo (sample_ledger h))) + worth (owned (OrTree h) (l_utxo (sample_ledger h))) \<le> max_supply"
    unfolding v by simp
  from readded_address_counts_twice [OF sample_index_laws a sample_wallet_client_simps(4) w(1,2) d w(3) this]
  show ?thesis using w(1,3) unfolding v by blast
qed

end
