(* ===== verification/Network_Ops.thy ===== *)
theory Network_Ops
  imports Wallet_Run
begin

text \<open>
  The network operations of the client, \<open>client-network/src/network_ops/default_network_ops_client.rs\<close>:
  transactions on staked state, made from a wallet and from what the node answers about the account.  The
  theory shows that the withdrawal of all unbonded stake is what the chain accepts.
\<close>

section \<open>The client\<close>

text \<open>
  \<open>DefaultNetworkOpsClient\<close>: a wallet client, a signer, a connection to a node, a fee algorithm and the
  obfuscation of transactions, with the decoding of the answers of the node.
\<close>

record ('s, 'm, 'bl) NetworkOps =
  no_wallet_client :: "('s, 'm) WalletClient"
  no_signer :: "str \<Rightarrow> bytes \<Rightarrow> bytes \<Rightarrow> Unspent \<Rightarrow> 's \<Rightarrow> TxWitness outcome"
  no_client :: TmClient
  no_fee_algorithm :: "TxAux \<Rightarrow> CoinError + Fee"
  no_transaction_cipher :: "nat \<Rightarrow> SignedTransaction \<Rightarrow> TxAux outcome"
  no_tm :: "'bl TmLib"
  no_staked_state :: "StakedState codec"

abbreviation no_lib :: "('s, 'm, 'bl) NetworkOps \<Rightarrow> ClientLib" where
  "no_lib N \<equiv> wc_lib (no_wallet_client N)"

definition no_get_account :: "('s, 'm, 'bl) NetworkOps \<Rightarrow> bytes \<Rightarrow> ('s, StakedState) action" where
  "no_get_account N staked_state_address =
     act_bind (act_ask (tm_query (no_client N) ''account'' staked_state_address)) (\<lambda>result.
     act_bind (act_pure (query_bytes (no_tm N) result)) (\<lambda>bytes.
     act_pure (decode_all (no_staked_state N) bytes)))"

definition no_get_staked_state_account :: "('s, 'm, 'bl) NetworkOps \<Rightarrow> StakedStateAddress \<Rightarrow> ('s, StakedState) action" where
  "no_get_staked_state_account N to_staked_account =
     (case to_staked_account of BasicRedeem a \<Rightarrow> no_get_account N (redeem_raw a))"

definition no_get_staked_state ::
    "('s, 'm, 'bl) NetworkOps \<Rightarrow> str \<Rightarrow> bytes \<Rightarrow> StakedStateAddress \<Rightarrow> ('s, StakedState) action" where
  "no_get_staked_state N name passphrase addr = (case addr of BasicRedeem redeem_address \<Rightarrow>
     act_bind (act_read (wc_find_public_key (no_wallet_client N) name passphrase redeem_address)) (\<lambda>_.
     no_get_staked_state_account N addr))"

definition no_create_deposit_bonded_stake_transaction ::
    "('s, 'm, 'bl) NetworkOps \<Rightarrow> str \<Rightarrow> bytes \<Rightarrow> TxoPointer list \<Rightarrow> StakedStateAddress \<Rightarrow> StakedStateOpAttributes \<Rightarrow>
       ('s, TxAux) action" where
  "no_create_deposit_bonded_stake_transaction N name passphrase inputs to_address attributes =
     (let transaction = deposit_bond_tx_new inputs to_address attributes
      in act_bind (act_read (\<lambda>s. collect_result (\<lambda>txo_pointer.
           try_bind (wc_output (no_wallet_client N) txo_pointer s) (\<lambda>out. Ok (txo_pointer, out))) inputs)) (\<lambda>transactions.
         act_bind (act_read (no_signer N name passphrase (deposit_id (cl_ext (no_lib N)) transaction) (select_all transactions))) (\<lambda>witness.
         act_ask (\<lambda>t. no_transaction_cipher N t (SignedDeposit transaction witness)))))"

text \<open>
  The key of a staking address and a signature with it, which unbonding and withdrawing compute alike.
\<close>

definition no_sign_staked ::
    "('s, 'm, 'bl) NetworkOps \<Rightarrow> str \<Rightarrow> bytes \<Rightarrow> StakedStateAddress \<Rightarrow> TxId \<Rightarrow> ('s, StakedStateOpWitness) action" where
  "no_sign_staked N name passphrase addr txid = (case addr of BasicRedeem redeem_address \<Rightarrow>
     act_bind (act_read (wc_find_public_key (no_wallet_client N) name passphrase redeem_address)) (\<lambda>found.
     act_bind (act_pure (or_kind AddressNotFound found)) (\<lambda>public_key.
     act_bind (act_read (wc_private_key (no_wallet_client N) passphrase public_key)) (\<lambda>found.
     act_bind (act_pure (or_kind PrivateKeyNotFound found)) (\<lambda>private_key.
     act_bind (act_pure (private_key_sign (no_lib N) private_key txid)) (\<lambda>signature.
     act_pure (Ok (BasicRedeemWitness signature))))))))"

definition no_create_unbond_stake_transaction ::
    "('s, 'm, 'bl) NetworkOps \<Rightarrow> str \<Rightarrow> bytes \<Rightarrow> StakedStateAddress \<Rightarrow> Coin \<Rightarrow> StakedStateOpAttributes \<Rightarrow> ('s, TxAux) action" where
  "no_create_unbond_stake_transaction N name passphrase addr value attributes =
     act_bind (no_get_staked_state N name passphrase addr) (\<lambda>staked_state.
     let transaction = unbond_tx_new value (nonce staked_state) attributes
     in act_bind (no_sign_staked N name passphrase addr (unbond_id (cl_ext (no_lib N)) transaction)) (\<lambda>signature.
        act_pure (Ok (UnbondStakeTx transaction signature))))"

definition no_create_withdraw_unbonded_stake_transaction ::
    "('s, 'm, 'bl) NetworkOps \<Rightarrow> str \<Rightarrow> bytes \<Rightarrow> StakedStateAddress \<Rightarrow> TxOut list \<Rightarrow> TxAttributes \<Rightarrow> ('s, TxAux) action" where
  "no_create_withdraw_unbonded_stake_transaction N name passphrase from_address outputs attributes =
     act_bind (no_get_staked_state N name passphrase from_address) (\<lambda>staked_state.
     let transaction = withdraw_tx_new (nonce staked_state) outputs attributes
     in act_bind (no_sign_staked N name passphrase from_address (withdraw_id (cl_ext (no_lib N)) transaction)) (\<lambda>signature.
        act_ask (\<lambda>t. no_transaction_cipher N t (SignedWithdraw transaction staked_state signature))))"

definition no_create_withdraw_all_unbonded_stake_transaction ::
    "('s, 'm, 'bl) NetworkOps \<Rightarrow> str \<Rightarrow> bytes \<Rightarrow> StakedStateAddress \<Rightarrow> ExtendedAddr \<Rightarrow> TxAttributes \<Rightarrow> ('s, TxAux) action" where
  "no_create_withdraw_all_unbonded_stake_transaction N name passphrase from_address to_address attributes =
     act_bind (no_get_staked_state N name passphrase from_address) (\<lambda>staked_state.
     let temp_output = tx_out_new_with_timelock to_address coin_zero (unbonded_from staked_state)
     in act_bind (no_create_withdraw_unbonded_stake_transaction N name passphrase from_address [temp_output] attributes) (\<lambda>temp_transaction.
        act_bind (act_pure (with_context BalanceAdditionError (no_fee_algorithm N temp_transaction))) (\<lambda>fee.
        act_bind (act_pure (with_context BalanceAdditionError (coin_sub (unbonded staked_state) (to_coin fee)))) (\<lambda>am.
        no_create_withdraw_unbonded_stake_transaction N name passphrase from_address
          [tx_out_new_with_timelock to_address am (unbonded_from staked_state)] attributes))))"

section \<open>Signatures of staking addresses\<close>

text \<open>What the library documents of recoverable signatures.\<close>

definition recoverable_laws :: "ClientLib \<Rightarrow> bool" where
  "recoverable_laws L \<longleftrightarrow> (\<forall>m sk.
     secp_recover (cl_ext L) m (sign_recoverable L m sk) = Ok (public_of_private L sk) \<and>
     secp_verify (cl_ext L) m (to_standard (cl_ext L) (sign_recoverable L m sk)) (public_of_private L sk) = Ok ())"

lemma no_sign_staked_valid:
  assumes "recoverable_laws (no_lib N)" "wallet_sound (no_lib N) (wc_storage (no_wallet_client N)) p (store w)"
    and "no_sign_staked N name p addr txid w = (w', Ok wit)"
  shows "verify_tx_recover_address (cl_ext (no_lib N)) wit txid = Ok addr \<and> w' = w"
proof -
  obtain r where r: "addr = BasicRedeem r" by (cases addr)
  obtain pk sk sig where pk: "wc_find_public_key (no_wallet_client N) name p r (store w) = Ok (Some pk)"
    and sk: "wc_private_key (no_wallet_client N) p pk (store w) = Ok (Some sk)"
    and sig: "private_key_sign (no_lib N) sk txid = Ok sig" "wit = BasicRedeemWitness sig" and w': "w' = w"
    using assms(3) by (auto simp: no_sign_staked_def r result_simps)
  have "redeem_of_public_key (no_lib N) pk = r"
    using pk by (auto simp: wc_find_public_key_def ws_find_public_key_def result_simps find_Some_iff)
  moreover have "public_of_private (no_lib N) sk = pk"
    using sk assms(2) by (simp add: wc_private_key_def wallet_sound_def)
  moreover obtain m where m: "message_from_slice (cl_ext (no_lib N)) txid = Ok m" "sig = sign_recoverable (no_lib N) m sk"
    using sig(1) by (auto simp: private_key_sign_def result_simps)
  ultimately have "secp_recover (cl_ext (no_lib N)) m sig = Ok pk" "secp_verify (cl_ext (no_lib N)) m (to_standard (cl_ext (no_lib N)) sig) pk = Ok ()"
    "redeem_from_pk (keccak256 (cl_ext (no_lib N))) (serialize_uncompressed (cl_ext (no_lib N))) pk = r"
    using assms(1) by (auto simp: recoverable_laws_def redeem_of_public_key_def)
  then show ?thesis using m(1) sig(2) w' r by (simp add: verify_tx_recover_address_def)
qed

section \<open>Withdrawals\<close>

text \<open>The node answers queries for an account with its encoding, as long as the account does not change.\<close>

definition answers_account :: "('s, 'm, 'bl) NetworkOps \<Rightarrow> StakedStateAddress \<Rightarrow> StakedState \<Rightarrow> bool" where
  "answers_account N addr account \<longleftrightarrow> (case addr of BasicRedeem a \<Rightarrow> \<forall>t. \<exists>q.
     tm_query (no_client N) ''account'' (redeem_raw a) t = Ok q \<and>
     query_bytes (no_tm N) q = Ok (enc (no_staked_state N) account))"

lemma get_staked_state_answer:
  assumes "reads_back (no_staked_state N)" "answers_account N addr account"
    and "no_get_staked_state N name p addr w = (w', Ok a)"
  shows "a = account \<and> store w' = store w"
proof -
  obtain r where r: "addr = BasicRedeem r" by (cases addr)
  obtain q where "tm_query (no_client N) ''account'' (redeem_raw r) (tick w) = Ok q"
    "query_bytes (no_tm N) q = Ok (enc (no_staked_state N) account)"
    using assms(2) by (auto simp: answers_account_def r)
  then show ?thesis
    using assms(3) decode_all_enc [OF assms(1), of account]
    by (auto simp: no_get_staked_state_def no_get_staked_state_account_def no_get_account_def r result_simps)
qed

lemma withdraw_created:
  assumes "recoverable_laws (no_lib N)" "wallet_sound (no_lib N) (wc_storage (no_wallet_client N)) p (store w)"
    and "reads_back (no_staked_state N)" "answers_account N addr account"
    and "no_create_withdraw_unbonded_stake_transaction N name p addr outs attrs w = (w', Ok aux)"
  shows "\<exists>t wit. no_transaction_cipher N t (SignedWithdraw (withdraw_tx_new (nonce account) outs attrs) account wit) = Ok aux \<and>
    verify_tx_recover_address (cl_ext (no_lib N)) wit (withdraw_id (cl_ext (no_lib N)) (withdraw_tx_new (nonce account) outs attrs)) =
      Ok addr \<and> store w' = store w"
proof -
  obtain w1 a w2 wit where s: "no_get_staked_state N name p addr w = (w1, Ok a)"
    "no_sign_staked N name p addr (withdraw_id (cl_ext (no_lib N)) (withdraw_tx_new (nonce a) outs attrs)) w1 = (w2, Ok wit)"
    "no_transaction_cipher N (tick w2) (SignedWithdraw (withdraw_tx_new (nonce a) outs attrs) a wit) = Ok aux" "store w' = store w2"
    using assms(5) by (auto simp: no_create_withdraw_unbonded_stake_transaction_def result_simps Let_def)
  have a: "a = account" "store w1 = store w" using get_staked_state_answer [OF assms(3,4) s(1)] by simp_all
  have "wallet_sound (no_lib N) (wc_storage (no_wallet_client N)) p (store w1)" using assms(2) a(2) by simp
  from no_sign_staked_valid [OF assms(1) this s(2)] show ?thesis using s(3,4) a by auto
qed

section \<open>A concrete client\<close>

lemma recoverable_sample: "recoverable_laws sample_client"
  by (simp add: recoverable_laws_def sample_client_def sample_ext_def sample_request_lib_def public_of_private_def)

definition sample_state_codec :: "StakedState codec" where
  "sample_state_codec = map_codec
     (\<lambda>s. (nonce s, coin_u64 (bonded s), coin_u64 (unbonded s), unbonded_from s,
        case address s of BasicRedeem r \<Rightarrow> redeem_raw r))
     (\<lambda>(n, b, u, f, a). staked_state_new n (Coin b) (Coin u) f (BasicRedeem (RedeemAddress a)))
     (pair_codec word_codec (pair_codec word_codec (pair_codec word_codec (pair_codec word_codec bytes_codec))))"

lemma sample_state_codec_ok: "reads_back sample_state_codec"
  unfolding sample_state_codec_def
  by (intro map_codec_ok codec_oks) (simp add: staked_state_new_def split: StakedStateAddress.splits)

text \<open>A node that knows one account.\<close>

definition sample_ops :: "(MemoryStorage, bytes, bool) NetworkOps" where
  "sample_ops = \<lparr> no_wallet_client = sample_wallet_client,
     no_signer = signer_sign sample_client memory_storage,
     no_client = sample_offline\<lparr> tm_query := (\<lambda>_ _ _. Ok \<lparr> response_value = ''a'' \<rparr>) \<rparr>,
     no_fee_algorithm = (\<lambda>_. Ok (Fee (Coin 2))),
     no_transaction_cipher = (\<lambda>_ signed_tx. case signed_tx of
        SignedWithdraw tx _ wit \<Rightarrow> Ok (WithdrawUnbondedStakeTx (withdraw_id sample_ext tx) (of_nat (length (wdr_outputs tx))) wit
          \<lparr> obf_key_from = 0, obf_nonce = [], txpayload = [] \<rparr>)
      | _ \<Rightarrow> Err (Failed RpcError)),
     no_tm = \<lparr> base64_decode = (\<lambda>_. Some (enc sample_state_codec sample_account)), tm_bloom = sample_bloom,
        c_decrypted = undefined \<rparr>,
     no_staked_state = sample_state_codec \<rparr>"

lemma sample_staker_run:
  "\<exists>w k. client_run sample_index sample_wallet_client w ledger_empty \<and>
     (\<forall>v. store v = store w \<longrightarrow>
        no_get_staked_state sample_ops [1] [7] (BasicRedeem (redeem_of_public_key sample_client k)) v =
          (v\<lparr> tick := Suc (tick v) \<rparr>, Ok sample_account) \<and>
        (\<forall>txid. \<exists>wit. no_sign_staked sample_ops [1] [7] (BasicRedeem (redeem_of_public_key sample_client k)) txid v = (v, Ok wit)))"
proof -
  note L = sample_client_laws
  obtain w1 vk where w1: "wc_new_wallet sample_wallet_client [1] [7] fresh_world = (w1, Ok ())"
    "memory.wallet_at sample_client [1] [7] (wallet_new vk) (store w1)" "memory.addresses_open sample_client [7] (store w1)"
    "memory_view (store w1) KEY_KEYSPACE (public_key_serialize sample_client (sk_new sample_client (tick w1))) = None"
    using sample_new_wallet by blast
  let ?k = "sk_new sample_client (tick w1)"
  have k: "?k = public_of_private sample_client ?k" by simp
  obtain w2 where w2: "wc_new_public_key sample_wallet_client [1] [7] w1 = (w2, Ok ?k)"
    "memory.wallet_at sample_client [1] [7] ((wallet_new vk)\<lparr> wallet_public_keys := wallet_public_keys (wallet_new vk) @ [?k] \<rparr>) (store w2)"
    "memory.key_at sample_client ?k [7] ?k (store w2)"
    using memory.new_public_key_at [OF L(1) sample_wallet_client_simps(1,2) w1(2,3) k w1(4)] by blast
  have run: "client_run sample_index sample_wallet_client w2 ledger_empty"
    using run_wallet [OF run_wallet [OF run_fresh wallet_step.intros(1) [OF w1(1)]] wallet_step.intros(2) [OF w2(1)]] .
  let ?r = "redeem_of_public_key sample_client ?k"
  have pk: "wc_find_public_key sample_wallet_client [1] [7] ?r (store w2) = Ok (Some ?k)"
    using memory.get_wallet_at [OF L(1) w2(2)]
    by (simp add: wc_find_public_key_def sample_wallet_client_simps ws_find_public_key_def ws_public_keys_def wallet_new_def)
  have sk: "wc_private_key sample_wallet_client [7] ?k (store w2) = Ok (Some ?k)"
    using memory.private_key_at [OF L(1) w2(3)] by (simp add: wc_private_key_def sample_wallet_client_simps)
  have W: "no_wallet_client sample_ops = sample_wallet_client" by (simp add: sample_ops_def)
  have sign: "\<exists>sig. private_key_sign sample_client ?k txid = Ok sig" for txid
    by (simp add: private_key_sign_def sample_client_def sample_ext_def)
  have q: "query_bytes (no_tm sample_ops) \<lparr> response_value = ''a'' \<rparr> = Ok (enc sample_state_codec sample_account)"
    by (simp add: query_bytes_def sample_ops_def or_kind_def)
  have "no_get_staked_state sample_ops [1] [7] (BasicRedeem ?r) v = (v\<lparr> tick := Suc (tick v) \<rparr>, Ok sample_account)"
    if "store v = store w2" for v
    using that pk q decode_all_enc [OF sample_state_codec_ok, of sample_account]
    by (simp add: no_get_staked_state_def W act_bind.simps no_get_staked_state_account_def no_get_account_def)
      (simp add: sample_ops_def act_ask_def)
  moreover have "\<exists>wit. no_sign_staked sample_ops [1] [7] (BasicRedeem ?r) txid v = (v, Ok wit)" if "store v = store w2" for v txid
    using that pk sk sign [of txid] by (auto simp: no_sign_staked_def W act_bind.simps or_kind_def sample_wallet_client_simps)
  ultimately show ?thesis using run by blast
qed

lemma sample_withdraw_all:
  assumes "\<And>v. store v = store w \<Longrightarrow> no_get_staked_state sample_ops [1] [7] addr v = (v\<lparr> tick := Suc (tick v) \<rparr>, Ok sample_account)"
    and "\<And>v txid. store v = store w \<Longrightarrow> \<exists>wit. no_sign_staked sample_ops [1] [7] addr txid v = (v, Ok wit)"
  shows "\<exists>w' aux. no_create_withdraw_all_unbonded_stake_transaction sample_ops [1] [7] addr (OrTree [2]) (tx_attributes_new 0) w = (w', Ok aux)"
proof -
  have one: "\<exists>v' aux. no_create_withdraw_unbonded_stake_transaction sample_ops [1] [7] addr outs attrs v = (v', Ok aux) \<and> store v' = store w"
    if v: "store v = store w" for v outs attrs
  proof -
    let ?tx = "withdraw_tx_new (nonce sample_account) outs attrs"
    have v1: "store (v\<lparr> tick := Suc (tick v) \<rparr>) = store w" using v by simp
    obtain wit where "no_sign_staked sample_ops [1] [7] addr (withdraw_id (cl_ext (no_lib sample_ops)) ?tx) (v\<lparr> tick := Suc (tick v) \<rparr>) =
        (v\<lparr> tick := Suc (tick v) \<rparr>, Ok wit)"
      using assms(2) [OF v1] by blast
    then show ?thesis
      using v
      by (simp add: no_create_withdraw_unbonded_stake_transaction_def act_bind.simps assms(1) [OF v] Let_def)
        (simp add: sample_ops_def act_ask_def)
  qed
  have s: "coin_sub (unbonded sample_account) (to_coin (Fee (Coin 2))) = Ok (Coin 18)"
    by (simp add: sample_account_def staked_state_new_def coin_sub_def checked_sub_u64_def coin_new_def MAX_COIN_def)
  have f: "no_fee_algorithm sample_ops aux = Ok (Fee (Coin 2))" for aux by (simp add: sample_ops_def)
  let ?w1 = "w\<lparr> tick := Suc (tick w) \<rparr>"
  obtain w2 aux2 where w2: "no_create_withdraw_unbonded_stake_transaction sample_ops [1] [7] addr
      [tx_out_new_with_timelock (OrTree [2]) coin_zero (unbonded_from sample_account)] (tx_attributes_new 0) ?w1 = (w2, Ok aux2)"
    "store w2 = store w" using one [of ?w1, simplified] by blast
  obtain w3 aux3 where w3: "no_create_withdraw_unbonded_stake_transaction sample_ops [1] [7] addr
      [tx_out_new_with_timelock (OrTree [2]) (Coin 18) (unbonded_from sample_account)] (tx_attributes_new 0) w2 = (w3, Ok aux3)"
    using one [OF w2(2)] by blast
  show ?thesis
    using w2(1) w3 s f
    by (simp add: no_create_withdraw_all_unbonded_stake_transaction_def act_bind.simps assms(1) [OF refl] Let_def)
qed

section \<open>Properties\<close>

text \<open>
  C17: withdrawing all unbonded stake.  Let the wallet be one the client reaches from an empty
  in-memory storage, and let the node answer with the account.  If the operation returns an envelope,
  then a trial withdrawal with an output of zero was made to compute the fee, and the envelope holds a
  withdrawal of everything else: it is signed by the key of the staking address, and the validation of
  the chain accepts it on the network of its attributes with exactly this fee, leaving nothing unbonded,
  as soon as the unbonding time is over, if the fee is at least the minimum the chain computes and less
  than the unbonded amount, which is within the supply.
\<close>

theorem withdraw_all_accepted:
  assumes "index_laws I" "schnorr_laws (il_client I)" "aead_authentic (cl_aead (il_client I))" "recoverable_laws (il_client I)"
    and "client_of I node (no_wallet_client N) memory_storage" "client_run I (no_wallet_client N) w Led"
    and "reads_back (no_staked_state N)" "answers_account N addr account"
    and "no_create_withdraw_all_unbonded_stake_transaction N name p addr to_address attributes w = (w', Ok aux)"
  shows "\<exists>trial fee t0 wit0 t wit tx. no_transaction_cipher N t0 (SignedWithdraw (withdraw_tx_new (nonce account)
        [tx_out_new_with_timelock to_address coin_zero (unbonded_from account)] attributes) account wit0) = Ok trial \<and>
    no_fee_algorithm N trial = Ok fee \<and> no_transaction_cipher N t (SignedWithdraw tx account wit) = Ok aux \<and>
    verify_tx_recover_address (il_ext I) wit (withdraw_id (il_ext I) tx) = Ok addr \<and>
    (\<forall>info. ci_chain_hex_id info = attr_chain_hex_id attributes \<and> sint (unbonded_from account) \<le> sint (previous_block_time info) \<and>
       min_fee info \<le> amount (to_coin fee) \<and> amount (to_coin fee) < amount (unbonded account) \<and> coin_wf (unbonded account) \<longrightarrow>
       verify_unbonded_withdraw tx info account =
         Ok (Ok (fee, Some (account\<lparr> nonce := nonce account + 1, unbonded := coin_zero \<rparr>))))"
proof -
  let ?out = "\<lambda>c. tx_out_new_with_timelock to_address c (unbonded_from account)"
  have C: "no_lib N = il_client I" "wc_storage (no_wallet_client N) = memory_storage" using assms(5) by (simp_all add: client_of_def)
  have "memory.keystore_ok (il_client I) (store w)" using client_run_keeps [OF assms(1,5,6)] by blast
  then have sound: "wallet_sound (no_lib N) (wc_storage (no_wallet_client N)) p (store w)"
    unfolding C using memory.keystore_sound [OF _ assms(2,3)] assms(1) by (simp add: index_laws_def)
  have rec: "recoverable_laws (no_lib N)" using assms(4) C by simp
  obtain w1 a w2 trial fee d where s: "no_get_staked_state N name p addr w = (w1, Ok a)"
    "no_create_withdraw_unbonded_stake_transaction N name p addr
       [tx_out_new_with_timelock to_address coin_zero (unbonded_from a)] attributes w1 = (w2, Ok trial)"
    "no_fee_algorithm N trial = Ok fee" "coin_sub (unbonded a) (to_coin fee) = Ok d"
    "no_create_withdraw_unbonded_stake_transaction N name p addr
       [tx_out_new_with_timelock to_address d (unbonded_from a)] attributes w2 = (w', Ok aux)"
    using assms(9) by (auto simp: no_create_withdraw_all_unbonded_stake_transaction_def result_simps Let_def)
  have a: "a = account" "store w1 = store w" using get_staked_state_answer [OF assms(7,8) s(1)] by simp_all
  have sound1: "wallet_sound (no_lib N) (wc_storage (no_wallet_client N)) p (store w1)" using sound a(2) by simp
  obtain t0 wit0 where t0: "no_transaction_cipher N t0 (SignedWithdraw (withdraw_tx_new (nonce account) [?out coin_zero] attributes) account wit0) = Ok trial"
    "store w2 = store w1"
    using withdraw_created [OF rec sound1 assms(7,8) s(2) [unfolded a(1)]] by blast
  have sound2: "wallet_sound (no_lib N) (wc_storage (no_wallet_client N)) p (store w2)" using sound1 t0(2) by simp
  let ?tx = "withdraw_tx_new (nonce account) [?out d] attributes"
  obtain t wit where t: "no_transaction_cipher N t (SignedWithdraw ?tx account wit) = Ok aux"
    "verify_tx_recover_address (il_ext I) wit (withdraw_id (il_ext I) ?tx) = Ok addr"
    using withdraw_created [OF rec sound2 assms(7,8) s(5) [unfolded a(1)]] unfolding C by blast
  have "verify_unbonded_withdraw ?tx info account = Ok (Ok (fee, Some (account\<lparr> nonce := nonce account + 1, unbonded := coin_zero \<rparr>)))"
    if "ci_chain_hex_id info = attr_chain_hex_id attributes" "sint (unbonded_from account) \<le> sint (previous_block_time info)"
      "min_fee info \<le> amount (to_coin fee)" "amount (to_coin fee) < amount (unbonded account)" "coin_wf (unbonded account)" for info
    using that s(4) a(1)
    by (auto simp: verify_unbonded_withdraw_Ok_iff verify_unbonded_withdraw_core_Ok_iff withdraw_def withdraw_tx_new_def
        tx_out_new_with_timelock_def coin_simps)
  then show ?thesis using t0(1) s(3) t by blast
qed

theorem withdraw_all_accepted_witness:
  "\<exists>w addr w' aux wit tx. client_run sample_index sample_wallet_client w ledger_empty \<and>
     no_create_withdraw_all_unbonded_stake_transaction sample_ops [1] [7] addr (OrTree [2]) (tx_attributes_new 0) w = (w', Ok aux) \<and>
     verify_tx_recover_address sample_ext wit (withdraw_id sample_ext tx) = Ok addr \<and>
     verify_unbonded_withdraw tx sample_info sample_account =
       Ok (Ok (Fee (Coin 2), Some (sample_account\<lparr> nonce := nonce sample_account + 1, unbonded := coin_zero \<rparr>)))"
proof -
  obtain w k where w: "client_run sample_index sample_wallet_client w ledger_empty"
    "\<And>v. store v = store w \<Longrightarrow> no_get_staked_state sample_ops [1] [7] (BasicRedeem (redeem_of_public_key sample_client k)) v =
       (v\<lparr> tick := Suc (tick v) \<rparr>, Ok sample_account)"
    "\<And>v txid. store v = store w \<Longrightarrow> \<exists>wit. no_sign_staked sample_ops [1] [7] (BasicRedeem (redeem_of_public_key sample_client k)) txid v = (v, Ok wit)"
    using sample_staker_run by blast
  let ?a = "BasicRedeem (redeem_of_public_key sample_client k)"
  obtain w' aux where run: "no_create_withdraw_all_unbonded_stake_transaction sample_ops [1] [7] ?a (OrTree [2]) (tx_attributes_new 0) w = (w', Ok aux)"
    using sample_withdraw_all [OF w(2,3)] by blast
  have laws: "schnorr_laws (il_client sample_index)" "aead_authentic (cl_aead (il_client sample_index))" "recoverable_laws (il_client sample_index)"
    using sample_client_laws recoverable_sample by (simp_all add: sample_index_def)
  have ops: "client_of sample_index sample_offline (no_wallet_client sample_ops) memory_storage"
    "client_run sample_index (no_wallet_client sample_ops) w ledger_empty"
    "reads_back (no_staked_state sample_ops)" "answers_account sample_ops ?a sample_account"
    using sample_wallet_client_simps(4) w(1) sample_state_codec_ok
    by (simp_all add: sample_ops_def answers_account_def query_bytes_def or_kind_def)
  from withdraw_all_accepted [OF sample_index_laws laws ops run] obtain fee wit tx where
    t: "verify_tx_recover_address (il_ext sample_index) wit (withdraw_id (il_ext sample_index) tx) = Ok ?a"
      "\<exists>trial. no_fee_algorithm sample_ops trial = Ok fee"
      "\<And>info. \<lbrakk> ci_chain_hex_id info = attr_chain_hex_id (tx_attributes_new 0); sint (unbonded_from sample_account) \<le> sint (previous_block_time info);
         min_fee info \<le> amount (to_coin fee); amount (to_coin fee) < amount (unbonded sample_account); coin_wf (unbonded sample_account) \<rbrakk> \<Longrightarrow>
       verify_unbonded_withdraw tx info sample_account =
         Ok (Ok (fee, Some (sample_account\<lparr> nonce := nonce sample_account + 1, unbonded := coin_zero \<rparr>)))"
    by blast
  have fee: "fee = Fee (Coin 2)" using t(2) by (simp add: sample_ops_def)
  have "verify_unbonded_withdraw tx sample_info sample_account =
      Ok (Ok (fee, Some (sample_account\<lparr> nonce := nonce sample_account + 1, unbonded := coin_zero \<rparr>)))"
    by (rule t(3)) (simp_all add: fee sample_info_def sample_account_def staked_state_new_def tx_attributes_new_def amount_def
        coin_wf_def MAX_COIN_def)
  with w(1) run t(1) fee show ?thesis by (auto simp: sample_lib_simps)
qed

end
