(* ===== verification/Spec2Isabelle.thy ===== *)
theory Spec2Isabelle
  imports Coin Fee Merkle_Tree Address Transactions Codec Ordered_Map Genesis Validation
    Enclave_Protocol Enclave_Bridge Tx_Enclave Enclave_Refinement Block_Filter Node_Storage
    Chain_App Chain_Handlers Sample_Node Chain_Proofs Chain_Accounts Chain_Storage
    Client_Storage Client_Keys Root_Hash Multi_Sig Client_Transactions Client_Builder Client_Index Client_Ledger
    Tendermint_Client Client_Sync Wallet_Client Wallet_Run Network_Ops
begin

text \<open>
  A verification library for the Crypto.com chain: the node, its transaction validation enclave and the
  client, as they are under \<open>src/\<close>.

  \<^bold>\<open>The program.\<close>  Tendermint orders transactions and calls an application (\<open>chain-abci\<close>) over ABCI.
  The application checks a transaction against the outputs and accounts it stores and asks an enclave to
  verify the confidential part; the enclave server (\<open>tx-validation\<close>) keeps the sealed transactions and
  decides with the pure functions of \<open>chain-tx-validation\<close>.  The data structures, amounts, fees, trees and
  codecs all of them share are \<open>chain-core\<close>.  The client (\<open>client-common\<close>, \<open>client-core\<close>, \<open>client-index\<close>,
  \<open>client-network\<close>) keeps keys and addresses in an encrypted storage, follows the chain block by block with
  the help of the filter each block publishes, indexes the transactions it may read, and builds and signs
  new ones.

  \<^bold>\<open>How code becomes definitions.\<close>  A structure is a record, an enum a datatype, a machine integer a word of
  its width.  A function that can fail returns \<open>Err\<close> or \<open>Ok\<close>; a panic is a value of its own, so that each
  \<open>unwrap\<close>, \<open>expect\<close>, index or overflow of the source is a branch.  A handler of the node is a function from
  the application state to a new state and an answer.  A client operation is an action on a \<open>World\<close>: the
  storage and a counter from which the parameters for random draws and answers of the network are taken.
  Code that is not under \<open>src/\<close> is a parameter: the hash functions and the curve (\<open>Ext\<close>, \<open>ClientLib\<close>), the
  SCALE codecs of library types (\<open>ScaleLib\<close>), sealing and the enclave runtime (\<open>SgxLib\<close>), the embedded
  database of the server (\<open>SledLib\<close>), the key-value store, the account trie and the bit vectors of the node
  (\<open>NodeLib\<close>), the Bloom filter (\<open>BloomLib\<close>), JSON, base64 and the connection to Tendermint (\<open>TmLib\<close>,
  \<open>TmClient\<close>), the cipher of the client storage (\<open>AeadLib\<close>).  What a theorem needs of them is a named
  hypothesis (\<open>scale_laws\<close>, \<open>sgx_laws\<close>, \<open>kv_laws\<close>, \<open>acc_laws\<close>, \<open>client_laws\<close>, \<dots>), and each of these
  holds for the concrete library on which the witnesses are evaluated.

  \<^bold>\<open>Shared base.\<close>
  \<^item> \<open>Prelude\<close>: machine integers, results, panics, folds of fallible functions.  \<open>Ordered_Map\<close>: \<open>BTreeMap\<close> as a
    sorted association list, with the locale \<open>kv_map\<close> for what its clients rely on.
  \<^item> \<open>Coin\<close> (\<open>init/coin.rs\<close>, \<open>state/tendermint.rs\<close>), \<open>Fee\<close> (\<open>tx/fee/mod.rs\<close>), \<open>Merkle_Tree\<close>
    (\<open>common/merkle_tree.rs\<close>), \<open>Address\<close> (\<open>init/network.rs\<close>, \<open>init/address.rs\<close>, \<open>tx/data/address.rs\<close>),
    \<open>Transactions\<close> (\<open>tx\<close>, \<open>state\<close>, \<open>lib.rs\<close>), \<open>Genesis\<close> (\<open>init/config.rs\<close>): every coin is within the supply,
    voting power is total and monotone, an estimated fee is the rounded-up linear fee, a tree has the values
    as leaves, its root and the application hash bind them, a valid genesis distributes the supply and its
    council nodes hold their stake.
  \<^item> \<open>Codec\<close> (the \<open>Encode\<close> and \<open>Decode\<close> implementations): which envelopes are read back, and that the size
    limits of nested decoders count the bytes that follow.

  \<^bold>\<open>Validation.\<close>
  \<^item> \<open>Validation\<close> (\<open>chain-tx-validation\<close>): acceptance of transfers and withdrawals characterised exactly, the
    flow of value in deposits and unbondings, which verifiers cannot panic, and a witness with a foreign key
    that is accepted.
  \<^item> \<open>Enclave_Protocol\<close> (\<open>enclave-protocol\<close>) and \<open>Enclave_Bridge\<close> (\<open>chain-abci/src/enclave_bridge\<close>): messages,
    and the interface of the node to a validator as the locale \<open>enclave_proxy\<close>, interpreted by the in-process
    client.  \<open>Tx_Enclave\<close> (\<open>tx-validation\<close>): every entry point of the enclave, the calls around it, the server.
    \<open>Enclave_Refinement\<close>: the server simulates the in-process client on envelopes that describe their payload;
    whatever it accepts, the pure verifiers accept; it satisfies \<open>enclave_proxy\<close>.

  \<^bold>\<open>The node.\<close>
  \<^item> \<open>Block_Filter\<close> (\<open>chain-tx-filter\<close>), \<open>Node_Storage\<close> (\<open>chain-abci/src/storage\<close>, the account and output
    helpers of \<open>app\<close>), \<open>Chain_App\<close> (\<open>app/app_init.rs\<close>: start, restart, InitChain), \<open>Chain_Handlers\<close>
    (\<open>app/mod.rs\<close>, \<open>validate_tx.rs\<close>, \<open>commit.rs\<close>, \<open>query.rs\<close>: CheckTx, BeginBlock, DeliverTx, EndBlock, Commit,
    Query, Info).  \<open>Sample_Node\<close> is a node in memory for the witnesses.
  \<^item> \<open>Chain_Proofs\<close>: the inductive runs \<open>node_run\<close> of Tendermint's calls in any order, the cases of each handler,
    and that no output is spent twice.  \<open>Chain_Accounts\<close>: the effect of DeliverTx, the invariant of the
    accounts with the nonce as a counter, no replay of unbondings, the end of a block.  \<open>Chain_Storage\<close>: a
    restart after a commit restores the node, a restart before the first accepted transaction fails its
    check, what proof queries answer, and the filter of a block has no false negatives.

  \<^bold>\<open>The client.\<close>
  \<^item> \<open>Client_Storage\<close> (the locale \<open>client_storage\<close> and its in-memory provider), \<open>Client_Keys\<close>, \<open>Root_Hash\<close>,
    \<open>Multi_Sig\<close>, \<open>Client_Transactions\<close>, \<open>Client_Builder\<close> (the locale \<open>transfer_signer\<close>, provided by the default
    signer): services of \<open>client-core\<close>.  Every combination of keys of an address has its proof, sessions give
    out one partial signature and keep the order of the rounds, selection takes the shortest prefix, the
    builder terminates.
  \<^item> \<open>Client_Index\<close> and \<open>Client_Ledger\<close> (\<open>client-index\<close>): the index refines a ledger of unspent outputs, and
    handling a transaction twice changes nothing.  \<open>Tendermint_Client\<close> and \<open>Client_Sync\<close>
    (\<open>client-common/src/tendermint\<close>, \<open>synchronizer.rs\<close>): synchronisation indexes the whole chain, whatever
    blocks it skips.
  \<^item> \<open>Wallet_Client\<close> and \<open>Wallet_Run\<close> (\<open>client-core/src/wallet\<close>): under any interleaving of wallet operations
    and indexed transactions a wallet reports the ledger, and the chain accepts what it creates.
    \<open>Network_Ops\<close> (\<open>client-network\<close>): operations on staked state; the chain accepts the withdrawal of
    everything.

  \<^bold>\<open>Termination and fuel.\<close>  No recursion of the node runs on fuel.  The loop of the transaction builder may not
  end a priori and is a \<open>partial_function\<close> with the value \<open>None\<close> for not returning; \<open>builder_terminates\<close>
  excludes that value.  Concrete decoders of trees for the witnesses take the length of the input as the
  bound of the depth, which each step of the recursion shortens.

  \<^bold>\<open>Idealisations.\<close>
  \<^item> The database of the node and its write buffer are one value: a read sees the buffered writes, as it does in
    the code.  A crash that loses the buffer is not modelled; the restart theorems start from a commit or
    from the initialisation, which write with a flush.
  \<^item> A coin of the model may hold any 64-bit number, one of the program only amounts within the supply
    (\<open>coin_bound_invariant\<close>).  \<open>Decode for Coin\<close> checks the bound, and the round trips of transactions are
    for amounts within it.  The laws of the codecs of whole states (accounts and chain information at the
    enclave boundary, the node state, the records of the client index) range over all values of the model
    type, those above the supply included, which the program never encodes.
  \<^item> The calls of the node come one at a time, those of the validation server one request after the other; the
    locks of the in-memory storage appear as its poisoned state.
  \<^item> \<open>next_account\<close>, \<open>account_step\<close>, \<open>seen_in\<close>, \<open>session_step\<close>, \<open>ledger_next\<close> and the like are specifications,
    not translations: they say what a theorem promises (for an account the nonce, the address and the validity
    of its amounts; the amounts themselves are the subject of \<open>Validation\<close>).

  \<^bold>\<open>Not modelled.\<close>  Argument parsing, logging, sockets, TLS and remote attestation (\<open>main.rs\<close> files, the query
  enclave of \<open>tx-query\<close>, \<open>enclave-u-common\<close>), the trie behind the accounts (a library; its adapter in
  \<open>storage/account\<close> only encodes its nodes), Display and JSON forms, the command line, the RPC server and
  the development tools.
\<close>

end
